(* ===== verification/Prelude.thy ===== *)
theory Prelude
  imports Complex_Main "HOL-Library.Word" "HOL-Library.Multiset"
begin

text \<open>
  What every component shares: JavaScript's strings and arrays as the source
  uses them, and the collections of simplification rules the component proofs
  draw on.

  A string is a \<open>string\<close>, a list of 8-bit \<open>char\<close>s, read as the code units
  U+0000 to U+00FF; \<open>\s\<close>, \<open>\w\<close>, \<open>\d\<close>, \<open>trim\<close> and \<open>toLowerCase\<close> are those of
  ECMAScript restricted to that range. A string that may be missing
  (\<open>string | undefined\<close>, \<open>string | null\<close>) is a \<open>string option\<close>, and \<open>truthy\<close> is
  JavaScript's test of it, which the empty string fails. An index that may be
  \<open>-1\<close> is a \<open>nat option\<close>. Numbers that the source divides are \<open>rat\<close>, exact where
  a double rounds; counters are \<open>nat\<close>.
\<close>

named_theorems js_simps \<open>equations of the JavaScript operations\<close>
named_theorems wf_intros \<open>well-formedness of what an operation returns\<close>
named_theorems pane_ids \<open>the panes an operation leaves in a tree or in the groups\<close>

section \<open>Optional values\<close>

fun truthy :: "string option \<Rightarrow> bool" where
  "truthy None = False"
| "truthy (Some s) = (s \<noteq> [])"

text \<open>\<open>a ?? b\<close> on values that may be missing.\<close>

fun or_else :: "'a option \<Rightarrow> 'a option \<Rightarrow> 'a option" where
  "or_else None b = b"
| "or_else (Some a) b = Some a"

fun or_default :: "'a option \<Rightarrow> 'a \<Rightarrow> 'a" where
  "or_default None d = d"
| "or_default (Some a) d = a"

lemma or_else_None [simp]: "or_else a None = a"
  by (cases a) auto

lemma or_else_eq_None [simp]: "or_else a b = None \<longleftrightarrow> a = None \<and> b = None"
  by (cases a) auto

lemma truthy_iff: "truthy a \<longleftrightarrow> (\<exists>s. a = Some s \<and> s \<noteq> [])"
  by (cases a) auto

section \<open>Arrays\<close>

text \<open>\<open>findIndex\<close> and \<open>indexOf\<close>, with \<open>None\<close> for \<open>-1\<close>.\<close>

fun find_index :: "('a \<Rightarrow> bool) \<Rightarrow> 'a list \<Rightarrow> nat option" where
  "find_index p [] = None"
| "find_index p (x # xs) = (if p x then Some 0 else map_option Suc (find_index p xs))"

abbreviation index_of :: "'a \<Rightarrow> 'a list \<Rightarrow> nat option" where
  "index_of x \<equiv> find_index (\<lambda>y. y = x)"

text \<open>\<open>xs.splice(at, 0, x)\<close>.\<close>

definition insert_at :: "nat \<Rightarrow> 'a \<Rightarrow> 'a list \<Rightarrow> 'a list" where
  "insert_at i x xs = take i xs @ x # drop i xs"

text \<open>\<open>xs[i]\<close> read by a caller that treats \<open>undefined\<close> as missing.\<close>

definition nth_opt :: "'a list \<Rightarrow> nat \<Rightarrow> 'a option" where
  "nth_opt xs i = (if i < length xs then Some (xs ! i) else None)"

text \<open>The members of a \<open>Set\<close> built from an array, in insertion order.\<close>

fun nub :: "'a list \<Rightarrow> 'a list" where
  "nub [] = []"
| "nub (x # xs) = x # filter (\<lambda>y. y \<noteq> x) (nub xs)"

lemma set_nub [simp]: "set (nub xs) = set xs"
  by (induction xs) auto

lemma distinct_nub [simp]: "distinct (nub xs)"
  by (induction xs) auto

lemma nub_id: "distinct xs \<Longrightarrow> nub xs = xs"
  by (induction xs) (auto intro: filter_True)

lemma find_index_None: "find_index p xs = None \<longleftrightarrow> (\<forall>x\<in>set xs. \<not> p x)"
  by (induction xs) auto

lemma find_index_Some:
  "find_index p xs = Some i \<Longrightarrow> i < length xs \<and> p (xs ! i) \<and> (\<forall>j<i. \<not> p (xs ! j))"
proof (induction xs arbitrary: i)
  case Nil
  then show ?case by simp
next
  case (Cons x xs)
  show ?case
  proof (cases "p x")
    case True
    with Cons.prems show ?thesis by simp
  next
    case False
    with Cons.prems obtain k where "find_index p xs = Some k" and "i = Suc k" by auto
    with False Cons.IH show ?thesis by (auto simp: less_Suc_eq_0_disj)
  qed
qed

lemma find_index_SomeD:
  assumes "find_index p xs = Some i"
  shows "i < length xs" and "p (xs ! i)"
  using find_index_Some [OF assms] by auto

lemma find_index_split:
  assumes "find_index p xs = Some i"
  obtains ys x zs where "xs = ys @ x # zs" and "length ys = i" and "p x" and "\<forall>y\<in>set ys. \<not> p y"
proof
  from find_index_Some [OF assms]
  have i: "i < length xs" and p: "p (xs ! i)" and before: "\<forall>j<i. \<not> p (xs ! j)" by auto
  show "xs = take i xs @ xs ! i # drop (Suc i) xs" using i by (rule id_take_nth_drop)
  show "length (take i xs) = i" using i by simp
  show "p (xs ! i)" by (rule p)
  show "\<forall>y\<in>set (take i xs). \<not> p y" using i before by (auto simp: in_set_conv_nth)
qed

lemma find_index_append_hit:
  "p x \<Longrightarrow> \<forall>y\<in>set ys. \<not> p y \<Longrightarrow> find_index p (ys @ x # zs) = Some (length ys)"
  by (induction ys) auto

lemma find_index_find: "find p xs = map_option (\<lambda>i. xs ! i) (find_index p xs)"
  by (induction xs) (auto simp: option.map_comp o_def)

lemma insert_at_length [simp]: "insert_at (length xs) x (xs @ ys) = xs @ x # ys"
  by (simp add: insert_at_def)

lemma set_insert_at [simp]: "set (insert_at i x xs) = insert x (set xs)"
  by (metis append_take_drop_id insert_at_def list.simps(15) set_append Un_insert_right)

lemma length_insert_at [simp]: "length (insert_at i x xs) = Suc (length xs)"
  by (simp add: insert_at_def)

lemma sum_list_insert_at: "sum_list (insert_at i (x::rat) xs) = x + sum_list xs"
proof -
  have "sum_list xs = sum_list (take i xs) + sum_list (drop i xs)"
    by (metis append_take_drop_id sum_list_append)
  then show ?thesis by (simp add: insert_at_def)
qed

lemma mset_insert_at [simp]: "mset (insert_at i x xs) = add_mset x (mset xs)"
proof -
  have "mset xs = mset (take i xs) + mset (drop i xs)"
    by (metis append_take_drop_id mset_append)
  then show ?thesis by (simp add: insert_at_def)
qed

lemma nth_opt_Some: "nth_opt xs i = Some x \<longleftrightarrow> i < length xs \<and> xs ! i = x"
  by (auto simp: nth_opt_def)

lemma nth_opt_in_set: "nth_opt xs i = Some x \<Longrightarrow> x \<in> set xs"
  by (auto simp: nth_opt_def split: if_splits)

lemma map_nth_upt [simp]: "map (\<lambda>i. xs ! i) [0..<length xs] = xs"
  by (rule map_nth)

lemma map_update_id: "i < length xs \<Longrightarrow> f x = f (xs ! i) \<Longrightarrow> map f (xs[i := x]) = map f xs"
  by (simp add: map_update list_update_same_conv)

lemma filter_concat_map: "filter p (concat (map f xs)) = concat (map (\<lambda>x. filter p (f x)) xs)"
  by (induction xs) auto

lemma concat_map_singleton [simp]: "concat (map (\<lambda>x. [f x]) xs) = map f xs"
  by (induction xs) auto

lemma set_update_split:
  "i < length xs \<Longrightarrow> xs[i := x] = take i xs @ x # drop (Suc i) xs"
  by (rule upd_conv_take_nth_drop)


lemma in_map_filter: "x \<in> set (List.map_filter f xs) \<longleftrightarrow> (\<exists>a\<in>set xs. f a = Some x)"
  by (induction xs) (auto simp: List.map_filter_def)

lemma map_filter_map: "List.map_filter f (map g xs) = List.map_filter (f \<circ> g) xs"
  by (induction xs) (auto simp: List.map_filter_def)

lemma distinct_concat_disjoint:
  assumes "distinct bs" and "\<And>b. b \<in> set bs \<Longrightarrow> distinct (f b)"
    and "\<And>b c x. b \<in> set bs \<Longrightarrow> c \<in> set bs \<Longrightarrow> x \<in> set (f b) \<Longrightarrow> x \<in> set (f c) \<Longrightarrow> b = c"
  shows "distinct (concat (map f bs))"
  using assms
proof (induction bs)
  case (Cons b bs)
  have "distinct (concat (map f bs))"
    by (rule Cons.IH) (use Cons.prems in \<open>auto\<close>)
  moreover have "set (f b) \<inter> set (concat (map f bs)) = {}"
  proof (rule ccontr)
    assume "set (f b) \<inter> set (concat (map f bs)) \<noteq> {}"
    then obtain x c where "x \<in> set (f b)" "c \<in> set bs" "x \<in> set (f c)" by auto
    then have "b = c" using Cons.prems(3) [of b c x] by simp
    with \<open>c \<in> set bs\<close> Cons.prems(1) show False by simp
  qed
  ultimately show ?case using Cons.prems(2) by simp
qed simp

end
