(* ===== verification/Js_String.thy ===== *)
theory Js_String
  imports Prelude
begin

text \<open>
  JavaScript's string operations on code units U+0000 to U+00FF: the character
  classes the source's regular expressions name, \<open>trim\<close>, \<open>toLowerCase\<close>,
  \<open>indexOf\<close>, \<open>split\<close>, \<open>join\<close> and the decimal numbers of identifiers such as
  \<open>group-12\<close>, with the facts the components use of them.
\<close>

section \<open>Character classes\<close>

abbreviation code :: "char \<Rightarrow> nat" where
  "code c \<equiv> of_char c"

text \<open>\<open>\s\<close>, and what \<open>trim\<close> removes: the ASCII white space and U+00A0.\<close>

definition is_space :: "char \<Rightarrow> bool" where
  "is_space c = (code c = 32 \<or> (9 \<le> code c \<and> code c \<le> 13) \<or> code c = 160)"

definition is_digit :: "char \<Rightarrow> bool" where
  "is_digit c = (48 \<le> code c \<and> code c \<le> 57)"

definition is_lower :: "char \<Rightarrow> bool" where
  "is_lower c = (97 \<le> code c \<and> code c \<le> 122)"

definition is_upper :: "char \<Rightarrow> bool" where
  "is_upper c = (65 \<le> code c \<and> code c \<le> 90)"

definition is_letter :: "char \<Rightarrow> bool" where
  "is_letter c = (is_lower c \<or> is_upper c)"

text \<open>\<open>\w\<close>.\<close>

definition is_word :: "char \<Rightarrow> bool" where
  "is_word c = (is_letter c \<or> is_digit c \<or> c = CHR ''_'')"

lemmas char_class_defs = is_space_def is_digit_def is_lower_def is_upper_def is_letter_def is_word_def

section \<open>Whole strings\<close>

definition trim_start :: "string \<Rightarrow> string" where
  "trim_start s = dropWhile is_space s"

definition trim_end :: "string \<Rightarrow> string" where
  "trim_end s = rev (dropWhile is_space (rev s))"

definition trim :: "string \<Rightarrow> string" where
  "trim s = trim_end (trim_start s)"

text \<open>\<open>toLowerCase\<close>: the Latin-1 capitals U+00C0 to U+00DE but U+00D7 fold as ASCII's do.\<close>

definition lower_char :: "char \<Rightarrow> char" where
  "lower_char c = (if is_upper c \<or> (192 \<le> code c \<and> code c \<le> 222 \<and> code c \<noteq> 215)
     then char_of (code c + 32) else c)"

definition to_lower :: "string \<Rightarrow> string" where
  "to_lower s = map lower_char s"

fun starts_with :: "string \<Rightarrow> string \<Rightarrow> bool" where
  "starts_with s [] = True"
| "starts_with [] (c # cs) = False"
| "starts_with (d # ds) (c # cs) = (d = c \<and> starts_with ds cs)"

definition ends_with :: "string \<Rightarrow> string \<Rightarrow> bool" where
  "ends_with s t = starts_with (rev s) (rev t)"

text \<open>\<open>s.includes(t)\<close>.\<close>

fun includes_str :: "string \<Rightarrow> string \<Rightarrow> bool" where
  "includes_str [] t = (t = [])"
| "includes_str (c # s) t = (starts_with (c # s) t \<or> includes_str s t)"

text \<open>\<open>lastIndexOf\<close> of one character, as the string after it and before it.\<close>

definition last_index :: "(char \<Rightarrow> bool) \<Rightarrow> string \<Rightarrow> nat option" where
  "last_index p s = map_option (\<lambda>i. length s - 1 - i) (find_index p (rev s))"

text \<open>What follows the last character satisfying \<open>p\<close>: all of \<open>s\<close> when none does.\<close>

definition after_last :: "(char \<Rightarrow> bool) \<Rightarrow> string \<Rightarrow> string" where
  "after_last p s = rev (takeWhile (\<lambda>c. \<not> p c) (rev s))"

text \<open>\<open>s.split(sep)\<close> for a separator of one character given by a predicate.\<close>

fun split_at :: "(char \<Rightarrow> bool) \<Rightarrow> string \<Rightarrow> string list" where
  "split_at p [] = [[]]"
| "split_at p (c # s) =
     (if p c then [] # split_at p s
      else (case split_at p s of [] \<Rightarrow> [[c]] | w # ws \<Rightarrow> (c # w) # ws))"

text \<open>\<open>s.split(/[...]+/).filter(Boolean)\<close>: the runs without separators.\<close>

definition words_by :: "(char \<Rightarrow> bool) \<Rightarrow> string \<Rightarrow> string list" where
  "words_by p s = filter (\<lambda>w. w \<noteq> []) (split_at p s)"

text \<open>\<open>parts.join(sep)\<close>.\<close>

fun join :: "string \<Rightarrow> string list \<Rightarrow> string" where
  "join sep [] = []"
| "join sep [w] = w"
| "join sep (w # v # ws) = w @ sep @ join sep (v # ws)"

text \<open>\<open>s.replace(/(..)+$/, "")\<close>: without the trailing run.\<close>

definition strip_trailing :: "(char \<Rightarrow> bool) \<Rightarrow> string \<Rightarrow> string" where
  "strip_trailing p s = rev (dropWhile p (rev s))"

section \<open>Decimal numbers\<close>

definition digit_char :: "nat \<Rightarrow> char" where
  "digit_char d = char_of (48 + d)"

fun show_nat :: "nat \<Rightarrow> string" where
  "show_nat n = (if n < 10 then [digit_char n] else show_nat (n div 10) @ [digit_char (n mod 10)])"

declare show_nat.simps [simp del]

definition padStart :: "nat \<Rightarrow> string \<Rightarrow> string" where
  "padStart n s = replicate (n - length s) CHR ''0'' @ s"

definition digit_value :: "char \<Rightarrow> nat" where
  "digit_value c = code c - 48"

definition read_nat :: "string \<Rightarrow> nat" where
  "read_nat s = foldl (\<lambda>a c. 10 * a + digit_value c) 0 s"

section \<open>Facts\<close>

lemma starts_with_iff: "starts_with s t \<longleftrightarrow> (\<exists>r. s = t @ r)"
  by (induction s t rule: starts_with.induct) auto

lemma starts_with_append [simp]: "starts_with (t @ r) t"
  by (auto simp: starts_with_iff)

lemma starts_with_refl [simp]: "starts_with s s"
  by (auto simp: starts_with_iff)

lemma split_at_nonempty [simp]: "split_at p s \<noteq> []"
  by (induction s) (auto split: list.splits)

lemma split_at_none: "\<forall>c\<in>set s. \<not> p c \<Longrightarrow> split_at p s = [s]"
  by (induction s) auto

lemma split_at_append:
  "p c \<Longrightarrow> \<forall>d\<in>set w. \<not> p d \<Longrightarrow> split_at p (w @ c # s) = w # split_at p s"
  by (induction w) auto

lemma split_at_join:
  assumes "ws \<noteq> []" and "\<forall>w\<in>set ws. \<forall>d\<in>set w. \<not> p d" and "p c"
  shows "split_at p (join [c] ws) = ws"
  using assms
proof (induction "[c]" ws rule: join.induct)
  case (3 w v ws)
  then show ?case by (simp add: split_at_append)
qed (auto simp: split_at_none)

lemma split_at_parts: "w \<in> set (split_at p s) \<Longrightarrow> d \<in> set w \<Longrightarrow> \<not> p d"
  by (induction s arbitrary: w) (fastforce split: if_splits list.splits)+

lemma after_last_clean: "c \<in> set (after_last p s) \<Longrightarrow> \<not> p c"
  by (auto simp: after_last_def dest: set_takeWhileD)

lemma dropWhile_hd: "dropWhile p s \<noteq> [] \<Longrightarrow> \<not> p (hd (dropWhile p s))"
  by (rule hd_dropWhile)

lemma trim_end_no_space: "trim_end s \<noteq> [] \<Longrightarrow> \<not> is_space (last (trim_end s))"
  by (simp add: trim_end_def last_rev hd_dropWhile)

lemma trim_start_idem [simp]: "trim_start (trim_start s) = trim_start s"
  by (simp add: trim_start_def)

lemma trim_end_prefix: "\<exists>r. s = trim_end s @ r"
proof -
  have "rev s = takeWhile is_space (rev s) @ dropWhile is_space (rev s)" by simp
  then have "s = rev (dropWhile is_space (rev s)) @ rev (takeWhile is_space (rev s))"
    by (metis rev_append rev_rev_ident)
  then show ?thesis by (auto simp: trim_end_def)
qed

lemma trim_start_trim [simp]: "trim_start (trim s) = trim s"
proof -
  obtain r where r: "trim_start s = trim s @ r"
    using trim_end_prefix [of "trim_start s"] by (auto simp: trim_def)
  show ?thesis
  proof (cases "trim s")
    case Nil
    then show ?thesis by (simp add: trim_start_def)
  next
    case (Cons c cs)
    with r have "trim_start s = c # cs @ r" by simp
    then have "\<not> is_space c"
      using dropWhile_hd [of is_space s] by (auto simp: trim_start_def)
    with Cons show ?thesis by (simp add: trim_start_def)
  qed
qed

lemma trim_end_idem [simp]: "trim_end (trim_end s) = trim_end s"
  by (simp add: trim_end_def)

lemma trim_idem [simp]: "trim (trim s) = trim s"
  by (metis trim_def trim_end_idem trim_start_trim)

lemma trim_Nil [simp]: "trim [] = []"
  by (simp add: trim_def trim_start_def trim_end_def)

lemma code_inject: "code c = code d \<longleftrightarrow> c = d"
  by simp

lemma code_digit_char: "d < 10 \<Longrightarrow> code (digit_char d) = 48 + d"
  by (simp add: digit_char_def)

lemma digit_value_char [simp]: "d < 10 \<Longrightarrow> digit_value (digit_char d) = d"
  by (simp add: digit_value_def code_digit_char)

lemma is_digit_char [simp]: "d < 10 \<Longrightarrow> is_digit (digit_char d)"
  by (simp add: is_digit_def code_digit_char)

lemma read_nat_snoc: "read_nat (s @ [c]) = 10 * read_nat s + digit_value c"
  by (simp add: read_nat_def)

lemma read_show_nat [simp]: "read_nat (show_nat n) = n"
proof (induction n rule: show_nat.induct)
  case (1 n)
  show ?case
  proof (cases "n < 10")
    case True
    then show ?thesis by (simp add: show_nat.simps [of n] read_nat_def)
  next
    case False
    with 1 show ?thesis by (simp add: show_nat.simps [of n] read_nat_snoc)
  qed
qed

lemma show_nat_inject [simp]: "show_nat m = show_nat n \<longleftrightarrow> m = n"
  by (metis read_show_nat)

lemma show_nat_digits: "c \<in> set (show_nat n) \<Longrightarrow> is_digit c"
proof (induction n rule: show_nat.induct)
  case (1 n)
  then show ?case
    by (cases "n < 10") (auto simp: show_nat.simps [of n])
qed

lemma show_nat_nonempty [simp]: "show_nat n \<noteq> []"
  by (simp add: show_nat.simps [of n])

lemma lower_char_idem [simp]: "lower_char (lower_char c) = lower_char c"
proof -
  have "code (char_of (code c + 32) :: char) = code c + 32" if "code c < 224"
    using that by simp
  then show ?thesis by (auto simp: lower_char_def is_upper_def)
qed

lemma to_lower_idem [simp]: "to_lower (to_lower s) = to_lower s"
  by (simp add: to_lower_def)

lemma length_to_lower [simp]: "length (to_lower s) = length s"
  by (simp add: to_lower_def)

end
