(* ===== verification/Tab_Types.thy ===== *)
theory Tab_Types
  imports Js_String
begin

text \<open>
  The data the workspace works on, from \<open>src/src/types/tab.ts\<close> and the types it
  imports: a tab, its connection and its remote file, a jump host, and which
  kinds of tab run a session. An optional property is an \<open>option\<close>, an object
  with properties a \<open>record\<close>, a union of string literals a \<open>datatype\<close>. Ids of a
  closed set kept elsewhere (\<open>DistroId\<close>, an icon) are strings.
\<close>

section \<open>Kinds\<close>

datatype TerminalShellType =
  ShAuto | ShCmd | ShPowershell | ShPwsh | ShWsl | ShGitBash | ShCustom

datatype ConnectionType = ConnTerminal | ConnSsh | ConnSerial

datatype TabType =
  TyTerminal | TySsh | TySerial | TySettings | TyTunnels | TyLogs | TyRemoteFileEditor

datatype ConnectionAuthMethod =
  AuthPassword | AuthKey | AuthAgent | AuthInteractive | AuthAuto

datatype SessionLogPolicy = LogAlways | LogNever

datatype SftpStartDirectory = StartHome | StartLast | StartTerminal

datatype ProxyChoice = ProxyDefault | ProxyDirect | ProxyServerId string

datatype SerialParity = ParityNone | ParityOdd | ParityEven

datatype SerialFlowControl = FlowNone | FlowSoftware | FlowHardware

datatype SerialLineEnding = LineCr | LineLf | LineCrlf

datatype SerialReceiveNewline = ReceiveNone | ReceiveCr | ReceiveLf

section \<open>Records\<close>

record SerialUsbId =
  usb_vid :: int
  usb_pid :: int
  usb_serialNumber :: "string option"

record SerialSettings =
  ser_port :: string
  ser_baudRate :: nat
  ser_dataBits :: nat
  ser_parity :: SerialParity
  ser_stopBits :: nat
  ser_flowControl :: SerialFlowControl
  ser_lineEnding :: SerialLineEnding
  ser_receiveNewline :: SerialReceiveNewline
  ser_localEcho :: bool
  ser_timestamps :: bool
  ser_hexView :: bool
  ser_usb :: "SerialUsbId option"

record TabIconStyle =
  icon_icon :: "string option"
  icon_color :: "string option"

record SshAuthUsed =
  au_method :: ConnectionAuthMethod
  au_privateKeyPath :: "string option"
  au_reusable :: bool

record JumpHostConnection =
  j_host :: string
  j_port :: nat
  j_username :: string
  j_authMethod :: ConnectionAuthMethod
  j_password :: "string option"
  j_privateKeyPath :: "string option"
  j_privateKeyPassphrase :: "string option"
  j_certificatePath :: "string option"
  j_profileId :: "string option"

record SavedJumpHost =
  sj_host :: string
  sj_port :: nat
  sj_username :: string
  sj_auth_method :: string
  sj_private_key_path :: "string option"
  sj_private_key_passphrase :: "string option"
  sj_certificate_path :: "string option"
  sj_password :: "string option"
  sj_profile_id :: "string option"

record Connection =
  c_type :: "ConnectionType option"
  c_profileId :: "string option"
  c_profileName :: "string option"
  c_host :: "string option"
  c_port :: "nat option"
  c_username :: "string option"
  c_password :: "string option"
  c_ignoreSavedPassword :: "bool option"
  c_rememberPassword :: "bool option"
  c_keepaliveIntervalSecs :: "nat option"
  c_keepaliveCountMax :: "nat option"
  c_serverMonitorVisible :: "bool option"
  c_authMethod :: "ConnectionAuthMethod option"
  c_agentForward :: "bool option"
  c_privateKeyPath :: "string option"
  c_privateKeyPassphrase :: "string option"
  c_certificatePath :: "string option"
  c_terminalShell :: "TerminalShellType option"
  c_terminalShellCustomPath :: "string option"
  c_terminalShellCustomArgs :: "string option"
  c_terminalShellId :: "string option"
  c_terminalShellWslDistro :: "string option"
  c_cwd :: "string option"
  c_jumpHosts :: "JumpHostConnection list option"
  c_encoding :: "string option"
  c_terminalTheme :: "string option"
  c_loginScript :: "string option"
  c_sshShellIntegration :: "bool option"
  c_sessionLog :: "SessionLogPolicy option"
  c_sftpStartDirectory :: "SftpStartDirectory option"
  c_sftpSudo :: "bool option"
  c_highlightSet :: "string option"
  c_proxy :: "ProxyChoice option"
  c_serial :: "SerialSettings option"

record RemoteFile =
  rf_sourceTabId :: string
  rf_profileId :: "string option"
  rf_profileName :: "string option"
  rf_connectionLabel :: "string option"
  rf_connectionKey :: "string option"
  rf_host :: "string option"
  rf_path :: string
  rf_fileName :: string
  rf_size :: nat
  rf_modifiedAt :: "int option"

record Tab =
  t_id :: string
  t_title :: string
  t_type :: TabType
  t_isActive :: bool
  t_hasConnected :: "bool option"
  t_isModified :: "bool option"
  t_icon :: "string option"
  t_pid :: "nat option"
  t_sessionNonce :: "32 word option"
  t_connectionHeaderPinned :: "bool option"
  t_duplicateBaseTitle :: "string option"
  t_autoTitle :: "bool option"
  t_shellName :: "string option"
  t_iconStyle :: "TabIconStyle option"
  t_distroId :: "string option"
  t_quickConnect :: "bool option"
  t_quickConnectAuth :: "SshAuthUsed option"
  t_settingsSection :: "string option"
  t_connection :: "Connection option"
  t_remoteFile :: "RemoteFile option"

text \<open>An object literal without optional properties, for the constructors of the source.\<close>

definition empty_connection :: Connection where
  "empty_connection = \<lparr>c_type = None, c_profileId = None, c_profileName = None, c_host = None,
     c_port = None, c_username = None, c_password = None, c_ignoreSavedPassword = None,
     c_rememberPassword = None, c_keepaliveIntervalSecs = None, c_keepaliveCountMax = None,
     c_serverMonitorVisible = None, c_authMethod = None, c_agentForward = None,
     c_privateKeyPath = None, c_privateKeyPassphrase = None, c_certificatePath = None,
     c_terminalShell = None, c_terminalShellCustomPath = None, c_terminalShellCustomArgs = None,
     c_terminalShellId = None, c_terminalShellWslDistro = None, c_cwd = None, c_jumpHosts = None,
     c_encoding = None, c_terminalTheme = None, c_loginScript = None,
     c_sshShellIntegration = None, c_sessionLog = None, c_sftpStartDirectory = None,
     c_sftpSudo = None, c_highlightSet = None, c_proxy = None, c_serial = None\<rparr>"

definition make_tab :: "string \<Rightarrow> string \<Rightarrow> TabType \<Rightarrow> bool \<Rightarrow> Tab" where
  "make_tab i title ty active = \<lparr>t_id = i, t_title = title, t_type = ty, t_isActive = active,
     t_hasConnected = None, t_isModified = None, t_icon = None, t_pid = None,
     t_sessionNonce = None, t_connectionHeaderPinned = None, t_duplicateBaseTitle = None,
     t_autoTitle = None, t_shellName = None, t_iconStyle = None, t_distroId = None,
     t_quickConnect = None, t_quickConnectAuth = None, t_settingsSection = None,
     t_connection = None, t_remoteFile = None\<rparr>"

section \<open>Which tabs are what\<close>

definition isPageTab :: "Tab \<Rightarrow> bool" where
  "isPageTab tab = (t_type tab = TySettings \<or> t_type tab = TyTunnels \<or> t_type tab = TyLogs)"

definition isSessionTab :: "Tab \<Rightarrow> bool" where
  "isSessionTab tab = (t_type tab = TyTerminal \<or> t_type tab = TySsh \<or> t_type tab = TySerial)"

lemma tab_kinds:
  "isSessionTab tab \<longleftrightarrow> \<not> isPageTab tab \<and> t_type tab \<noteq> TyRemoteFileEditor"
  by (cases "t_type tab") (auto simp: isSessionTab_def isPageTab_def)

lemma make_tab_sel [simp]:
  "t_id (make_tab i title ty active) = i"
  "t_title (make_tab i title ty active) = title"
  "t_type (make_tab i title ty active) = ty"
  "t_isActive (make_tab i title ty active) = active"
  "t_connection (make_tab i title ty active) = None"
  by (simp_all add: make_tab_def)

end
