(* ===== verification/Pane_Tree.thy ===== *)
theory Pane_Tree
  imports Tab_Types
begin

text \<open>
  The split tree of one tab of the bar (\<open>src/src/lib/tabGroups.ts\<close>, its tree
  functions): panes, splits, the canonical shape \<open>normalizePaneTree\<close> gives them,
  inserting a pane or a tree beside a pane, removing panes and resizing a split.

  \<open>canonical\<close> is that shape as a predicate; every operation here returns a
  canonical tree, and the lemmas of \<open>pane_ids\<close> say which panes it holds, in the
  order they are shown. Shares of a split are exact rationals. A split's children
  and sizes are two lists, as in the source; reading a size past their end gives
  \<open>0\<close>, which \<open>scaleToOne\<close> also makes of the \<open>undefined\<close> read there.
\<close>

section \<open>Trees\<close>

datatype SplitDirection = ToLeft | ToRight | ToAbove | ToBelow

datatype SplitOrientation = Horizontal | Vertical

datatype PaneNode =
    Pane string
  | Split SplitOrientation "PaneNode list" "rat list"

definition paneLeaf :: "string \<Rightarrow> PaneNode" where
  "paneLeaf tabId = Pane tabId"

definition splitOrientation :: "SplitDirection \<Rightarrow> SplitOrientation" where
  "splitOrientation direction =
     (if direction = ToLeft \<or> direction = ToRight then Horizontal else Vertical)"

fun getPaneIds :: "PaneNode \<Rightarrow> string list" where
  "getPaneIds (Pane tabId) = [tabId]"
| "getPaneIds (Split ori cs ss) = concat (map getPaneIds cs)"

text \<open>The sizes as shares: negative ones count as nothing, and all nothing is an even split.\<close>

definition positive_part :: "rat \<Rightarrow> rat" where
  "positive_part s = (if 0 < s then s else 0)"

definition scaleToOne :: "rat list \<Rightarrow> rat list" where
  "scaleToOne sizes =
     (let total = sum_list (map positive_part sizes)
      in if total \<le> 0 then map (\<lambda>_. 1 / of_nat (length sizes)) sizes
         else map (\<lambda>s. positive_part s / total) sizes)"

text \<open>A normalised child as what it adds to its parent's children and sizes.\<close>

fun join_child :: "SplitOrientation \<Rightarrow> PaneNode \<Rightarrow> rat \<Rightarrow> PaneNode list \<times> rat list" where
  "join_child ori (Split ori' cs ss) share =
     (if ori' = ori then (cs, map (\<lambda>s. s * share) ss) else ([Split ori' cs ss], [share]))"
| "join_child ori (Pane i) share = ([Pane i], [share])"

definition own_sizes :: "PaneNode list \<Rightarrow> rat list \<Rightarrow> rat list" where
  "own_sizes cs ss = scaleToOne
     (map (\<lambda>i. if i < length ss then ss ! i else 1 / of_nat (length cs)) [0..<length cs])"

fun normalizePaneTree :: "PaneNode \<Rightarrow> PaneNode" where
  "normalizePaneTree (Pane i) = Pane i"
| "normalizePaneTree (Split ori cs ss) =
     (let parts = map2 (join_child ori) (map normalizePaneTree cs) (own_sizes cs ss);
          children = concat (map fst parts);
          sizes = concat (map snd parts)
      in if length children = 1 then hd children
         else Split ori children (scaleToOne sizes))"

definition size_at :: "rat list \<Rightarrow> nat \<Rightarrow> rat" where
  "size_at ss i = (if i < length ss then ss ! i else 0)"

definition is_before :: "SplitDirection \<Rightarrow> bool" where
  "is_before direction = (direction = ToLeft \<or> direction = ToAbove)"

fun insertInto :: "PaneNode \<Rightarrow> string \<Rightarrow> PaneNode \<Rightarrow> SplitDirection \<Rightarrow> PaneNode" where
  "insertInto (Pane i) target inserted direction =
     (if i \<noteq> target then Pane i
      else Split (splitOrientation direction)
             (if is_before direction then [inserted, Pane i] else [Pane i, inserted])
             [1/2, 1/2])"
| "insertInto (Split ori cs ss) target inserted direction =
     (case find_index (\<lambda>c. c = Pane target) cs of
        Some index \<Rightarrow>
          (if ori = splitOrientation direction
           then let half = size_at ss index / 2;
                    spot = (if is_before direction then index else index + 1)
                in Split ori (insert_at spot inserted cs) (insert_at spot half (ss[index := half]))
           else Split ori (map (\<lambda>c. insertInto c target inserted direction) cs) ss)
      | None \<Rightarrow> Split ori (map (\<lambda>c. insertInto c target inserted direction) cs) ss)"

definition insertNextTo :: "PaneNode \<Rightarrow> string \<Rightarrow> PaneNode \<Rightarrow> SplitDirection \<Rightarrow> PaneNode" where
  "insertNextTo tree target inserted direction =
     normalizePaneTree (insertInto tree target inserted direction)"

fun removeFrom :: "PaneNode \<Rightarrow> string set \<Rightarrow> PaneNode option" where
  "removeFrom (Pane i) ids = (if i \<in> ids then None else Some (Pane i))"
| "removeFrom (Split ori cs ss) ids =
     (let kept = concat (map2 (\<lambda>c i. case c of None \<Rightarrow> [] | Some k \<Rightarrow> [(k, size_at ss i)])
                   (map (\<lambda>c. removeFrom c ids) cs) [0..<length cs])
      in if kept = [] then None
         else Some (Split ori (map fst kept) (scaleToOne (map snd kept))))"

definition removePanes :: "PaneNode \<Rightarrow> string set \<Rightarrow> PaneNode option" where
  "removePanes tree ids = map_option normalizePaneTree (removeFrom tree ids)"

fun resizeSplit :: "PaneNode \<Rightarrow> nat list \<Rightarrow> rat list \<Rightarrow> PaneNode" where
  "resizeSplit (Pane i) path sizes = Pane i"
| "resizeSplit (Split ori cs ss) [] sizes =
     (if length cs = length sizes then Split ori cs (scaleToOne sizes) else Split ori cs ss)"
| "resizeSplit (Split ori cs ss) (index # rest) sizes =
     (if index < length cs
      then Split ori (cs[index := resizeSplit (cs ! index) rest sizes]) ss
      else Split ori cs ss)"

section \<open>The canonical shape\<close>

fun is_split_of :: "SplitOrientation \<Rightarrow> PaneNode \<Rightarrow> bool" where
  "is_split_of ori (Split ori' _ _) = (ori' = ori)"
| "is_split_of ori (Pane _) = False"

definition shares :: "rat list \<Rightarrow> bool" where
  "shares ss \<longleftrightarrow> (\<forall>s\<in>set ss. 0 \<le> s) \<and> sum_list ss = 1"

fun canonical :: "PaneNode \<Rightarrow> bool" where
  "canonical (Pane _) = True"
| "canonical (Split ori cs ss) =
     (2 \<le> length cs \<and> length ss = length cs \<and> shares ss
      \<and> (\<forall>c\<in>set cs. canonical c \<and> \<not> is_split_of ori c))"

text \<open>What \<open>normalizePaneTree\<close> asks of its input: no split without children.\<close>

fun no_empty :: "PaneNode \<Rightarrow> bool" where
  "no_empty (Pane _) = True"
| "no_empty (Split ori cs ss) = (cs \<noteq> [] \<and> (\<forall>c\<in>set cs. no_empty c))"

lemma canonical_no_empty: "canonical t \<Longrightarrow> no_empty t"
  by (induction t) auto

subsection \<open>Sizes\<close>

lemma positive_part_nonneg [simp]: "0 \<le> positive_part s"
  by (simp add: positive_part_def)

lemma positive_part_id: "0 \<le> s \<Longrightarrow> positive_part s = s"
  by (simp add: positive_part_def)

lemma length_scaleToOne [simp]: "length (scaleToOne ss) = length ss"
  by (simp add: scaleToOne_def Let_def)

lemma scaleToOne_nil [simp]: "scaleToOne [] = []"
  by (simp add: scaleToOne_def)

lemma sum_list_divide: "sum_list (map (\<lambda>x. f x / c) xs) = sum_list (map f xs) / (c::rat)"
  by (induction xs) (auto simp: add_divide_distrib)

lemma sum_list_times: "sum_list (map (\<lambda>x. x * c) xs) = sum_list xs * (c::rat)"
  by (induction xs) (auto simp: distrib_right)

lemma sum_positive_part_nonneg: "0 \<le> sum_list (map positive_part ss)"
  by (rule sum_list_nonneg) auto

lemma shares_scaleToOne [wf_intros]:
  assumes "ss \<noteq> []"
  shows "shares (scaleToOne ss)"
proof -
  let ?total = "sum_list (map positive_part ss)"
  have "sum_list (scaleToOne ss) = 1"
  proof (cases "?total \<le> 0")
    case True
    with assms show ?thesis by (simp add: scaleToOne_def map_replicate_const sum_list_replicate)
  next
    case False
    then show ?thesis by (simp add: scaleToOne_def sum_list_divide)
  qed
  moreover have "0 \<le> s" if "s \<in> set (scaleToOne ss)" for s
    using that sum_positive_part_nonneg [of ss]
    by (auto simp: scaleToOne_def Let_def split: if_splits)
  ultimately show ?thesis by (auto simp: shares_def)
qed

lemma scaleToOne_shares: "shares ss \<Longrightarrow> scaleToOne ss = ss"
proof -
  assume *: "shares ss"
  then have "map positive_part ss = ss"
    by (auto simp: shares_def positive_part_id intro: map_idI)
  with * show ?thesis
    by (simp add: scaleToOne_def shares_def positive_part_id map_idI)
qed

lemma length_own_sizes [simp]: "length (own_sizes cs ss) = length cs"
  by (simp add: own_sizes_def)

lemma own_sizes_shares:
  assumes "length ss = length cs" "shares ss"
  shows "own_sizes cs ss = ss"
proof -
  have "map (\<lambda>i. if i < length ss then ss ! i else 1 / of_nat (length cs)) [0..<length cs]
      = map (\<lambda>i. ss ! i) [0..<length ss]"
    using assms(1) by auto
  then show ?thesis
    using assms(2) by (simp only: own_sizes_def scaleToOne_shares map_nth)
qed

subsection \<open>Normalising\<close>

abbreviation parts_of :: "SplitOrientation \<Rightarrow> PaneNode list \<Rightarrow> rat list \<Rightarrow> (PaneNode list \<times> rat list) list" where
  "parts_of ori cs ss \<equiv> map2 (join_child ori) (map normalizePaneTree cs) (own_sizes cs ss)"

lemma normalizePaneTree_Split:
  "normalizePaneTree (Split ori cs ss) =
     (let children = concat (map fst (parts_of ori cs ss))
      in if length children = 1 then hd children
         else Split ori children (scaleToOne (concat (map snd (parts_of ori cs ss)))))"
  by (simp only: normalizePaneTree.simps Let_def)

declare normalizePaneTree.simps(2) [simp del]

lemma getPaneIds_join_child: "concat (map getPaneIds (fst (join_child ori t s))) = getPaneIds t"
  by (cases t) auto

lemma getPaneIds_parts:
  assumes "length ws = length ts"
  shows "concat (map getPaneIds (concat (map fst (map2 (join_child ori) ts ws))))
    = concat (map getPaneIds ts)"
  using assms
proof (induction ts arbitrary: ws)
  case (Cons t ts)
  then obtain w ws' where "ws = w # ws'" by (cases ws) auto
  with Cons show ?case by (simp add: getPaneIds_join_child)
qed simp

lemma getPaneIds_only:
  "getPaneIds (if length xs = 1 then hd xs else Split ori xs ss) = concat (map getPaneIds xs)"
  by (cases xs) auto

lemma getPaneIds_normalizePaneTree [pane_ids, simp]: "getPaneIds (normalizePaneTree t) = getPaneIds t"
proof (induction t)
  case (Pane i)
  then show ?case by simp
next
  case (Split ori cs ss)
  have "getPaneIds (normalizePaneTree (Split ori cs ss))
      = concat (map getPaneIds (concat (map fst (parts_of ori cs ss))))"
    unfolding normalizePaneTree_Split Let_def by (rule getPaneIds_only)
  also have "\<dots> = concat (map getPaneIds (map normalizePaneTree cs))"
    by (rule getPaneIds_parts) simp
  also have "\<dots> = getPaneIds (Split ori cs ss)"
    using Split by (auto intro: arg_cong [where f = concat])
  finally show ?case .
qed

text \<open>What one normalised child adds: as many sizes as children, all fit to stand in the parent.\<close>

lemma join_child_fits:
  assumes "canonical t"
  shows "length (snd (join_child ori t s)) = length (fst (join_child ori t s))"
    and "fst (join_child ori t s) \<noteq> []"
    and "\<forall>c\<in>set (fst (join_child ori t s)). canonical c \<and> \<not> is_split_of ori c"
  using assms by (cases t; auto)+

lemma parts_fit:
  assumes "\<forall>t\<in>set ts. canonical t" and "length ws = length ts"
  shows "length (concat (map snd (map2 (join_child ori) ts ws)))
      = length (concat (map fst (map2 (join_child ori) ts ws)))
    \<and> (\<forall>c\<in>set (concat (map fst (map2 (join_child ori) ts ws))). canonical c \<and> \<not> is_split_of ori c)
    \<and> (ts \<noteq> [] \<longrightarrow> concat (map fst (map2 (join_child ori) ts ws)) \<noteq> [])"
  using assms
proof (induction ts arbitrary: ws)
  case (Cons t ts)
  then obtain w ws' where ws: "ws = w # ws'" by (cases ws) auto
  from Cons.prems have "canonical t" by simp
  note fits = join_child_fits [OF this, of ori w]
  from Cons.prems ws have "length ws' = length ts" "\<forall>t\<in>set ts. canonical t" by auto
  note IH = Cons.IH [OF this(2,1)]
  from fits IH show ?case unfolding ws by auto
qed simp

lemma canonical_normalizePaneTree [wf_intros]: "no_empty t \<Longrightarrow> canonical (normalizePaneTree t)"
proof (induction t)
  case (Pane i)
  then show ?case by simp
next
  case (Split ori cs ss)
  let ?parts = "parts_of ori cs ss"
  let ?children = "concat (map fst ?parts)"
  let ?sizes = "concat (map snd ?parts)"
  from Split have "\<forall>t\<in>set (map normalizePaneTree cs). canonical t" by auto
  from parts_fit [OF this, of "own_sizes cs ss" ori] Split.prems
  have len: "length ?sizes = length ?children"
    and fit: "\<forall>c\<in>set ?children. canonical c \<and> \<not> is_split_of ori c"
    and ne: "?children \<noteq> []"
    by (simp_all add: comp_def)
  show ?case
  proof (cases "length ?children = 1")
    case True
    then obtain only where only: "?children = [only]"
      by (metis One_nat_def length_0_conv length_Suc_conv)
    moreover have "canonical only" using fit unfolding only by simp
    ultimately show ?thesis unfolding normalizePaneTree_Split Let_def by (simp del: map_map)
  next
    case False
    with ne have two: "2 \<le> length ?children" by (cases ?children) (auto simp: Suc_le_eq)
    then have "normalizePaneTree (Split ori cs ss) = Split ori ?children (scaleToOne ?sizes)"
      unfolding normalizePaneTree_Split Let_def by (simp only: False if_False)
    moreover have "shares (scaleToOne ?sizes)"
    proof (rule shares_scaleToOne)
      from two len have "length ?sizes \<noteq> 0" by linarith
      then show "?sizes \<noteq> []" by (simp only: length_0_conv not_False_eq_True)
    qed
    ultimately show ?thesis using two len fit
      by (simp only: canonical.simps length_scaleToOne)
  qed
qed

lemma join_child_foreign: "\<not> is_split_of ori t \<Longrightarrow> join_child ori t s = ([t], [s])"
  by (cases t) auto

lemma parts_foreign:
  assumes "\<forall>t\<in>set ts. \<not> is_split_of ori t" and "length ws = length ts"
  shows "concat (map fst (map2 (join_child ori) ts ws)) = ts
    \<and> concat (map snd (map2 (join_child ori) ts ws)) = ws"
  using assms
proof (induction ts arbitrary: ws)
  case (Cons t ts)
  then obtain w ws' where ws: "ws = w # ws'" by (cases ws) auto
  with Cons show ?case by (simp add: join_child_foreign)
qed simp

lemma normalizePaneTree_canonical [simp]: "canonical t \<Longrightarrow> normalizePaneTree t = t"
proof (induction t)
  case (Pane i)
  then show ?case by simp
next
  case (Split ori cs ss)
  then have cs: "map normalizePaneTree cs = cs" by (auto intro: map_idI)
  from Split.prems have own: "own_sizes cs ss = ss" by (auto intro: own_sizes_shares)
  from Split.prems parts_foreign [of cs ori ss]
  have "concat (map fst (parts_of ori cs ss)) = cs" "concat (map snd (parts_of ori cs ss)) = ss"
    unfolding cs own by (auto simp: comp_def)
  with Split.prems show ?case
    unfolding normalizePaneTree_Split Let_def
    by (simp add: scaleToOne_shares)
qed

lemma normalizePaneTree_idem: "no_empty t \<Longrightarrow> normalizePaneTree (normalizePaneTree t) = normalizePaneTree t"
  by (simp add: canonical_normalizePaneTree)


subsection \<open>Inserting\<close>

definition put_beside :: "SplitDirection \<Rightarrow> string \<Rightarrow> string list \<Rightarrow> string \<Rightarrow> string list" where
  "put_beside direction target new i =
     (if i = target then (if is_before direction then new @ [i] else i # new) else [i])"

lemma put_beside_other: "target \<notin> set is \<Longrightarrow> concat (map (put_beside d target new) is) = is"
  by (induction "is") (auto simp: put_beside_def)

lemma insertInto_other:
  "target \<notin> set (getPaneIds t) \<Longrightarrow> insertInto t target inserted direction = t"
proof (induction t)
  case (Split ori cs ss)
  then have "find_index (\<lambda>c. c = Pane target) cs = None"
    by (auto simp: find_index_None)
  with Split show ?case by (auto intro: map_idI)
qed simp

lemma concat_put_beside:
  "concat (map f xs) = ys @ zs \<Longrightarrow> concat (map g (concat (map f xs))) = concat (map g ys) @ concat (map g zs)"
  by simp

lemma getPaneIds_map_children:
  assumes "\<And>c. c \<in> set cs \<Longrightarrow> getPaneIds (f c) = concat (map g (getPaneIds c))"
  shows "concat (map getPaneIds (map f cs)) = concat (map g (concat (map getPaneIds cs)))"
  using assms by (induction cs) auto

lemma getPaneIds_insert_at_child:
  assumes "find_index (\<lambda>c. c = Pane target) cs = Some index"
    and "distinct (concat (map getPaneIds cs))"
  shows "concat (map getPaneIds
      (insert_at (if is_before direction then index else index + 1) inserted cs))
    = concat (map (put_beside direction target (getPaneIds inserted)) (concat (map getPaneIds cs)))"
proof -
  from find_index_split [OF assms(1)] obtain ys x zs
    where cs: "cs = ys @ x # zs" "length ys = index" "x = Pane target" by metis
  have "target \<notin> set (concat (map getPaneIds ys))" "target \<notin> set (concat (map getPaneIds zs))"
    using assms(2) cs by auto
  moreover have "insert_at (index + 1) inserted cs = ys @ x # inserted # zs"
    using cs insert_at_length [of "ys @ [x]" inserted zs] by simp
  moreover have "insert_at index inserted cs = ys @ inserted # x # zs"
    using cs insert_at_length [of ys inserted "x # zs"] by simp
  ultimately show ?thesis
    using cs by (simp add: put_beside_other) (simp add: put_beside_def)
qed

lemma getPaneIds_insertInto [pane_ids]:
  assumes "distinct (getPaneIds t)"
  shows "getPaneIds (insertInto t target inserted direction)
    = concat (map (put_beside direction target (getPaneIds inserted)) (getPaneIds t))"
  using assms
proof (induction t)
  case (Pane i)
  then show ?case by (auto simp: put_beside_def)
next
  case (Split ori cs ss)
  have child: "getPaneIds (insertInto c target inserted direction)
      = concat (map (put_beside direction target (getPaneIds inserted)) (getPaneIds c))"
    if "c \<in> set cs" for c
    using Split.IH [OF that] Split.prems that by (auto simp: distinct_concat_iff)
  have rec: "getPaneIds (Split ori (map (\<lambda>c. insertInto c target inserted direction) cs) ss)
      = concat (map (put_beside direction target (getPaneIds inserted)) (getPaneIds (Split ori cs ss)))"
    using getPaneIds_map_children [OF child] by (simp only: getPaneIds.simps)
  show ?case
  proof (cases "find_index (\<lambda>c. c = Pane target) cs")
    case None
    with rec show ?thesis by simp
  next
    case (Some index)
    show ?thesis
    proof (cases "ori = splitOrientation direction")
      case True
      have "insertInto (Split ori cs ss) target inserted direction
          = Split ori (insert_at (if is_before direction then index else index + 1) inserted cs)
              (insert_at (if is_before direction then index else index + 1)
                (size_at ss index / 2) (ss[index := size_at ss index / 2]))"
        using Some True by (simp add: Let_def)
      with getPaneIds_insert_at_child [OF Some] Split.prems show ?thesis
        by (simp only: getPaneIds.simps)
    next
      case False
      with Some rec show ?thesis by simp
    qed
  qed
qed

lemma no_empty_insertInto [wf_intros]:
  "no_empty t \<Longrightarrow> no_empty inserted \<Longrightarrow> no_empty (insertInto t target inserted direction)"
proof (induction t)
  case (Split ori cs ss)
  then show ?case
    by (cases "find_index (\<lambda>c. c = Pane target) cs") (auto simp: Let_def insert_at_def
        dest: in_set_takeD in_set_dropD)
qed simp

lemma canonical_insertNextTo [wf_intros]:
  "no_empty t \<Longrightarrow> no_empty inserted \<Longrightarrow> canonical (insertNextTo t target inserted direction)"
  unfolding insertNextTo_def by (intro wf_intros)

lemma getPaneIds_insertNextTo [pane_ids]:
  "distinct (getPaneIds t) \<Longrightarrow> getPaneIds (insertNextTo t target inserted direction)
    = concat (map (put_beside direction target (getPaneIds inserted)) (getPaneIds t))"
  by (simp add: insertNextTo_def getPaneIds_insertInto)

text \<open>Without the assumption that panes are distinct, the set of panes is still known.\<close>

lemma set_insertInto:
  "set (getPaneIds (insertInto t target inserted direction))
    = set (getPaneIds t) \<union> (if target \<in> set (getPaneIds t) then set (getPaneIds inserted) else {})"
proof (induction t)
  case (Split ori cs ss)
  show ?case
  proof (cases "find_index (\<lambda>c. c = Pane target) cs")
    case None
    then show ?thesis using Split.IH by (auto split: if_splits)
  next
    case (Some index)
    then have "cs ! index \<in> set cs" "cs ! index = Pane target"
      by (auto dest: find_index_SomeD)
    then have "target \<in> set (getPaneIds (Split ori cs ss))"
      by (auto intro!: bexI [of _ "cs ! index"])
    then show ?thesis using Some Split.IH by (auto simp: Let_def split: if_splits)
  qed
qed auto

lemma set_insertNextTo:
  "set (getPaneIds (insertNextTo t target inserted direction))
    = set (getPaneIds t) \<union> (if target \<in> set (getPaneIds t) then set (getPaneIds inserted) else {})"
  by (simp add: insertNextTo_def set_insertInto)

subsection \<open>Removing\<close>

abbreviation kept_children :: "PaneNode list \<Rightarrow> rat list \<Rightarrow> string set \<Rightarrow> (PaneNode \<times> rat) list" where
  "kept_children cs ss ids \<equiv>
     concat (map2 (\<lambda>c i. case c of None \<Rightarrow> [] | Some k \<Rightarrow> [(k, size_at ss i)])
       (map (\<lambda>c. removeFrom c ids) cs) [0..<length cs])"

lemma fst_kept:
  assumes "length is = length ks"
  shows "map fst (concat (map2 (\<lambda>c i. case c of None \<Rightarrow> [] | Some k \<Rightarrow> [(k, f i)]) ks is))
    = List.map_filter (\<lambda>k. k) ks"
  using assms
proof (induction ks arbitrary: "is")
  case (Cons k ks)
  then obtain i is' where "is = i # is'" by (cases "is") auto
  with Cons show ?case by (auto simp: List.map_filter_def split: option.splits)
qed (simp add: List.map_filter_def)

lemma fst_kept_children:
  "map fst (kept_children cs ss ids) = List.map_filter (\<lambda>c. removeFrom c ids) cs"
proof -
  have "map fst (kept_children cs ss ids) = List.map_filter (\<lambda>k. k) (map (\<lambda>c. removeFrom c ids) cs)"
    by (rule fst_kept) simp
  also have "\<dots> = List.map_filter (\<lambda>c. removeFrom c ids) cs"
    by (induction cs) (auto simp: List.map_filter_def)
  finally show ?thesis .
qed

lemma removeFrom_Split:
  "removeFrom (Split ori cs ss) ids =
     (if List.map_filter (\<lambda>c. removeFrom c ids) cs = [] then None
      else Some (Split ori (List.map_filter (\<lambda>c. removeFrom c ids) cs)
             (scaleToOne (map snd (kept_children cs ss ids)))))"
proof -
  have "kept_children cs ss ids = [] \<longleftrightarrow> map fst (kept_children cs ss ids) = []"
    by (simp only: map_is_Nil_conv)
  then have "kept_children cs ss ids = [] \<longleftrightarrow> List.map_filter (\<lambda>c. removeFrom c ids) cs = []"
    by (simp only: fst_kept_children)
  then show ?thesis
    by (simp only: removeFrom.simps Let_def fst_kept_children)
qed

declare removeFrom.simps(2) [simp del]

lemma concat_map_filter:
  "concat (map getPaneIds (List.map_filter f cs))
    = concat (map (\<lambda>c. case f c of None \<Rightarrow> [] | Some k \<Rightarrow> getPaneIds k) cs)"
  by (induction cs) (auto simp: List.map_filter_def split: option.splits)

lemma no_empty_panes: "no_empty t \<Longrightarrow> getPaneIds t \<noteq> []"
proof (induction t)
  case (Split ori cs ss)
  then show ?case by (cases cs) auto
qed simp

lemma removeFrom_spec:
  assumes "no_empty t"
  shows "case removeFrom t ids of
      None \<Rightarrow> filter (\<lambda>i. i \<notin> ids) (getPaneIds t) = []
    | Some t' \<Rightarrow> no_empty t' \<and> getPaneIds t' = filter (\<lambda>i. i \<notin> ids) (getPaneIds t)"
  using assms
proof (induction t)
  case (Pane i)
  then show ?case by simp
next
  case (Split ori cs ss)
  let ?kept = "List.map_filter (\<lambda>c. removeFrom c ids) cs"
  have IH: "case removeFrom c ids of
      None \<Rightarrow> filter (\<lambda>i. i \<notin> ids) (getPaneIds c) = []
    | Some t' \<Rightarrow> no_empty t' \<and> getPaneIds t' = filter (\<lambda>i. i \<notin> ids) (getPaneIds c)"
    if "c \<in> set cs" for c
    using Split.IH [OF that] Split.prems that by simp
  have "(case removeFrom c ids of None \<Rightarrow> [] | Some k \<Rightarrow> getPaneIds k)
      = filter (\<lambda>i. i \<notin> ids) (getPaneIds c)" if "c \<in> set cs" for c
    using IH [OF that] by (auto split: option.splits)
  then have panes: "concat (map getPaneIds ?kept)
      = filter (\<lambda>i. i \<notin> ids) (concat (map getPaneIds cs))"
    unfolding concat_map_filter by (simp add: filter_concat comp_def cong: map_cong)
  have "\<forall>k\<in>set ?kept. no_empty k"
    using IH by (fastforce simp: List.map_filter_def split: option.splits)
  with panes show ?case
    by (auto simp: removeFrom_Split)
qed

lemma removePanes_None [pane_ids]:
  "no_empty t \<Longrightarrow> removePanes t ids = None \<longleftrightarrow> set (getPaneIds t) \<subseteq> ids"
  using removeFrom_spec [of t ids] no_empty_panes
  by (fastforce simp: removePanes_def filter_empty_conv split: option.splits)

lemma removePanes_Some:
  assumes "no_empty t" and "removePanes t ids = Some t'"
  shows "canonical t'" and "getPaneIds t' = filter (\<lambda>i. i \<notin> ids) (getPaneIds t)"
  using removeFrom_spec [OF assms(1), of ids] assms(2)
  by (auto simp: removePanes_def canonical_normalizePaneTree)

subsection \<open>Resizing\<close>

lemma getPaneIds_resizeSplit [pane_ids, simp]: "getPaneIds (resizeSplit t path sizes) = getPaneIds t"
proof (induction t path sizes rule: resizeSplit.induct)
  case (3 ori cs ss index rest sizes)
  then show ?case
    by (cases "index < length cs") (simp_all add: map_update, metis list_update_id map_update)
qed auto

lemma resizeSplit_keeps_kind: "is_split_of ori (resizeSplit t path sizes) = is_split_of ori t"
  by (induction t path sizes rule: resizeSplit.induct) auto

lemma canonical_resizeSplit [wf_intros]: "canonical t \<Longrightarrow> canonical (resizeSplit t path sizes)"
proof (induction t path sizes rule: resizeSplit.induct)
  case (2 ori cs ss sizes)
  then have "shares (scaleToOne sizes)" if "length cs = length sizes"
    using that by (intro shares_scaleToOne) auto
  with 2 show ?case by auto
next
  case (3 ori cs ss index rest sizes)
  show ?case
  proof (cases "index < length cs")
    case True
    with 3 have "canonical (resizeSplit (cs ! index) rest sizes)" by simp
    moreover have "\<not> is_split_of ori (resizeSplit (cs ! index) rest sizes)"
      using 3 True by (simp add: resizeSplit_keeps_kind)
    ultimately show ?thesis using 3 True
      by (auto dest!: subsetD [OF set_update_subset_insert])
  next
    case False
    with 3 show ?thesis by simp
  qed
qed simp

end
