(* ===== verification/Tab_Groups.thy ===== *)
theory Tab_Groups
  imports Pane_Tree
begin

text \<open>
  The tabs of the tab bar (\<open>src/src/lib/tabGroups.ts\<close>, its group functions).
  Each group holds a split tree, the pane focused last and the zoomed pane.

  The source tells groups apart by object identity (\<open>candidate === group\<close>). An
  array never holds one group object twice, so the model goes by the group's
  position. The callback \<open>createGroupId\<close>, which every caller passes as
  \<open>() => `group-${++groupCount}`\<close>, is the counter \<open>groupCount\<close> threaded through:
  an operation that hands out ids takes it and returns it.

  \<open>group_ok\<close> is what the code keeps true of a group, \<open>ids_ok\<close> what it keeps true
  of the groups' ids, and \<open>all_panes\<close> the panes in the order the bar shows them.
\<close>

section \<open>Groups\<close>

record TabGroup =
  g_id :: string
  g_root :: PaneNode
  g_activeTabId :: string
  g_zoomedTabId :: "string option"

definition group_name :: "nat \<Rightarrow> string" where
  "group_name n = ''group-'' @ show_nat n"

abbreviation group_panes :: "TabGroup \<Rightarrow> string list" where
  "group_panes g \<equiv> getPaneIds (g_root g)"

definition all_panes :: "TabGroup list \<Rightarrow> string list" where
  "all_panes groups = concat (map group_panes groups)"

definition single_group :: "string \<Rightarrow> string \<Rightarrow> TabGroup" where
  "single_group gid tabId =
     \<lparr>g_id = gid, g_root = paneLeaf tabId, g_activeTabId = tabId, g_zoomedTabId = None\<rparr>"

definition group_index :: "TabGroup list \<Rightarrow> string \<Rightarrow> nat option" where
  "group_index groups tabId = find_index (\<lambda>g. tabId \<in> set (group_panes g)) groups"

definition findGroupOfTab :: "TabGroup list \<Rightarrow> string \<Rightarrow> TabGroup option" where
  "findGroupOfTab groups tabId = find (\<lambda>g. tabId \<in> set (group_panes g)) groups"

text \<open>\<open>xs[k]\<close> at an index that may be negative.\<close>

definition nth_int :: "'a list \<Rightarrow> int \<Rightarrow> 'a option" where
  "nth_int xs k = (if 0 \<le> k \<and> k < int (length xs) then Some (xs ! nat k) else None)"

definition nearestPane :: "string list \<Rightarrow> string \<Rightarrow> string list \<Rightarrow> string" where
  "nearestPane order tabId remaining =
     (let index = (case index_of tabId order of None \<Rightarrow> -1 | Some i \<Rightarrow> int i);
          tried = concat (map (\<lambda>offset. [nth_int order (index + int offset),
                                          nth_int order (index - int offset)])
                    [1..<length order])
      in case find (\<lambda>c. case c of None \<Rightarrow> False | Some i \<Rightarrow> i \<in> set remaining) tried of
           Some (Some i) \<Rightarrow> i
         | _ \<Rightarrow> hd remaining)"

definition keep_zoom :: "string option \<Rightarrow> string list \<Rightarrow> string option" where
  "keep_zoom zoomed remaining =
     (case zoomed of
        None \<Rightarrow> None
      | Some z \<Rightarrow> if z \<noteq> [] \<and> z \<in> set remaining then Some z else None)"

definition remove_from_group :: "string set \<Rightarrow> TabGroup \<Rightarrow> TabGroup option" where
  "remove_from_group ids g =
     (if \<not> (\<exists>i\<in>set (group_panes g). i \<in> ids) then Some g
      else case removePanes (g_root g) ids of
             None \<Rightarrow> None
           | Some tree \<Rightarrow>
               (let remaining = getPaneIds tree
                in Some (g\<lparr>g_root := tree,
                     g_activeTabId := (if g_activeTabId g \<in> set remaining then g_activeTabId g
                                       else nearestPane (group_panes g) (g_activeTabId g) remaining),
                     g_zoomedTabId := keep_zoom (g_zoomedTabId g) remaining\<rparr>)))"

definition removeTabsFromGroups :: "TabGroup list \<Rightarrow> string set \<Rightarrow> TabGroup list" where
  "removeTabsFromGroups groups ids =
     (if \<not> (\<exists>g\<in>set groups. \<exists>i\<in>set (group_panes g). i \<in> ids) then groups
      else List.map_filter (remove_from_group ids) groups)"

definition getFallbackTabId :: "TabGroup list \<Rightarrow> TabGroup list \<Rightarrow> string option \<Rightarrow> string option" where
  "getFallbackTabId previous nxt activeTabId =
     (if nxt = [] then None
      else case (if truthy activeTabId then group_index previous (the activeTabId) else None) of
        None \<Rightarrow> None
      | Some index \<Rightarrow>
          (case find (\<lambda>g. g_id g = g_id (previous ! index)) nxt of
             Some survivor \<Rightarrow> Some (g_activeTabId survivor)
           | None \<Rightarrow>
               (case find (\<lambda>g. \<exists>h\<in>set nxt. g_id h = g_id g) (drop (index + 1) previous) of
                  Some after \<Rightarrow> Some (g_activeTabId after)
                | None \<Rightarrow> Some (g_activeTabId (last nxt)))))"

text \<open>The ids to drop: those of no tab, and those met before.\<close>

fun stale_ids :: "string set \<Rightarrow> string set \<Rightarrow> string list \<Rightarrow> string list" where
  "stale_ids known seen [] = []"
| "stale_ids known seen (i # is) =
     (if i \<notin> known \<or> i \<in> seen then i # stale_ids known (insert i seen) is
      else stale_ids known (insert i seen) is)"

fun fresh_groups :: "nat \<Rightarrow> string list \<Rightarrow> TabGroup list" where
  "fresh_groups groupCount [] = []"
| "fresh_groups groupCount (tabId # tabIds) =
     single_group (group_name (Suc groupCount)) tabId # fresh_groups (Suc groupCount) tabIds"

definition reconcileGroups :: "TabGroup list \<Rightarrow> string list \<Rightarrow> nat \<Rightarrow> TabGroup list \<times> nat" where
  "reconcileGroups groups tabIds groupCount =
     (let stale = stale_ids (set tabIds) {} (all_panes groups);
          result = (if stale \<noteq> [] then removeTabsFromGroups groups (set stale) else groups);
          placed = set (all_panes result);
          missing = filter (\<lambda>i. i \<notin> placed) tabIds
      in (result @ fresh_groups groupCount missing, groupCount + length missing))"

definition focusPaneInGroups :: "TabGroup list \<Rightarrow> string \<Rightarrow> TabGroup list" where
  "focusPaneInGroups groups tabId =
     (case group_index groups tabId of
        None \<Rightarrow> groups
      | Some index \<Rightarrow>
          (let g = groups ! index;
               zoomed = (if g_zoomedTabId g = Some tabId then g_zoomedTabId g else None)
           in if g_activeTabId g = tabId \<and> g_zoomedTabId g = zoomed then groups
              else groups[index := g\<lparr>g_activeTabId := tabId, g_zoomedTabId := zoomed\<rparr>]))"

definition placePane :: "TabGroup list \<Rightarrow> string \<Rightarrow> string \<Rightarrow> SplitDirection \<Rightarrow> TabGroup list" where
  "placePane groups tabId targetTabId direction =
     (if tabId = targetTabId \<or> findGroupOfTab groups targetTabId = None then groups
      else map (\<lambda>g. if targetTabId \<in> set (group_panes g)
                    then g\<lparr>g_root := insertNextTo (g_root g) targetTabId (paneLeaf tabId) direction,
                           g_activeTabId := tabId, g_zoomedTabId := None\<rparr>
                    else g)
             (removeTabsFromGroups groups {tabId}))"

definition mergeGroup :: "TabGroup list \<Rightarrow> string \<Rightarrow> string \<Rightarrow> SplitDirection \<Rightarrow> TabGroup list" where
  "mergeGroup groups tabId targetTabId direction =
     (case (group_index groups tabId, group_index groups targetTabId) of
        (Some source, Some target) \<Rightarrow>
          (if source = target then groups
           else concat (map (\<lambda>k.
               if k = source then []
               else if k = target
               then [(groups ! k)\<lparr>g_root := insertNextTo (g_root (groups ! k)) targetTabId
                                              (g_root (groups ! source)) direction,
                                   g_activeTabId := g_activeTabId (groups ! source),
                                   g_zoomedTabId := None\<rparr>]
               else [groups ! k]) [0..<length groups]))
      | _ \<Rightarrow> groups)"

definition clamp_index :: "int \<Rightarrow> nat \<Rightarrow> nat" where
  "clamp_index k len = nat (min (max k 0) (int len))"

definition breakOutPane :: "TabGroup list \<Rightarrow> string \<Rightarrow> string \<Rightarrow> int option \<Rightarrow> TabGroup list" where
  "breakOutPane groups tabId newGroupId index =
     (case findGroupOfTab groups tabId of
        None \<Rightarrow> groups
      | Some source \<Rightarrow>
          (if length (group_panes source) < 2 then groups
           else let without = removeTabsFromGroups groups {tabId};
                    beside = (case find_index (\<lambda>g. g_id g = g_id source) without of
                                None \<Rightarrow> 0 | Some k \<Rightarrow> int k + 1);
                    spot = or_default index beside
                in insert_at (clamp_index spot (length without))
                     (single_group newGroupId tabId) without))"

text \<open>The panes of \<open>source\<close> one by one: its active one keeps the group's id.\<close>

fun singles_of :: "TabGroup \<Rightarrow> nat \<Rightarrow> string list \<Rightarrow> TabGroup list \<times> nat" where
  "singles_of source groupCount [] = ([], groupCount)"
| "singles_of source groupCount (paneId # paneIds) =
     (if paneId = g_activeTabId source
      then (case singles_of source groupCount paneIds of
              (rest, given) \<Rightarrow> (single_group (g_id source) paneId # rest, given))
      else (case singles_of source (Suc groupCount) paneIds of
              (rest, given) \<Rightarrow> (single_group (group_name (Suc groupCount)) paneId # rest, given)))"

definition ungroupPanes :: "TabGroup list \<Rightarrow> string \<Rightarrow> nat \<Rightarrow> TabGroup list \<times> nat" where
  "ungroupPanes groups tabId groupCount =
     (case group_index groups tabId of
        None \<Rightarrow> (groups, groupCount)
      | Some index \<Rightarrow>
          (case g_root (groups ! index) of
             Pane _ \<Rightarrow> (groups, groupCount)
           | Split _ _ _ \<Rightarrow>
               (let (singles, given) =
                      singles_of (groups ! index) groupCount (group_panes (groups ! index))
                in (take index groups @ singles @ drop (index + 1) groups, given))))"

definition toggleZoom :: "TabGroup list \<Rightarrow> string \<Rightarrow> TabGroup list" where
  "toggleZoom groups tabId =
     (case group_index groups tabId of
        None \<Rightarrow> groups
      | Some index \<Rightarrow>
          (case g_root (groups ! index) of
             Pane _ \<Rightarrow> groups
           | Split _ _ _ \<Rightarrow>
               groups[index := (groups ! index)\<lparr>g_activeTabId := tabId,
                 g_zoomedTabId := (if g_zoomedTabId (groups ! index) = Some tabId then None
                                   else Some tabId)\<rparr>]))"

definition moveGroup :: "TabGroup list \<Rightarrow> int \<Rightarrow> int \<Rightarrow> TabGroup list" where
  "moveGroup groups fromIndex toIndex =
     (if fromIndex < 0 \<or> int (length groups) \<le> fromIndex \<or> toIndex < 0
         \<or> int (length groups) \<le> toIndex \<or> fromIndex = toIndex then groups
      else let moved = groups ! nat fromIndex;
               result = take (nat fromIndex) groups @ drop (Suc (nat fromIndex)) groups
           in insert_at (nat toIndex) moved result)"

definition getVisiblePaneIds :: "TabGroup list \<Rightarrow> string option \<Rightarrow> string list" where
  "getVisiblePaneIds groups activeTabId =
     (case (if truthy activeTabId then findGroupOfTab groups (the activeTabId) else None) of
        None \<Rightarrow> []
      | Some g \<Rightarrow> if truthy (g_zoomedTabId g) then [the (g_zoomedTabId g)] else group_panes g)"

section \<open>Invariants of groups\<close>

definition group_ok :: "TabGroup \<Rightarrow> bool" where
  "group_ok g \<longleftrightarrow> canonical (g_root g) \<and> g_activeTabId g \<in> set (group_panes g)
     \<and> set_option (g_zoomedTabId g) \<subseteq> set (group_panes g)"

definition groups_ok :: "TabGroup list \<Rightarrow> bool" where
  "groups_ok groups \<longleftrightarrow> (\<forall>g\<in>set groups. group_ok g)"

text \<open>The ids handed out so far: \<open>group-1\<close> to \<open>group-n\<close>, each in use at most once.\<close>

definition ids_ok :: "nat \<Rightarrow> TabGroup list \<Rightarrow> bool" where
  "ids_ok n groups \<longleftrightarrow> distinct (map g_id groups)
     \<and> set (map g_id groups) \<subseteq> group_name ` {1..n}"

lemma group_name_inject [simp]: "group_name m = group_name n \<longleftrightarrow> m = n"
  by (simp add: group_name_def)

lemma all_panes_simps [simp]:
  "all_panes [] = []"
  "all_panes (g # gs) = group_panes g @ all_panes gs"
  "all_panes (gs @ hs) = all_panes gs @ all_panes hs"
  by (simp_all add: all_panes_def)

lemma in_all_panes: "i \<in> set (all_panes gs) \<longleftrightarrow> (\<exists>g\<in>set gs. i \<in> set (group_panes g))"
  by (simp add: all_panes_def)

lemma single_group_simps [simp]:
  "g_id (single_group gid i) = gid"
  "g_root (single_group gid i) = Pane i"
  "g_activeTabId (single_group gid i) = i"
  "g_zoomedTabId (single_group gid i) = None"
  by (simp_all add: single_group_def paneLeaf_def)

lemma group_ok_single [simp]: "group_ok (single_group gid i)"
  by (simp add: group_ok_def)

lemma group_ok_no_empty: "group_ok g \<Longrightarrow> no_empty (g_root g)"
  by (simp add: group_ok_def canonical_no_empty)

lemma groups_ok_simps [simp]:
  "groups_ok []"
  "groups_ok (g # gs) \<longleftrightarrow> group_ok g \<and> groups_ok gs"
  "groups_ok (gs @ hs) \<longleftrightarrow> groups_ok gs \<and> groups_ok hs"
  by (auto simp: groups_ok_def)

lemma groups_okD: "groups_ok gs \<Longrightarrow> g \<in> set gs \<Longrightarrow> group_ok g"
  by (simp add: groups_ok_def)

lemma group_index_SomeD:
  assumes "group_index gs i = Some k"
  shows "k < length gs" and "i \<in> set (group_panes (gs ! k))"
  using find_index_SomeD [OF assms [unfolded group_index_def]] by auto

lemma group_index_None: "group_index gs i = None \<longleftrightarrow> i \<notin> set (all_panes gs)"
  by (auto simp: group_index_def find_index_None in_all_panes)

lemma findGroupOfTab_index: "findGroupOfTab gs i = map_option ((!) gs) (group_index gs i)"
  by (simp add: findGroupOfTab_def group_index_def find_index_find)

lemma findGroupOfTab_None: "findGroupOfTab gs i = None \<longleftrightarrow> i \<notin> set (all_panes gs)"
  by (simp add: findGroupOfTab_index group_index_None)

lemma findGroupOfTab_SomeD:
  assumes "findGroupOfTab gs i = Some g"
  shows "g \<in> set gs" and "i \<in> set (group_panes g)"
  using assms by (auto simp: findGroupOfTab_def find_Some_iff)

lemma all_panes_update:
  "k < length gs \<Longrightarrow> group_panes g = group_panes (gs ! k) \<Longrightarrow> all_panes (gs[k := g]) = all_panes gs"
  by (simp add: all_panes_def map_update_id)

lemma ids_update: "k < length gs \<Longrightarrow> g_id g = g_id (gs ! k) \<Longrightarrow> map g_id (gs[k := g]) = map g_id gs"
  by (rule map_update_id)

lemma ids_ok_cong: "map g_id gs = map g_id hs \<Longrightarrow> ids_ok n gs = ids_ok n hs"
  by (simp only: ids_ok_def)

lemma ids_ok_mono:
  assumes "ids_ok m gs" and "m \<le> n"
  shows "ids_ok n gs"
proof -
  have "group_name ` {1..m} \<subseteq> group_name ` {1..n}" using assms(2) by (intro image_mono) simp
  with assms(1) show ?thesis unfolding ids_ok_def by blast
qed

lemma groups_ok_update:
  "groups_ok gs \<Longrightarrow> group_ok g \<Longrightarrow> groups_ok (gs[k := g])"
  by (auto simp: groups_ok_def dest!: subsetD [OF set_update_subset_insert])


section \<open>Removing tabs from the groups\<close>

lemma keep_zoom_ok: "set_option (keep_zoom z ps) \<subseteq> set ps"
  by (auto simp: keep_zoom_def split: option.splits)

lemma nearestPane_in: "ps \<noteq> [] \<Longrightarrow> nearestPane order i ps \<in> set ps"
  by (auto simp: nearestPane_def Let_def find_Some_iff split: option.splits)

lemma remove_from_group_spec:
  assumes "group_ok g"
  shows "case remove_from_group ids g of
      None \<Rightarrow> filter (\<lambda>i. i \<notin> ids) (group_panes g) = []
    | Some g' \<Rightarrow> group_ok g' \<and> g_id g' = g_id g
        \<and> group_panes g' = filter (\<lambda>i. i \<notin> ids) (group_panes g)"
proof (cases "\<exists>i\<in>set (group_panes g). i \<in> ids")
  case False
  with assms show ?thesis
    by (auto simp: remove_from_group_def intro: filter_True [symmetric])
next
  case True
  note ne = group_ok_no_empty [OF assms]
  show ?thesis
  proof (cases "removePanes (g_root g) ids")
    case None
    with removePanes_None [OF ne, of ids] have gone: "set (group_panes g) \<subseteq> ids" by simp
    from True None have "remove_from_group ids g = None" by (simp add: remove_from_group_def)
    with gone show ?thesis by (auto simp: filter_empty_conv)
  next
    case (Some tree)
    note kept = removePanes_Some [OF ne Some]
    have "getPaneIds tree \<noteq> []" using canonical_no_empty [OF kept(1)] by (rule no_empty_panes)
    then have near: "nearestPane (group_panes g) (g_activeTabId g) (getPaneIds tree) \<in> set (getPaneIds tree)"
      by (rule nearestPane_in)
    let ?a = "if g_activeTabId g \<in> set (getPaneIds tree) then g_activeTabId g
      else nearestPane (group_panes g) (g_activeTabId g) (getPaneIds tree)"
    let ?g = "g\<lparr>g_root := tree, g_activeTabId := ?a, g_zoomedTabId := keep_zoom (g_zoomedTabId g) (getPaneIds tree)\<rparr>"
    have "group_ok ?g"
      using kept(1) near keep_zoom_ok [where z = "g_zoomedTabId g" and ps = "getPaneIds tree"] by (simp add: group_ok_def)
    moreover have "remove_from_group ids g = Some ?g"
      using True Some by (simp only: remove_from_group_def Let_def) simp
    ultimately show ?thesis using kept(2) by simp
  qed
qed

lemma map_filter_spec:
  assumes "groups_ok gs"
  shows "groups_ok (List.map_filter (remove_from_group ids) gs)"
    and "all_panes (List.map_filter (remove_from_group ids) gs) = filter (\<lambda>i. i \<notin> ids) (all_panes gs)"
    and "map g_id (List.map_filter (remove_from_group ids) gs)
       = map g_id (filter (\<lambda>g. remove_from_group ids g \<noteq> None) gs)"
  using assms
proof (induction gs)
  case Nil
  case 1 show ?case by (simp add: List.map_filter_def)
  case 2 show ?case by (simp add: List.map_filter_def)
  case 3 show ?case by (simp add: List.map_filter_def)
next
  case (Cons g gs)
  { case 1 with Cons(1) remove_from_group_spec [of g ids] show ?case
      by (auto simp: List.map_filter_def split: option.splits) }
  { case 2 with Cons(2) remove_from_group_spec [of g ids] show ?case
      by (auto simp: List.map_filter_def split: option.splits) }
  { case 3 with Cons(3) remove_from_group_spec [of g ids] show ?case
      by (auto simp: List.map_filter_def split: option.splits) }
qed

lemma groups_ok_removeTabsFromGroups [wf_intros]:
  "groups_ok gs \<Longrightarrow> groups_ok (removeTabsFromGroups gs ids)"
  by (simp add: removeTabsFromGroups_def map_filter_spec)

lemma all_panes_removeTabsFromGroups [pane_ids]:
  "groups_ok gs \<Longrightarrow> all_panes (removeTabsFromGroups gs ids) = filter (\<lambda>i. i \<notin> ids) (all_panes gs)"
  by (auto simp: removeTabsFromGroups_def map_filter_spec in_all_panes intro!: filter_True [symmetric])

lemma ids_ok_removeTabsFromGroups [wf_intros]:
  assumes "groups_ok gs" and "ids_ok n gs"
  shows "ids_ok n (removeTabsFromGroups gs ids)"
proof -
  have "distinct (map g_id (filter p gs))" for p
    using assms(2) by (auto simp: ids_ok_def intro: distinct_map_filter)
  moreover have "set (map g_id (filter p gs)) \<subseteq> set (map g_id gs)" for p by auto
  ultimately show ?thesis
    using assms by (auto simp: ids_ok_def removeTabsFromGroups_def map_filter_spec subset_iff
      simp del: set_map set_filter)
qed

section \<open>Reconciling the groups with the tabs\<close>

lemma stale_ids_subset: "set (stale_ids known seen is) \<subseteq> set is"
  by (induction known seen "is" rule: stale_ids.induct) auto

lemma stale_ids_in:
  "i \<in> set (stale_ids known seen is) \<longleftrightarrow> i \<in> set is \<and> (i \<notin> known \<or> i \<in> seen \<or> 2 \<le> count_list is i)"
proof (induction known seen "is" rule: stale_ids.induct)
  case (2 known seen j "is")
  have "count_list is i = 0 \<longleftrightarrow> i \<notin> set is" by (simp add: count_list_0_iff)
  then show ?case using 2 by (auto simp: Suc_le_eq)
qed simp

lemma distinct_count_le_1: "(\<And>x. count_list xs x \<le> 1) \<Longrightarrow> distinct xs"
proof (induction xs)
  case (Cons a xs)
  have "count_list xs x \<le> 1" for x using Cons.prems [of x] by (simp split: if_splits)
  moreover have "count_list xs a = 0" using Cons.prems [of a] by simp
  ultimately show ?case using Cons.IH by (simp add: count_list_0_iff)
qed simp

lemma count_list_filter_le: "count_list (filter p xs) x \<le> count_list xs x"
  by (induction xs) auto

lemma distinct_without_stale: "distinct (filter (\<lambda>i. i \<notin> set (stale_ids known seen is)) is)"
proof (rule distinct_count_le_1)
  fix x
  let ?kept = "filter (\<lambda>i. i \<notin> set (stale_ids known seen is)) is"
  show "count_list ?kept x \<le> 1"
  proof (cases "x \<in> set ?kept")
    case True
    then have "\<not> 2 \<le> count_list is x" by (auto simp: stale_ids_in)
    with count_list_filter_le [of "\<lambda>i. i \<notin> set (stale_ids known seen is)" "is" x]
    show ?thesis by simp
  next
    case False
    then show ?thesis by (simp add: count_notin)
  qed
qed

lemma stale_ids_none:
  "distinct is \<Longrightarrow> set is \<subseteq> known \<Longrightarrow> set is \<inter> seen = {} \<Longrightarrow> stale_ids known seen is = []"
  by (induction known seen "is" rule: stale_ids.induct) auto

lemma fresh_groups_spec [simp]:
  "groups_ok (fresh_groups n is)" "all_panes (fresh_groups n is) = is"
  "map g_id (fresh_groups n is) = map group_name [Suc n..<Suc (n + length is)]"
  by (induction n "is" rule: fresh_groups.induct) (auto simp: upt_conv_Cons)

lemma reconcile_result:
  assumes "groups_ok gs"
  shows "all_panes (if stale \<noteq> [] then removeTabsFromGroups gs (set stale) else gs)
    = filter (\<lambda>i. i \<notin> set stale) (all_panes gs)"
  using assms by (simp add: all_panes_removeTabsFromGroups)

lemma groups_ok_reconcileGroups [wf_intros]:
  "groups_ok gs \<Longrightarrow> groups_ok (fst (reconcileGroups gs tabIds n))"
  by (simp add: reconcileGroups_def Let_def groups_ok_removeTabsFromGroups)

lemma distinct_append_missing: "distinct ks \<Longrightarrow> distinct ts \<Longrightarrow> distinct (ks @ filter (\<lambda>i. i \<notin> set ks) ts)"
  by auto

lemma set_append_missing: "set ks \<subseteq> set ts \<Longrightarrow> set (ks @ filter (\<lambda>i. i \<notin> set ks) ts) = set ts"
  by auto

lemma all_panes_reconcileGroups:
  assumes "groups_ok gs" and "distinct tabIds"
  shows "distinct (all_panes (fst (reconcileGroups gs tabIds n)))"
    and "set (all_panes (fst (reconcileGroups gs tabIds n))) = set tabIds"
proof -
  let ?stale = "stale_ids (set tabIds) {} (all_panes gs)"
  let ?kept = "filter (\<lambda>i. i \<notin> set ?stale) (all_panes gs)"
  have panes: "all_panes (fst (reconcileGroups gs tabIds n))
      = ?kept @ filter (\<lambda>i. i \<notin> set ?kept) tabIds"
    by (simp add: reconcileGroups_def Let_def reconcile_result [OF assms(1)] del: set_filter)
  have known: "set ?kept \<subseteq> set tabIds" by (auto simp: stale_ids_in)
  show "distinct (all_panes (fst (reconcileGroups gs tabIds n)))"
    unfolding panes by (rule distinct_append_missing [OF distinct_without_stale assms(2)])
  show "set (all_panes (fst (reconcileGroups gs tabIds n))) = set tabIds"
    unfolding panes by (rule set_append_missing [OF known])
qed

lemma all_panes_reconcileGroups_same:
  assumes "distinct (all_panes gs)" and "set (all_panes gs) \<subseteq> set tabIds"
  shows "reconcileGroups gs tabIds n =
    (gs @ fresh_groups n (filter (\<lambda>i. i \<notin> set (all_panes gs)) tabIds),
     n + length (filter (\<lambda>i. i \<notin> set (all_panes gs)) tabIds))"
  using assms by (simp add: reconcileGroups_def Let_def stale_ids_none)

lemma ids_ok_append_fresh:
  assumes "ids_ok n gs"
  shows "ids_ok (n + length is) (gs @ fresh_groups n is)"
proof -
  let ?new = "map group_name [Suc n..<Suc (n + length is)]"
  have old: "distinct (map g_id gs)" "set (map g_id gs) \<subseteq> group_name ` {1..n}"
    using assms by (auto simp: ids_ok_def)
  have new: "distinct ?new" by (auto simp: distinct_map intro: inj_onI)
  have "group_name ` {1..n} \<inter> set ?new = {}" by auto
  with old(2) have disjoint: "set (map g_id gs) \<inter> set ?new = {}" by blast
  have "group_name ` {1..n} \<subseteq> group_name ` {1..n + length is}" by (intro image_mono) simp
  moreover have "set ?new \<subseteq> group_name ` {1..n + length is}" by auto
  ultimately have range: "set (map g_id gs @ ?new) \<subseteq> group_name ` {1..n + length is}"
    using old(2) by (simp only: set_append) blast
  show ?thesis
    unfolding ids_ok_def map_append fresh_groups_spec
    using old(1) new disjoint range by (simp only: distinct_append simp_thms)
qed

lemma ids_ok_reconcileGroups [wf_intros]:
  assumes "groups_ok gs" and "ids_ok n gs"
  shows "ids_ok (snd (reconcileGroups gs tabIds n)) (fst (reconcileGroups gs tabIds n))"
  using assms by (simp add: reconcileGroups_def Let_def ids_ok_append_fresh ids_ok_removeTabsFromGroups)

end
