(* ===== verification/Group_Moves.thy ===== *)
theory Group_Moves
  imports Tab_Groups
begin

text \<open>
  What each change of the groups in \<open>Tab_Groups\<close> does to the panes, to the
  invariant of each group and to the groups' ids: focusing and zooming move no
  pane, placing, merging and breaking out move exactly the panes they name, and
  none loses or doubles one.
\<close>

lemma distinct_all_panes_nth:
  assumes "distinct (all_panes gs)" and "i < length gs" and "j < length gs" and "i \<noteq> j"
  shows "set (group_panes (gs ! i)) \<inter> set (group_panes (gs ! j)) = {}"
  using assms
proof (induction gs arbitrary: i j)
  case (Cons g gs)
  have disjoint: "set (group_panes g) \<inter> set (group_panes (gs ! k)) = {}" if "k < length gs" for k
  proof -
    have "set (group_panes (gs ! k)) \<subseteq> set (all_panes gs)"
      using nth_mem [OF that] by (auto simp: in_all_panes)
    with Cons.prems(1) show ?thesis by auto
  qed
  show ?case
  proof (cases i)
    case 0
    with Cons.prems disjoint show ?thesis by (cases j) auto
  next
    case (Suc i')
    show ?thesis
    proof (cases j)
      case 0
      with Suc Cons.prems disjoint [of i'] show ?thesis by auto
    next
      case (Suc j')
      with \<open>i = Suc i'\<close> Cons show ?thesis by simp
    qed
  qed
qed simp

lemma all_panes_nth: "all_panes gs = concat (map (\<lambda>k. group_panes (gs ! k)) [0..<length gs])"
proof -
  have "map group_panes gs = map (\<lambda>k. group_panes (gs ! k)) [0..<length gs]"
    by (rule nth_equalityI) auto
  then show ?thesis by (simp only: all_panes_def)
qed

lemma distinct_group_panes: "distinct (all_panes gs) \<Longrightarrow> g \<in> set gs \<Longrightarrow> distinct (group_panes g)"
  by (auto simp: all_panes_def distinct_concat_iff)

lemma group_okI_update:
  assumes "canonical tree" and "i \<in> set (getPaneIds tree)" and "set_option z \<subseteq> set (getPaneIds tree)"
  shows "group_ok (g\<lparr>g_root := tree, g_activeTabId := i, g_zoomedTabId := z\<rparr>)"
  using assms by (simp add: group_ok_def)

lemma group_ok_focus:
  "group_ok g \<Longrightarrow> i \<in> set (group_panes g) \<Longrightarrow> set_option z \<subseteq> {i}
    \<Longrightarrow> group_ok (g\<lparr>g_activeTabId := i, g_zoomedTabId := z\<rparr>)"
  by (auto simp: group_ok_def)

section \<open>Focusing and zooming\<close>

lemma focusPaneInGroups_panes [pane_ids, simp]:
  "all_panes (focusPaneInGroups gs i) = all_panes gs"
  "map g_id (focusPaneInGroups gs i) = map g_id gs"
  "map g_root (focusPaneInGroups gs i) = map g_root gs"
  by (auto simp: focusPaneInGroups_def Let_def all_panes_update ids_update map_update_id
      dest: group_index_SomeD(1) split: option.splits)

lemma groups_ok_focusPaneInGroups [wf_intros]:
  assumes "groups_ok gs"
  shows "groups_ok (focusPaneInGroups gs i)"
proof (cases "group_index gs i")
  case (Some k)
  note k = group_index_SomeD [OF Some]
  have "group_ok ((gs ! k)\<lparr>g_activeTabId := i, g_zoomedTabId := z\<rparr>)" if "set_option z \<subseteq> {i}" for z
    using assms k that by (intro group_ok_focus) (auto simp: groups_ok_def)
  then have "groups_ok (gs[k := (gs ! k)\<lparr>g_activeTabId := i, g_zoomedTabId := z\<rparr>])"
    if "set_option z \<subseteq> {i}" for z using assms that by (intro groups_ok_update) auto
  with Some assms show ?thesis by (simp add: focusPaneInGroups_def Let_def)
qed (simp add: focusPaneInGroups_def assms)

lemma group_index_map_root:
  "map g_root gs = map g_root hs \<Longrightarrow> group_index gs i = group_index hs i"
proof (induction gs arbitrary: hs)
  case (Cons g gs)
  then obtain h hs' where "hs = h # hs'" by (cases hs) auto
  with Cons show ?case by (simp add: group_index_def)
qed simp

lemma focusPaneInGroups_active:
  assumes "group_index gs i = Some k"
  shows "g_activeTabId (focusPaneInGroups gs i ! k) = i"
    and "truthy (g_zoomedTabId (focusPaneInGroups gs i ! k)) \<Longrightarrow>
      g_zoomedTabId (focusPaneInGroups gs i ! k) = Some i"
  using assms group_index_SomeD(1) [OF assms]
  by (auto simp: focusPaneInGroups_def Let_def split: if_splits)

lemma toggleZoom_panes [pane_ids, simp]:
  "all_panes (toggleZoom gs i) = all_panes gs"
  "map g_id (toggleZoom gs i) = map g_id gs"
  by (auto simp: toggleZoom_def all_panes_update ids_update
      dest: group_index_SomeD(1) split: option.splits PaneNode.splits)

lemma groups_ok_toggleZoom [wf_intros]:
  assumes "groups_ok gs"
  shows "groups_ok (toggleZoom gs i)"
proof (cases "group_index gs i")
  case (Some k)
  note k = group_index_SomeD [OF Some]
  have "groups_ok (gs[k := (gs ! k)\<lparr>g_activeTabId := i, g_zoomedTabId := z\<rparr>])"
    if "set_option z \<subseteq> {i}" for z
    using assms k that by (intro groups_ok_update group_ok_focus) (auto simp: groups_ok_def)
  with Some assms show ?thesis by (simp add: toggleZoom_def split: PaneNode.splits)
qed (simp add: toggleZoom_def assms)

section \<open>Placing a pane\<close>

lemma groups_ok_placePane [wf_intros]:
  assumes "groups_ok gs"
  shows "groups_ok (placePane gs i target direction)"
proof -
  have "group_ok (g\<lparr>g_root := insertNextTo (g_root g) target (paneLeaf i) direction,
      g_activeTabId := i, g_zoomedTabId := None\<rparr>)"
    if "group_ok g" "target \<in> set (group_panes g)" for g
    using that by (intro group_okI_update canonical_insertNextTo)
      (auto simp: group_ok_no_empty set_insertNextTo paneLeaf_def)
  with assms groups_ok_removeTabsFromGroups [OF assms, of "{i}"] show ?thesis
    by (auto simp: placePane_def groups_ok_def)
qed

lemma ids_ok_placePane [wf_intros]:
  assumes "groups_ok gs" and "ids_ok n gs"
  shows "ids_ok n (placePane gs i target direction)"
proof -
  have "map g_id (map (\<lambda>g. if target \<in> set (group_panes g) then f g else g) hs) = map g_id hs"
    if "\<And>g. g_id (f g) = g_id g" for hs and f :: "TabGroup \<Rightarrow> TabGroup"
    using that by simp
  then have "ids_ok n (placePane gs i target direction) =
      ids_ok n (if i = target \<or> findGroupOfTab gs target = None then gs
        else removeTabsFromGroups gs {i})"
    by (intro ids_ok_cong) (simp add: placePane_def)
  with assms show ?thesis by (simp add: ids_ok_removeTabsFromGroups)
qed

lemma concat_map_concat: "concat (map f (concat xss)) = concat (map (\<lambda>xs. concat (map f xs)) xss)"
  by (induction xss) auto

lemma all_panes_placePane [pane_ids]:
  assumes "groups_ok gs" and "distinct (all_panes gs)" and "i \<noteq> target"
    and "target \<in> set (all_panes gs)"
  shows "all_panes (placePane gs i target direction)
    = concat (map (put_beside direction target [i]) (filter (\<lambda>j. j \<noteq> i) (all_panes gs)))"
proof -
  let ?without = "removeTabsFromGroups gs {i}"
  have panes: "all_panes ?without = filter (\<lambda>j. j \<noteq> i) (all_panes gs)"
    using assms(1) by (simp add: all_panes_removeTabsFromGroups)
  have each: "group_panes (if target \<in> set (group_panes g)
        then g\<lparr>g_root := insertNextTo (g_root g) target (paneLeaf i) direction,
               g_activeTabId := i, g_zoomedTabId := None\<rparr> else g)
      = concat (map (put_beside direction target [i]) (group_panes g))" if "g \<in> set ?without" for g
  proof (cases "target \<in> set (group_panes g)")
    case True
    have "distinct (group_panes g)"
      using that panes assms(2) by (intro distinct_group_panes [of ?without]) auto
    with True show ?thesis by (simp add: getPaneIds_insertNextTo paneLeaf_def)
  next
    case False
    then show ?thesis by (simp add: put_beside_other)
  qed
  have "all_panes (placePane gs i target direction)
      = concat (map (\<lambda>g. concat (map (put_beside direction target [i]) (group_panes g))) ?without)"
    using assms(3,4) each
    by (auto simp: placePane_def findGroupOfTab_None all_panes_def comp_def intro!: arg_cong [where f = concat])
  also have "\<dots> = concat (map (put_beside direction target [i]) (all_panes ?without))"
    by (simp add: all_panes_def concat_map_concat comp_def)
  finally show ?thesis by (simp add: panes)
qed


section \<open>Merging two groups\<close>

abbreviation merged_part :: "TabGroup list \<Rightarrow> nat \<Rightarrow> nat \<Rightarrow> string \<Rightarrow> SplitDirection \<Rightarrow> nat \<Rightarrow> TabGroup list" where
  "merged_part gs source target targetTabId direction k \<equiv>
     (if k = source then []
      else if k = target
      then [(gs ! k)\<lparr>g_root := insertNextTo (g_root (gs ! k)) targetTabId (g_root (gs ! source)) direction,
                     g_activeTabId := g_activeTabId (gs ! source), g_zoomedTabId := None\<rparr>]
      else [gs ! k])"

lemma mergeGroup_cases:
  obtains (same) "mergeGroup gs i target direction = gs"
  | (merged) s t where "group_index gs i = Some s" "group_index gs target = Some t" "s \<noteq> t"
      "mergeGroup gs i target direction
        = concat (map (merged_part gs s t target direction) [0..<length gs])"
  by (cases "group_index gs i"; cases "group_index gs target";
      cases "group_index gs i = group_index gs target") (auto simp: mergeGroup_def)

lemma groups_ok_mergeGroup [wf_intros]:
  assumes "groups_ok gs"
  shows "groups_ok (mergeGroup gs i target direction)"
proof (cases rule: mergeGroup_cases [of gs i target direction])
  case same
  with assms show ?thesis by simp
next
  case (merged s t)
  note s = group_index_SomeD [OF merged(1)] and t = group_index_SomeD [OF merged(2)]
  have ok: "group_ok (gs ! k)" if "k < length gs" for k
    using assms that by (simp add: groups_ok_def)
  have "group_ok ((gs ! t)\<lparr>g_root := insertNextTo (g_root (gs ! t)) target (g_root (gs ! s)) direction,
      g_activeTabId := g_activeTabId (gs ! s), g_zoomedTabId := None\<rparr>)"
    using ok [OF s(1)] ok [OF t(1)] t(2)
    by (intro group_okI_update canonical_insertNextTo)
      (auto simp: group_ok_no_empty set_insertNextTo group_ok_def)
  with ok show ?thesis unfolding merged(4) groups_ok_def by (auto split: if_splits)
qed

lemma ids_ok_mergeGroup [wf_intros]:
  assumes "ids_ok n gs"
  shows "ids_ok n (mergeGroup gs i target direction)"
proof (cases rule: mergeGroup_cases [of gs i target direction])
  case same
  with assms show ?thesis by simp
next
  case (merged s t)
  have ids: "map g_id (concat (map (merged_part gs s t target direction) ks))
      = map (\<lambda>k. g_id (gs ! k)) (filter (\<lambda>k. k \<noteq> s) ks)" for ks
    by (induction ks) auto
  have all: "map (\<lambda>k. g_id (gs ! k)) [0..<length gs] = map g_id gs"
    by (rule nth_equalityI) auto
  have "distinct (map (\<lambda>k. g_id (gs ! k)) (filter (\<lambda>k. k \<noteq> s) [0..<length gs]))"
    using assms unfolding ids_ok_def all [symmetric] by (intro distinct_map_filter) simp
  moreover have "set (map (\<lambda>k. g_id (gs ! k)) (filter (\<lambda>k. k \<noteq> s) [0..<length gs])) \<subseteq> set (map g_id gs)"
    unfolding all [symmetric] by auto
  ultimately show ?thesis
    using assms unfolding merged(4) ids_ok_def ids by blast
qed

lemma mergeGroup_length:
  assumes "mergeGroup gs i target direction \<noteq> gs"
  shows "length (mergeGroup gs i target direction) < length gs"
proof (cases rule: mergeGroup_cases [of gs i target direction])
  case same
  with assms show ?thesis by simp
next
  case (merged s t)
  have "length (concat (map (merged_part gs s t target direction) ks)) = length (filter (\<lambda>k. k \<noteq> s) ks)" for ks
    by (induction ks) auto
  then show ?thesis
    using merged(4) group_index_SomeD(1) [OF merged(1)]
      length_filter_less [of s "[0..<length gs]" "\<lambda>k. k \<noteq> s"] by simp
qed

lemma all_panes_mergeGroup [pane_ids]:
  assumes "distinct (all_panes gs)"
    and "group_index gs i = Some s" and "group_index gs target = Some t" and "s \<noteq> t"
  shows "all_panes (mergeGroup gs i target direction)
    = concat (map (put_beside direction target (group_panes (gs ! s)))
        (filter (\<lambda>j. j \<notin> set (group_panes (gs ! s))) (all_panes gs)))"
proof -
  let ?src = "group_panes (gs ! s)"
  let ?put = "put_beside direction target ?src"
  note s = group_index_SomeD [OF assms(2)] and t = group_index_SomeD [OF assms(3)]
  have part: "all_panes (merged_part gs s t target direction k)
      = concat (map ?put (filter (\<lambda>j. j \<notin> set ?src) (group_panes (gs ! k))))"
    if "k < length gs" for k
  proof (cases "k = s")
    case True
    then show ?thesis by simp
  next
    case False
    then have "set (group_panes (gs ! k)) \<inter> set ?src = {}"
      using distinct_all_panes_nth [OF assms(1) that s(1)] by simp
    then have kept: "filter (\<lambda>j. j \<notin> set ?src) (group_panes (gs ! k)) = group_panes (gs ! k)"
      by (auto intro: filter_True)
    show ?thesis
    proof (cases "k = t")
      case True
      with False kept assms(1) that show ?thesis
        by (simp add: getPaneIds_insertNextTo distinct_group_panes)
    next
      case other: False
      then have "target \<notin> set (group_panes (gs ! k))"
        using distinct_all_panes_nth [OF assms(1) that t(1)] t(2) by auto
      with False other kept show ?thesis by (simp add: put_beside_other)
    qed
  qed
  have "all_panes (concat (map f ks)) = concat (map (\<lambda>k. all_panes (f k)) ks)" for f and ks :: "nat list"
    by (induction ks) auto
  then have "all_panes (mergeGroup gs i target direction)
      = concat (map (\<lambda>k. all_panes (merged_part gs s t target direction k)) [0..<length gs])"
    using assms(2-4) by (simp add: mergeGroup_def)
  also have "\<dots> = concat (map (\<lambda>k. concat (map ?put (filter (\<lambda>j. j \<notin> set ?src) (group_panes (gs ! k))))) [0..<length gs])"
    using part by (intro arg_cong [where f = concat] map_cong) auto
  also have "\<dots> = concat (map ?put (filter (\<lambda>j. j \<notin> set ?src) (all_panes gs)))"
    unfolding all_panes_nth [of gs] by (simp add: filter_concat concat_map_concat comp_def)
  finally show ?thesis .
qed

section \<open>Breaking out and ungrouping\<close>

lemma clamp_index_le: "clamp_index k n \<le> n"
  by (simp add: clamp_index_def)

lemma groups_ok_insert_at [simp]: "groups_ok (insert_at k g gs) \<longleftrightarrow> group_ok g \<and> groups_ok gs"
  by (auto simp: groups_ok_def)

lemma ids_ok_insert_at:
  assumes "ids_ok n gs" and "g_id g = group_name (Suc n)"
  shows "ids_ok (Suc n) (insert_at k g gs)"
proof -
  have new: "g_id g \<notin> set (map g_id gs)" using assms by (fastforce simp: ids_ok_def)
  have "mset (map g_id (insert_at k g gs)) = mset (g_id g # map g_id gs)"
    by (simp only: mset_map mset_insert_at mset.simps(2)) simp
  then have "distinct (map g_id (insert_at k g gs)) = distinct (g_id g # map g_id gs)"
    by (rule mset_eq_imp_distinct_iff)
  with assms(1) new have "distinct (map g_id (insert_at k g gs))"
    by (simp add: ids_ok_def)
  moreover have "g_id g \<in> group_name ` {1..Suc n}" using assms(2) by auto
  moreover have "group_name ` {1..n} \<subseteq> group_name ` {1..Suc n}" by (intro image_mono) auto
  ultimately show ?thesis
    using assms(1) unfolding ids_ok_def set_map set_insert_at by blast
qed

lemma breakOutPane_cases:
  obtains (same) "breakOutPane gs i gid index = gs"
  | (broken) source k where "findGroupOfTab gs i = Some source" "2 \<le> length (group_panes source)"
      "k \<le> length (removeTabsFromGroups gs {i})"
      "breakOutPane gs i gid index = insert_at k (single_group gid i) (removeTabsFromGroups gs {i})"
proof (cases "findGroupOfTab gs i")
  case None
  then show ?thesis using same by (simp add: breakOutPane_def)
next
  case (Some source)
  show ?thesis
  proof (cases "length (group_panes source) < 2")
    case True
    with Some show ?thesis using same by (simp add: breakOutPane_def)
  next
    case False
    show ?thesis
    proof (rule broken [OF Some _ clamp_index_le])
      show "2 \<le> length (group_panes source)" using False by simp
      show "breakOutPane gs i gid index = insert_at
          (clamp_index (or_default index (case find_index (\<lambda>g. g_id g = g_id source)
              (removeTabsFromGroups gs {i}) of None \<Rightarrow> 0 | Some k \<Rightarrow> int k + 1))
            (length (removeTabsFromGroups gs {i})))
          (single_group gid i) (removeTabsFromGroups gs {i})"
        using Some False by (simp add: breakOutPane_def Let_def)
    qed
  qed
qed

lemma groups_ok_breakOutPane [wf_intros]:
  "groups_ok gs \<Longrightarrow> groups_ok (breakOutPane gs i gid index)"
  by (cases rule: breakOutPane_cases [of gs i gid index]) (auto simp: groups_ok_removeTabsFromGroups)

lemma ids_ok_breakOutPane [wf_intros]:
  assumes "groups_ok gs" "ids_ok n gs"
  shows "ids_ok (Suc n) (breakOutPane gs i (group_name (Suc n)) index)"
proof (cases rule: breakOutPane_cases [of gs i "group_name (Suc n)" index])
  case same
  then show ?thesis using assms(2) ids_ok_mono [of n gs "Suc n"] by simp
next
  case (broken source k)
  then show ?thesis
    using ids_ok_insert_at [OF ids_ok_removeTabsFromGroups [OF assms]] by simp
qed

lemma mset_all_panes_insert_at:
  "mset (all_panes (insert_at k g gs)) = mset (group_panes g) + mset (all_panes gs)"
proof -
  have "mset (all_panes gs) = mset (all_panes (take k gs)) + mset (all_panes (drop k gs))"
    by (metis all_panes_simps(3) append_take_drop_id mset_append)
  then show ?thesis by (simp add: insert_at_def)
qed

lemma breakOutPane_panes:
  assumes "groups_ok gs" and "distinct (all_panes gs)"
  shows "mset (all_panes (breakOutPane gs i gid index)) = mset (all_panes gs)"
proof (cases rule: breakOutPane_cases [of gs i gid index])
  case same
  then show ?thesis by simp
next
  case (broken source k)
  then have "i \<in> set (all_panes gs)" by (metis findGroupOfTab_None option.distinct(1))
  then have "count (mset (all_panes gs)) i = 1"
    using assms(2) by (simp add: distinct_count_atmost_1)
  moreover have "mset (filter (\<lambda>j. j \<noteq> i) (all_panes gs)) = filter_mset (\<lambda>j. j \<noteq> i) (mset (all_panes gs))"
    by simp
  ultimately show ?thesis
    using broken(4) assms(1)
    by (simp add: mset_all_panes_insert_at all_panes_removeTabsFromGroups)
      (auto simp: multiset_eq_iff)
qed

lemma singles_of_groups:
  "groups_ok (fst (singles_of source n ps))"
  "all_panes (fst (singles_of source n ps)) = ps"
  "map g_root (fst (singles_of source n ps)) = map Pane ps"
  by (induction source n ps rule: singles_of.induct) (auto split: prod.splits)

lemma singles_of_mono: "n \<le> snd (singles_of source n ps)"
  by (induction source n ps rule: singles_of.induct) (auto split: prod.splits)

text \<open>New ids are above \<open>n\<close>; only the active pane takes the id of \<open>source\<close>.\<close>

lemma singles_of_ids:
  "set (map g_id (fst (singles_of source n ps)))
    \<subseteq> (if g_activeTabId source \<in> set ps then {g_id source} else {})
       \<union> group_name ` {Suc n..snd (singles_of source n ps)}"
proof (induction source n ps rule: singles_of.induct)
  case (2 source n p ps)
  show ?case
  proof (cases "p = g_activeTabId source")
    case True
    obtain rest m where "singles_of source n ps = (rest, m)" by fastforce
    with True 2(1) [OF True] show ?thesis by (auto split: if_splits)
  next
    case False
    obtain rest m where rest: "singles_of source (Suc n) ps = (rest, m)" by fastforce
    then have "Suc n \<le> m" using singles_of_mono [of "Suc n" source ps] by simp
    moreover have "group_name ` {Suc (Suc n)..m} \<subseteq> group_name ` {Suc n..m}" by (intro image_mono) auto
    ultimately show ?thesis using False 2(2) [OF False] rest by (auto split: if_splits)
  qed
qed simp

lemma distinct_singles_of:
  assumes "distinct ps" and "g_id source \<notin> group_name ` {Suc n..}"
  shows "distinct (map g_id (fst (singles_of source n ps)))"
  using assms
proof (induction source n ps rule: singles_of.induct)
  case (2 source n p ps)
  show ?case
  proof (cases "p = g_activeTabId source")
    case True
    obtain rest m where rest: "singles_of source n ps = (rest, m)" by fastforce
    from True "2.prems"(1) have "g_activeTabId source \<notin> set ps" by simp
    with singles_of_ids [of source n ps] rest have "set (map g_id rest) \<subseteq> group_name ` {Suc n..m}" by simp
    moreover have "group_name ` {Suc n..m} \<subseteq> group_name ` {Suc n..}" by (intro image_mono) auto
    ultimately have "g_id source \<notin> set (map g_id rest)" using "2.prems"(2) by blast
    with True "2.IH"(1) [OF True] "2.prems" rest show ?thesis by simp
  next
    case False
    obtain rest m where rest: "singles_of source (Suc n) ps = (rest, m)" by fastforce
    from singles_of_ids [of source "Suc n" ps] rest
    have "set (map g_id rest) \<subseteq> {g_id source} \<union> group_name ` {Suc (Suc n)..m}"
      by (auto split: if_splits)
    moreover have "group_name (Suc n) \<in> group_name ` {Suc n..}" by simp
    then have "group_name (Suc n) \<noteq> g_id source" using "2.prems"(2) by metis
    moreover have "group_name (Suc n) \<notin> group_name ` {Suc (Suc n)..m}" by auto
    ultimately have "group_name (Suc n) \<notin> set (map g_id rest)" by blast
    moreover have "group_name ` {Suc (Suc n)..} \<subseteq> group_name ` {Suc n..}" by (intro image_mono) auto
    then have "g_id source \<notin> group_name ` {Suc (Suc n)..}" using "2.prems"(2) by blast
    ultimately show ?thesis using False "2.IH"(2) [OF False] "2.prems"(1) rest by simp
  qed
qed simp

lemma ungroupPanes_cases:
  obtains (same) "ungroupPanes gs i n = (gs, n)"
  | (apart) k where "group_index gs i = Some k" "k < length gs"
      "ungroupPanes gs i n =
        (take k gs @ fst (singles_of (gs ! k) n (group_panes (gs ! k))) @ drop (Suc k) gs,
         snd (singles_of (gs ! k) n (group_panes (gs ! k))))"
proof (cases "group_index gs i")
  case None
  then show ?thesis using same by (simp add: ungroupPanes_def)
next
  case (Some k)
  show ?thesis
  proof (cases "g_root (gs ! k)")
    case (Pane j)
    with Some show ?thesis using same by (simp add: ungroupPanes_def)
  next
    case Split
    then show ?thesis
      using apart [OF Some group_index_SomeD(1) [OF Some]] Some
      by (simp add: ungroupPanes_def split: prod.splits)
  qed
qed

lemma groups_ok_split: "groups_ok gs \<Longrightarrow> groups_ok (take k gs) \<and> groups_ok (drop k gs)"
  by (auto simp: groups_ok_def dest: in_set_takeD in_set_dropD)

lemma groups_ok_ungroupPanes [wf_intros]:
  "groups_ok gs \<Longrightarrow> groups_ok (fst (ungroupPanes gs i n))"
  by (cases rule: ungroupPanes_cases [of gs i n]) (simp_all add: singles_of_groups groups_ok_split)

lemma all_panes_split_at: "k < length gs \<Longrightarrow>
  all_panes gs = all_panes (take k gs) @ group_panes (gs ! k) @ all_panes (drop (Suc k) gs)"
  by (metis all_panes_simps(2,3) id_take_nth_drop)

lemma all_panes_ungroupPanes [pane_ids, simp]:
  "all_panes (fst (ungroupPanes gs i n)) = all_panes gs"
  by (cases rule: ungroupPanes_cases [of gs i n])
    (simp_all add: singles_of_groups all_panes_split_at [symmetric])

lemma ids_ok_ungroupPanes [wf_intros]:
  assumes "ids_ok n gs" and "distinct (all_panes gs)"
  shows "ids_ok (snd (ungroupPanes gs i n)) (fst (ungroupPanes gs i n))"
proof (cases rule: ungroupPanes_cases [of gs i n])
  case same
  with assms(1) show ?thesis by simp
next
  case (apart k)
  let ?g = "gs ! k" and ?m = "snd (singles_of (gs ! k) n (group_panes (gs ! k)))"
  let ?new = "map g_id (fst (singles_of ?g n (group_panes ?g)))"
  have ids: "map g_id gs = map g_id (take k gs) @ g_id ?g # map g_id (drop (Suc k) gs)"
    using apart(2) by (metis id_take_nth_drop list.simps(9) map_append)
  have old: "distinct (map g_id gs)" "set (map g_id gs) \<subseteq> group_name ` {1..n}"
    using assms(1) by (auto simp: ids_ok_def)
  have src: "g_id ?g \<in> group_name ` {1..n}" using old(2) ids by auto
  then have "g_id ?g \<notin> group_name ` {Suc n..}" by auto
  then have new: "distinct ?new"
    using distinct_group_panes [OF assms(2) nth_mem [OF apart(2)]] by (intro distinct_singles_of)
  have sub: "set ?new \<subseteq> {g_id ?g} \<union> group_name ` {Suc n..?m}"
    using singles_of_ids [of ?g n "group_panes ?g"] by (auto split: if_splits)
  have above: "group_name ` {1..n} \<inter> group_name ` {Suc n..?m} = {}" by auto
  have rest: "set (map g_id (take k gs)) \<union> set (map g_id (drop (Suc k) gs)) \<subseteq> group_name ` {1..n} - {g_id ?g}"
  proof -
    have "g_id ?g \<notin> set (map g_id (take k gs)) \<union> set (map g_id (drop (Suc k) gs))"
      using old(1) unfolding ids by simp
    then show ?thesis using old(2) unfolding ids set_append list.set(2) by blast
  qed
  have "n \<le> ?m" by (rule singles_of_mono)
  then have "group_name ` {1..n} \<union> group_name ` {Suc n..?m} \<subseteq> group_name ` {1..?m}" by auto
  with src rest sub have range: "set (map g_id (take k gs) @ ?new @ map g_id (drop (Suc k) gs))
      \<subseteq> group_name ` {1..?m}" unfolding set_append by blast
  have "set ?new \<inter> (set (map g_id (take k gs)) \<union> set (map g_id (drop (Suc k) gs))) = {}"
    using sub rest above by blast
  moreover have "distinct (map g_id (take k gs) @ map g_id (drop (Suc k) gs))"
    using old(1) unfolding ids by simp
  ultimately have "distinct (map g_id (take k gs) @ ?new @ map g_id (drop (Suc k) gs))"
    using new unfolding distinct_append set_append by blast
  with range show ?thesis unfolding apart(3) ids_ok_def fst_conv snd_conv map_append by blast
qed

section \<open>Moving a group in the bar\<close>

lemma mset_moveGroup: "mset (moveGroup gs a b) = mset gs"
proof (cases "a < 0 \<or> int (length gs) \<le> a \<or> b < 0 \<or> int (length gs) \<le> b \<or> a = b")
  case True
  then have "moveGroup gs a b = gs" unfolding moveGroup_def by (simp only: if_True)
  then show ?thesis by simp
next
  case False
  then have "nat a < length gs" by auto
  then have "mset gs = mset (take (nat a) gs @ gs ! nat a # drop (Suc (nat a)) gs)"
    by (metis id_take_nth_drop)
  moreover have "moveGroup gs a b =
      insert_at (nat b) (gs ! nat a) (take (nat a) gs @ drop (Suc (nat a)) gs)"
    using False unfolding moveGroup_def Let_def by (simp only: if_False)
  ultimately show ?thesis by simp
qed

lemma groups_ok_moveGroup [wf_intros]: "groups_ok gs \<Longrightarrow> groups_ok (moveGroup gs a b)"
  by (metis groups_ok_def mset_moveGroup set_mset_mset)

lemma ids_ok_moveGroup [wf_intros]: "ids_ok n gs \<Longrightarrow> ids_ok n (moveGroup gs a b)"
proof -
  have "mset (map g_id (moveGroup gs a b)) = mset (map g_id gs)"
    by (simp add: mset_moveGroup)
  then show "ids_ok n gs \<Longrightarrow> ids_ok n (moveGroup gs a b)"
    unfolding ids_ok_def by (metis mset_eq_imp_distinct_iff mset_eq_setD)
qed

end
