(* ===== verification/Json.thy ===== *)
theory Json
  imports Js_String
begin

text \<open>
  Values of type \<open>unknown\<close> that the source reads from a session file, a config or
  the backend: what \<open>JSON.parse\<close> yields. An object is its properties in order; a
  property is found by its name, and a missing one is \<open>undefined\<close>, here \<open>None\<close>.
  A JSON number is finite, so \<open>Number.isFinite\<close> holds of every \<open>JNum\<close>.
\<close>

datatype json =
    JNull
  | JBool bool
  | JNum rat
  | JStr string
  | JArr "json list"
  | JObj "(string \<times> json) list"

text \<open>\<open>value.name\<close> on an object; other values have none of the properties the source asks for.\<close>

fun field :: "json \<Rightarrow> string \<Rightarrow> json option" where
  "field (JObj props) name = map_of props name"
| "field _ name = None"

text \<open>\<open>typeof value === "object" && value !== null\<close>: objects and arrays.\<close>

fun is_object :: "json \<Rightarrow> bool" where
  "is_object (JObj _) = True"
| "is_object (JArr _) = True"
| "is_object _ = False"

text \<open>\<open>isRecord\<close>: an object that is no array.\<close>

fun isRecord :: "json \<Rightarrow> bool" where
  "isRecord (JObj _) = True"
| "isRecord _ = False"

definition string_field :: "json \<Rightarrow> string \<Rightarrow> string option" where
  "string_field v name = (case field v name of Some (JStr s) \<Rightarrow> Some s | _ \<Rightarrow> None)"

definition array_field :: "json \<Rightarrow> string \<Rightarrow> json list option" where
  "array_field v name = (case field v name of Some (JArr xs) \<Rightarrow> Some xs | _ \<Rightarrow> None)"

lemma size_field: "field v name = Some w \<Longrightarrow> size w < size v"
proof (induction v name rule: field.induct)
  case (1 props name)
  then have "map_of props name = Some w" by simp
  then have "(name, w) \<in> set props" by (rule map_of_SomeD)
  then have "size w < size_list (size_prod (\<lambda>_. 0) size) props"
    by (induction props) auto
  then show ?case by simp
qed auto

lemma size_array_field:
  assumes "array_field v name = Some xs" and "x \<in> set xs"
  shows "size x < size v"
proof -
  from assms(1) have "field v name = Some (JArr xs)"
    by (auto simp: array_field_def split: option.splits json.splits)
  then have "size (JArr xs) < size v" by (rule size_field)
  moreover have "size x < size (JArr xs)"
    using size_list_estimation' [OF assms(2), of "size x" size] by simp
  ultimately show ?thesis by simp
qed

lemma array_field_isRecord: "array_field v name = Some xs \<Longrightarrow> isRecord v"
  by (cases v) (auto simp: array_field_def)

end
