(* ===== verification/Pane_Templates.thy ===== *)
theory Pane_Templates
  imports Group_Moves Json
begin

text \<open>
  Layout templates (\<open>src/src/lib/paneTemplates.ts\<close>): the shape of a split tab,
  reading saved shapes back with their bounds, and laying a group out as a
  shape. \<open>fillShape\<close> is called with as many ids as the shape has panes; a pane it
  had no id for would hold \<open>undefined\<close>, here the empty string.
\<close>

section \<open>Shapes\<close>

datatype LayoutShape =
    ShapePane
  | ShapeSplit SplitOrientation "LayoutShape list" "rat list"

record PaneLayoutTemplate =
  tpl_id :: string
  tpl_name :: string
  tpl_root :: LayoutShape

definition MAX_TEMPLATE_PANES :: nat where "MAX_TEMPLATE_PANES = 9"
definition MAX_TEMPLATE_DEPTH :: nat where "MAX_TEMPLATE_DEPTH = 4"
definition MAX_SAVED_TEMPLATES :: nat where "MAX_SAVED_TEMPLATES = 30"

definition shape_split :: "SplitOrientation \<Rightarrow> LayoutShape list \<Rightarrow> rat list option \<Rightarrow> LayoutShape" where
  "shape_split ori children sizes =
     ShapeSplit ori children (or_default sizes (map (\<lambda>_. 1 / of_nat (length children)) children))"

definition BUILTIN_PANE_TEMPLATES :: "(string \<times> PaneLayoutTemplate) list" where
  "BUILTIN_PANE_TEMPLATES =
    [(''columns2'', \<lparr>tpl_id = ''builtin:columns-2'', tpl_name = '''',
        tpl_root = shape_split Horizontal [ShapePane, ShapePane] None\<rparr>),
     (''rows2'', \<lparr>tpl_id = ''builtin:rows-2'', tpl_name = '''',
        tpl_root = shape_split Vertical [ShapePane, ShapePane] None\<rparr>),
     (''columns3'', \<lparr>tpl_id = ''builtin:columns-3'', tpl_name = '''',
        tpl_root = shape_split Horizontal [ShapePane, ShapePane, ShapePane] None\<rparr>),
     (''mainRight2'', \<lparr>tpl_id = ''builtin:main-right-2'', tpl_name = '''',
        tpl_root = shape_split Horizontal
          [ShapePane, shape_split Vertical [ShapePane, ShapePane] None] (Some [6/10, 4/10])\<rparr>),
     (''mainBottom2'', \<lparr>tpl_id = ''builtin:main-bottom-2'', tpl_name = '''',
        tpl_root = shape_split Vertical
          [ShapePane, shape_split Horizontal [ShapePane, ShapePane] None] (Some [6/10, 4/10])\<rparr>),
     (''grid4'', \<lparr>tpl_id = ''builtin:grid-4'', tpl_name = '''',
        tpl_root = shape_split Horizontal
          [shape_split Vertical [ShapePane, ShapePane] None,
           shape_split Vertical [ShapePane, ShapePane] None] None\<rparr>)]"

definition isBuiltinTemplateId :: "string \<Rightarrow> bool" where
  "isBuiltinTemplateId i = starts_with i ''builtin:''"

fun countTemplatePanes :: "LayoutShape \<Rightarrow> nat" where
  "countTemplatePanes ShapePane = 1"
| "countTemplatePanes (ShapeSplit ori cs ss) = sum_list (map countTemplatePanes cs)"

fun shapeOfTree :: "PaneNode \<Rightarrow> LayoutShape" where
  "shapeOfTree (Pane i) = ShapePane"
| "shapeOfTree (Split ori cs ss) = ShapeSplit ori (map shapeOfTree cs) ss"

text \<open>\<open>fill\<close> with the ids not yet used, which the source counts by \<open>next\<close>.\<close>

fun fill :: "LayoutShape \<Rightarrow> string list \<Rightarrow> PaneNode \<times> string list"
and fill_all :: "LayoutShape list \<Rightarrow> string list \<Rightarrow> PaneNode list \<times> string list" where
  "fill ShapePane ids = (paneLeaf (case ids of [] \<Rightarrow> [] | i # _ \<Rightarrow> i), tl ids)"
| "fill (ShapeSplit ori cs ss) ids =
     (case fill_all cs ids of (nodes, rest) \<Rightarrow> (Split ori nodes ss, rest))"
| "fill_all [] ids = ([], ids)"
| "fill_all (c # cs) ids =
     (case fill c ids of (node, rest) \<Rightarrow>
        (case fill_all cs rest of (nodes, rest') \<Rightarrow> (node # nodes, rest')))"

definition fillShape :: "LayoutShape \<Rightarrow> string list \<Rightarrow> PaneNode" where
  "fillShape shape tabIds = normalizePaneTree (fst (fill shape tabIds))"

section \<open>Reading saved shapes\<close>

fun positive_number :: "json option \<Rightarrow> rat" where
  "positive_number (Some (JNum share)) = (if 0 < share then share else 0)"
| "positive_number _ = 0"

definition read_orientation :: "json \<Rightarrow> SplitOrientation option" where
  "read_orientation node =
     (if field node ''orientation'' = Some (JStr ''horizontal'') then Some Horizontal
      else if field node ''orientation'' = Some (JStr ''vertical'') then Some Vertical
      else None)"

text \<open>A share for each of \<open>n\<close> children, from whatever \<open>sizes\<close> holds.\<close>

definition read_shares :: "json \<Rightarrow> nat \<Rightarrow> rat list" where
  "read_shares node n =
     (let raw = or_default (array_field node ''sizes'') [];
          sizes = map (\<lambda>k. positive_number (nth_opt raw k)) [0..<n];
          total = sum_list sizes
      in if 0 < total then map (\<lambda>s. s / total) sizes
         else map (\<lambda>_. 1 / of_nat (length sizes)) sizes)"

function readShape :: "json \<Rightarrow> nat \<Rightarrow> LayoutShape option" where
  "readShape node depth =
     (if \<not> is_object node then None
      else if field node ''type'' = Some (JStr ''pane'') then Some ShapePane
      else if field node ''type'' \<noteq> Some (JStr ''split'') \<or> MAX_TEMPLATE_DEPTH \<le> depth then None
      else case (read_orientation node, array_field node ''children'') of
        (Some ori, Some cs) \<Rightarrow>
          (if length cs < 2 then None
           else let children = map (\<lambda>c. readShape c (Suc depth)) cs
                in if None \<in> set children then None
                   else Some (ShapeSplit ori (map the children) (read_shares node (length cs))))
      | _ \<Rightarrow> None)"
  by pat_completeness auto
termination
  by (relation "measure (\<lambda>(node, depth). size node)") (auto dest: size_array_field [OF sym])

declare readShape.simps [simp del]

definition normalizeLayoutShape :: "json \<Rightarrow> LayoutShape option" where
  "normalizeLayoutShape v =
     (case readShape v 0 of
        None \<Rightarrow> None
      | Some ShapePane \<Rightarrow> None
      | Some shape \<Rightarrow> if countTemplatePanes shape \<le> MAX_TEMPLATE_PANES then Some shape else None)"

text \<open>One entry of the saved templates, given the ids already read.\<close>

definition read_template :: "string set \<Rightarrow> json \<Rightarrow> PaneLayoutTemplate option" where
  "read_template seen entry =
     (if \<not> is_object entry then None
      else case string_field entry ''id'' of
        None \<Rightarrow> None
      | Some i \<Rightarrow>
          (if i = [] \<or> isBuiltinTemplateId i \<or> i \<in> seen then None
           else case field entry ''root'' of
             None \<Rightarrow> None
           | Some shape_value \<Rightarrow>
               (case normalizeLayoutShape shape_value of
                  None \<Rightarrow> None
                | Some shape \<Rightarrow>
                    Some \<lparr>tpl_id = i,
                          tpl_name = (case string_field entry ''name'' of
                             None \<Rightarrow> [] | Some name \<Rightarrow> trim name),
                          tpl_root = shape\<rparr>)))"

fun read_templates :: "string set \<Rightarrow> PaneLayoutTemplate list \<Rightarrow> json list \<Rightarrow> PaneLayoutTemplate list" where
  "read_templates seen templates [] = templates"
| "read_templates seen templates (entry # entries) =
     (case read_template seen entry of
        None \<Rightarrow> read_templates seen templates entries
      | Some t \<Rightarrow>
          (let templates' = templates @ [t]
           in if MAX_SAVED_TEMPLATES \<le> length templates' then templates'
              else read_templates (insert (tpl_id t) seen) templates' entries))"

fun normalizePaneTemplates :: "json \<Rightarrow> PaneLayoutTemplate list" where
  "normalizePaneTemplates (JArr entries) = read_templates {} [] entries"
| "normalizePaneTemplates _ = []"

section \<open>Laying a group out\<close>

definition kept_panes :: "string list \<Rightarrow> string \<Rightarrow> nat \<Rightarrow> string list" where
  "kept_panes existing tabId slots =
     (if tabId \<in> set existing
      then sort_key (\<lambda>i. or_default (index_of i existing) 0)
             (take slots (tabId # filter (\<lambda>i. i \<noteq> tabId) existing))
      else take slots existing)"

text \<open>\<open>None\<close> is the array \<open>groups\<close> itself, which the caller takes as nothing done.\<close>

definition applyTemplateToGroups ::
  "TabGroup list \<Rightarrow> string \<Rightarrow> LayoutShape \<Rightarrow> string list \<Rightarrow> nat \<Rightarrow> (TabGroup list \<times> nat) option" where
  "applyTemplateToGroups groups tabId shape newTabIds groupCount =
     (case group_index groups tabId of
        None \<Rightarrow> None
      | Some index \<Rightarrow>
          (let slots = countTemplatePanes shape;
               existing = group_panes (groups ! index);
               kept = kept_panes existing tabId slots;
               filled = take slots (kept @ newTabIds)
           in if length filled < slots then None
              else let leftOver = filter (\<lambda>i. i \<notin> set kept) existing;
                       laidOut = (groups ! index)\<lparr>g_root := fillShape shape filled,
                                   g_activeTabId := tabId, g_zoomedTabId := None\<rparr>
                   in Some (take index groups @ [laidOut] @ fresh_groups groupCount leftOver
                              @ drop (index + 1) groups,
                            groupCount + length leftOver)))"


section \<open>Bounds of what is read\<close>

fun shape_depth :: "LayoutShape \<Rightarrow> nat" where
  "shape_depth ShapePane = 0"
| "shape_depth (ShapeSplit ori cs ss) = Suc (Max (set (0 # map shape_depth cs)))"

text \<open>A shape as \<open>readShape\<close> returns it: splits of two or more, with shares that sum to 1.\<close>

fun shape_ok :: "LayoutShape \<Rightarrow> bool" where
  "shape_ok ShapePane = True"
| "shape_ok (ShapeSplit ori cs ss) =
     (2 \<le> length cs \<and> length ss = length cs \<and> shares ss \<and> (\<forall>c\<in>set cs. shape_ok c))"

lemma positive_number_nonneg [simp]: "0 \<le> positive_number v"
  by (cases v rule: positive_number.cases) auto

lemma shares_divided:
  assumes "ss \<noteq> []" and "\<forall>s\<in>set ss. 0 \<le> s"
  shows "shares (if 0 < sum_list ss then map (\<lambda>s. s / sum_list ss) ss
    else map (\<lambda>_. 1 / of_nat (length ss)) ss)"
proof -
  have "map positive_part ss = ss" using assms(2) by (auto simp: positive_part_id intro: map_idI)
  moreover have "map (\<lambda>s. positive_part s / sum_list ss) ss = map (\<lambda>s. s / sum_list ss) ss"
    using assms(2) by (intro map_cong) (auto simp: positive_part_id)
  ultimately have "scaleToOne ss = (if 0 < sum_list ss then map (\<lambda>s. s / sum_list ss) ss
    else map (\<lambda>_. 1 / of_nat (length ss)) ss)"
    by (simp only: scaleToOne_def Let_def not_le [symmetric]) simp
  with shares_scaleToOne [OF assms(1)] show ?thesis by simp
qed

lemma shares_read_shares: "0 < n \<Longrightarrow> shares (read_shares node n)"
  unfolding read_shares_def Let_def by (rule shares_divided) auto

lemma length_read_shares [simp]: "length (read_shares node n) = n"
  by (simp add: read_shares_def Let_def)

lemma readShape_Some:
  assumes "readShape node depth = Some shape"
  obtains (pane) "shape = ShapePane"
  | (split) ori cs where "depth < MAX_TEMPLATE_DEPTH" "array_field node ''children'' = Some cs"
      "2 \<le> length cs" "\<forall>c\<in>set cs. readShape c (Suc depth) \<noteq> None"
      "shape = ShapeSplit ori (map (\<lambda>c. the (readShape c (Suc depth))) cs) (read_shares node (length cs))"
proof -
  note eq = assms [unfolded readShape.simps [of node depth]]
  show ?thesis
  proof (cases "field node ''type'' = Some (JStr ''pane'')")
    case True
    with eq pane show ?thesis by (auto split: if_splits)
  next
    case False
    with eq obtain ori cs where parts: "read_orientation node = Some ori"
        "array_field node ''children'' = Some cs" "depth < MAX_TEMPLATE_DEPTH"
      by (auto split: if_splits option.splits)
    from eq False parts have "2 \<le> length cs" "None \<notin> set (map (\<lambda>c. readShape c (Suc depth)) cs)"
        "shape = ShapeSplit ori (map the (map (\<lambda>c. readShape c (Suc depth)) cs)) (read_shares node (length cs))"
      by (auto simp: Let_def split: if_splits)
    with parts show ?thesis by (intro split [of cs ori]) (force simp: comp_def)+
  qed
qed

lemma readShape_bounds:
  assumes "readShape node depth = Some shape" and "depth \<le> MAX_TEMPLATE_DEPTH"
  shows "shape_ok shape" and "depth + shape_depth shape \<le> MAX_TEMPLATE_DEPTH"
proof -
  have "shape_ok shape \<and> depth + shape_depth shape \<le> MAX_TEMPLATE_DEPTH"
    using assms
  proof (induction node arbitrary: depth shape rule: measure_induct_rule [where f = size])
    case (less node)
    from less(2) show ?case
    proof (cases rule: readShape_Some)
      case pane
      with less(3) show ?thesis by simp
    next
      case (split ori cs)
      have child: "shape_ok s \<and> Suc depth + shape_depth s \<le> MAX_TEMPLATE_DEPTH"
        if s: "s \<in> (\<lambda>c. the (readShape c (Suc depth))) ` set cs" for s
      proof -
        from s split(4) obtain c where "c \<in> set cs" "readShape c (Suc depth) = Some s" by fastforce
        with less(1) [OF size_array_field [OF split(2)], of c "Suc depth" s] split(1) show ?thesis by simp
      qed
      from split(3) have "cs \<noteq> []" by auto
      then have "\<exists>s\<in>(\<lambda>c. the (readShape c (Suc depth))) ` set cs. True" by (cases cs) auto
      with child have "Suc depth \<le> MAX_TEMPLATE_DEPTH" using split(1) by simp
      with child have "Suc depth + d \<le> MAX_TEMPLATE_DEPTH"
        if "d \<in> insert 0 (shape_depth ` (\<lambda>c. the (readShape c (Suc depth))) ` set cs)" for d
        using that by auto
      then have "Suc depth + Max (insert 0 (shape_depth ` (\<lambda>c. the (readShape c (Suc depth))) ` set cs))
          \<le> MAX_TEMPLATE_DEPTH"
        by (metis (no_types, lifting) Max_in finite.insertI finite_imageI finite_set insert_not_empty)
      moreover have "shape_ok shape"
        using split child \<open>cs \<noteq> []\<close> by (auto simp: shares_read_shares)
      ultimately show ?thesis using split(5) by (simp add: image_comp comp_def)
    qed
  qed
  then show "shape_ok shape" "depth + shape_depth shape \<le> MAX_TEMPLATE_DEPTH" by auto
qed

lemma normalizeLayoutShape_bounds:
  assumes "normalizeLayoutShape v = Some shape"
  shows "shape_ok shape" and "shape_depth shape \<le> MAX_TEMPLATE_DEPTH"
    and "countTemplatePanes shape \<le> MAX_TEMPLATE_PANES" and "shape \<noteq> ShapePane"
  using assms readShape_bounds [of v 0 shape]
  by (auto simp: normalizeLayoutShape_def split: option.splits LayoutShape.splits if_splits)

lemma read_template_Some:
  assumes "read_template seen entry = Some t"
  shows "tpl_id t \<notin> seen" and "tpl_id t \<noteq> []" and "\<not> isBuiltinTemplateId (tpl_id t)"
    and "shape_ok (tpl_root t)" and "countTemplatePanes (tpl_root t) \<le> MAX_TEMPLATE_PANES"
    and "trim (tpl_name t) = tpl_name t"
  using assms by (auto simp: read_template_def normalizeLayoutShape_bounds split: option.splits if_splits)

definition template_ok :: "PaneLayoutTemplate \<Rightarrow> bool" where
  "template_ok t \<longleftrightarrow> tpl_id t \<noteq> [] \<and> \<not> isBuiltinTemplateId (tpl_id t) \<and> shape_ok (tpl_root t)
     \<and> countTemplatePanes (tpl_root t) \<le> MAX_TEMPLATE_PANES"

lemma read_templates_bounds:
  assumes "\<forall>t\<in>set ts. template_ok t" and "distinct (map tpl_id ts)" and "set (map tpl_id ts) = seen"
    and "length ts < MAX_SAVED_TEMPLATES"
  shows "(\<forall>t\<in>set (read_templates seen ts es). template_ok t)
    \<and> distinct (map tpl_id (read_templates seen ts es))
    \<and> length (read_templates seen ts es) \<le> MAX_SAVED_TEMPLATES"
  using assms
proof (induction seen ts es rule: read_templates.induct)
  case (2 seen ts e es)
  show ?case
  proof (cases "read_template seen e")
    case None
    with 2 show ?thesis by simp
  next
    case (Some t)
    note t = read_template_Some [OF Some]
    have new: "\<forall>u\<in>set (ts @ [t]). template_ok u" "distinct (map tpl_id (ts @ [t]))"
      "set (map tpl_id (ts @ [t])) = insert (tpl_id t) seen"
      using 2(3-5) t by (auto simp: template_ok_def)
    show ?thesis
    proof (cases "MAX_SAVED_TEMPLATES \<le> length (ts @ [t])")
      case True
      with Some new 2(6) show ?thesis by (simp add: Let_def)
    next
      case False
      with 2(2) [OF Some refl False new] Some show ?thesis by (simp add: Let_def)
    qed
  qed
qed auto


section \<open>Filling a shape\<close>

lemma fill_panes:
  "countTemplatePanes shape \<le> length ids \<Longrightarrow>
    getPaneIds (fst (fill shape ids)) = take (countTemplatePanes shape) ids
    \<and> snd (fill shape ids) = drop (countTemplatePanes shape) ids"
  "sum_list (map countTemplatePanes shapes) \<le> length ids \<Longrightarrow>
    concat (map getPaneIds (fst (fill_all shapes ids))) = take (sum_list (map countTemplatePanes shapes)) ids
    \<and> snd (fill_all shapes ids) = drop (sum_list (map countTemplatePanes shapes)) ids"
proof (induction shape ids and shapes ids rule: fill_fill_all.induct)
  case (1 ids)
  then show ?case by (cases ids) (auto simp: paneLeaf_def)
next
  case (4 c cs ids)
  obtain node rest where c: "fill c ids = (node, rest)" by fastforce
  obtain nodes rest' where cs: "fill_all cs rest = (nodes, rest')" by fastforce
  from 4(1) "4.prems" c have node: "getPaneIds node = take (countTemplatePanes c) ids"
    "rest = drop (countTemplatePanes c) ids" by auto
  with 4(2) [OF c [symmetric]] "4.prems" cs show ?case
    using c by (simp add: take_add add.commute)
qed (auto split: prod.splits)

lemma length_fill_all: "length (fst (fill_all shapes ids)) = length shapes"
proof (induction shapes arbitrary: ids)
  case (Cons c cs)
  obtain node rest where c: "fill c ids = (node, rest)" by fastforce
  obtain nodes rest' where "fill_all cs rest = (nodes, rest')" by fastforce
  with c Cons [of rest] show ?case by simp
qed simp

lemma no_empty_fill:
  "shape_ok shape \<Longrightarrow> no_empty (fst (fill shape ids))"
  "\<forall>c\<in>set shapes. shape_ok c \<Longrightarrow> \<forall>t\<in>set (fst (fill_all shapes ids)). no_empty t"
proof (induction shape ids and shapes ids rule: fill_fill_all.induct)
  case (2 ori cs ss ids)
  then show ?case using length_fill_all [of cs ids] by (auto split: prod.splits)
qed (auto simp: paneLeaf_def split: prod.splits)

lemma getPaneIds_fillShape [pane_ids]:
  "countTemplatePanes shape \<le> length ids \<Longrightarrow>
    getPaneIds (fillShape shape ids) = take (countTemplatePanes shape) ids"
  by (simp add: fillShape_def fill_panes)

lemma canonical_fillShape [wf_intros]: "shape_ok shape \<Longrightarrow> canonical (fillShape shape ids)"
  unfolding fillShape_def by (intro canonical_normalizePaneTree no_empty_fill)

lemma count_shapeOfTree [simp]: "countTemplatePanes (shapeOfTree t) = length (getPaneIds t)"
  by (induction t) (auto simp: length_concat comp_def cong: map_cong)

lemma fill_shapeOfTree: "fill (shapeOfTree t) (getPaneIds t @ rest) = (t, rest)"
proof (induction t arbitrary: rest)
  case (Split ori cs ss)
  have "fill_all (map shapeOfTree cs) (concat (map getPaneIds cs) @ rest) = (cs, rest)"
    using Split.IH by (induction cs) auto
  then show ?case by simp
qed (simp add: paneLeaf_def)

lemma shape_ok_shapeOfTree: "canonical t \<Longrightarrow> shape_ok (shapeOfTree t)"
  by (induction t) auto

lemma shape_ok_panes: "shape_ok shape \<Longrightarrow> 1 \<le> countTemplatePanes shape"
proof (induction shape)
  case (ShapeSplit ori cs ss)
  then obtain c cs' where "cs = c # cs'" by (cases cs) auto
  with ShapeSplit have "1 \<le> countTemplatePanes c" by simp
  with \<open>cs = c # cs'\<close> show ?case by simp
qed simp

section \<open>The panes a template keeps\<close>

abbreviation position :: "string list \<Rightarrow> string \<Rightarrow> nat" where
  "position existing \<equiv> \<lambda>i. or_default (index_of i existing) 0"

lemma position_nth: "distinct xs \<Longrightarrow> k < length xs \<Longrightarrow> position xs (xs ! k) = k"
proof -
  assume d: "distinct xs" and k: "k < length xs"
  obtain j where j: "index_of (xs ! k) xs = Some j"
    using find_index_None [of "\<lambda>y. y = xs ! k" xs] k by (cases "index_of (xs ! k) xs") auto
  with find_index_SomeD [OF j] d k show ?thesis by (simp add: nth_eq_iff_index_eq)
qed

lemma sorted_position: "distinct xs \<Longrightarrow> sorted (map (position xs) xs)"
  by (simp add: sorted_iff_nth_mono position_nth)

lemma inj_on_position: "distinct xs \<Longrightarrow> inj_on (position xs) (set xs)"
  by (auto simp: inj_on_def in_set_conv_nth position_nth)

text \<open>Sorting by position puts chosen members back into their order.\<close>

lemma sort_by_position:
  assumes "distinct xs" and "distinct ys" and "set ys \<subseteq> set xs"
  shows "sort_key (position xs) ys = filter (\<lambda>i. i \<in> set ys) xs"
proof (rule properties_for_sort_key)
  let ?zs = "filter (\<lambda>i. i \<in> set ys) xs"
  have set: "set ?zs = set ys" using assms(3) by auto
  have "distinct ?zs" using assms(1) by simp
  with set assms(2) show m: "mset ?zs = mset ys"
    by (metis set_eq_iff_mset_eq_distinct)
  show "sorted (map (position xs) ?zs)"
    using sorted_position [OF assms(1)] by (rule sorted_filter)
  fix k assume k: "k \<in> set ?zs"
  have only: "filter (\<lambda>x. position xs k = position xs x) us = [k]"
    if "distinct us" "k \<in> set us" "set us \<subseteq> set xs" for us
  proof -
    have "filter (\<lambda>x. position xs k = position xs x) us = filter (\<lambda>x. x = k) us"
      using that k inj_on_position [OF assms(1)] by (intro filter_cong) (auto simp: inj_on_def)
    also have "\<dots> = [k]" using that(1,2) by (induction us) (auto simp: filter_empty_conv)
    finally show ?thesis .
  qed
  have "k \<in> set ys" "set ?zs \<subseteq> set xs" using k by auto
  with only [OF \<open>distinct ?zs\<close> k] only [OF assms(2) _ assms(3)]
  show "filter (\<lambda>x. position xs k = position xs x) ?zs = filter (\<lambda>x. position xs k = position xs x) ys"
    by simp
qed

lemma kept_panes_spec:
  assumes "distinct existing" and "tabId \<in> set existing"
  shows "length (kept_panes existing tabId slots) = min slots (length existing)"
    and "distinct (kept_panes existing tabId slots)"
    and "set (kept_panes existing tabId slots) \<subseteq> set existing"
    and "1 \<le> slots \<Longrightarrow> tabId \<in> set (kept_panes existing tabId slots)"
    and "kept_panes existing tabId slots = filter (\<lambda>i. i \<in> set (kept_panes existing tabId slots)) existing"
proof -
  let ?front = "tabId # filter (\<lambda>i. i \<noteq> tabId) existing"
  let ?taken = "take slots ?front"
  have kept: "kept_panes existing tabId slots = sort_key (position existing) ?taken"
    using assms(2) by (simp add: kept_panes_def)
  have "mset ?front = mset existing"
  proof (rule set_eq_iff_mset_eq_distinct [THEN iffD1])
    show "distinct ?front" "distinct existing" using assms(1) by auto
    show "set ?front = set existing" using assms(2) by auto
  qed
  then have len: "length ?front = length existing" by (rule mset_eq_length)
  have d: "distinct ?taken" using assms(1) by (intro distinct_take) simp
  have sub: "set ?taken \<subseteq> set existing" using assms(2) by (auto dest: in_set_takeD)
  show "length (kept_panes existing tabId slots) = min slots (length existing)"
    using len by (simp add: kept min.commute)
  show "distinct (kept_panes existing tabId slots)" "set (kept_panes existing tabId slots) \<subseteq> set existing"
    using d sub by (simp_all add: kept)
  show "tabId \<in> set (kept_panes existing tabId slots)" if "1 \<le> slots"
  proof -
    have "tabId \<in> set ?taken" using that by (cases slots) auto
    then show ?thesis by (simp add: kept)
  qed
  show "kept_panes existing tabId slots = filter (\<lambda>i. i \<in> set (kept_panes existing tabId slots)) existing"
    unfolding kept set_sort by (rule sort_by_position [OF assms(1) d sub])
qed


section \<open>The groups a template leaves\<close>

text \<open>What a template did: the positions and parts \<open>applyTemplateToGroups\<close> put together.\<close>

lemma applyTemplateToGroups_Some:
  assumes "applyTemplateToGroups gs i shape new n = Some (gs', n')"
  obtains k filled kept where "group_index gs i = Some k" "k < length gs"
    "kept = kept_panes (group_panes (gs ! k)) i (countTemplatePanes shape)"
    "filled = take (countTemplatePanes shape) (kept @ new)"
    "length filled = countTemplatePanes shape"
    "gs' = take k gs @ [(gs ! k)\<lparr>g_root := fillShape shape filled, g_activeTabId := i, g_zoomedTabId := None\<rparr>]
       @ fresh_groups n (filter (\<lambda>j. j \<notin> set kept) (group_panes (gs ! k))) @ drop (Suc k) gs"
    "n' = n + length (filter (\<lambda>j. j \<notin> set kept) (group_panes (gs ! k)))"
proof -
  from assms obtain k where k: "group_index gs i = Some k"
    by (auto simp: applyTemplateToGroups_def split: option.splits)
  from assms k have "\<not> length (take (countTemplatePanes shape)
      (kept_panes (group_panes (gs ! k)) i (countTemplatePanes shape) @ new)) < countTemplatePanes shape"
    by (auto simp: applyTemplateToGroups_def Let_def split: if_splits)
  then have "length (take (countTemplatePanes shape)
      (kept_panes (group_panes (gs ! k)) i (countTemplatePanes shape) @ new)) = countTemplatePanes shape"
    using length_take [of "countTemplatePanes shape"
      "kept_panes (group_panes (gs ! k)) i (countTemplatePanes shape) @ new"] by linarith
  with assms k show ?thesis
    by (intro that [OF k group_index_SomeD(1) [OF k] refl refl])
      (auto simp: applyTemplateToGroups_def Let_def split: if_splits)
qed

lemma groups_ok_applyTemplateToGroups [wf_intros]:
  assumes "groups_ok gs" and "distinct (all_panes gs)" and "shape_ok shape"
    and "applyTemplateToGroups gs i shape new n = Some (gs', n')"
  shows "groups_ok gs'"
proof -
  from assms(4) obtain k filled kept where parts: "group_index gs i = Some k" "k < length gs"
    "kept = kept_panes (group_panes (gs ! k)) i (countTemplatePanes shape)"
    "filled = take (countTemplatePanes shape) (kept @ new)"
    "length filled = countTemplatePanes shape"
    "gs' = take k gs @ [(gs ! k)\<lparr>g_root := fillShape shape filled, g_activeTabId := i, g_zoomedTabId := None\<rparr>]
       @ fresh_groups n (filter (\<lambda>j. j \<notin> set kept) (group_panes (gs ! k))) @ drop (Suc k) gs"
    by (rule applyTemplateToGroups_Some)
  note d = distinct_group_panes [OF assms(2) nth_mem [OF parts(2)]]
  note keptp = kept_panes_spec [OF d group_index_SomeD(2) [OF parts(1)], of "countTemplatePanes shape"]
  have "1 \<le> countTemplatePanes shape" by (rule shape_ok_panes [OF assms(3)])
  then have "i \<in> set kept" using keptp(4) parts(3) by simp
  moreover have "length kept \<le> countTemplatePanes shape" using keptp(1) parts(3) by simp
  ultimately have "i \<in> set filled" unfolding parts(4) by simp
  then have "group_ok ((gs ! k)\<lparr>g_root := fillShape shape filled, g_activeTabId := i, g_zoomedTabId := None\<rparr>)"
    using parts(5) assms(3) by (intro group_okI_update) (auto simp: getPaneIds_fillShape canonical_fillShape)
  with assms(1) show ?thesis unfolding parts(6) by (simp add: groups_ok_split)
qed

text \<open>No pane is lost: those the shape has no room for get tabs of their own, new ones fill the rest.\<close>

lemma all_panes_applyTemplateToGroups [pane_ids]:
  assumes "distinct (all_panes gs)"
    and "applyTemplateToGroups gs i shape new n = Some (gs', n')"
    and "group_index gs i = Some k"
  shows "mset (all_panes gs') = mset (all_panes gs)
    + mset (take (countTemplatePanes shape - length (group_panes (gs ! k))) new)"
proof -
  from assms(2) obtain k' filled kept where parts: "group_index gs i = Some k'" "k' < length gs"
    "kept = kept_panes (group_panes (gs ! k')) i (countTemplatePanes shape)"
    "filled = take (countTemplatePanes shape) (kept @ new)"
    "length filled = countTemplatePanes shape"
    "gs' = take k' gs @ [(gs ! k')\<lparr>g_root := fillShape shape filled, g_activeTabId := i, g_zoomedTabId := None\<rparr>]
       @ fresh_groups n (filter (\<lambda>j. j \<notin> set kept) (group_panes (gs ! k'))) @ drop (Suc k') gs"
    by (rule applyTemplateToGroups_Some)
  with assms(3) have [simp]: "k' = k" by simp
  let ?ps = "group_panes (gs ! k)" and ?n = "countTemplatePanes shape"
  note d = distinct_group_panes [OF assms(1) nth_mem [OF parts(2)], simplified]
  note keptp = kept_panes_spec [OF d group_index_SomeD(2) [OF assms(3)], of ?n]
  have kept: "kept = filter (\<lambda>j. j \<in> set kept) ?ps" "length kept = min ?n (length ?ps)"
    using keptp(1,5) parts(3) by simp_all
  have "filled = kept @ take (?n - length kept) new" unfolding parts(4) using kept(2) by simp
  moreover have "take (?n - length kept) new = take (?n - length ?ps) new" using kept(2) by (simp add: min_def)
  ultimately have filled: "mset filled = mset kept + mset (take (?n - length ?ps) new)" by simp
  have "mset ?ps = mset (filter (\<lambda>j. j \<in> set kept) ?ps) + mset (filter (\<lambda>j. j \<notin> set kept) ?ps)"
    by (simp add: multiset_partition [symmetric])
  with kept(1) have ps: "mset ?ps = mset kept + mset (filter (\<lambda>j. j \<notin> set kept) ?ps)" by metis
  have old: "mset (all_panes gs) = mset (all_panes (take k gs)) + mset ?ps + mset (all_panes (drop (Suc k) gs))"
    using all_panes_split_at [of k gs] parts(2) by simp
  have "mset (all_panes gs') = mset (all_panes (take k gs)) + mset filled
      + mset (filter (\<lambda>j. j \<notin> set kept) ?ps) + mset (all_panes (drop (Suc k) gs))"
    unfolding parts(6) using parts(5) by (simp add: getPaneIds_fillShape)
  then show ?thesis unfolding old filled ps by (simp add: ac_simps)
qed

lemma ids_ok_applyTemplateToGroups [wf_intros]:
  assumes "ids_ok n gs" and "applyTemplateToGroups gs i shape new n = Some (gs', n')"
  shows "ids_ok n' gs'"
proof -
  from assms(2) obtain k filled kept where parts: "group_index gs i = Some k" "k < length gs"
    "gs' = take k gs @ [(gs ! k)\<lparr>g_root := fillShape shape filled, g_activeTabId := i, g_zoomedTabId := None\<rparr>]
       @ fresh_groups n (filter (\<lambda>j. j \<notin> set kept) (group_panes (gs ! k))) @ drop (Suc k) gs"
    "n' = n + length (filter (\<lambda>j. j \<notin> set kept) (group_panes (gs ! k)))"
    by (rule applyTemplateToGroups_Some) blast
  let ?new = "fresh_groups n (filter (\<lambda>j. j \<notin> set kept) (group_panes (gs ! k)))"
  have "map g_id gs = map g_id (take k gs) @ g_id (gs ! k) # map g_id (drop (Suc k) gs)"
    using parts(2) by (metis id_take_nth_drop list.simps(9) map_append)
  then have m: "mset (map g_id gs') = mset (map g_id (gs @ ?new))"
    unfolding parts(3) by simp
  have "ids_ok n' (gs @ ?new)" unfolding parts(4) by (rule ids_ok_append_fresh [OF assms(1)])
  with m show ?thesis unfolding ids_ok_def by (metis mset_eq_imp_distinct_iff mset_eq_setD)
qed

end
