(* ===== verification/Groups_Persistence.thy ===== *)
theory Groups_Persistence
  imports Group_Moves Json
begin

text \<open>
  The saved layout of the tab bar (\<open>src/src/lib/tabGroupsPersistence.ts\<close>): writing
  the groups, reading the current format and the Dockview layout of earlier
  versions, and the groups restored from either. \<open>layout_json\<close> is the object the
  session file holds (\<open>JSON.stringify\<close> of the saved groups).

  Whatever the file holds, the restored groups are well formed; of a file written
  by \<open>serializeTabGroups\<close> they are the groups written.
\<close>

section \<open>Writing\<close>

definition TAB_GROUPS_LAYOUT_VERSION :: rat where
  "TAB_GROUPS_LAYOUT_VERSION = 2"

record SavedTabGroup =
  sg_root :: PaneNode
  sg_activeTabId :: string
  sg_zoomedTabId :: "string option"

definition active_or_first :: "string list \<Rightarrow> string \<Rightarrow> string" where
  "active_or_first paneIds activeTabId = (if activeTabId \<in> set paneIds then activeTabId else hd paneIds)"

definition save_group :: "string set \<Rightarrow> TabGroup \<Rightarrow> SavedTabGroup option" where
  "save_group saved g =
     (let unsaved = filter (\<lambda>i. i \<notin> saved) (group_panes g)
      in case (if unsaved \<noteq> [] then removePanes (g_root g) (set unsaved) else Some (g_root g)) of
           None \<Rightarrow> None
         | Some tree \<Rightarrow>
             Some \<lparr>sg_root = tree,
                   sg_activeTabId = active_or_first (getPaneIds tree) (g_activeTabId g),
                   sg_zoomedTabId = keep_zoom (g_zoomedTabId g) (getPaneIds tree)\<rparr>)"

definition serializeTabGroups :: "TabGroup list \<Rightarrow> string set \<Rightarrow> SavedTabGroup list" where
  "serializeTabGroups groups saved = List.map_filter (save_group saved) groups"

fun orientation_name :: "SplitOrientation \<Rightarrow> string" where
  "orientation_name Horizontal = ''horizontal''"
| "orientation_name Vertical = ''vertical''"

fun pane_json :: "PaneNode \<Rightarrow> json" where
  "pane_json (Pane i) = JObj [(''type'', JStr ''pane''), (''tabId'', JStr i)]"
| "pane_json (Split ori cs ss) = JObj [(''type'', JStr ''split''),
     (''orientation'', JStr (orientation_name ori)),
     (''children'', JArr (map pane_json cs)), (''sizes'', JArr (map JNum ss))]"

definition group_json :: "SavedTabGroup \<Rightarrow> json" where
  "group_json g = JObj ([(''root'', pane_json (sg_root g)), (''activeTabId'', JStr (sg_activeTabId g))]
     @ (case sg_zoomedTabId g of None \<Rightarrow> [] | Some z \<Rightarrow> [(''zoomedTabId'', JStr z)]))"

definition layout_json :: "SavedTabGroup list \<Rightarrow> json" where
  "layout_json groups = JObj [(''version'', JNum TAB_GROUPS_LAYOUT_VERSION),
     (''groups'', JArr (map group_json groups))]"

section \<open>Reading the current format\<close>

fun positive_size :: "json \<Rightarrow> rat" where
  "positive_size (JNum s) = (if 0 < s then s else 0)"
| "positive_size _ = 0"

definition read_split_orientation :: "json \<Rightarrow> SplitOrientation option" where
  "read_split_orientation v =
     (if field v ''orientation'' = Some (JStr ''horizontal'') then Some Horizontal
      else if field v ''orientation'' = Some (JStr ''vertical'') then Some Vertical
      else None)"

function readPaneNode :: "json \<Rightarrow> PaneNode option" where
  "readPaneNode v =
     (if \<not> isRecord v then None
      else if field v ''type'' = Some (JStr ''pane'') then map_option paneLeaf (string_field v ''tabId'')
      else if field v ''type'' \<noteq> Some (JStr ''split'') then None
      else case (read_split_orientation v, array_field v ''children'', array_field v ''sizes'') of
        (Some ori, Some cs, Some ss) \<Rightarrow>
          (let children = map readPaneNode cs
           in if children = [] \<or> None \<in> set children then None
              else Some (Split ori (map the children)
                     (map (\<lambda>k. size_at (map positive_size ss) k) [0..<length children])))
      | _ \<Rightarrow> None)"
  by pat_completeness auto
termination
  by (relation "measure size") (auto dest: size_array_field [OF sym])

declare readPaneNode.simps [simp del]

definition read_group :: "json \<Rightarrow> SavedTabGroup option" where
  "read_group v =
     (if \<not> isRecord v then None
      else case Option.bind (field v ''root'') readPaneNode of
        None \<Rightarrow> None
      | Some tree \<Rightarrow>
          Some \<lparr>sg_root = tree,
                sg_activeTabId = or_default (string_field v ''activeTabId'') [],
                sg_zoomedTabId = string_field v ''zoomedTabId''\<rparr>)"

definition readSavedGroups :: "json \<Rightarrow> SavedTabGroup list" where
  "readSavedGroups v =
     (case array_field v ''groups'' of
        None \<Rightarrow> []
      | Some gs \<Rightarrow> List.map_filter read_group gs)"

section \<open>Reading a Dockview layout\<close>

text \<open>The two collections \<open>visit\<close> fills: the tabs behind others, and each group's front tab.\<close>

record DockviewState =
  d_behind :: "string list"
  d_front :: "(string \<times> string) list"

definition crossed :: "SplitOrientation \<Rightarrow> SplitOrientation" where
  "crossed ori = (if ori = Horizontal then Vertical else Horizontal)"

fun string_items :: "json list \<Rightarrow> string list" where
  "string_items [] = []"
| "string_items (JStr s # vs) = s # string_items vs"
| "string_items (_ # vs) = string_items vs"

definition leaf_views :: "json option \<Rightarrow> string list" where
  "leaf_views data = string_items (or_default (Option.bind data (\<lambda>d. array_field d ''views'')) [])"

text \<open>The view in front: \<open>undefined\<close> and the empty id are both taken as none.\<close>

definition front_view :: "json option \<Rightarrow> string option" where
  "front_view data =
     (let views = leaf_views data;
          front = (case Option.bind data (\<lambda>d. string_field d ''activeView'') of
                     Some active \<Rightarrow> (if active \<in> set views then Some active else nth_opt views 0)
                   | None \<Rightarrow> nth_opt views 0)
      in if truthy front then front else None)"

definition visit_leaf :: "json \<Rightarrow> DockviewState \<Rightarrow> PaneNode option \<times> DockviewState" where
  "visit_leaf node st =
     (let data = field node ''data''
      in case front_view data of
           None \<Rightarrow> (None, st)
         | Some front \<Rightarrow>
             (Some (paneLeaf front),
              st\<lparr>d_front := (case Option.bind data (\<lambda>d. string_field d ''id'') of
                                None \<Rightarrow> d_front st | Some i \<Rightarrow> (i, front) # d_front st),
                 d_behind := d_behind st @ filter (\<lambda>view. view \<noteq> front) (leaf_views data)\<rparr>))"

definition entry_size :: "json \<Rightarrow> rat" where
  "entry_size child = (case field child ''size'' of Some (JNum s) \<Rightarrow> s | _ \<Rightarrow> 1)"

lemma size_list_array_field:
  "array_field v name = Some xs \<Longrightarrow> size_list size xs < size v"
proof -
  assume "array_field v name = Some xs"
  then have "field v name = Some (JArr xs)"
    by (auto simp: array_field_def split: option.splits json.splits)
  then have "size (JArr xs) < size v" by (rule size_field)
  then show ?thesis by simp
qed

function visit :: "json \<Rightarrow> SplitOrientation \<Rightarrow> DockviewState \<Rightarrow> PaneNode option \<times> DockviewState"
and visit_all :: "json list \<Rightarrow> SplitOrientation \<Rightarrow> DockviewState \<Rightarrow> (PaneNode \<times> rat) list \<times> DockviewState" where
  "visit node ori st =
     (if \<not> isRecord node then (None, st)
      else if field node ''type'' = Some (JStr ''leaf'') then visit_leaf node st
      else if field node ''type'' \<noteq> Some (JStr ''branch'') then (None, st)
      else case array_field node ''data'' of
        None \<Rightarrow> (None, st)
      | Some children \<Rightarrow>
          (case visit_all children (crossed ori) st of
             (entries, st') \<Rightarrow>
               (if entries = [] then None
                else Some (Split ori (map fst entries) (map snd entries)), st')))"
| "visit_all [] ori st = ([], st)"
| "visit_all (child # rest) ori st =
     (case visit child ori st of
        (pane, st') \<Rightarrow>
          (case visit_all rest ori st' of
             (entries, st'') \<Rightarrow>
               ((case pane of None \<Rightarrow> entries | Some p \<Rightarrow> (p, entry_size child) # entries), st'')))"
  by pat_completeness auto

termination
  by (relation "measure (\<lambda>x. case x of Inl (v, _) \<Rightarrow> size v | Inr (vs, _) \<Rightarrow> size_list size vs)")
    (auto dest: size_list_array_field [OF sym] size_list_array_field)

declare visit.simps [simp del]

definition readDockviewLayout :: "json \<Rightarrow> SavedTabGroup list" where
  "readDockviewLayout v =
     (case field v ''grid'' of
        None \<Rightarrow> []
      | Some grid \<Rightarrow>
          (if \<not> isRecord grid then []
           else case field grid ''root'' of
             None \<Rightarrow> []
           | Some node \<Rightarrow>
             (case visit node
                  (if field grid ''orientation'' = Some (JStr ''VERTICAL'') then Vertical else Horizontal)
                  \<lparr>d_behind = [], d_front = []\<rparr> of
                (None, _) \<Rightarrow> []
              | (Some tree, st) \<Rightarrow>
                  (let front = normalizePaneTree tree;
                       activeFront = Option.bind (string_field v ''activeGroup'') (map_of (d_front st))
                   in \<lparr>sg_root = front,
                        sg_activeTabId = or_default activeFront (hd (getPaneIds front)),
                        sg_zoomedTabId = None\<rparr>
                      # map (\<lambda>tabId. \<lparr>sg_root = paneLeaf tabId, sg_activeTabId = tabId,
                                       sg_zoomedTabId = None\<rparr>) (d_behind st)))))"

section \<open>Restoring\<close>

definition restore_group :: "string set \<Rightarrow> string set \<Rightarrow> SavedTabGroup \<Rightarrow> SavedTabGroup option" where
  "restore_group known seen g =
     (let dropped = filter (\<lambda>i. i \<notin> known \<or> i \<in> seen) (getPaneIds (sg_root g))
      in case (if dropped \<noteq> [] then removePanes (sg_root g) (set dropped) else Some (sg_root g)) of
           None \<Rightarrow> None
         | Some tree \<Rightarrow>
             Some \<lparr>sg_root = normalizePaneTree tree,
                   sg_activeTabId = active_or_first (getPaneIds tree) (sg_activeTabId g),
                   sg_zoomedTabId = keep_zoom (sg_zoomedTabId g) (getPaneIds tree)\<rparr>)"

fun restore_groups :: "string set \<Rightarrow> string set \<Rightarrow> SavedTabGroup list \<Rightarrow> SavedTabGroup list" where
  "restore_groups known seen [] = []"
| "restore_groups known seen (g # gs) =
     (case restore_group known seen g of
        None \<Rightarrow> restore_groups known seen gs
      | Some r \<Rightarrow> r # restore_groups known (seen \<union> set (getPaneIds (sg_root r))) gs)"

definition bar_position :: "string list \<Rightarrow> SavedTabGroup \<Rightarrow> int" where
  "bar_position tabIds g =
     Min (set (map (\<lambda>i. case index_of i tabIds of None \<Rightarrow> -1 | Some k \<Rightarrow> int k) (getPaneIds (sg_root g))))"

definition restoreTabGroups :: "json \<Rightarrow> string list \<Rightarrow> SavedTabGroup list" where
  "restoreTabGroups layout tabIds =
     (if \<not> isRecord layout then []
      else let isDockview = (field layout ''version'' \<noteq> Some (JNum TAB_GROUPS_LAYOUT_VERSION));
               saved = (if isDockview then readDockviewLayout layout else readSavedGroups layout);
               groups = restore_groups (set tabIds) {} saved
           in if \<not> isDockview then groups else sort_key (bar_position tabIds) groups)"

section \<open>Saved groups as they should be\<close>

abbreviation sg_panes :: "SavedTabGroup \<Rightarrow> string list" where
  "sg_panes g \<equiv> getPaneIds (sg_root g)"

definition saved_panes :: "SavedTabGroup list \<Rightarrow> string list" where
  "saved_panes gs = concat (map sg_panes gs)"

definition saved_ok :: "SavedTabGroup \<Rightarrow> bool" where
  "saved_ok g \<longleftrightarrow> canonical (sg_root g) \<and> sg_activeTabId g \<in> set (sg_panes g)
     \<and> set_option (sg_zoomedTabId g) \<subseteq> set (sg_panes g) - {[]}"

lemma saved_panes_simps [simp]:
  "saved_panes [] = []"
  "saved_panes (g # gs) = sg_panes g @ saved_panes gs"
  by (simp_all add: saved_panes_def)

lemma active_or_first_in: "ps \<noteq> [] \<Longrightarrow> active_or_first ps a \<in> set ps"
  by (simp add: active_or_first_def)

lemma active_or_first_id: "a \<in> set ps \<Longrightarrow> active_or_first ps a = a"
  by (simp add: active_or_first_def)

lemma keep_zoom_nonempty: "set_option (keep_zoom z ps) \<subseteq> set ps - {[]}"
  by (auto simp: keep_zoom_def split: option.splits)

lemma keep_zoom_id: "set_option z \<subseteq> set ps - {[]} \<Longrightarrow> keep_zoom z ps = z"
  by (auto simp: keep_zoom_def split: option.splits)

lemma canonical_panes: "canonical t \<Longrightarrow> getPaneIds t \<noteq> []"
  by (intro no_empty_panes canonical_no_empty)

text \<open>What is left of a tree once some of its panes are dropped, if there are any to drop.\<close>

lemma dropped_spec:
  assumes "no_empty t" and "gone = filter p (getPaneIds t)"
    and "(if gone \<noteq> [] then removePanes t (set gone) else Some t) = Some t'"
  shows "no_empty t'" and "getPaneIds t' = filter (\<lambda>i. \<not> p i) (getPaneIds t)"
proof -
  have panes: "filter (\<lambda>i. i \<notin> set gone) (getPaneIds t) = filter (\<lambda>i. \<not> p i) (getPaneIds t)"
    using assms(2) by (intro filter_cong) auto
  have "no_empty t' \<and> getPaneIds t' = filter (\<lambda>i. i \<notin> set gone) (getPaneIds t)"
  proof (cases "gone = []")
    case True
    with assms(3) have "t' = t" by simp
    with True assms(1) show ?thesis by simp
  next
    case False
    with assms(3) have "removePanes t (set gone) = Some t'" by simp
    from removePanes_Some [OF assms(1) this] show ?thesis by (simp add: canonical_no_empty)
  qed
  with panes show "no_empty t'" "getPaneIds t' = filter (\<lambda>i. \<not> p i) (getPaneIds t)" by simp_all
qed

lemma dropped_None:
  assumes "no_empty t" and "gone = filter p (getPaneIds t)"
    and "(if gone \<noteq> [] then removePanes t (set gone) else Some t) = None"
  shows "filter (\<lambda>i. \<not> p i) (getPaneIds t) = []"
proof -
  from assms(3) have "removePanes t (set gone) = None" by (simp split: if_splits)
  with removePanes_None [OF assms(1)] have "set (getPaneIds t) \<subseteq> set gone" by simp
  with assms(2) show ?thesis by (auto simp: filter_empty_conv)
qed

lemma dropped_canonical:
  assumes "canonical t" and "gone = filter p (getPaneIds t)"
    and "(if gone \<noteq> [] then removePanes t (set gone) else Some t) = Some t'"
  shows "canonical t'"
proof (cases "gone = []")
  case False
  with assms(3) have "removePanes t (set gone) = Some t'" by simp
  from removePanes_Some(1) [OF canonical_no_empty [OF assms(1)] this] show ?thesis .
qed (use assms in simp)

section \<open>What is written\<close>

lemma save_group_spec:
  assumes "group_ok g"
  shows "case save_group saved g of
      None \<Rightarrow> filter (\<lambda>i. i \<in> saved) (group_panes g) = []
    | Some s \<Rightarrow> saved_ok s \<and> sg_panes s = filter (\<lambda>i. i \<in> saved) (group_panes g)"
proof -
  let ?drop = "filter (\<lambda>i. i \<notin> saved) (group_panes g)"
  let ?kept = "if ?drop \<noteq> [] then removePanes (g_root g) (set ?drop) else Some (g_root g)"
  have can: "canonical (g_root g)" and ne: "no_empty (g_root g)"
    using assms group_ok_no_empty by (auto simp: group_ok_def)
  have eq: "save_group saved g = (case ?kept of None \<Rightarrow> None | Some t \<Rightarrow>
      Some \<lparr>sg_root = t, sg_activeTabId = active_or_first (getPaneIds t) (g_activeTabId g),
        sg_zoomedTabId = keep_zoom (g_zoomedTabId g) (getPaneIds t)\<rparr>)"
    by (simp only: save_group_def Let_def)
  show ?thesis
  proof (cases ?kept)
    case None
    with dropped_None [OF ne refl None] eq show ?thesis by simp
  next
    case (Some t)
    note t = dropped_spec(2) [OF ne refl Some] dropped_canonical [OF can refl Some]
    from t(2) have "active_or_first (getPaneIds t) (g_activeTabId g) \<in> set (getPaneIds t)"
      by (intro active_or_first_in canonical_panes)
    moreover have "save_group saved g = Some \<lparr>sg_root = t,
        sg_activeTabId = active_or_first (getPaneIds t) (g_activeTabId g),
        sg_zoomedTabId = keep_zoom (g_zoomedTabId g) (getPaneIds t)\<rparr>"
      unfolding eq Some by simp
    ultimately show ?thesis
      using t keep_zoom_nonempty [of "g_zoomedTabId g" "getPaneIds t"] by (simp add: saved_ok_def)
  qed
qed

lemma serializeTabGroups_spec:
  assumes "groups_ok gs"
  shows "\<forall>s\<in>set (serializeTabGroups gs saved). saved_ok s"
    and "saved_panes (serializeTabGroups gs saved) = filter (\<lambda>i. i \<in> saved) (all_panes gs)"
proof -
  have "(\<forall>s\<in>set (serializeTabGroups gs saved). saved_ok s)
    \<and> saved_panes (serializeTabGroups gs saved) = filter (\<lambda>i. i \<in> saved) (all_panes gs)"
    using assms
  proof (induction gs)
    case Nil
    show ?case by (simp add: serializeTabGroups_def List.map_filter_def)
  next
    case (Cons g gs)
    then have "group_ok g" by simp
    from save_group_spec [OF this, of saved] Cons show ?case
      by (auto simp: serializeTabGroups_def List.map_filter_def split: option.splits)
  qed
  then show "\<forall>s\<in>set (serializeTabGroups gs saved). saved_ok s"
    and "saved_panes (serializeTabGroups gs saved) = filter (\<lambda>i. i \<in> saved) (all_panes gs)"
    by simp_all
qed

section \<open>Reading back what was written\<close>

lemma map_size_at: "length ss = n \<Longrightarrow> map (size_at ss) [0..<n] = ss"
  by (rule nth_equalityI) (auto simp: size_at_def)

lemma readPaneNode_pane_json: "canonical t \<Longrightarrow> readPaneNode (pane_json t) = Some t"
proof (induction t)
  case (Pane i)
  show ?case by (simp add: readPaneNode.simps paneLeaf_def string_field_def)
next
  case (Split ori cs ss)
  have children: "map readPaneNode (map pane_json cs) = map Some cs"
    using Split by simp
  have "\<forall>s\<in>set ss. 0 \<le> s" using Split.prems by (simp add: shares_def)
  then have sizes: "map positive_size (map JNum ss) = ss" by (auto intro!: map_idI)
  let ?v = "pane_json (Split ori cs ss)"
  have fields: "read_split_orientation ?v = Some ori" "array_field ?v ''children'' = Some (map pane_json cs)"
      "array_field ?v ''sizes'' = Some (map JNum ss)" "isRecord ?v"
      "field ?v ''type'' = Some (JStr ''split'')"
    by (cases ori; simp add: read_split_orientation_def array_field_def)+
  have the: "map the (map Some cs) = cs" by (simp add: comp_def)
  have "cs \<noteq> []" "length ss = length cs" using Split.prems by auto
  then show ?case
    unfolding readPaneNode.simps [of ?v]
    by (simp add: fields children sizes the Let_def map_size_at image_iff
      del: pane_json.simps map_map)
qed

lemma read_group_json: "saved_ok g \<Longrightarrow> read_group (group_json g) = Some g"
  by (cases g) (auto simp: read_group_def group_json_def saved_ok_def readPaneNode_pane_json
    string_field_def split: option.splits)

lemma map_filter_inverse: "\<forall>x\<in>set xs. f (g x) = Some x \<Longrightarrow> List.map_filter f (map g xs) = xs"
  by (induction xs) (auto simp: List.map_filter_def)

lemma readSavedGroups_layout_json:
  "\<forall>g\<in>set gs. saved_ok g \<Longrightarrow> readSavedGroups (layout_json gs) = gs"
  by (simp add: readSavedGroups_def layout_json_def array_field_def map_filter_inverse read_group_json)

lemma restore_group_all:
  assumes "saved_ok g" and "set (sg_panes g) \<subseteq> known" and "set (sg_panes g) \<inter> seen = {}"
  shows "restore_group known seen g = Some g"
proof -
  have "filter (\<lambda>i. i \<notin> known \<or> i \<in> seen) (sg_panes g) = []"
    using assms(2,3) by (auto simp: filter_empty_conv)
  with assms(1) show ?thesis
    unfolding restore_group_def Let_def
    by (cases g) (auto simp: saved_ok_def active_or_first_id keep_zoom_id)
qed

lemma restore_groups_all:
  assumes "\<forall>g\<in>set gs. saved_ok g" and "distinct (saved_panes gs)"
    and "set (saved_panes gs) \<subseteq> known" and "set (saved_panes gs) \<inter> seen = {}"
  shows "restore_groups known seen gs = gs"
  using assms
proof (induction gs arbitrary: seen)
  case (Cons g gs)
  then have "restore_group known seen g = Some g" by (intro restore_group_all) auto
  moreover have "restore_groups known (seen \<union> set (sg_panes g)) gs = gs"
    using Cons.prems by (intro Cons.IH) auto
  ultimately show ?case by simp
qed simp

lemma restore_layout_json:
  assumes "\<forall>g\<in>set gs. saved_ok g" and "distinct (saved_panes gs)" and "set (saved_panes gs) \<subseteq> set tabIds"
  shows "restoreTabGroups (layout_json gs) tabIds = gs"
proof -
  have "field (layout_json gs) ''version'' = Some (JNum TAB_GROUPS_LAYOUT_VERSION)" "isRecord (layout_json gs)"
    by (simp_all add: layout_json_def)
  with assms show ?thesis
    by (simp add: restoreTabGroups_def readSavedGroups_layout_json restore_groups_all)
qed

section \<open>Whatever the file holds\<close>

lemma no_empty_readPaneNode: "readPaneNode v = Some t \<Longrightarrow> no_empty t"
proof (induction v arbitrary: t rule: readPaneNode.induct)
  case (1 v)
  show ?case
  proof (cases "field v ''type'' = Some (JStr ''pane'')")
    case True
    with 1(2) show ?thesis
      by (auto simp: readPaneNode.simps [of v] paneLeaf_def split: if_splits)
  next
    case False
    with 1(2) obtain ori cs ss where parts: "read_split_orientation v = Some ori"
        "array_field v ''children'' = Some cs" "array_field v ''sizes'' = Some ss"
        "isRecord v" "field v ''type'' = Some (JStr ''split'')"
      by (auto simp: readPaneNode.simps [of v] split: if_splits option.splits)
    with False 1(2) have t: "cs \<noteq> []" "None \<notin> set (map readPaneNode cs)"
        "t = Split ori (map the (map readPaneNode cs))
          (map (\<lambda>k. size_at (map positive_size ss) k) [0..<length (map readPaneNode cs)])"
      by (auto simp: readPaneNode.simps [of v] Let_def split: if_splits)
    have "no_empty (the (readPaneNode c))" if "c \<in> set cs" for c
    proof -
      from t(2) that obtain u where "readPaneNode c = Some u" by (force simp: image_iff)
      moreover have "no_empty u" using 1(1) False parts that calculation by simp
      ultimately show ?thesis by simp
    qed
    with t show ?thesis by simp
  qed
qed

lemma no_empty_visit:
  "visit node ori st = (Some t, st') \<Longrightarrow> no_empty t"
  "visit_all nodes ori st = (entries, st') \<Longrightarrow> \<forall>e\<in>set entries. no_empty (fst e)"
proof (induction node ori st and nodes ori st arbitrary: t st' and entries st' rule: visit_visit_all.induct)
  case (1 node ori st)
  show ?case
  proof (cases "field node ''type'' = Some (JStr ''leaf'')")
    case True
    with 1(2) show ?thesis
      by (auto simp: visit.simps [of node] visit_leaf_def Let_def paneLeaf_def split: if_splits option.splits)
  next
    case False
    with 1(2) obtain cs es where parts: "array_field node ''data'' = Some cs"
        "visit_all cs (crossed ori) st = (es, st')" "es \<noteq> []" "isRecord node"
        "field node ''type'' = Some (JStr ''branch'')" "t = Split ori (map fst es) (map snd es)"
      by (auto simp: visit.simps [of node] split: if_splits option.splits prod.splits)
    with 1(1) False have "\<forall>e\<in>set es. no_empty (fst e)" by simp
    with parts show ?thesis by simp
  qed
next
  case (3 child rest ori st)
  from 3(3) show ?case
    using 3(1) 3(2) by (auto split: prod.splits option.splits) (metis fst_conv)+
qed simp

lemma no_empty_saved:
  "\<forall>g\<in>set (readSavedGroups v). no_empty (sg_root g)"
  "\<forall>g\<in>set (readDockviewLayout v). no_empty (sg_root g)"
proof -
  have "no_empty (sg_root g)" if "read_group w = Some g" for w g
    using that by (cases "field w ''root''")
      (auto simp: read_group_def no_empty_readPaneNode split: if_splits option.splits)
  then show "\<forall>g\<in>set (readSavedGroups v). no_empty (sg_root g)"
    by (auto simp: readSavedGroups_def in_map_filter split: option.splits)
  show "\<forall>g\<in>set (readDockviewLayout v). no_empty (sg_root g)"
    by (auto simp: readDockviewLayout_def Let_def paneLeaf_def
      split: option.splits if_splits prod.splits
      intro!: canonical_no_empty [OF canonical_normalizePaneTree] dest!: no_empty_visit(1) [OF sym])
qed

lemma restore_group_spec:
  assumes "no_empty (sg_root g)" and "restore_group known seen g = Some r"
  shows "saved_ok r" and "sg_panes r = filter (\<lambda>i. i \<in> known \<and> i \<notin> seen) (sg_panes g)"
proof -
  let ?gone = "filter (\<lambda>i. i \<notin> known \<or> i \<in> seen) (sg_panes g)"
  let ?kept = "if ?gone \<noteq> [] then removePanes (sg_root g) (set ?gone) else Some (sg_root g)"
  have eq: "restore_group known seen g = (case ?kept of None \<Rightarrow> None | Some t \<Rightarrow>
      Some \<lparr>sg_root = normalizePaneTree t,
        sg_activeTabId = active_or_first (getPaneIds t) (sg_activeTabId g),
        sg_zoomedTabId = keep_zoom (sg_zoomedTabId g) (getPaneIds t)\<rparr>)"
    by (simp only: restore_group_def Let_def)
  obtain t where kept: "?kept = Some t"
    using assms(2) unfolding eq by (cases ?kept) simp_all
  then have r: "r = \<lparr>sg_root = normalizePaneTree t,
        sg_activeTabId = active_or_first (getPaneIds t) (sg_activeTabId g),
        sg_zoomedTabId = keep_zoom (sg_zoomedTabId g) (getPaneIds t)\<rparr>"
    using assms(2) unfolding eq kept by simp
  note t = dropped_spec [OF assms(1) refl kept]
  from t(1) have "active_or_first (getPaneIds t) (sg_activeTabId g) \<in> set (getPaneIds t)"
    by (intro active_or_first_in no_empty_panes)
  with t(1) show "saved_ok r"
    using keep_zoom_nonempty [of "sg_zoomedTabId g" "getPaneIds t"]
    by (simp add: r saved_ok_def canonical_normalizePaneTree)
  from t(2) show "sg_panes r = filter (\<lambda>i. i \<in> known \<and> i \<notin> seen) (sg_panes g)"
    by (simp add: r)
qed

text \<open>Groups fit to be restored: well formed, of known tabs, and no tab in two of them.\<close>

definition restorable :: "string set \<Rightarrow> SavedTabGroup list \<Rightarrow> bool" where
  "restorable known gs \<longleftrightarrow> (\<forall>g\<in>set gs. saved_ok g \<and> set (sg_panes g) \<subseteq> known)
     \<and> (\<forall>i\<in>known. length (filter (\<lambda>g. i \<in> set (sg_panes g)) gs) \<le> 1)"

lemma restore_groups_seen:
  assumes "\<forall>g\<in>set gs. no_empty (sg_root g)" and "i \<in> seen"
  shows "filter (\<lambda>g. i \<in> set (sg_panes g)) (restore_groups known seen gs) = []"
  using assms
proof (induction gs arbitrary: seen)
  case (Cons g gs)
  show ?case
  proof (cases "restore_group known seen g")
    case (Some r)
    with restore_group_spec(2) [OF _ Some] Cons.prems have "i \<notin> set (sg_panes r)" by simp
    with Some Cons show ?thesis by simp
  qed (use Cons in simp)
qed simp

lemma restorable_restore_groups:
  assumes "\<forall>g\<in>set gs. no_empty (sg_root g)"
  shows "restorable known (restore_groups known seen gs)"
  using assms
proof (induction gs arbitrary: seen)
  case Nil
  show ?case by (simp add: restorable_def)
next
  case (Cons g gs)
  show ?case
  proof (cases "restore_group known seen g")
    case None
    with Cons show ?thesis by simp
  next
    case (Some r)
    let ?rest = "restore_groups known (seen \<union> set (sg_panes r)) gs"
    have r: "saved_ok r" "sg_panes r = filter (\<lambda>i. i \<in> known \<and> i \<notin> seen) (sg_panes g)"
      using restore_group_spec [OF _ Some] Cons.prems by simp_all
    have "restorable known ?rest" using Cons by simp
    moreover have "filter (\<lambda>g. i \<in> set (sg_panes g)) ?rest = []" if "i \<in> set (sg_panes r)" for i
      using Cons.prems that by (intro restore_groups_seen) auto
    ultimately show ?thesis using r Some by (auto simp: restorable_def)
  qed
qed

lemma restorable_sort_key: "restorable known gs \<Longrightarrow> restorable known (sort_key f gs)"
proof -
  have "length (filter p (sort_key f gs)) = length (filter p gs)" for p
    by (metis mset_filter mset_sort size_mset)
  then show "restorable known gs \<Longrightarrow> restorable known (sort_key f gs)" by (simp add: restorable_def)
qed

lemma restorable_restoreTabGroups: "restorable (set tabIds) (restoreTabGroups layout tabIds)"
  using restorable_restore_groups [of "readSavedGroups layout" "set tabIds" "{}"]
    restorable_restore_groups [of "readDockviewLayout layout" "set tabIds" "{}"] no_empty_saved [of layout]
  by (auto simp: restoreTabGroups_def Let_def restorable_sort_key) (simp add: restorable_def)

end
