(* ===== verification/Local_Title.thy ===== *)
theory Local_Title
  imports Tab_Types
begin

text \<open>
  Names of local tabs (\<open>src/src/lib/localTabTitle.ts\<close>): after the shell's
  directory, told apart where directories share a name, and after the command
  the shell runs. The home directory, which the module keeps in \<open>home\<close> once the
  backend has told it, is an argument, and so is the shell's name that
  \<open>invoke("local_terminal_shell_name")\<close> answers.

  Regular expressions are written out on character lists. \<open>.\<close> matches any
  character but a line feed or carriage return. Of \<open>LEGACY_LOCAL_TITLES\<close> the two
  Chinese titles hold no code unit below U+0100, so no string of the model
  equals them.
\<close>

section \<open>Paths\<close>

definition is_slash :: "char \<Rightarrow> bool" where
  "is_slash c = (c = CHR ''/'' \<or> c = CHR 0x5C)"

definition backslash :: char where "backslash = CHR 0x5C"

text \<open>\<open>replace(/^\/([A-Za-z])(\/|$)/, "$1:/")\<close>: Git Bash's \<open>/c/Users\<close> as \<open>c:/Users\<close>.\<close>

fun drive_path :: "string \<Rightarrow> string" where
  "drive_path (s # l # rest) =
     (if s = CHR ''/'' \<and> is_letter l \<and> (rest = [] \<or> hd rest = CHR ''/'')
      then l # '':/'' @ tl rest else s # l # rest)"
| "drive_path p = p"

fun has_drive :: "string \<Rightarrow> bool" where
  "has_drive (l # c # rest) = (is_letter l \<and> c = CHR '':'')"
| "has_drive p = False"

definition comparablePath :: "string \<Rightarrow> string" where
  "comparablePath path =
     (let slashed = drive_path (map (\<lambda>c. if c = backslash then CHR ''/'' else c) path);
          trimmed = strip_trailing (\<lambda>c. c = CHR ''/'') slashed
      in if has_drive trimmed then to_lower trimmed else trimmed)"

definition directoryTitle :: "string \<Rightarrow> string option \<Rightarrow> string option" where
  "directoryTitle cwd home =
     (let trimmed = trim cwd
      in if trimmed = [] then None
         else let path = strip_trailing is_slash trimmed
              in if truthy home \<and> comparablePath path = comparablePath (the home) then Some ''~''
                 else if path = [] then Some (if hd trimmed = backslash then [backslash] else ''/'')
                 else if has_drive path \<and> length path = 2 then Some (path @ [backslash])
                 else Some (after_last is_slash path))"

definition pathSegments :: "string \<Rightarrow> string list" where
  "pathSegments path = words_by is_slash path"

section \<open>Shells\<close>

definition localShellTitle :: "string option \<Rightarrow> Connection option \<Rightarrow> string option" where
  "localShellTitle shellName connection =
     (case connection of
        None \<Rightarrow> shellName
      | Some c \<Rightarrow>
          (case c_terminalShellWslDistro c of
             None \<Rightarrow> shellName
           | Some distro \<Rightarrow>
               if c_terminalShell c = Some ShWsl \<and> trim distro \<noteq> [] then Some (trim distro)
               else shellName))"

definition FALLBACK_TITLE :: string where "FALLBACK_TITLE = ''Terminal''"

text \<open>\<open>localShellName\<close>, given what the backend answered.\<close>

definition localShellName :: "string option \<Rightarrow> string" where
  "localShellName answer = (if truthy answer then the answer else FALLBACK_TITLE)"

section \<open>Commands\<close>

definition MAX_COMMAND_TITLE_LENGTH :: nat where "MAX_COMMAND_TITLE_LENGTH = 20"

text \<open>
  \<open>/^(?:sudo|&|\w+=\S*)\s+/\<close>: what is left after one match, or \<open>None\<close>. A word and
  its value are maximal runs, so no shorter match can be followed by white space.
\<close>

definition space_after :: "string \<Rightarrow> string option" where
  "space_after s = (case s of [] \<Rightarrow> None
     | c # _ \<Rightarrow> if is_space c then Some (dropWhile is_space s) else None)"

definition skip_runner :: "string \<Rightarrow> string option" where
  "skip_runner s =
     (if starts_with s ''sudo'' \<and> space_after (drop 4 s) \<noteq> None then space_after (drop 4 s)
      else if starts_with s ''&'' then space_after (drop 1 s)
      else let w = takeWhile is_word s; r = dropWhile is_word s
           in if w \<noteq> [] \<and> starts_with r ''=''
              then space_after (dropWhile (\<lambda>c. \<not> is_space c) (tl r)) else None)"

lemma space_after_shorter: "space_after s = Some r \<Longrightarrow> length r < length s"
proof (cases s)
  case (Cons c cs)
  assume "space_after s = Some r"
  with Cons have "r = dropWhile is_space cs" by (auto simp: space_after_def split: if_splits)
  with Cons show ?thesis by (simp add: le_imp_less_Suc length_dropWhile_le)
qed (simp add: space_after_def)

lemma skip_runner_shorter: "skip_runner s = Some r \<Longrightarrow> length r < length s"
proof -
  assume *: "skip_runner s = Some r"
  have "length r < length t \<Longrightarrow> length t \<le> length s \<Longrightarrow> length r < length s" for t by simp
  moreover have "length (dropWhile (\<lambda>c. \<not> is_space c) (tl (dropWhile is_word s))) \<le> length s"
  proof -
    have "length (dropWhile (\<lambda>c. \<not> is_space c) (tl (dropWhile is_word s))) \<le> length (tl (dropWhile is_word s))"
      by (rule length_dropWhile_le)
    also have "\<dots> \<le> length (dropWhile is_word s)" by simp
    also have "\<dots> \<le> length s" by (rule length_dropWhile_le)
    finally show ?thesis .
  qed
  ultimately show ?thesis
    using * space_after_shorter [of "drop 4 s" r] space_after_shorter [of "drop 1 s" r]
      space_after_shorter [of "dropWhile (\<lambda>c. \<not> is_space c) (tl (dropWhile is_word s))" r]
    by (fastforce simp: skip_runner_def Let_def split: if_splits)
qed

function skip_runners :: "string \<Rightarrow> string" where
  "skip_runners s = (case skip_runner s of None \<Rightarrow> s | Some r \<Rightarrow> skip_runners r)"
  by pat_completeness auto
termination
  by (relation "measure length") (auto simp: skip_runner_shorter)

declare skip_runners.simps [simp del]

text \<open>\<open>/^(["'])(.*?)\1/\<close>: what the quotes hold, and the rest.\<close>

definition read_quoted :: "string \<Rightarrow> (string \<times> string) option" where
  "read_quoted s =
     (case s of [] \<Rightarrow> None
      | q # r \<Rightarrow>
          (if q = CHR 0x22 \<or> q = CHR 0x27
           then let body = takeWhile (\<lambda>c. c \<noteq> q) r; after = dropWhile (\<lambda>c. c \<noteq> q) r
                in if after \<noteq> [] \<and> CHR 0x0A \<notin> set body \<and> CHR 0x0D \<notin> set body
                   then Some (body, tl after) else None
           else None))"

definition drop_suffix_if :: "string \<Rightarrow> string \<Rightarrow> string option" where
  "drop_suffix_if suffix s =
     (if ends_with (to_lower s) suffix then Some (take (length s - length suffix) s) else None)"

text \<open>\<open>replace(/\.(exe|cmd|bat|com|ps1)$/i, "")\<close>.\<close>

definition drop_extension :: "string \<Rightarrow> string" where
  "drop_extension s = or_default
     (or_else (drop_suffix_if ''.exe'' s) (or_else (drop_suffix_if ''.cmd'' s)
       (or_else (drop_suffix_if ''.bat'' s) (or_else (drop_suffix_if ''.com'' s)
         (drop_suffix_if ''.ps1'' s))))) s"

definition commandTitle :: "string \<Rightarrow> string option" where
  "commandTitle command =
     (let rest = skip_runners (trim command);
          (first, after) = (case read_quoted rest of
             Some (body, r) \<Rightarrow> (body, r)
           | None \<Rightarrow> (takeWhile (\<lambda>c. \<not> is_space c) rest, dropWhile (\<lambda>c. \<not> is_space c) rest));
          args = join '' '' (words_by is_space (trim after));
          program = drop_extension (after_last is_slash first)
      in if program = [] then None
         else let whole = (if args \<noteq> [] then program @ '' '' @ args else program)
              in Some (if length whole \<le> MAX_COMMAND_TITLE_LENGTH then whole else program))"

text \<open>\<open>commands\<close> is a map in insertion order: each tab id with the command its shell runs.\<close>

definition middle_dot :: string where "middle_dot = [CHR '' '', CHR 0xB7, CHR '' '']"

definition runningCommandTitle :: "Tab \<Rightarrow> (string \<times> string) list \<Rightarrow> string option" where
  "runningCommandTitle tab commands =
     (let command = (if t_autoTitle tab = Some True then map_of commands (t_id tab) else None)
      in if \<not> truthy command then None
         else case commandTitle (the command) of
           None \<Rightarrow> None
         | Some title \<Rightarrow>
             Some (if \<exists>(tabId, other)\<in>set commands. tabId \<noteq> t_id tab \<and> commandTitle other = Some title
                   then title @ middle_dot @ t_title tab else title))"

section \<open>Titles after directories\<close>

definition cwdTitle :: "string option \<Rightarrow> string option \<Rightarrow> string option" where
  "cwdTitle cwd home = (if truthy cwd then directoryTitle (the cwd) home else None)"

definition tab_cwd :: "Tab \<Rightarrow> string option" where
  "tab_cwd tab = Option.bind (t_connection tab) c_cwd"

definition withLocalCwd :: "string option \<Rightarrow> Tab \<Rightarrow> string \<Rightarrow> Tab" where
  "withLocalCwd home tab cwd =
     (let own = (if t_autoTitle tab = Some True then cwdTitle (Some cwd) home else None);
          title = (if truthy own then the own else t_title tab)
      in if tab_cwd tab = Some cwd \<and> title = t_title tab then tab
         else tab\<lparr>t_title := title,
                  t_connection := Some ((or_default (t_connection tab)
                    (empty_connection\<lparr>c_type := Some ConnTerminal\<rparr>))\<lparr>c_cwd := Some cwd\<rparr>)\<rparr>)"

definition take_last :: "nat \<Rightarrow> 'a list \<Rightarrow> 'a list" where
  "take_last n xs = drop (length xs - n) xs"

definition distinctSuffix :: "string \<Rightarrow> string list list \<Rightarrow> string" where
  "distinctSuffix cwd others =
     (let segments = pathSegments cwd;
          comparable = pathSegments (comparablePath cwd);
          separator = (if backslash \<in> set cwd then [backslash] else ''/'')
      in case find (\<lambda>n. \<forall>other\<in>set others.
                  join ''/'' (take_last n other) \<noteq> join ''/'' (take_last n comparable))
                [2..<length segments + 1] of
           Some n \<Rightarrow> join separator (take_last n segments)
         | None \<Rightarrow> trim cwd)"

text \<open>The name a tab takes from its directory alone, with that directory.\<close>

definition title_base :: "string option \<Rightarrow> Tab \<Rightarrow> (string \<times> string) option" where
  "title_base home tab =
     (case tab_cwd tab of
        None \<Rightarrow> None
      | Some cwd \<Rightarrow>
          (let base = (if t_autoTitle tab = Some True \<and> cwd \<noteq> [] then directoryTitle cwd home else None)
           in if cwd \<noteq> [] \<and> truthy base then Some (the base, cwd) else None))"

text \<open>The members of the group of tabs named \<open>base\<close>, with their directories.\<close>

definition base_members :: "string option \<Rightarrow> Tab list \<Rightarrow> string \<Rightarrow> (string \<times> string) list" where
  "base_members home tabs base = List.map_filter (\<lambda>tab. case title_base home tab of
     None \<Rightarrow> None | Some (b, cwd) \<Rightarrow> if b = base then Some (t_id tab, cwd) else None) tabs"

definition base_titles :: "string \<Rightarrow> (string \<times> string) list \<Rightarrow> (string \<times> string) list" where
  "base_titles base members =
     (let paths = nub (map (\<lambda>(_, cwd). comparablePath cwd) members)
      in map (\<lambda>(i, cwd).
           let others = map pathSegments (filter (\<lambda>p. p \<noteq> comparablePath cwd) paths)
           in (i, if others \<noteq> [] then distinctSuffix cwd others else base)) members)"

text \<open>The map \<open>titles\<close>, as the entries set one after another: the last for an id counts.\<close>

definition local_titles :: "string option \<Rightarrow> Tab list \<Rightarrow> (string \<times> string) list" where
  "local_titles home tabs =
     (let bases = nub (map fst (List.map_filter (title_base home) tabs))
      in concat (map (\<lambda>base. base_titles base (base_members home tabs base)) bases))"

definition distinctLocalTitles :: "Tab list \<Rightarrow> string option \<Rightarrow> Tab list" where
  "distinctLocalTitles tabs home =
     (let titles = map_of (rev (local_titles home tabs))
      in map (\<lambda>tab. case titles (t_id tab) of
                None \<Rightarrow> tab
              | Some title \<Rightarrow> if title = t_title tab then tab else tab\<lparr>t_title := title\<rparr>) tabs)"

definition withDistinctLocalTitles :: "string option \<Rightarrow> Tab list \<Rightarrow> Tab list" where
  "withDistinctLocalTitles home tabs = distinctLocalTitles tabs home"

section \<open>Tooltips and saved titles\<close>

definition tabTooltip :: "Tab \<Rightarrow> string" where
  "tabTooltip tab =
     (let details = (if t_type tab = TyTerminal
            then [tab_cwd tab, localShellTitle (t_shellName tab) (t_connection tab)]
            else [Option.bind (t_connection tab) c_host]);
          shown = map the (filter (\<lambda>part. truthy part \<and> part \<noteq> Some (t_title tab)) details);
          detail = join middle_dot shown
      in if detail \<noteq> [] then t_title tab @ '' ('' @ detail @ '')'' else t_title tab)"

definition LEGACY_LOCAL_TITLES :: "string list" where
  "LEGACY_LOCAL_TITLES = [''OS terminal'', ''Terminal'', ''Local terminal'']"

text \<open>\<open>replace(/-\d+$/, "")\<close>.\<close>

definition drop_number :: "string \<Rightarrow> string" where
  "drop_number s =
     (let digits = takeWhile is_digit (rev s); before = dropWhile is_digit (rev s)
      in if digits \<noteq> [] \<and> before \<noteq> [] \<and> hd before = CHR ''-'' then rev (tl before) else s)"

definition hasLegacyLocalTitle :: "Tab \<Rightarrow> bool" where
  "hasLegacyLocalTitle tab =
     (t_type tab = TyTerminal \<and> drop_number (t_title tab) \<in> set LEGACY_LOCAL_TITLES)"

definition nameLocalTab :: "string \<Rightarrow> string option \<Rightarrow> Tab \<Rightarrow> Tab" where
  "nameLocalTab shellName home tab =
     (if t_type tab \<noteq> TyTerminal then tab
      else if t_title tab \<noteq> [] then tab\<lparr>t_shellName := Some shellName\<rparr>
      else tab\<lparr>t_title := or_default (cwdTitle (tab_cwd tab) home)
                 (or_default (localShellTitle (Some shellName) (t_connection tab)) shellName),
               t_shellName := Some shellName, t_autoTitle := Some True,
               t_duplicateBaseTitle := None\<rparr>)"

definition hasGeneratedTitle :: "string \<Rightarrow> Tab \<Rightarrow> bool" where
  "hasGeneratedTitle shellName tab =
     (if t_type tab \<noteq> TyTerminal \<or> t_autoTitle tab = Some True then False
      else if hasLegacyLocalTitle tab then True
      else case t_duplicateBaseTitle tab of
        None \<Rightarrow> False
      | Some base \<Rightarrow>
          (if base = [] \<or> \<not> starts_with (t_title tab) base then False
           else let suffix = drop (length base) (t_title tab)
                in if suffix \<noteq> [] \<and> \<not> (hd suffix = CHR ''-'' \<and> tl suffix \<noteq> []
                                          \<and> list_all is_digit (tl suffix))
                   then False else base = shellName))"


section \<open>Only titles change\<close>

lemma distinctLocalTitles_map:
  assumes "\<And>t title. f (t\<lparr>t_title := title\<rparr>) = f t"
  shows "map f (distinctLocalTitles tabs home) = map f tabs"
  using assms by (auto simp: distinctLocalTitles_def Let_def split: option.splits)

lemma title_base_title [simp]: "title_base home (t\<lparr>t_title := title\<rparr>) = title_base home t"
  by (cases "tab_cwd t") (simp_all add: title_base_def tab_cwd_def)

lemma withDistinctLocalTitles_keeps [simp]:
  "map t_id (withDistinctLocalTitles home tabs) = map t_id tabs"
  "map t_isActive (withDistinctLocalTitles home tabs) = map t_isActive tabs"
  "map t_connection (withDistinctLocalTitles home tabs) = map t_connection tabs"
  "map (title_base home) (withDistinctLocalTitles home tabs) = map (title_base home) tabs"
  by (simp_all add: withDistinctLocalTitles_def distinctLocalTitles_map)

lemma base_members_map:
  "base_members home tabs base = List.map_filter (\<lambda>(i, tb). case tb of
     None \<Rightarrow> None | Some (b, cwd) \<Rightarrow> if b = base then Some (i, cwd) else None)
     (map (\<lambda>t. (t_id t, title_base home t)) tabs)"
  by (induction tabs) (auto simp: base_members_def List.map_filter_def split: option.splits)

lemma local_titles_cong:
  assumes "map (\<lambda>t. (t_id t, title_base home t)) tabs = map (\<lambda>t. (t_id t, title_base home t)) tabs'"
  shows "local_titles home tabs = local_titles home tabs'"
proof -
  have "map (title_base home) tabs = map (title_base home) tabs'"
    using arg_cong [OF assms, of "map snd"] by (simp add: comp_def)
  then have "List.map_filter (title_base home) tabs = List.map_filter (title_base home) tabs'"
    using map_filter_map [of "\<lambda>x. x" "title_base home"] by (simp add: comp_def) metis
  with assms show ?thesis by (simp add: local_titles_def base_members_map)
qed

lemma distinctLocalTitles_idem:
  "distinctLocalTitles (distinctLocalTitles tabs home) home = distinctLocalTitles tabs home"
proof -
  have same: "local_titles home (distinctLocalTitles tabs home) = local_titles home tabs"
    by (rule local_titles_cong, rule distinctLocalTitles_map) simp
  show ?thesis
    by (subst distinctLocalTitles_def, subst same)
      (auto simp: distinctLocalTitles_def Let_def split: option.splits)
qed

section \<open>Titles tell directories apart\<close>

lemma base_members_iff:
  "(i, cwd) \<in> set (base_members home tabs base)
    \<longleftrightarrow> (\<exists>t\<in>set tabs. t_id t = i \<and> title_base home t = Some (base, cwd))"
  unfolding base_members_def in_map_filter by (force split: option.splits if_splits)

lemma base_members_Cons: "base_members home (t # tabs) base = (case title_base home t of
    None \<Rightarrow> base_members home tabs base
  | Some (b, cwd) \<Rightarrow> if b = base then (t_id t, cwd) # base_members home tabs base
      else base_members home tabs base)"
  by (simp add: base_members_def split: option.splits)

lemma base_members_ids:
  "distinct (map t_id tabs) \<Longrightarrow> distinct (map fst (base_members home tabs base))"
proof (induction tabs)
  case (Cons t tabs)
  then have IH: "distinct (map fst (base_members home tabs base))" by simp
  have "i \<in> t_id ` set tabs" if "(i, cwd) \<in> set (base_members home tabs base)" for i cwd
    using that by (auto simp: base_members_iff)
  then have "t_id t \<notin> fst ` set (base_members home tabs base)"
    using Cons.prems by auto
  with IH show ?case by (auto simp: base_members_Cons split: option.splits)
qed (simp add: base_members_def)

lemma fst_base_titles: "map fst (base_titles base members) = map fst members"
  by (auto simp: base_titles_def Let_def)

lemma distinct_local_titles:
  assumes "distinct (map t_id tabs)"
  shows "distinct (map fst (local_titles home tabs))"
proof -
  let ?bases = "nub (map fst (List.map_filter (title_base home) tabs))"
  have "map fst (local_titles home tabs) = concat (map (\<lambda>b. map fst (base_members home tabs b)) ?bases)"
    by (simp add: local_titles_def map_concat comp_def fst_base_titles)
  moreover have "distinct (concat (map (\<lambda>b. map fst (base_members home tabs b)) ?bases))"
  proof (rule distinct_concat_disjoint)
    fix b c i
    assume "i \<in> set (map fst (base_members home tabs b))" "i \<in> set (map fst (base_members home tabs c))"
    then obtain t u d e where "t \<in> set tabs" "u \<in> set tabs" "t_id t = i" "t_id u = i"
      "title_base home t = Some (b, d)" "title_base home u = Some (c, e)"
      by (auto simp: base_members_iff)
    moreover from this assms have "t = u" by (metis distinct_map inj_onD)
    ultimately show "b = c" by simp
  qed (simp_all add: base_members_ids [OF assms])
  ultimately show ?thesis by simp
qed

text \<open>The directories a tab is told apart from: those of the tabs of its name, but its own.\<close>

definition other_paths :: "string option \<Rightarrow> Tab list \<Rightarrow> string \<Rightarrow> string \<Rightarrow> string list list" where
  "other_paths home tabs base cwd = map pathSegments (filter (\<lambda>p. p \<noteq> comparablePath cwd)
     (nub (map (\<lambda>(_, cwd). comparablePath cwd) (base_members home tabs base))))"

lemma local_titles_lookup:
  assumes "distinct (map t_id tabs)" and "t \<in> set tabs" and "title_base home t = Some (base, cwd)"
  shows "map_of (rev (local_titles home tabs)) (t_id t) =
    Some (if other_paths home tabs base cwd \<noteq> [] then distinctSuffix cwd (other_paths home tabs base cwd) else base)"
proof -
  have "(t_id t, cwd) \<in> set (base_members home tabs base)" using assms(2,3) by (auto simp: base_members_iff)
  then have "(t_id t, if other_paths home tabs base cwd \<noteq> []
      then distinctSuffix cwd (other_paths home tabs base cwd) else base)
    \<in> set (base_titles base (base_members home tabs base))"
    by (force simp: base_titles_def Let_def other_paths_def)
  moreover have "base \<in> set (nub (map fst (List.map_filter (title_base home) tabs)))"
    using assms(2,3) by (force simp: List.map_filter_def)
  ultimately have "(t_id t, if other_paths home tabs base cwd \<noteq> []
      then distinctSuffix cwd (other_paths home tabs base cwd) else base)
    \<in> set (rev (local_titles home tabs))"
    unfolding local_titles_def Let_def set_rev set_concat set_map by blast
  moreover have "distinct (map fst (rev (local_titles home tabs)))"
    using distinct_local_titles [OF assms(1)] by (simp add: rev_map [symmetric])
  ultimately show ?thesis by (intro map_of_is_SomeI)
qed

lemma other_paths_in:
  assumes "u \<in> set tabs" and "title_base home u = Some (base, cwd')"
    and "comparablePath cwd' \<noteq> comparablePath cwd"
  shows "pathSegments (comparablePath cwd') \<in> set (other_paths home tabs base cwd)"
  using assms by (force simp: other_paths_def base_members_iff)

lemma distinctSuffix_cases:
  obtains (suffix) n where "2 \<le> n" "n \<le> length (pathSegments cwd)"
    "distinctSuffix cwd others = join (if backslash \<in> set cwd then [backslash] else ''/'') (take_last n (pathSegments cwd))"
    "\<forall>other\<in>set others. join ''/'' (take_last n other) \<noteq> join ''/'' (take_last n (pathSegments (comparablePath cwd)))"
  | (whole) "distinctSuffix cwd others = trim cwd"
proof (cases "find (\<lambda>n. \<forall>other\<in>set others.
    join ''/'' (take_last n other) \<noteq> join ''/'' (take_last n (pathSegments (comparablePath cwd))))
    [2..<length (pathSegments cwd) + 1]")
  case None
  then show ?thesis using whole by (simp add: distinctSuffix_def)
next
  case (Some n)
  then have "n \<in> set [2..<length (pathSegments cwd) + 1]"
    "\<forall>other\<in>set others. join ''/'' (take_last n other) \<noteq> join ''/'' (take_last n (pathSegments (comparablePath cwd)))"
    by (auto simp: find_Some_iff simp del: upt_Suc)
  with Some show ?thesis by (intro suffix [of n]) (auto simp: distinctSuffix_def Let_def)
qed

text \<open>
  A path as Unix shells report it: absolute, without backslashes, in no way a
  drive, and with no white space around it.
\<close>

definition unix_path :: "string \<Rightarrow> bool" where
  "unix_path p \<longleftrightarrow> starts_with p ''/'' \<and> backslash \<notin> set p \<and> trim p = p
     \<and> comparablePath p = strip_trailing (\<lambda>c. c = CHR ''/'') p"

lemma split_at_snoc_sep: "p c \<Longrightarrow> split_at p (s @ [c]) = split_at p s @ [[]]"
  by (induction s) (auto split: list.splits)

lemma words_by_strip: "(\<And>c. q c \<Longrightarrow> p c) \<Longrightarrow> words_by p (strip_trailing q s) = words_by p s"
proof (induction s rule: rev_induct)
  case (snoc c s)
  then show ?case
    by (cases "q c") (auto simp: strip_trailing_def words_by_def split_at_snoc_sep)
qed (simp add: strip_trailing_def)

lemma unix_segments: "unix_path p \<Longrightarrow> pathSegments (comparablePath p) = pathSegments p"
  unfolding unix_path_def pathSegments_def by (auto simp: is_slash_def intro!: words_by_strip)

lemma segment_clean:
  assumes "w \<in> set (pathSegments p)"
  shows "w \<noteq> []" and "\<forall>c\<in>set w. \<not> is_slash c"
  using assms split_at_parts [of w is_slash p] by (auto simp: pathSegments_def words_by_def)

lemma take_last_subset: "set (take_last n xs) \<subseteq> set xs"
  by (auto simp: take_last_def dest: in_set_dropD)

lemma length_take_last [simp]: "length (take_last n xs) = min n (length xs)"
  by (simp add: take_last_def min_def)

lemma split_at_join_slash:
  assumes "ws \<noteq> []" and "\<forall>w\<in>set ws. \<forall>c\<in>set w. \<not> is_slash c"
  shows "split_at is_slash (join ''/'' ws) = ws"
proof (rule split_at_join [OF assms])
  show "is_slash CHR ''/''" by (simp add: is_slash_def)
qed

lemma join_segments_inject:
  assumes "join ''/'' us = join ''/'' ws" and "us \<noteq> []" and "ws \<noteq> []"
    and "\<forall>w\<in>set us \<union> set ws. \<forall>c\<in>set w. \<not> is_slash c"
  shows "us = ws"
proof -
  have "\<forall>w\<in>set us. \<forall>c\<in>set w. \<not> is_slash c" "\<forall>w\<in>set ws. \<forall>c\<in>set w. \<not> is_slash c"
    using assms(4) [unfolded ball_Un] by (rule conjunct1, rule conjunct2)
  note us = split_at_join_slash [OF assms(2) this(1)] and ws = split_at_join_slash [OF assms(3) this(2)]
  show ?thesis
    by (rule trans [OF us [symmetric] trans [OF arg_cong [where f = "split_at is_slash", OF assms(1)] ws]])
qed

lemma hd_join: "ws \<noteq> [] \<Longrightarrow> hd ws \<noteq> [] \<Longrightarrow> join sep ws \<noteq> [] \<and> hd (join sep ws) = hd (hd ws)"
  by (cases ws; cases "tl ws") auto

lemma suffix_no_leading_slash:
  assumes "0 < n" and "n \<le> length (pathSegments p)"
  shows "\<not> starts_with (join ''/'' (take_last n (pathSegments p))) ''/''"
proof -
  let ?ws = "take_last n (pathSegments p)"
  have ne: "?ws \<noteq> []" using assms by (metis length_take_last list.size(3) min.absorb1 not_gr_zero)
  then have "hd ?ws \<in> set (pathSegments p)" using take_last_subset [of n "pathSegments p"] by (meson hd_in_set subsetD)
  from segment_clean [OF this] have "hd ?ws \<noteq> []" "\<not> is_slash (hd (hd ?ws))" by auto
  with hd_join [OF ne, of "''/''"] show ?thesis by (auto simp: starts_with_iff is_slash_def)
qed

lemma distinctSuffix_apart:
  assumes "unix_path p" and "unix_path q" and "comparablePath p \<noteq> comparablePath q"
    and "pathSegments (comparablePath q) \<in> set ps" and "pathSegments (comparablePath p) \<in> set qs"
  shows "distinctSuffix p ps \<noteq> distinctSuffix q qs"
proof
  assume eq: "distinctSuffix p ps = distinctSuffix q qs"
  have slash: "starts_with (trim r) ''/''" if "unix_path r" for r using that by (simp add: unix_path_def)
  have sep: "(if backslash \<in> set r then [backslash] else ''/'') = ''/''" if "unix_path r" for r
    using that by (simp add: unix_path_def)
  show False
  proof (cases rule: distinctSuffix_cases [of p ps])
    case p: (suffix m)
    show False
    proof (cases rule: distinctSuffix_cases [of q qs])
      case q: (suffix n)
      let ?u = "take_last m (pathSegments p)" and ?w = "take_last n (pathSegments q)"
      have len: "length ?u = m" "length ?w = n" using p(2) q(2) by simp_all
      then have "?u \<noteq> []" "?w \<noteq> []" using p(1) q(1) by (metis list.size(3) not_numeral_le_zero)+
      moreover have "join ''/'' ?u = join ''/'' ?w"
        using eq p(3) q(3) sep [OF assms(1)] sep [OF assms(2)] by simp
      moreover have "\<forall>w\<in>set ?u \<union> set ?w. \<forall>c\<in>set w. \<not> is_slash c"
        using take_last_subset [of m "pathSegments p"] take_last_subset [of n "pathSegments q"]
          segment_clean(2) by (meson Un_iff subsetD)
      ultimately have uw: "?u = ?w" by (intro join_segments_inject)
      with len have "m = n" by simp
      moreover have "join ''/'' (take_last m (pathSegments q)) \<noteq> join ''/'' ?u"
        using p(4) assms(4) unfolding unix_segments [OF assms(1)] unix_segments [OF assms(2)] by blast
      ultimately show False using uw by simp
    next
      case whole
      with eq p suffix_no_leading_slash [of m p] slash [OF assms(2)] sep [OF assms(1)] show False by simp
    qed
  next
    case p: whole
    show False
    proof (cases rule: distinctSuffix_cases [of q qs])
      case q: (suffix n)
      with eq p suffix_no_leading_slash [of n q] slash [OF assms(1)] sep [OF assms(2)] show False by simp
    next
      case whole
      with eq p assms(1-3) show False by (simp add: unix_path_def)
    qed
  qed
qed

section \<open>Properties of local titles\<close>

lemma title_given:
  assumes "map_of (rev (local_titles home tabs)) i = Some title"
    and "t \<in> set (withDistinctLocalTitles home tabs)" and "t_id t = i"
  shows "t_title t = title"
  using assms by (auto simp: withDistinctLocalTitles_def distinctLocalTitles_def split: option.splits if_splits)


definition demo_local :: "string \<Rightarrow> string \<Rightarrow> Tab" where
  "demo_local i cwd = (make_tab i ''src'' TyTerminal False)
     \<lparr>t_autoTitle := Some True, t_connection := Some (empty_connection\<lparr>c_cwd := Some cwd\<rparr>)\<rparr>"

definition demo_tabs :: "Tab list" where
  "demo_tabs = [demo_local ''a'' ''/srv/app/src'', demo_local ''b'' ''/srv/lib/src'']"


text \<open>
  The pass that sets titles apart changes nothing but titles, and done twice it does no
  more than done once.
\<close>

lemma distinct_titles_idempotent:
  "withDistinctLocalTitles home (withDistinctLocalTitles home tabs) = withDistinctLocalTitles home tabs
   \<and> map (\<lambda>tab. tab\<lparr>t_title := []\<rparr>) (withDistinctLocalTitles home tabs) = map (\<lambda>tab. tab\<lparr>t_title := []\<rparr>) tabs"
  using distinctLocalTitles_idem [of tabs home]
    distinctLocalTitles_map [of "\<lambda>tab. tab\<lparr>t_title := []\<rparr>" tabs home]
  by (simp add: withDistinctLocalTitles_def)

end
