(* ===== verification/Tabs_State.thy ===== *)
theory Tabs_State
  imports Pane_Templates Groups_Persistence Local_Title
begin

text \<open>
  The workspace's state and every action on it (\<open>src/src/lib/tabsState.ts\<close>): the
  tabs, the active one, the groups that show them and the number of group ids
  handed out. \<open>applyTabsAction\<close> is the change an action makes, \<open>settleGroups\<close>
  brings the groups in step with the tabs, and \<open>tabsReducer\<close> adds the pass that
  sets local titles apart.

  The reducer tells an unchanged tab array by identity, so \<open>applyTabsAction\<close> and
  \<open>settleGroups\<close> also return whether the array is a new one. The home directory
  that titles depend on is a parameter. A group array an operation leaves
  alone equals the one it got, and a changed one differs from it, in the cases
  where the source compares arrays (\<open>mergeGroup\<close>, \<open>breakOutPane\<close>).
\<close>

section \<open>State and actions\<close>

record RemoveTabsOptions =
  opt_preferredActiveTabId :: "string option"
  opt_activatePreferred :: bool

record TabsState =
  s_tabs :: "Tab list"
  s_activeTabId :: "string option"
  s_groups :: "TabGroup list"
  s_groupCount :: nat

datatype TabsAction =
    Restore "Tab list" "string option" "json option"
  | AddTab Tab
  | OpenPage Tab
  | RenamePage TabType string
  | RemoveTabs "string list" "RemoveTabsOptions option"
  | SetActive string
  | MoveTab int int
  | DuplicateTab string string "SplitDirection option"
  | RenameTab string string
  | UpdateTab string "Tab \<Rightarrow> Tab"
  | PlacePane string string SplitDirection
  | MergeGroup string string SplitDirection
  | BreakOut string "int option"
  | Ungroup string
  | ToggleZoom string
  | ResizeSplit string "nat list" "rat list"
  | ApplyTemplate string LayoutShape "string list"

section \<open>Tabs\<close>

text \<open>\<open>...tab, isActive, hasConnected\<close> for the tab made active, if any.\<close>

definition mark_active :: "string option \<Rightarrow> Tab \<Rightarrow> Tab" where
  "mark_active active tab =
     tab\<lparr>t_isActive := (Some (t_id tab) = active),
         t_hasConnected := (if Some (t_id tab) = active then Some True else t_hasConnected tab)\<rparr>"

definition no_options :: RemoveTabsOptions where
  "no_options = \<lparr>opt_preferredActiveTabId = None, opt_activatePreferred = False\<rparr>"

definition find_tab :: "Tab list \<Rightarrow> string option \<Rightarrow> Tab option" where
  "find_tab tabs i = find (\<lambda>tab. Some (t_id tab) = i) tabs"

text \<open>The tab to activate among those that remain; \<open>activeTabIndex\<close> is where the active one stood.\<close>

definition nextActiveTab ::
  "Tab list \<Rightarrow> string option \<Rightarrow> nat option \<Rightarrow> RemoveTabsOptions \<Rightarrow> Tab option" where
  "nextActiveTab remaining activeTabId activeTabIndex options =
     (let preferred = find_tab remaining (opt_preferredActiveTabId options);
          current = find_tab remaining activeTabId;
          fallback = nth_opt remaining (min (or_default activeTabIndex 0) (length remaining - 1))
      in or_else (if opt_activatePreferred options then preferred else current)
           (or_else preferred (or_else current fallback)))"

text \<open>The tabs left and the one active, with whether any tab was removed.\<close>

definition removeTabsFromState ::
  "Tab list \<Rightarrow> string option \<Rightarrow> string set \<Rightarrow> RemoveTabsOptions \<Rightarrow> (Tab list \<times> string option) \<times> bool" where
  "removeTabsFromState tabs activeTabId ids options =
     (if \<not> (\<exists>tab\<in>set tabs. t_id tab \<in> ids) then ((tabs, activeTabId), False)
      else let remaining = filter (\<lambda>tab. t_id tab \<notin> ids) tabs
           in if remaining = [] then (([], None), True)
              else let nextActive = map_option t_id (nextActiveTab remaining activeTabId
                         (find_index (\<lambda>tab. Some (t_id tab) = activeTabId) tabs) options)
                   in ((map (mark_active nextActive) remaining, nextActive), True))"

definition ensureTabDefaults :: "Tab \<Rightarrow> Tab" where
  "ensureTabDefaults tab =
     (if isPageTab tab \<or> t_type tab = TyRemoteFileEditor
      then tab\<lparr>t_hasConnected := Some True, t_sessionNonce := Some 0,
               t_connection := (if t_type tab = TyRemoteFileEditor then t_connection tab else None)\<rparr>
      else tab\<lparr>t_hasConnected := Some (or_default (t_hasConnected tab) (t_isActive tab)),
               t_sessionNonce := Some (or_default (t_sessionNonce tab) 0),
               t_connectionHeaderPinned := Some (or_default (t_connectionHeaderPinned tab) True)\<rparr>)"

definition numbered :: "string \<Rightarrow> nat \<Rightarrow> string" where
  "numbered base k = base @ ''-'' @ show_nat k"

lemma numbered_inject [simp]: "numbered base j = numbered base k \<longleftrightarrow> j = k"
  by (simp add: numbered_def)

lemma finite_numbered: "finite {j. k \<le> j \<and> numbered base j \<in> set titles}"
proof (rule finite_subset)
  show "{j. k \<le> j \<and> numbered base j \<in> set titles} \<subseteq> numbered base -` set titles" by auto
  show "finite (numbered base -` set titles)" by (rule finite_vimageI) (simp_all add: inj_on_def)
qed

text \<open>The loop \<open>while (titles.has(`${base}-${index}`)) index++\<close>.\<close>

function first_free :: "string \<Rightarrow> string list \<Rightarrow> nat \<Rightarrow> nat" where
  "first_free base titles k =
     (if numbered base k \<in> set titles then first_free base titles (Suc k) else k)"
  by pat_completeness auto

termination
proof (relation "measure (\<lambda>(base, titles, k). card {j. k \<le> j \<and> numbered base j \<in> set titles})")
  fix base :: string and titles :: "string list" and k :: nat
  assume "numbered base k \<in> set titles"
  then have k: "k \<in> {j. k \<le> j \<and> numbered base j \<in> set titles}" by simp
  moreover have "k \<notin> {j. Suc k \<le> j \<and> numbered base j \<in> set titles}" by simp
  moreover have "{j. Suc k \<le> j \<and> numbered base j \<in> set titles} \<subseteq> {j. k \<le> j \<and> numbered base j \<in> set titles}"
    by auto
  ultimately have "{j. Suc k \<le> j \<and> numbered base j \<in> set titles} \<subset> {j. k \<le> j \<and> numbered base j \<in> set titles}"
    by (metis psubsetI)
  then show "((base, titles, Suc k), base, titles, k)
      \<in> measure (\<lambda>(base, titles, k). card {j. k \<le> j \<and> numbered base j \<in> set titles})"
    by (simp add: psubset_card_mono finite_numbered)
qed simp

declare first_free.simps [simp del]

definition getDuplicateTabTitle :: "string \<Rightarrow> string list \<Rightarrow> string" where
  "getDuplicateTabTitle base existingTitles = numbered base (first_free base existingTitles 2)"

text \<open>\<open>>>> 0\<close> keeps the low 32 bits.\<close>

definition nextSessionNonce :: "32 word option \<Rightarrow> 32 word" where
  "nextSessionNonce sessionNonce = or_default sessionNonce 0 + 1"

definition duplicateTabData :: "Tab \<Rightarrow> string \<Rightarrow> Tab list \<Rightarrow> Tab" where
  "duplicateTabData sourceTab newId tabs =
     (let baseTitle = (if t_autoTitle sourceTab = Some True then None
            else Some (or_default (t_duplicateBaseTitle sourceTab) (t_title sourceTab)))
      in ensureTabDefaults (sourceTab
           \<lparr>t_connection := Some (or_default (t_connection sourceTab)
                 (empty_connection\<lparr>c_type := Some (if t_type sourceTab = TyTerminal then ConnTerminal
                                                   else ConnSsh)\<rparr>)),
            t_sessionNonce := Some (nextSessionNonce (t_sessionNonce sourceTab)),
            t_id := newId,
            t_title := (case baseTitle of None \<Rightarrow> t_title sourceTab
                        | Some base \<Rightarrow> getDuplicateTabTitle base (map t_title tabs)),
            t_duplicateBaseTitle := baseTitle,
            t_isActive := True, t_hasConnected := Some True\<rparr>))"

definition can_copy :: "Tab \<Rightarrow> bool" where
  "can_copy tab = (\<not> isPageTab tab \<and> t_type tab \<noteq> TyRemoteFileEditor)"

section \<open>Actions\<close>

text \<open>A new state, with whether its tab array is a new one.\<close>

definition activateTabInState :: "TabsState \<Rightarrow> string \<Rightarrow> TabsState \<times> bool" where
  "activateTabInState state i =
     (if \<not> (\<exists>tab\<in>set (s_tabs state). t_id tab = i) then (state, False)
      else (state\<lparr>s_activeTabId := Some i, s_tabs := map (mark_active (Some i)) (s_tabs state)\<rparr>, True))"

text \<open>The copies a template needs, each told apart from the tabs and the copies before it.\<close>

fun template_copies :: "Tab \<Rightarrow> Tab list \<Rightarrow> Tab list \<Rightarrow> string list \<Rightarrow> Tab list" where
  "template_copies sourceTab tabs newTabs [] = newTabs"
| "template_copies sourceTab tabs newTabs (newId # newIds) =
     template_copies sourceTab tabs
       (newTabs @ [(duplicateTabData sourceTab newId (tabs @ newTabs))\<lparr>t_isActive := False\<rparr>]) newIds"

definition applyTemplate :: "TabsState \<Rightarrow> string \<Rightarrow> LayoutShape \<Rightarrow> string list \<Rightarrow> TabsState \<times> bool" where
  "applyTemplate state i shape newIds =
     (case find_tab (s_tabs state) (Some i) of
        None \<Rightarrow> (state, False)
      | Some sourceTab \<Rightarrow>
          (let newTabs = template_copies sourceTab (s_tabs state) []
                 (if can_copy sourceTab then newIds else [])
           in case applyTemplateToGroups (s_groups state) i shape (map t_id newTabs) (s_groupCount state) of
                None \<Rightarrow> (state, False)
              | Some (groups, groupCount) \<Rightarrow>
                  (let added = state\<lparr>s_tabs := s_tabs state @ newTabs, s_groups := groups,
                                     s_groupCount := groupCount\<rparr>
                   in (fst (activateTabInState added i), True))))"

definition deactivate :: "Tab \<Rightarrow> Tab" where
  "deactivate tab = tab\<lparr>t_isActive := False\<rparr>"

definition restored_group :: "nat \<Rightarrow> SavedTabGroup \<Rightarrow> TabGroup" where
  "restored_group index g = \<lparr>g_id = group_name (Suc index), g_root = sg_root g,
     g_activeTabId = sg_activeTabId g, g_zoomedTabId = sg_zoomedTabId g\<rparr>"

definition split_source :: "TabGroup list \<Rightarrow> string \<Rightarrow> string \<Rightarrow> SplitDirection option \<Rightarrow> TabGroup list" where
  "split_source groups sourceId newId split =
     (case (split, group_index groups sourceId) of
        (Some direction, Some index) \<Rightarrow>
          groups[index := (groups ! index)
            \<lparr>g_root := insertNextTo (g_root (groups ! index)) sourceId (paneLeaf newId) direction,
             g_zoomedTabId := None\<rparr>]
      | _ \<Rightarrow> groups)"

fun applyTabsAction :: "TabsState \<Rightarrow> TabsAction \<Rightarrow> TabsState \<times> bool" where
  "applyTabsAction state (Restore tabs activeTabId layout) =
     (let saved = (case layout of None \<Rightarrow> [] | Some v \<Rightarrow> restoreTabGroups v (map t_id tabs))
      in (\<lparr>s_tabs = map (\<lambda>tab. ensureTabDefaults
                  (tab\<lparr>t_isActive := (Some (t_id tab) = activeTabId),
                       t_hasConnected := Some (Some (t_id tab) = activeTabId)\<rparr>)) tabs,
           s_activeTabId = activeTabId,
           s_groups = map2 restored_group [0..<length saved] saved,
           s_groupCount = length saved\<rparr>, True))"
| "applyTabsAction state (AddTab tab) =
     (state\<lparr>s_activeTabId := Some (t_id tab),
            s_tabs := map deactivate (s_tabs state)
              @ [tab\<lparr>t_isActive := True, t_hasConnected := Some True\<rparr>]\<rparr>, True)"
| "applyTabsAction state (OpenPage tab) =
     (case find (\<lambda>other. t_type other = t_type tab) (s_tabs state) of
        Some existing \<Rightarrow> activateTabInState state (t_id existing)
      | None \<Rightarrow>
          (state\<lparr>s_activeTabId := Some (t_id tab),
                 s_tabs := map deactivate (s_tabs state) @ [tab\<lparr>t_isActive := True\<rparr>]\<rparr>, True))"
| "applyTabsAction state (RenamePage tabType title) =
     (if \<exists>tab\<in>set (s_tabs state). t_type tab = tabType \<and> t_title tab \<noteq> title
      then (state\<lparr>s_tabs := map (\<lambda>tab. if t_type tab \<noteq> tabType \<or> t_title tab = title then tab
                                       else tab\<lparr>t_title := title\<rparr>) (s_tabs state)\<rparr>, True)
      else (state, False))"
| "applyTabsAction state (RemoveTabs ids options) =
     (let groups = removeTabsFromGroups (s_groups state) (set ids);
          given = or_default options no_options;
          preferred = or_else (opt_preferredActiveTabId given)
            (getFallbackTabId (s_groups state) groups (s_activeTabId state))
      in case removeTabsFromState (s_tabs state) (s_activeTabId state) (set ids)
                (given\<lparr>opt_preferredActiveTabId := preferred\<rparr>) of
           ((tabs, activeTabId), changed) \<Rightarrow>
             (state\<lparr>s_tabs := tabs, s_activeTabId := activeTabId, s_groups := groups\<rparr>, changed))"
| "applyTabsAction state (SetActive i) = activateTabInState state i"
| "applyTabsAction state (MoveTab fromIndex toIndex) =
     (state\<lparr>s_groups := moveGroup (s_groups state) fromIndex toIndex\<rparr>, False)"
| "applyTabsAction state (DuplicateTab sourceId newId split) =
     (case find_tab (s_tabs state) (Some sourceId) of
        None \<Rightarrow> (state, False)
      | Some sourceTab \<Rightarrow>
          (if \<not> can_copy sourceTab then (state, False)
           else let newTab = duplicateTabData sourceTab newId (s_tabs state)
                in (state\<lparr>s_activeTabId := Some newId,
                          s_tabs := map deactivate (s_tabs state) @ [newTab],
                          s_groups := split_source (s_groups state) sourceId (t_id newTab) split\<rparr>, True)))"
| "applyTabsAction state (RenameTab i title) =
     (state\<lparr>s_tabs := map (\<lambda>tab. if t_id tab = i
          then tab\<lparr>t_title := title, t_duplicateBaseTitle := None, t_autoTitle := None\<rparr>
          else tab) (s_tabs state)\<rparr>, True)"
| "applyTabsAction state (UpdateTab i updater) =
     (state\<lparr>s_tabs := map (\<lambda>tab. if t_id tab \<noteq> i then tab
          else let updated = ensureTabDefaults (updater tab)
               in updated\<lparr>t_isActive := (Some (t_id updated) = s_activeTabId state)\<rparr>) (s_tabs state)\<rparr>, True)"
| "applyTabsAction state (PlacePane i targetId direction) =
     activateTabInState (state\<lparr>s_groups := placePane (s_groups state) i targetId direction\<rparr>) i"
| "applyTabsAction state (MergeGroup i targetId direction) =
     (let groups = mergeGroup (s_groups state) i targetId direction
      in case findGroupOfTab groups targetId of
           None \<Rightarrow> (state, False)
         | Some merged \<Rightarrow>
             (if groups = s_groups state then (state, False)
              else activateTabInState (state\<lparr>s_groups := groups\<rparr>) (g_activeTabId merged)))"
| "applyTabsAction state (BreakOut i index) =
     (let groupCount = Suc (s_groupCount state);
          groups = breakOutPane (s_groups state) i (group_name groupCount) index
      in if groups = s_groups state then (state, False)
         else activateTabInState (state\<lparr>s_groups := groups, s_groupCount := groupCount\<rparr>) i)"
| "applyTabsAction state (Ungroup i) =
     (case ungroupPanes (s_groups state) i (s_groupCount state) of
        (groups, groupCount) \<Rightarrow> (state\<lparr>s_groups := groups, s_groupCount := groupCount\<rparr>, False))"
| "applyTabsAction state (ToggleZoom i) =
     activateTabInState (state\<lparr>s_groups := toggleZoom (s_groups state) i\<rparr>) i"
| "applyTabsAction state (ResizeSplit groupId path sizes) =
     (state\<lparr>s_groups := map (\<lambda>g. if g_id g = groupId then g\<lparr>g_root := resizeSplit (g_root g) path sizes\<rparr>
                                 else g) (s_groups state)\<rparr>, False)"
| "applyTabsAction state (ApplyTemplate i shape newIds) = applyTemplate state i shape newIds"

section \<open>Settling\<close>

text \<open>Whether the tabs stand in the order of the panes, as far as there are panes.\<close>

definition in_order :: "string list \<Rightarrow> Tab list \<Rightarrow> bool" where
  "in_order order tabs = list_all (\<lambda>(i, index). map_option t_id (nth_opt tabs index) = Some i)
     (zip order [0..<length order])"

definition settleGroups :: "TabsState \<Rightarrow> TabsState \<times> bool" where
  "settleGroups state =
     (case reconcileGroups (s_groups state) (map t_id (s_tabs state)) (s_groupCount state) of
        (reconciled, groupCount) \<Rightarrow>
          (let groups = (if truthy (s_activeTabId state)
                 then focusPaneInGroups reconciled (the (s_activeTabId state)) else reconciled);
               order = all_panes groups;
               byId = map_of (rev (map (\<lambda>tab. (t_id tab, tab)) (s_tabs state)))
           in if in_order order (s_tabs state)
              then (state\<lparr>s_groups := groups, s_groupCount := groupCount\<rparr>, False)
              else (state\<lparr>s_tabs := List.map_filter byId order, s_groups := groups,
                          s_groupCount := groupCount\<rparr>, True)))"

definition tabsReducer :: "string option \<Rightarrow> TabsState \<Rightarrow> TabsAction \<Rightarrow> TabsState" where
  "tabsReducer home state action =
     (case applyTabsAction state action of
        (applied, tabs_new) \<Rightarrow>
          (case settleGroups applied of
             (settled, moved) \<Rightarrow>
               (if \<not> (tabs_new \<or> moved) then settled
                else settled\<lparr>s_tabs := withDistinctLocalTitles home (s_tabs settled)\<rparr>)))"

end
