(* ===== verification/Tabs_Invariant.thy ===== *)
theory Tabs_Invariant
  imports Tabs_State
begin

text \<open>
  What every reachable state of the workspace keeps (\<open>src/src/lib/tabsState.ts\<close>):
  \<open>state_ok\<close> says that tab ids are distinct, that every tab is a pane of exactly
  one group and the tabs stand in the order of the panes, that the groups are
  well formed with ids of their own, that exactly the active tab is marked, and
  that its group shows it. \<open>unsettled_ok\<close> is the part that holds between an
  action and settling. Every action keeps \<open>state_ok\<close>, given what its callers see
  to (\<open>action_ok\<close>): new tabs come with fresh ids, and an update keeps the id.
\<close>

section \<open>The invariant\<close>

definition tabs_ok :: "Tab list \<Rightarrow> string option \<Rightarrow> bool" where
  "tabs_ok tabs active \<longleftrightarrow> distinct (map t_id tabs) \<and> [] \<notin> set (map t_id tabs)
     \<and> set_option active \<subseteq> set (map t_id tabs)
     \<and> (\<forall>tab\<in>set tabs. t_isActive tab = (Some (t_id tab) = active))"

definition unsettled_ok :: "TabsState \<Rightarrow> bool" where
  "unsettled_ok s \<longleftrightarrow> tabs_ok (s_tabs s) (s_activeTabId s)
     \<and> groups_ok (s_groups s) \<and> ids_ok (s_groupCount s) (s_groups s)"

text \<open>The group of a pane has it as its active one, and hides it behind no other.\<close>

definition shown_in :: "TabGroup list \<Rightarrow> string \<Rightarrow> bool" where
  "shown_in gs i \<longleftrightarrow> (case findGroupOfTab gs i of
     None \<Rightarrow> False
   | Some g \<Rightarrow> g_activeTabId g = i \<and> set_option (g_zoomedTabId g) \<subseteq> {i})"

definition state_ok :: "TabsState \<Rightarrow> bool" where
  "state_ok s \<longleftrightarrow> unsettled_ok s
     \<and> all_panes (s_groups s) = map t_id (s_tabs s)
     \<and> (\<forall>i\<in>set_option (s_activeTabId s). shown_in (s_groups s) i)"

definition fresh_id :: "TabsState \<Rightarrow> string \<Rightarrow> bool" where
  "fresh_id s i \<longleftrightarrow> i \<noteq> [] \<and> i \<notin> set (map t_id (s_tabs s))"

fun action_ok :: "TabsState \<Rightarrow> TabsAction \<Rightarrow> bool" where
  "action_ok s (Restore tabs active layout) =
     (distinct (map t_id tabs) \<and> [] \<notin> set (map t_id tabs) \<and> set_option active \<subseteq> set (map t_id tabs))"
| "action_ok s (AddTab tab) = fresh_id s (t_id tab)"
| "action_ok s (OpenPage tab) = fresh_id s (t_id tab)"
| "action_ok s (DuplicateTab sourceId newId split) = fresh_id s newId"
| "action_ok s (UpdateTab i updater) =
     list_all (\<lambda>tab. t_id tab = i \<longrightarrow> t_id (updater tab) = i) (s_tabs s)"
| "action_ok s (ApplyTemplate i shape newIds) =
     (shape_ok shape \<and> distinct newIds \<and> list_all (fresh_id s) newIds)"
| "action_ok s _ = True"

section \<open>Tabs\<close>

lemma t_id_updates [simp]:
  "t_id (mark_active active tab) = t_id tab"
  "t_id (deactivate tab) = t_id tab"
  "t_id (ensureTabDefaults tab) = t_id tab"
  "t_id (duplicateTabData tab i tabs) = i"
  "t_isActive (mark_active active tab) = (Some (t_id tab) = active)"
  "t_isActive (deactivate tab) = False"
  "t_isActive (ensureTabDefaults tab) = t_isActive tab"
  "t_isActive (duplicateTabData tab i tabs) = True"
  by (simp_all add: mark_active_def deactivate_def ensureTabDefaults_def duplicateTabData_def Let_def)

lemma map_t_id_updates [simp]:
  "map t_id (map (mark_active active) tabs) = map t_id tabs"
  "map t_id (map deactivate tabs) = map t_id tabs"
  by simp_all

lemma t_id_unless [simp]: "\<forall>tab\<in>set tabs. t_id (f tab) = t_id tab \<Longrightarrow> map t_id (map f tabs) = map t_id tabs"
  by simp

lemma tabs_ok_cong:
  assumes "map t_id tabs = map t_id tabs'" and "map t_isActive tabs = map t_isActive tabs'"
  shows "tabs_ok tabs active = tabs_ok tabs' active"
proof -
  have marked: "(\<forall>tab\<in>set tabs. t_isActive tab = (Some (t_id tab) = active))
      \<longleftrightarrow> map t_isActive tabs = map (\<lambda>i. Some i = active) (map t_id tabs)" for tabs
    by (simp only: map_map comp_def map_eq_conv)
  show ?thesis unfolding tabs_ok_def marked assms by (rule refl)
qed

lemma tabs_ok_marked:
  assumes "distinct (map t_id tabs)" and "[] \<notin> set (map t_id tabs)" and "set_option active \<subseteq> set (map t_id tabs)"
  shows "tabs_ok (map (mark_active active) tabs) active"
  using assms by (simp add: tabs_ok_def comp_def)

lemma tabs_ok_append:
  assumes "tabs_ok tabs active" and "t_id tab \<noteq> []" "t_id tab \<notin> set (map t_id tabs)" and "t_isActive tab"
  shows "tabs_ok (map deactivate tabs @ [tab]) (Some (t_id tab))"
proof -
  have "t_id other \<noteq> t_id tab" if "other \<in> set tabs" for other
    using that assms(3) by (metis image_eqI set_map)
  with assms show ?thesis by (auto simp: tabs_ok_def comp_def)
qed

lemma tabs_ok_map:
  assumes "tabs_ok tabs active"
    and "\<And>tab. tab \<in> set tabs \<Longrightarrow> t_id (f tab) = t_id tab \<and> t_isActive (f tab) = (Some (t_id tab) = active)"
  shows "tabs_ok (map f tabs) active"
proof -
  have "map t_id (map f tabs) = map t_id tabs" using assms(2) by simp
  moreover have "map t_isActive (map f tabs) = map t_isActive tabs"
    using assms unfolding tabs_ok_def by simp
  ultimately have "tabs_ok (map f tabs) active = tabs_ok tabs active" by (rule tabs_ok_cong)
  with assms(1) show ?thesis by simp
qed

lemma find_tab_Some: "find_tab tabs i = Some tab \<Longrightarrow> tab \<in> set tabs \<and> Some (t_id tab) = i"
  by (auto simp: find_tab_def find_Some_iff)

lemma find_tab_None: "find_tab tabs i = None \<longleftrightarrow> (\<forall>tab\<in>set tabs. Some (t_id tab) \<noteq> i)"
  by (auto simp: find_tab_def find_None_iff)

section \<open>Each action between settlings\<close>

lemma unsettled_okI:
  assumes "tabs_ok (s_tabs s) (s_activeTabId s)" and "groups_ok (s_groups s)"
    and "ids_ok (s_groupCount s) (s_groups s)"
  shows "unsettled_ok s"
  using assms by (simp add: unsettled_ok_def)

lemma unsettled_okD:
  assumes "unsettled_ok s"
  shows "tabs_ok (s_tabs s) (s_activeTabId s)" and "groups_ok (s_groups s)"
    and "ids_ok (s_groupCount s) (s_groups s)"
  using assms by (simp_all add: unsettled_ok_def)

lemma state_okD:
  assumes "state_ok s"
  shows "unsettled_ok s" and "all_panes (s_groups s) = map t_id (s_tabs s)"
    and "distinct (all_panes (s_groups s))"
  using assms by (simp_all add: state_ok_def unsettled_ok_def tabs_ok_def)

lemma activate_ok [wf_intros]:
  assumes "unsettled_ok s"
  shows "unsettled_ok (fst (activateTabInState s i))"
proof (cases "\<exists>tab\<in>set (s_tabs s). t_id tab = i")
  case True
  with assms have "tabs_ok (map (mark_active (Some i)) (s_tabs s)) (Some i)"
    by (intro tabs_ok_marked) (auto simp: unsettled_ok_def tabs_ok_def)
  with True assms show ?thesis by (simp add: activateTabInState_def unsettled_ok_def)
qed (use assms in \<open>simp add: activateTabInState_def\<close>)

lemma regroup_ok:
  assumes "unsettled_ok s" and "groups_ok gs" and "ids_ok n gs"
  shows "unsettled_ok (s\<lparr>s_groups := gs, s_groupCount := n\<rparr>)"
    and "n = s_groupCount s \<Longrightarrow> unsettled_ok (s\<lparr>s_groups := gs\<rparr>)"
  using assms by (simp_all add: unsettled_ok_def)

lemma or_else_subset: "set_option a \<subseteq> S \<Longrightarrow> set_option b \<subseteq> S \<Longrightarrow> set_option (or_else a b) \<subseteq> S"
  by (cases a) auto

lemma nextActiveTab_in: "set_option (nextActiveTab remaining active k opts) \<subseteq> set remaining"
proof -
  have "set_option (find_tab remaining i) \<subseteq> set remaining" for i
    by (auto dest!: find_tab_Some)
  moreover have "set_option (nth_opt remaining j) \<subseteq> set remaining" for j
    by (auto dest!: nth_opt_in_set)
  ultimately show ?thesis unfolding nextActiveTab_def Let_def by (simp add: or_else_subset)
qed

lemma removeTabsFromState_ok:
  assumes "tabs_ok tabs active" and "removeTabsFromState tabs active ids opts = ((tabs', active'), changed)"
  shows "tabs_ok tabs' active'"
proof (cases "\<exists>tab\<in>set tabs. t_id tab \<in> ids")
  case False
  with assms show ?thesis by (simp add: removeTabsFromState_def)
next
  case True
  let ?remaining = "filter (\<lambda>tab. t_id tab \<notin> ids) tabs"
  let ?next = "map_option t_id (nextActiveTab ?remaining active
    (find_index (\<lambda>tab. Some (t_id tab) = active) tabs) opts)"
  show ?thesis
  proof (cases "?remaining = []")
    case empty: True
    with True assms(2) have "tabs' = [] \<and> active' = None"
      by (simp add: removeTabsFromState_def del: filter_empty_conv)
    then show ?thesis by (simp add: tabs_ok_def)
  next
    case False
    with True have eq: "removeTabsFromState tabs active ids opts = ((map (mark_active ?next) ?remaining, ?next), True)"
      unfolding removeTabsFromState_def Let_def by (simp only: if_True if_False simp_thms)
    have "set_option ?next \<subseteq> set (map t_id ?remaining)"
      unfolding set_map option.set_map by (rule image_mono) (rule nextActiveTab_in)
    then have ok: "tabs_ok (map (mark_active ?next) ?remaining) ?next"
      using assms(1) by (intro tabs_ok_marked) (auto simp: tabs_ok_def distinct_map_filter)
    from assms(2) have "map (mark_active ?next) ?remaining = tabs'" "?next = active'"
      unfolding eq prod.inject by - (elim conjE, assumption)+
    with ok show ?thesis by metis
  qed
qed

lemma split_source_ok:
  assumes "groups_ok gs" and "ids_ok n gs"
  shows "groups_ok (split_source gs i new split)" and "ids_ok n (split_source gs i new split)"
proof -
  have "groups_ok (split_source gs i new split) \<and> map g_id (split_source gs i new split) = map g_id gs"
  proof (cases "\<exists>d k. split = Some d \<and> group_index gs i = Some k")
    case False
    with assms show ?thesis by (auto simp: split_source_def split: option.splits)
  next
    case True
    then obtain d k where k: "split = Some d" "group_index gs i = Some k" by blast
    note at_k = group_index_SomeD [OF k(2)]
    let ?g = "(gs ! k)\<lparr>g_root := insertNextTo (g_root (gs ! k)) i (paneLeaf new) d, g_zoomedTabId := None\<rparr>"
    have ok: "group_ok (gs ! k)" using assms(1) at_k(1) by (simp add: groups_ok_def)
    have ne: "no_empty (g_root (gs ! k))" using ok by (rule group_ok_no_empty)
    have "set (group_panes (gs ! k)) \<subseteq> set (getPaneIds (insertNextTo (g_root (gs ! k)) i (paneLeaf new) d))"
      using ne at_k(2) by (auto simp: set_insertNextTo paneLeaf_def)
    then have "group_ok ?g"
      using ok ne by (auto simp: group_ok_def canonical_insertNextTo paneLeaf_def)
    then show ?thesis using assms(1) k at_k
      by (simp add: split_source_def groups_ok_update ids_update)
  qed
  with assms(2) show "groups_ok (split_source gs i new split)" "ids_ok n (split_source gs i new split)"
    by (auto simp: ids_ok_def)
qed

lemma tabs_ok_after_append:
  assumes "tabs_ok tabs active" and "t_id tab = i" and "i \<noteq> []" and "i \<notin> set (map t_id tabs)" and "t_isActive tab"
  shows "tabs_ok (map deactivate tabs @ [tab]) (Some i)"
  using tabs_ok_append [of tabs active tab] assms by simp

lemma restored_groups_facts:
  "groups_ok (map2 restored_group [0..<length saved] saved) \<longleftrightarrow>
     (\<forall>g\<in>set saved. canonical (sg_root g) \<and> sg_activeTabId g \<in> set (sg_panes g)
        \<and> set_option (sg_zoomedTabId g) \<subseteq> set (sg_panes g))"
  "ids_ok (length saved) (map2 restored_group [0..<length saved] saved)"
proof -
  have ids: "map g_id (map2 restored_group ks gs) = map (\<lambda>k. group_name (Suc k)) ks"
    if "length ks = length gs" for ks gs
    using that by (induction ks gs rule: list_induct2) (simp_all add: restored_group_def)
  have "inj_on (\<lambda>k. group_name (Suc k)) A" for A by (rule inj_onI) simp
  moreover have "(\<lambda>k. group_name (Suc k)) ` {0..<n} \<subseteq> group_name ` {1..n}" for n by auto
  ultimately show "ids_ok (length saved) (map2 restored_group [0..<length saved] saved)"
    unfolding ids_ok_def by (simp add: ids distinct_map del: map_map)
  have ok: "groups_ok (map2 restored_group ks gs) \<longleftrightarrow>
     (\<forall>g\<in>set gs. canonical (sg_root g) \<and> sg_activeTabId g \<in> set (sg_panes g)
        \<and> set_option (sg_zoomedTabId g) \<subseteq> set (sg_panes g))" if "length ks = length gs" for ks gs
    using that by (induction ks gs rule: list_induct2) (auto simp: restored_group_def group_ok_def)
  show "groups_ok (map2 restored_group [0..<length saved] saved) \<longleftrightarrow>
     (\<forall>g\<in>set saved. canonical (sg_root g) \<and> sg_activeTabId g \<in> set (sg_panes g)
        \<and> set_option (sg_zoomedTabId g) \<subseteq> set (sg_panes g))"
    by (rule ok) simp
qed

lemma unsettled_Restore:
  assumes "action_ok s (Restore tabs active layout)"
  shows "unsettled_ok (fst (applyTabsAction s (Restore tabs active layout)))"
proof -
  let ?saved = "case layout of None \<Rightarrow> [] | Some v \<Rightarrow> restoreTabGroups v (map t_id tabs)"
  have "\<forall>g\<in>set ?saved. canonical (sg_root g) \<and> sg_activeTabId g \<in> set (sg_panes g)
        \<and> set_option (sg_zoomedTabId g) \<subseteq> set (sg_panes g)"
    using restorable_restoreTabGroups [of "map t_id tabs"]
    by (cases layout) (auto simp: restorable_def saved_ok_def)
  then have "groups_ok (map2 restored_group [0..<length ?saved] ?saved)"
    by (simp only: restored_groups_facts)
  moreover have "tabs_ok (map (\<lambda>tab. ensureTabDefaults
        (tab\<lparr>t_isActive := (Some (t_id tab) = active),
             t_hasConnected := Some (Some (t_id tab) = active)\<rparr>)) tabs) active"
    using assms by (simp add: tabs_ok_def comp_def)
  ultimately show ?thesis
    using restored_groups_facts(2) [of ?saved] by (simp add: unsettled_ok_def Let_def)
qed

lemma unsettled_AddTab:
  assumes "state_ok s" and "fresh_id s (t_id tab)"
  shows "unsettled_ok (fst (applyTabsAction s (AddTab tab)))"
    and "unsettled_ok (fst (applyTabsAction s (OpenPage tab)))"
proof -
  note u = state_okD(1) [OF assms(1)]
  have new: "t_id tab \<noteq> []" "t_id tab \<notin> set (map t_id (s_tabs s))" using assms(2) by (simp_all add: fresh_id_def)
  show "unsettled_ok (fst (applyTabsAction s (AddTab tab)))"
    using tabs_ok_after_append [OF unsettled_okD(1) [OF u] _ new,
        of "tab\<lparr>t_isActive := True, t_hasConnected := Some True\<rparr>"] unsettled_okD [OF u]
    by (simp add: unsettled_ok_def)
  show "unsettled_ok (fst (applyTabsAction s (OpenPage tab)))"
    using tabs_ok_after_append [OF unsettled_okD(1) [OF u] _ new, of "tab\<lparr>t_isActive := True\<rparr>"]
      unsettled_okD [OF u] activate_ok [OF u]
    by (simp add: unsettled_ok_def split: option.split)
qed

lemma unsettled_retitle:
  assumes "state_ok s"
    and "\<And>tab. tab \<in> set (s_tabs s) \<Longrightarrow>
      t_id (f tab) = t_id tab \<and> t_isActive (f tab) = (Some (t_id tab) = s_activeTabId s)"
  shows "unsettled_ok (s\<lparr>s_tabs := map f (s_tabs s)\<rparr>)"
  using tabs_ok_map [OF unsettled_okD(1) [OF state_okD(1) [OF assms(1)]], of f] assms(2)
    unsettled_okD [OF state_okD(1) [OF assms(1)]] by (simp add: unsettled_ok_def)

lemma unsettled_RemoveTabs:
  assumes "state_ok s"
  shows "unsettled_ok (fst (applyTabsAction s (RemoveTabs ids opts)))"
proof -
  note u = unsettled_okD [OF state_okD(1) [OF assms]]
  have tabs: "tabs_ok tabs active"
    if "removeTabsFromState (s_tabs s) (s_activeTabId s) (set ids) o' = ((tabs, active), c)" for tabs active o' c
    using removeTabsFromState_ok [OF u(1) that] .
  show ?thesis
    using groups_ok_removeTabsFromGroups [OF u(2)] ids_ok_removeTabsFromGroups [OF u(2,3)]
    by (auto simp: Let_def unsettled_ok_def split: prod.split intro: tabs)
qed

lemma unsettled_DuplicateTab:
  assumes "state_ok s" and "fresh_id s newId"
  shows "unsettled_ok (fst (applyTabsAction s (DuplicateTab i newId split)))"
proof -
  note u = unsettled_okD [OF state_okD(1) [OF assms(1)]]
  have new: "newId \<noteq> []" "newId \<notin> set (map t_id (s_tabs s))" using assms(2) by (simp_all add: fresh_id_def)
  have "tabs_ok (map deactivate (s_tabs s) @ [duplicateTabData tab newId (s_tabs s)]) (Some newId)" for tab
    using u(1) new by (intro tabs_ok_after_append) simp_all
  then show ?thesis
    using state_okD(1) [OF assms(1)] split_source_ok [OF u(2,3)]
    by (simp add: Let_def unsettled_ok_def split: option.split)
qed

lemma template_copies_spec:
  "map t_id (template_copies source tabs new newIds) = map t_id new @ newIds"
  "(\<forall>tab\<in>set new. \<not> t_isActive tab) \<Longrightarrow> \<forall>tab\<in>set (template_copies source tabs new newIds). \<not> t_isActive tab"
  by (induction source tabs new newIds rule: template_copies.induct) auto

lemma tabs_ok_more:
  assumes "tabs_ok tabs active" and "distinct is" and "\<forall>i\<in>set is. i \<noteq> [] \<and> i \<notin> set (map t_id tabs)"
    and "map t_id new = is" and "\<forall>tab\<in>set new. \<not> t_isActive tab"
  shows "tabs_ok (tabs @ new) active"
proof -
  have "Some (t_id tab) \<noteq> active" if "tab \<in> set new" for tab
    using assms that by (fastforce simp: tabs_ok_def)
  then show ?thesis using assms by (auto simp: tabs_ok_def)
qed

lemma unsettled_ApplyTemplate:
  assumes "state_ok s" and "shape_ok shape" and "distinct newIds" and "list_all (fresh_id s) newIds"
  shows "unsettled_ok (fst (applyTemplate s i shape newIds))"
proof (cases "find_tab (s_tabs s) (Some i)")
  case None
  with state_okD(1) [OF assms(1)] show ?thesis by (simp add: applyTemplate_def)
next
  case (Some source)
  note u = unsettled_okD [OF state_okD(1) [OF assms(1)]]
  let ?ids = "if can_copy source then newIds else []"
  let ?new = "template_copies source (s_tabs s) [] ?ids"
  show ?thesis
  proof (cases "applyTemplateToGroups (s_groups s) i shape (map t_id ?new) (s_groupCount s)")
    case None
    with Some state_okD(1) [OF assms(1)] show ?thesis by (simp add: applyTemplate_def Let_def)
  next
    case applied: (Some result)
    obtain gs n where result: "result = (gs, n)" by (cases result)
    note applied = applied [unfolded result]
    have "tabs_ok (s_tabs s @ ?new) (s_activeTabId s)"
      using assms(3,4) template_copies_spec [where source = source and tabs = "s_tabs s" and new = "[]" and newIds = ?ids]
      by (intro tabs_ok_more [OF u(1), of ?ids]) (auto simp: list_all_iff fresh_id_def)
    then have "unsettled_ok (s\<lparr>s_tabs := s_tabs s @ ?new, s_groups := gs, s_groupCount := n\<rparr>)"
      using groups_ok_applyTemplateToGroups [OF u(2) state_okD(3) [OF assms(1)] assms(2) applied]
        ids_ok_applyTemplateToGroups [OF u(3) applied] by (simp add: unsettled_ok_def)
    then show ?thesis
      using Some applied by (simp add: applyTemplate_def Let_def activate_ok)
  qed
qed

lemma unsettled_groups_action:
  assumes "state_ok s"
  shows "unsettled_ok (fst (applyTabsAction s (MoveTab a b)))"
    and "unsettled_ok (fst (applyTabsAction s (PlacePane i target d)))"
    and "unsettled_ok (fst (applyTabsAction s (MergeGroup i target d)))"
    and "unsettled_ok (fst (applyTabsAction s (BreakOut i index)))"
    and "unsettled_ok (fst (applyTabsAction s (Ungroup i)))"
    and "unsettled_ok (fst (applyTabsAction s (ToggleZoom i)))"
proof -
  note u = state_okD(1) [OF assms] and ok = unsettled_okD(2,3) [OF state_okD(1) [OF assms]]
    and d = state_okD(3) [OF assms]
  show "unsettled_ok (fst (applyTabsAction s (MoveTab a b)))"
    using regroup_ok(2) [OF u groups_ok_moveGroup [OF ok(1)] ids_ok_moveGroup [OF ok(2)]] by simp
  show "unsettled_ok (fst (applyTabsAction s (PlacePane i target d)))"
    using regroup_ok(2) [OF u groups_ok_placePane [OF ok(1)] ids_ok_placePane [OF ok]] activate_ok by simp
  show "unsettled_ok (fst (applyTabsAction s (MergeGroup i target d)))"
    using regroup_ok(2) [OF u groups_ok_mergeGroup [OF ok(1)] ids_ok_mergeGroup [OF ok(2)]] u activate_ok
    by (simp add: Let_def split: option.split)
  show "unsettled_ok (fst (applyTabsAction s (BreakOut i index)))"
    using regroup_ok(1) [OF u groups_ok_breakOutPane [OF ok(1)] ids_ok_breakOutPane [OF ok]] u activate_ok
    by (simp add: Let_def)
  show "unsettled_ok (fst (applyTabsAction s (Ungroup i)))"
    using regroup_ok(1) [OF u groups_ok_ungroupPanes [OF ok(1)] ids_ok_ungroupPanes [OF ok(2) d], of i]
    by (simp add: case_prod_beta)
  show "unsettled_ok (fst (applyTabsAction s (ToggleZoom i)))"
    using regroup_ok(2) [OF u groups_ok_toggleZoom [OF ok(1)], of "s_groupCount s" i] ok(2) activate_ok
    by (simp add: ids_ok_def)
qed

lemma unsettled_applyTabsAction:
  assumes "state_ok s" and "action_ok s a"
  shows "unsettled_ok (fst (applyTabsAction s a))"
proof -
  have marked: "\<forall>tab\<in>set (s_tabs s). t_isActive tab = (Some (t_id tab) = s_activeTabId s)"
    using assms(1) by (simp add: state_ok_def unsettled_ok_def tabs_ok_def)
  show ?thesis
proof (cases a)
  case (Restore tabs active layout)
  with assms(2) unsettled_Restore show ?thesis by blast
next
  case (AddTab tab)
  with assms unsettled_AddTab(1) show ?thesis by simp
next
  case (OpenPage tab)
  with assms unsettled_AddTab(2) show ?thesis by simp
next
  case (RenamePage ty title)
  have "unsettled_ok (s\<lparr>s_tabs := map (\<lambda>tab. if t_type tab \<noteq> ty \<or> t_title tab = title then tab
      else tab\<lparr>t_title := title\<rparr>) (s_tabs s)\<rparr>)"
    using marked by (intro unsettled_retitle [OF assms(1)]) simp
  with RenamePage state_okD(1) [OF assms(1)] show ?thesis by simp
next
  case (RemoveTabs ids opts)
  with assms(1) unsettled_RemoveTabs show ?thesis by blast
next
  case (SetActive i)
  with assms(1) state_okD(1) activate_ok show ?thesis by simp
next
  case (DuplicateTab i new split)
  with assms unsettled_DuplicateTab show ?thesis by simp
next
  case (RenameTab i title)
  have "unsettled_ok (s\<lparr>s_tabs := map (\<lambda>tab. if t_id tab = i
      then tab\<lparr>t_title := title, t_duplicateBaseTitle := None, t_autoTitle := None\<rparr> else tab) (s_tabs s)\<rparr>)"
    using marked by (intro unsettled_retitle [OF assms(1)]) simp
  with RenameTab show ?thesis by simp
next
  case (UpdateTab i f)
  with assms(2) have "\<forall>tab\<in>set (s_tabs s). t_id tab = i \<longrightarrow> t_id (f tab) = i" by (simp add: list_all_iff)
  with marked have "unsettled_ok (s\<lparr>s_tabs := map (\<lambda>tab. if t_id tab \<noteq> i then tab
      else let updated = ensureTabDefaults (f tab)
           in updated\<lparr>t_isActive := (Some (t_id updated) = s_activeTabId s)\<rparr>) (s_tabs s)\<rparr>)"
    by (intro unsettled_retitle [OF assms(1)]) (simp add: Let_def)
  with UpdateTab show ?thesis by simp
next
  case (ResizeSplit gid path sizes)
  let ?f = "\<lambda>g. if g_id g = gid then g\<lparr>g_root := resizeSplit (g_root g) path sizes\<rparr> else g"
  note u = unsettled_okD [OF state_okD(1) [OF assms(1)]]
  have "map g_id (map ?f (s_groups s)) = map g_id (s_groups s)" by simp
  from u(3) have "ids_ok (s_groupCount s) (map ?f (s_groups s))"
    unfolding ids_ok_cong [OF \<open>map g_id (map ?f (s_groups s)) = map g_id (s_groups s)\<close>] .
  moreover have "groups_ok (map ?f (s_groups s))"
    using u(2) by (auto simp: groups_ok_def group_ok_def canonical_resizeSplit)
  ultimately have "unsettled_ok (s\<lparr>s_groups := map ?f (s_groups s)\<rparr>)"
    using u(1) by (simp add: unsettled_ok_def)
  with ResizeSplit show ?thesis by simp
next
  case (ApplyTemplate i shape newIds)
  with assms unsettled_ApplyTemplate show ?thesis by simp
next
  case (MoveTab a b)
  show ?thesis unfolding MoveTab by (rule unsettled_groups_action [OF assms(1)])
next
  case (PlacePane i target d)
  show ?thesis unfolding PlacePane by (rule unsettled_groups_action [OF assms(1)])
next
  case (MergeGroup i target d)
  show ?thesis unfolding MergeGroup by (rule unsettled_groups_action [OF assms(1)])
next
  case (BreakOut i index)
  show ?thesis unfolding BreakOut by (rule unsettled_groups_action [OF assms(1)])
next
  case (Ungroup i)
  show ?thesis unfolding Ungroup by (rule unsettled_groups_action [OF assms(1)])
next
  case (ToggleZoom i)
  show ?thesis unfolding ToggleZoom by (rule unsettled_groups_action [OF assms(1)])
qed
qed

section \<open>Settling\<close>

lemma shown_in_focus:
  assumes "i \<in> set (all_panes gs)"
  shows "shown_in (focusPaneInGroups gs i) i"
proof -
  from assms obtain k where k: "group_index gs i = Some k"
    using group_index_None [of gs i] by (cases "group_index gs i") auto
  have "map g_root (focusPaneInGroups gs i) = map g_root gs"
    using k group_index_SomeD(1) [OF k] by (simp add: focusPaneInGroups_def Let_def map_update_id)
  then have "group_index (focusPaneInGroups gs i) i = Some k"
    using k by (simp add: group_index_map_root [of "focusPaneInGroups gs i" gs])
  moreover have "set_option (g_zoomedTabId (focusPaneInGroups gs i ! k)) \<subseteq> {i}"
    using k group_index_SomeD(1) [OF k] by (auto simp: focusPaneInGroups_def Let_def split: if_splits)
  ultimately show ?thesis
    using focusPaneInGroups_active(1) [OF k] by (simp add: shown_in_def findGroupOfTab_index)
qed

lemma ids_ok_focus: "ids_ok n (focusPaneInGroups gs i) = ids_ok n gs"
  by (rule ids_ok_cong) simp

lemma in_order_same:
  assumes "in_order order tabs" and "length tabs = length order"
  shows "map t_id tabs = order"
proof (rule nth_equalityI)
  fix k assume "k < length (map t_id tabs)"
  then have k: "k < length order" using assms(2) by simp
  then have "(order ! k, k) \<in> set (zip order [0..<length order])"
    by (auto simp: set_zip)
  with assms(1) have "map_option t_id (nth_opt tabs k) = Some (order ! k)"
    by (auto simp: in_order_def list_all_iff)
  then show "map t_id tabs ! k = order ! k" using k assms(2) by (simp add: nth_opt_def)
qed (simp add: assms(2))

lemma byId_lookup:
  assumes "distinct (map t_id tabs)" and "tab \<in> set tabs"
  shows "map_of (rev (map (\<lambda>tab. (t_id tab, tab)) tabs)) (t_id tab) = Some tab"
  using assms by (intro map_of_is_SomeI) (auto simp: rev_map [symmetric] comp_def)

lemma reordered:
  assumes "distinct (map t_id tabs)" and "set order \<subseteq> set (map t_id tabs)"
  defines "found \<equiv> List.map_filter (map_of (rev (map (\<lambda>tab. (t_id tab, tab)) tabs))) order"
  shows "map t_id found = order" and "set found \<subseteq> set tabs"
proof -
  have "map t_id (List.map_filter (map_of (rev (map (\<lambda>tab. (t_id tab, tab)) tabs))) is) = is
      \<and> set (List.map_filter (map_of (rev (map (\<lambda>tab. (t_id tab, tab)) tabs))) is) \<subseteq> set tabs"
    if "set is \<subseteq> set (map t_id tabs)" for "is"
    using that
  proof (induction "is")
    case (Cons i "is")
    then obtain tab where "tab \<in> set tabs" "t_id tab = i" by auto
    with byId_lookup [OF assms(1)] Cons show ?case by (auto simp: List.map_filter_def)
  qed (simp add: List.map_filter_def)
  with assms(2,3) show "map t_id found = order" "set found \<subseteq> set tabs" by auto
qed

lemma tabs_ok_reordered:
  assumes "tabs_ok tabs active" and "map t_id tabs' = order" and "set tabs' \<subseteq> set tabs"
    and "distinct order" and "set order = set (map t_id tabs)"
  shows "tabs_ok tabs' active"
  using assms unfolding tabs_ok_def by auto

lemma state_ok_settleGroups:
  assumes "unsettled_ok s"
  shows "state_ok (fst (settleGroups s))"
    and "set (map t_id (s_tabs (fst (settleGroups s)))) = set (map t_id (s_tabs s))"
proof -
  note u = unsettled_okD [OF assms]
  have d: "distinct (map t_id (s_tabs s))" using u(1) by (simp add: tabs_ok_def)
  let ?r = "reconcileGroups (s_groups s) (map t_id (s_tabs s)) (s_groupCount s)"
  let ?gs = "if truthy (s_activeTabId s) then focusPaneInGroups (fst ?r) (the (s_activeTabId s)) else fst ?r"
  note panes = all_panes_reconcileGroups [OF u(2) d, of "s_groupCount s"]
  have order: "distinct (all_panes ?gs)" "set (all_panes ?gs) = set (map t_id (s_tabs s))"
    using panes by simp_all
  have gs: "groups_ok ?gs" "ids_ok (snd ?r) ?gs"
    using groups_ok_reconcileGroups [OF u(2)] ids_ok_reconcileGroups [OF u(2,3)]
    by (auto simp: groups_ok_focusPaneInGroups ids_ok_focus)
  have shown: "shown_in ?gs i" if "i \<in> set_option (s_activeTabId s)" for i
  proof -
    from that have active: "s_activeTabId s = Some i" by simp
    with u(1) have "i \<in> set (map t_id (s_tabs s))" "[] \<notin> set (map t_id (s_tabs s))"
      by (simp_all add: tabs_ok_def)
    then have "i \<in> set (map t_id (s_tabs s))" "i \<noteq> []" by metis+
    with active panes(2) show ?thesis by (simp add: shown_in_focus)
  qed
  let ?tabs = "List.map_filter (map_of (rev (map (\<lambda>tab. (t_id tab, tab)) (s_tabs s)))) (all_panes ?gs)"
  have "state_ok (fst (settleGroups s))
    \<and> set (map t_id (s_tabs (fst (settleGroups s)))) = set (map t_id (s_tabs s))"
  proof (cases "in_order (all_panes ?gs) (s_tabs s)")
    case True
    have "length (s_tabs s) = length (all_panes ?gs)"
      using order d by (metis distinct_card length_map)
    from in_order_same [OF True this]
    have "state_ok (s\<lparr>s_groups := ?gs, s_groupCount := snd ?r\<rparr>)"
      using u(1) gs shown by (simp add: state_ok_def unsettled_ok_def)
    with True show ?thesis by (simp add: settleGroups_def case_prod_beta Let_def del: set_map)
  next
    case False
    have "set (all_panes ?gs) \<subseteq> set (map t_id (s_tabs s))" using order(2) by simp
    note found = reordered [OF d this]
    have "tabs_ok ?tabs (s_activeTabId s)"
      by (rule tabs_ok_reordered [OF u(1) found order])
    then have "state_ok (s\<lparr>s_tabs := ?tabs, s_groups := ?gs, s_groupCount := snd ?r\<rparr>)"
      using found(1) gs shown by (simp add: state_ok_def unsettled_ok_def)
    with False found(1) order(2) show ?thesis
      by (simp add: settleGroups_def case_prod_beta Let_def del: set_map)
  qed
  then show "state_ok (fst (settleGroups s))"
    "set (map t_id (s_tabs (fst (settleGroups s)))) = set (map t_id (s_tabs s))" by simp_all
qed

lemma state_ok_titles:
  assumes "state_ok s"
  shows "state_ok (s\<lparr>s_tabs := withDistinctLocalTitles home (s_tabs s)\<rparr>)"
proof -
  have "tabs_ok (withDistinctLocalTitles home (s_tabs s)) (s_activeTabId s)
      = tabs_ok (s_tabs s) (s_activeTabId s)"
    by (rule tabs_ok_cong) simp_all
  with assms show ?thesis by (simp add: state_ok_def unsettled_ok_def)
qed

lemma state_ok_tabsReducer:
  assumes "state_ok s" and "action_ok s a"
  shows "state_ok (tabsReducer home s a)"
  using state_ok_settleGroups(1) [OF unsettled_applyTabsAction [OF assms]] state_ok_titles
  by (simp add: tabsReducer_def case_prod_beta)

end
