(* ===== verification/Machines.thy ===== *)
theory Machines
  imports Prelude
begin

text \<open>
  State machines as the source has them: a state, an input at a time, a function
  that gives the next state. \<open>run\<close> feeds a list of inputs, \<open>run_allowed\<close> says that
  each is one the callers may give in the state it meets, and \<open>reachable\<close> is the
  step relation's closure. A component that keeps an invariant interprets
  \<open>machine\<close> on its own step function and gets the invariant of whole runs.
\<close>

fun run :: "('s \<Rightarrow> 'a \<Rightarrow> 's) \<Rightarrow> 's \<Rightarrow> 'a list \<Rightarrow> 's" where
  "run step s [] = s"
| "run step s (a # as) = run step (step s a) as"

fun run_allowed :: "('s \<Rightarrow> 'a \<Rightarrow> bool) \<Rightarrow> ('s \<Rightarrow> 'a \<Rightarrow> 's) \<Rightarrow> 's \<Rightarrow> 'a list \<Rightarrow> bool" where
  "run_allowed allowed step s [] = True"
| "run_allowed allowed step s (a # as) = (allowed s a \<and> run_allowed allowed step (step s a) as)"

inductive reachable :: "('s \<Rightarrow> 'a \<Rightarrow> bool) \<Rightarrow> ('s \<Rightarrow> 'a \<Rightarrow> 's) \<Rightarrow> 's \<Rightarrow> 's \<Rightarrow> bool"
  for allowed step start where
    start: "reachable allowed step start start"
  | step: "reachable allowed step start s \<Longrightarrow> allowed s a \<Longrightarrow> reachable allowed step start (step s a)"

inductive_cases reachable_cases: "reachable allowed step start s"

lemma run_append: "run step s (as @ bs) = run step (run step s as) bs"
  by (induction as arbitrary: s) auto

lemma run_allowed_append:
  "run_allowed allowed step s (as @ bs) \<longleftrightarrow>
     run_allowed allowed step s as \<and> run_allowed allowed step (run step s as) bs"
  by (induction as arbitrary: s) auto

lemma reachable_run:
  "reachable allowed step start s \<longleftrightarrow> (\<exists>as. run_allowed allowed step start as \<and> s = run step start as)"
proof
  show "reachable allowed step start s \<Longrightarrow> \<exists>as. run_allowed allowed step start as \<and> s = run step start as"
  proof (induction rule: reachable.induct)
    case start
    show ?case by (rule exI [of _ "[]"]) simp
  next
    case (step s a)
    then obtain as where "run_allowed allowed step start as" "s = run step start as" by blast
    with step(2) show ?case by (intro exI [of _ "as @ [a]"]) (simp add: run_append run_allowed_append)
  qed
next
  have "run_allowed allowed step t as \<Longrightarrow> reachable allowed step start t
      \<Longrightarrow> reachable allowed step start (run step t as)" for t as
    by (induction as arbitrary: t) (auto intro: reachable.step)
  then show "\<exists>as. run_allowed allowed step start as \<and> s = run step start as \<Longrightarrow> reachable allowed step start s"
    by (auto intro: reachable.start)
qed

locale machine =
  fixes allowed :: "'s \<Rightarrow> 'a \<Rightarrow> bool" and step :: "'s \<Rightarrow> 'a \<Rightarrow> 's" and start :: 's and inv :: "'s \<Rightarrow> bool"
  assumes inv_start: "inv start"
    and inv_step: "inv s \<Longrightarrow> allowed s a \<Longrightarrow> inv (step s a)"
begin

lemma inv_reachable: "reachable allowed step start s \<Longrightarrow> inv s"
  by (induction rule: reachable.induct) (auto intro: inv_start inv_step)

lemma inv_run_from: "inv s \<Longrightarrow> run_allowed allowed step s as \<Longrightarrow> inv (run step s as)"
  by (induction as arbitrary: s) (auto intro: inv_step)

lemma inv_run: "run_allowed allowed step start as \<Longrightarrow> inv (run step start as)"
  by (rule inv_run_from [OF inv_start])

end

text \<open>A machine whose every input is allowed.\<close>

locale total_machine = machine "\<lambda>s a. True" step start inv
  for step :: "'s \<Rightarrow> 'a \<Rightarrow> 's" and start :: 's and inv :: "'s \<Rightarrow> bool"
begin

lemma run_allowed_all: "run_allowed (\<lambda>s a. True) step s as"
  by (induction as arbitrary: s) auto

lemma inv_any_run: "inv (run step start as)"
  by (rule inv_run [OF run_allowed_all])

end

end
