(* ===== verification/Tabs_Hook.thy ===== *)
theory Tabs_Hook
  imports Tabs_Invariant Machines
begin

text \<open>
  The hook that holds the workspace's state (\<open>src/src/hooks/useTabs.ts\<close>): its
  state is the reducer's and the counter of tab ids, and every function it
  returns is a constructor of \<open>HookCall\<close>. A call takes effect at once, as
  \<open>dispatch\<close> in an event handler does before the next one runs.

  From the empty workspace, whatever calls are made, \<open>state_ok\<close> holds and no
  generated id is one a tab already has.
\<close>

record TabsHook =
  h_state :: TabsState
  h_tabIdCounter :: nat

datatype HookCall =
    CallRestore "Tab list" "string option" "json option"
  | CallAdd Tab
  | CallOpenPage TabType string
  | CallRenamePage TabType string
  | CallRemove "string list" "RemoveTabsOptions option"
  | CallSetActive string
  | CallMove int int
  | CallDuplicate string "SplitDirection option"
  | CallRename string string
  | CallUpdate string "Tab \<Rightarrow> Tab"
  | CallPlacePane string string SplitDirection
  | CallMergeGroup string string SplitDirection
  | CallBreakOut string "int option"
  | CallUngroup string
  | CallToggleZoom string
  | CallResizeSplit string "nat list" "rat list"
  | CallApplyTemplate string LayoutShape

definition initial_state :: TabsState where
  "initial_state = \<lparr>s_tabs = [], s_activeTabId = None, s_groups = [], s_groupCount = 0\<rparr>"

definition initial_hook :: TabsHook where
  "initial_hook = \<lparr>h_state = initial_state, h_tabIdCounter = 0\<rparr>"

definition tab_name :: "nat \<Rightarrow> string" where
  "tab_name n = ''tab-'' @ show_nat n"

text \<open>\<open>tab.id.match(/tab-(\d+)/)\<close>: the digits after the first \<open>tab-\<close> that has some.\<close>

fun tab_number :: "string \<Rightarrow> nat option" where
  "tab_number [] = None"
| "tab_number (c # cs) =
     (if starts_with (c # cs) ''tab-'' \<and> takeWhile is_digit (drop 4 (c # cs)) \<noteq> []
      then Some (read_nat (takeWhile is_digit (drop 4 (c # cs))))
      else tab_number cs)"

definition max_tab_number :: "Tab list \<Rightarrow> nat" where
  "max_tab_number tabs = foldl (\<lambda>m tab. max m (or_default (tab_number (t_id tab)) 0)) 0 tabs"

definition dispatch :: "string option \<Rightarrow> TabsHook \<Rightarrow> TabsAction \<Rightarrow> TabsHook" where
  "dispatch home h action = h\<lparr>h_state := tabsReducer home (h_state h) action\<rparr>"

definition generateTabId :: "TabsHook \<Rightarrow> string \<times> TabsHook" where
  "generateTabId h = (tab_name (Suc (h_tabIdCounter h)), h\<lparr>h_tabIdCounter := Suc (h_tabIdCounter h)\<rparr>)"

definition generate_ids :: "nat \<Rightarrow> TabsHook \<Rightarrow> string list \<times> TabsHook" where
  "generate_ids k h = (map (\<lambda>j. tab_name (Suc (h_tabIdCounter h + j))) [0..<k],
     h\<lparr>h_tabIdCounter := h_tabIdCounter h + k\<rparr>)"

fun useTabs :: "string option \<Rightarrow> TabsHook \<Rightarrow> HookCall \<Rightarrow> TabsHook" where
  "useTabs home h (CallRestore tabs active layout) =
     dispatch home (h\<lparr>h_tabIdCounter := max_tab_number tabs\<rparr>) (Restore tabs active layout)"
| "useTabs home h (CallAdd tabData) =
     (case generateTabId h of
        (i, h') \<Rightarrow> dispatch home h' (AddTab (ensureTabDefaults
          (tabData\<lparr>t_id := i, t_isActive := False, t_hasConnected := Some True\<rparr>))))"
| "useTabs home h (CallOpenPage type title) =
     (case generateTabId h of
        (i, h') \<Rightarrow> dispatch home h' (OpenPage (ensureTabDefaults
          ((make_tab i title type True)\<lparr>t_isModified := Some False, t_hasConnected := Some True\<rparr>))))"
| "useTabs home h (CallRenamePage type title) = dispatch home h (RenamePage type title)"
| "useTabs home h (CallRemove ids options) =
     (if ids = [] then h else dispatch home h (RemoveTabs ids options))"
| "useTabs home h (CallSetActive i) = dispatch home h (SetActive i)"
| "useTabs home h (CallMove fromIndex toIndex) = dispatch home h (MoveTab fromIndex toIndex)"
| "useTabs home h (CallDuplicate i split) =
     (case find_tab (s_tabs (h_state h)) (Some i) of
        None \<Rightarrow> h
      | Some tab \<Rightarrow>
          (if \<not> can_copy tab then h
           else case generateTabId h of (newId, h') \<Rightarrow> dispatch home h' (DuplicateTab i newId split)))"
| "useTabs home h (CallRename i title) = dispatch home h (RenameTab i title)"
| "useTabs home h (CallUpdate i updater) = dispatch home h (UpdateTab i updater)"
| "useTabs home h (CallPlacePane i target d) = dispatch home h (PlacePane i target d)"
| "useTabs home h (CallMergeGroup i target d) = dispatch home h (MergeGroup i target d)"
| "useTabs home h (CallBreakOut i index) = dispatch home h (BreakOut i index)"
| "useTabs home h (CallUngroup i) = dispatch home h (Ungroup i)"
| "useTabs home h (CallToggleZoom i) = dispatch home h (ToggleZoom i)"
| "useTabs home h (CallResizeSplit gid path sizes) = dispatch home h (ResizeSplit gid path sizes)"
| "useTabs home h (CallApplyTemplate i shape) =
     (case findGroupOfTab (s_groups (h_state h)) i of
        None \<Rightarrow> h
      | Some g \<Rightarrow>
          (case generate_ids (countTemplatePanes shape - length (group_panes g)) h of
             (newIds, h') \<Rightarrow> dispatch home h' (ApplyTemplate i shape newIds)))"

section \<open>What callers see to\<close>

fun call_ok :: "TabsHook \<Rightarrow> HookCall \<Rightarrow> bool" where
  "call_ok h (CallRestore tabs active layout) =
     (distinct (map t_id tabs) \<and> [] \<notin> set (map t_id tabs) \<and> set_option active \<subseteq> set (map t_id tabs))"
| "call_ok h (CallUpdate i updater) =
     list_all (\<lambda>tab. t_id tab = i \<longrightarrow> t_id (updater tab) = i) (s_tabs (h_state h))"
| "call_ok h (CallApplyTemplate i shape) = shape_ok shape"
| "call_ok h _ = True"

text \<open>No tab has an id that is still to be generated.\<close>

definition unused_from :: "nat \<Rightarrow> TabsState \<Rightarrow> bool" where
  "unused_from n s \<longleftrightarrow> (\<forall>k>n. tab_name k \<notin> set (map t_id (s_tabs s)))"

definition hook_ok :: "TabsHook \<Rightarrow> bool" where
  "hook_ok h \<longleftrightarrow> state_ok (h_state h) \<and> unused_from (h_tabIdCounter h) (h_state h)"

section \<open>Which ids an action leaves\<close>

fun new_ids :: "TabsAction \<Rightarrow> string set" where
  "new_ids (Restore tabs active layout) = set (map t_id tabs)"
| "new_ids (AddTab tab) = {t_id tab}"
| "new_ids (OpenPage tab) = {t_id tab}"
| "new_ids (DuplicateTab i newId split) = {newId}"
| "new_ids (ApplyTemplate i shape newIds) = set newIds"
| "new_ids _ = {}"

definition tab_ids :: "TabsState \<Rightarrow> string set" where
  "tab_ids s = set (map t_id (s_tabs s))"

lemma tab_ids_activate [simp]: "tab_ids (fst (activateTabInState s i)) = tab_ids s"
  by (simp add: activateTabInState_def tab_ids_def image_image)

lemma tab_ids_regroup [simp]:
  "tab_ids (s\<lparr>s_groups := gs\<rparr>) = tab_ids s"
  "tab_ids (s\<lparr>s_groupCount := n\<rparr>) = tab_ids s"
  "tab_ids (s\<lparr>s_activeTabId := active\<rparr>) = tab_ids s"
  by (simp_all add: tab_ids_def)

lemma tab_ids_image: "t_id ` set (s_tabs s) = tab_ids s"
  by (simp add: tab_ids_def)

lemma tab_ids_tabs: "tab_ids (s\<lparr>s_tabs := tabs\<rparr>) = t_id ` set tabs"
  by (simp add: tab_ids_def)

lemma in_tab_ids: "tab \<in> set (s_tabs s) \<Longrightarrow> t_id tab \<in> tab_ids s"
  by (simp add: tab_ids_def)

lemma tab_ids_removed:
  "removeTabsFromState tabs active ids opts = ((tabs', active'), c) \<Longrightarrow>
    set (map t_id tabs') \<subseteq> set (map t_id tabs)"
  by (auto simp: removeTabsFromState_def Let_def split: if_splits)

lemma tab_ids_applyTemplate: "tab_ids (fst (applyTemplate s i shape newIds)) \<subseteq> tab_ids s \<union> set newIds"
proof -
  have "set (map t_id (template_copies source tabs [] ids)) = set ids" for source tabs ids
    by (simp only: template_copies_spec list.map append_Nil)
  then show ?thesis
    by (auto simp: applyTemplate_def Let_def split: option.split) (auto simp: tab_ids_def image_iff)
qed

lemma tab_ids_applyTabsAction:
  assumes "action_ok s a"
  shows "tab_ids (fst (applyTabsAction s a)) \<subseteq> tab_ids s \<union> new_ids a"
proof (cases a)
  case (Restore tabs active layout)
  then show ?thesis by (auto simp: tab_ids_def Let_def)
next
  case (RemoveTabs ids opts)
  then show ?thesis
    by (auto simp: Let_def tab_ids_def simp del: set_map split: prod.split dest!: tab_ids_removed)
next
  case (UpdateTab i f)
  with assms show ?thesis by (auto simp: tab_ids_def Let_def list_all_iff split: if_splits)
next
  case (ApplyTemplate i shape newIds)
  with tab_ids_applyTemplate show ?thesis by simp
qed (auto simp: Let_def tab_ids_tabs image_image image_Un if_distrib [of t_id] tab_ids_image in_tab_ids split: option.split prod.split)

section \<open>Generated ids are fresh\<close>

lemma digits_of_show_nat: "takeWhile is_digit (show_nat n) = show_nat n"
  by (simp add: takeWhile_eq_all_conv show_nat_digits)

lemma tab_number_tab_name [simp]: "tab_number (tab_name n) = Some n"
proof -
  have "tab_name n = CHR ''t'' # ''ab-'' @ show_nat n" by (simp add: tab_name_def)
  moreover have "starts_with (''tab-'' @ show_nat n) ''tab-''" by (simp add: starts_with_iff)
  moreover have "drop 4 (''tab-'' @ show_nat n) = show_nat n" by simp
  ultimately show ?thesis
    by (simp add: digits_of_show_nat show_nat_nonempty read_show_nat)
qed

lemma tab_name_inject [simp]: "tab_name m = tab_name n \<longleftrightarrow> m = n"
  using tab_number_tab_name by (metis option.inject)

lemma tab_name_nonempty [simp]: "tab_name n \<noteq> []"
  by (simp add: tab_name_def)

lemma max_tab_number_ge:
  assumes "tab \<in> set tabs" and "tab_number (t_id tab) = Some k"
  shows "k \<le> max_tab_number tabs"
proof -
  have mono: "m \<le> foldl (\<lambda>m tab. max m (or_default (tab_number (t_id tab)) 0)) m tabs" for m tabs
    by (induction tabs arbitrary: m) (auto intro: order_trans max.cobounded1)
  have "k \<le> foldl (\<lambda>m tab. max m (or_default (tab_number (t_id tab)) 0)) m tabs" for m
    using assms(1)
  proof (induction tabs arbitrary: m)
    case (Cons t ts)
    show ?case
    proof (cases "t = tab")
      case True
      with assms(2) mono [of "max m k" ts] show ?thesis by simp
    next
      case False
      with Cons show ?thesis by simp
    qed
  qed simp
  then show ?thesis by (simp add: max_tab_number_def)
qed

lemma unused_restored: "tab_ids s \<subseteq> set (map t_id tabs) \<Longrightarrow> unused_from (max_tab_number tabs) s"
proof -
  have "tab_name k \<notin> set (map t_id tabs)" if "max_tab_number tabs < k" for k
  proof
    assume "tab_name k \<in> set (map t_id tabs)"
    then obtain tab where "tab \<in> set tabs" "t_id tab = tab_name k" by auto
    then have "k \<le> max_tab_number tabs" by (intro max_tab_number_ge [of tab]) simp_all
    with that show False by simp
  qed
  then show "tab_ids s \<subseteq> set (map t_id tabs) \<Longrightarrow> unused_from (max_tab_number tabs) s"
    by (auto simp: unused_from_def tab_ids_def simp del: set_map)
qed

lemma tab_ids_tabsReducer:
  assumes "state_ok s" and "action_ok s a"
  shows "tab_ids (tabsReducer home s a) = tab_ids (fst (applyTabsAction s a))"
proof -
  let ?applied = "fst (applyTabsAction s a)"
  note u = unsettled_applyTabsAction [OF assms]
  have "set (map t_id (s_tabs (fst (settleGroups ?applied)))) = set (map t_id (s_tabs ?applied))"
    by (rule state_ok_settleGroups(2) [OF u])
  then show ?thesis by (simp add: tabsReducer_def case_prod_beta tab_ids_def del: set_map)
qed

lemma dispatch_ok:
  assumes "state_ok (h_state h)" and "action_ok (h_state h) a"
    and "\<And>k. h_tabIdCounter h < k \<Longrightarrow> tab_name k \<notin> tab_ids (fst (applyTabsAction (h_state h) a))"
  shows "hook_ok (dispatch home h a)"
  using state_ok_tabsReducer [OF assms(1,2), of home] tab_ids_tabsReducer [OF assms(1,2), of home] assms(3)
  by (simp add: hook_ok_def dispatch_def unused_from_def tab_ids_def del: set_map)

lemma dispatch_later:
  assumes "hook_ok h" and "h_tabIdCounter h \<le> n" and "action_ok (h_state h) a"
    and "\<And>k. n < k \<Longrightarrow> tab_name k \<notin> new_ids a"
  shows "hook_ok (dispatch home (h\<lparr>h_tabIdCounter := n\<rparr>) a)"
proof (rule dispatch_ok)
  fix k assume k: "h_tabIdCounter (h\<lparr>h_tabIdCounter := n\<rparr>) < k"
  with assms(1,2) have "tab_name k \<notin> tab_ids (h_state h)"
    by (simp add: hook_ok_def unused_from_def tab_ids_def del: set_map)
  with k assms(4) tab_ids_applyTabsAction [OF assms(3)]
  show "tab_name k \<notin> tab_ids (fst (applyTabsAction (h_state (h\<lparr>h_tabIdCounter := n\<rparr>)) a))" by auto
qed (use assms in \<open>simp_all add: hook_ok_def\<close>)

lemma dispatch_now:
  assumes "hook_ok h" and "action_ok (h_state h) a" and "new_ids a = {}"
  shows "hook_ok (dispatch home h a)"
  using dispatch_later [OF assms(1) order_refl assms(2)] assms(3) by simp

lemma fresh_generated:
  assumes "hook_ok h" and "h_tabIdCounter h < k"
  shows "fresh_id (h_state h) (tab_name k)"
  using assms by (simp add: hook_ok_def unused_from_def fresh_id_def del: set_map)

lemma hook_ok_useTabs:
  assumes "hook_ok h" and "call_ok h call"
  shows "hook_ok (useTabs home h call)"
proof -
  let ?n = "Suc (h_tabIdCounter h)"
  note fresh = fresh_generated [OF assms(1), of ?n, simplified]
  show ?thesis
  proof (cases call)
    case (CallRestore tabs active layout)
    have "hook_ok (dispatch home (h\<lparr>h_tabIdCounter := max_tab_number tabs\<rparr>) (Restore tabs active layout))"
    proof (rule dispatch_ok)
      fix k assume "h_tabIdCounter (h\<lparr>h_tabIdCounter := max_tab_number tabs\<rparr>) < k"
      moreover have "unused_from (max_tab_number tabs) (fst (applyTabsAction (h_state h) (Restore tabs active layout)))"
        by (rule unused_restored) (auto simp: tab_ids_def Let_def)
      ultimately show "tab_name k \<notin> tab_ids (fst (applyTabsAction
          (h_state (h\<lparr>h_tabIdCounter := max_tab_number tabs\<rparr>)) (Restore tabs active layout)))"
        by (simp add: unused_from_def tab_ids_def del: set_map)
    qed (use assms CallRestore in \<open>simp_all add: hook_ok_def\<close>)
    with CallRestore show ?thesis by simp
  next
    case (CallAdd tab)
    have "hook_ok (dispatch home (h\<lparr>h_tabIdCounter := ?n\<rparr>) (AddTab (ensureTabDefaults
        (tab\<lparr>t_id := tab_name ?n, t_isActive := False, t_hasConnected := Some True\<rparr>))))"
      using fresh by (intro dispatch_later [OF assms(1)]) simp_all
    with CallAdd show ?thesis by (simp add: generateTabId_def)
  next
    case (CallOpenPage ty title)
    have "hook_ok (dispatch home (h\<lparr>h_tabIdCounter := ?n\<rparr>) (OpenPage (ensureTabDefaults
        ((make_tab (tab_name ?n) title ty True)\<lparr>t_isModified := Some False, t_hasConnected := Some True\<rparr>))))"
      using fresh by (intro dispatch_later [OF assms(1)]) simp_all
    with CallOpenPage show ?thesis by (simp add: generateTabId_def)
  next
    case (CallDuplicate i split)
    have "hook_ok (dispatch home (h\<lparr>h_tabIdCounter := ?n\<rparr>) (DuplicateTab i (tab_name ?n) split))"
      using fresh by (intro dispatch_later [OF assms(1)]) simp_all
    with CallDuplicate assms(1) show ?thesis by (simp add: generateTabId_def split: option.split)
  next
    case (CallApplyTemplate i shape)
    let ?ids = "\<lambda>k. map (\<lambda>j. tab_name (Suc (h_tabIdCounter h + j))) [0..<k]"
    have "hook_ok (dispatch home (h\<lparr>h_tabIdCounter := h_tabIdCounter h + k\<rparr>) (ApplyTemplate i shape (?ids k)))" for k
    proof (rule dispatch_later [OF assms(1)])
      show "action_ok (h_state h) (ApplyTemplate i shape (?ids k))"
        using assms(2) CallApplyTemplate fresh_generated [OF assms(1)]
        by (auto simp: list_all_iff distinct_map inj_on_def)
    qed auto
    with CallApplyTemplate assms(1) show ?thesis by (simp add: generate_ids_def split: option.split)
  next
    case (CallRemove ids opts)
    then show ?thesis using assms dispatch_now [OF assms(1), of "RemoveTabs ids opts"] by simp
  next
    case (CallUpdate i f)
    with assms(2) show ?thesis using dispatch_now [OF assms(1), of "UpdateTab i f"] by simp
  qed (use dispatch_now [OF assms(1)] in \<open>simp_all\<close>)
qed

lemma hook_ok_initial: "hook_ok initial_hook"
  by (simp add: hook_ok_def initial_hook_def initial_state_def state_ok_def unsettled_ok_def tabs_ok_def
      ids_ok_def unused_from_def)

interpretation workspace: machine call_ok "useTabs home" initial_hook hook_ok for home
  by unfold_locales (simp_all add: hook_ok_initial hook_ok_useTabs)

end
