(* ===== verification/Tabs_Properties.thy ===== *)
theory Tabs_Properties
  imports Tabs_Hook
begin

text \<open>
  The properties of the workspace's state (\<open>src/src/lib/tabsState.ts\<close>,
  \<open>src/src/hooks/useTabs.ts\<close>) and of the operations it is built of, each with a
  concrete case it applies to. \<open>demo\<close> is a workspace of two tabs of the bar, the
  first split in two.
\<close>

section \<open>A concrete workspace\<close>

definition demo :: TabsState where
  "demo = \<lparr>s_tabs = [(make_tab ''a'' ''web'' TyTerminal True), (make_tab ''b'' ''db'' TyTerminal False),
      (make_tab ''c'' ''logs'' TyTerminal False)],
    s_activeTabId = Some ''a'',
    s_groups = [\<lparr>g_id = group_name 1, g_root = Split Horizontal [Pane ''a'', Pane ''b''] [1/2, 1/2],
        g_activeTabId = ''a'', g_zoomedTabId = None\<rparr>, single_group (group_name 2) ''c''],
    s_groupCount = 2\<rparr>"

lemma demo_groups_ok: "groups_ok (s_groups demo)"
  by (simp add: demo_def group_ok_def shares_def)

lemma demo_ok: "state_ok demo"
  by (auto simp: state_ok_def unsettled_ok_def tabs_ok_def demo_def group_ok_def shares_def ids_ok_def
      shown_in_def findGroupOfTab_def)

section \<open>Settled states\<close>

lemma focusPaneInGroups_shown: "shown_in gs i \<Longrightarrow> focusPaneInGroups gs i = gs"
  by (auto simp: shown_in_def focusPaneInGroups_def findGroupOfTab_index Let_def split: option.splits)

lemma in_order_self: "map t_id tabs = order \<Longrightarrow> in_order order tabs"
  by (auto simp: in_order_def list_all_iff set_zip nth_opt_def)

lemma settleGroups_settled:
  assumes "state_ok s"
  shows "settleGroups s = (s, False)"
proof -
  note d = state_okD(2,3) [OF assms]
  have "reconcileGroups (s_groups s) (map t_id (s_tabs s)) (s_groupCount s) = (s_groups s, s_groupCount s)"
    using d by (simp add: all_panes_reconcileGroups_same)
  moreover have "(if truthy (s_activeTabId s) then focusPaneInGroups (s_groups s) (the (s_activeTabId s))
      else s_groups s) = s_groups s"
    using assms by (auto simp: state_ok_def truthy_iff focusPaneInGroups_shown)
  moreover have "in_order (all_panes (s_groups s)) (s_tabs s)" using d(1) by (intro in_order_self) simp
  ultimately show ?thesis by (simp add: settleGroups_def)
qed

lemma active_id:
  assumes "tabs_ok tabs (Some a)"
  shows "a \<in> set (map t_id tabs)" and "a \<noteq> []"
proof -
  show "a \<in> set (map t_id tabs)" using assms by (simp add: tabs_ok_def)
  with assms show "a \<noteq> []" unfolding tabs_ok_def by metis
qed

section \<open>The invariant\<close>

text \<open>
  C1: every action of the reducer keeps the workspace consistent: distinct tab ids, each tab a
  pane of exactly one tab of the bar, the tabs in the order the bar shows them, well-formed groups
  with ids of their own, exactly the active tab marked active, and its pane in sight.
\<close>

theorem tabsReducer_keeps_ok:
  assumes "state_ok s" and "action_ok s action"
  shows "state_ok (tabsReducer home s action)"
  using assms by (rule state_ok_tabsReducer)

theorem tabsReducer_keeps_ok_witness:
  "state_ok (tabsReducer None demo (PlacePane ''c'' ''b'' ToBelow))"
  by (rule tabsReducer_keeps_ok [OF demo_ok]) simp

text \<open>
  C2: from the empty workspace, whatever the components of the page call on the hook, the state
  stays consistent and no id generated later is the id of a tab there is.
\<close>

theorem workspace_stays_ok:
  assumes "reachable call_ok (useTabs home) initial_hook h"
  shows "state_ok (h_state h) \<and> (\<forall>k>h_tabIdCounter h. tab_name k \<notin> set (map t_id (s_tabs (h_state h))))"
  using workspace.inv_reachable [OF assms] by (simp add: hook_ok_def unused_from_def)

theorem workspace_stays_ok_witness:
  "state_ok (h_state (useTabs None initial_hook (CallAdd (make_tab ''x'' ''web'' TyTerminal False))))"
proof -
  have "reachable call_ok (useTabs None) initial_hook
      (useTabs None initial_hook (CallAdd (make_tab ''x'' ''web'' TyTerminal False)))"
    by (rule reachable.step [OF reachable.start]) simp
  from workspace_stays_ok [OF this] show ?thesis by simp
qed

text \<open>
  Settling a settled workspace changes nothing and keeps the very tab array, so a render
  after an action that did nothing sees the same tabs.
\<close>

lemma settled_stays:
  assumes "state_ok s"
  shows "settleGroups s = (s, False)"
  using assms by (rule settleGroups_settled)

lemma settled_stays_witness: "settleGroups demo = (demo, False)"
  by (rule settled_stays [OF demo_ok])

text \<open>
  The active tab is always in sight: it is among the panes its tab of the bar shows, even
  while one of them is zoomed.
\<close>

lemma active_in_sight:
  assumes "state_ok s" and "s_activeTabId s = Some a"
  shows "a \<in> set (getVisiblePaneIds (s_groups s) (s_activeTabId s))"
proof -
  from assms have "tabs_ok (s_tabs s) (Some a)" "shown_in (s_groups s) a"
    by (simp_all add: state_ok_def unsettled_ok_def)
  with active_id(2) assms(2) findGroupOfTab_SomeD [of "s_groups s" a] show ?thesis
    by (cases "findGroupOfTab (s_groups s) a") (auto simp: shown_in_def getVisiblePaneIds_def truthy_iff)
qed

lemma active_in_sight_witness: "''a'' \<in> set (getVisiblePaneIds (s_groups demo) (s_activeTabId demo))"
  by (rule active_in_sight [OF demo_ok]) (simp add: demo_def)

section \<open>Closing tabs\<close>

lemma removeTabsFromState_ids:
  "set (map t_id (fst (fst (removeTabsFromState tabs active ids opts)))) = set (map t_id tabs) - ids"
proof (cases "\<exists>tab\<in>set tabs. t_id tab \<in> ids")
  case True
  have kept: "set (map t_id (filter (\<lambda>tab. t_id tab \<notin> ids) tabs)) = set (map t_id tabs) - ids" by auto
  show ?thesis
    by (cases "filter (\<lambda>tab. t_id tab \<notin> ids) tabs = []")
      (use True kept in \<open>simp_all add: removeTabsFromState_def Let_def image_image del: set_filter filter_empty_conv\<close>)
qed (auto simp: removeTabsFromState_def)

text \<open>
  Closing tabs removes those tabs and no other.\<close>

lemma closing_removes_exactly:
  assumes "state_ok s"
  shows "set (map t_id (s_tabs (tabsReducer home s (RemoveTabs ids options))))
    = set (map t_id (s_tabs s)) - set ids"
  using tab_ids_tabsReducer [OF assms, of "RemoveTabs ids options" home]
    removeTabsFromState_ids [of "s_tabs s" "s_activeTabId s" "set ids"]
  by (simp add: tab_ids_def Let_def case_prod_beta del: set_map)

lemma closing_removes_exactly_witness:
  "set (map t_id (s_tabs (tabsReducer None demo (RemoveTabs [''a''] None)))) = {''b'', ''c''}"
  using closing_removes_exactly [OF demo_ok, of None "[''a'']" None] by (auto simp: demo_def)

lemma s_activeTabId_tabsReducer:
  "s_activeTabId (tabsReducer home s a) = s_activeTabId (fst (applyTabsAction s a))"
  by (simp add: tabsReducer_def settleGroups_def case_prod_beta Let_def)

lemma survivor_of:
  assumes "groups_ok gs" and "g \<in> set gs" and "\<not> set (group_panes g) \<subseteq> ids"
  obtains g' where "g' \<in> set (removeTabsFromGroups gs ids)" "g_id g' = g_id g"
    "group_panes g' = filter (\<lambda>i. i \<notin> ids) (group_panes g)"
proof (cases "\<exists>h\<in>set gs. \<exists>i\<in>set (group_panes h). i \<in> ids")
  case False
  with assms(2) have "filter (\<lambda>i. i \<notin> ids) (group_panes g) = group_panes g" by (auto intro: filter_True)
  with False assms(2) that [of g] show ?thesis by (simp add: removeTabsFromGroups_def)
next
  case True
  have "group_ok g" using assms(1,2) by (simp add: groups_ok_def)
  from remove_from_group_spec [OF this, of ids] assms(3) obtain g' where
    "remove_from_group ids g = Some g'" "g_id g' = g_id g"
    "group_panes g' = filter (\<lambda>i. i \<notin> ids) (group_panes g)"
    by (cases "remove_from_group ids g") (auto simp: filter_empty_conv)
  with True assms(2) that [of g'] show ?thesis
    by (auto simp: removeTabsFromGroups_def in_map_filter)
qed

lemma find_by_id:
  assumes "distinct (map g_id gs)" and "g \<in> set gs"
  shows "find (\<lambda>h. g_id h = g_id g) gs = Some g"
  using assms by (induction gs) (auto simp: image_iff)

lemma fallback_survivor:
  assumes "groups_ok gs" and "ids_ok n gs" and "findGroupOfTab gs a = Some g" and "a \<noteq> []"
    and "\<not> set (group_panes g) \<subseteq> ids"
  shows "\<exists>b. getFallbackTabId gs (removeTabsFromGroups gs ids) (Some a) = Some b
    \<and> b \<in> set (group_panes g) - ids"
proof -
  note g = findGroupOfTab_SomeD [OF assms(3)]
  from assms(3) obtain k where k: "group_index gs a = Some k" "gs ! k = g"
    by (auto simp: findGroupOfTab_index)
  obtain g' where g': "g' \<in> set (removeTabsFromGroups gs ids)" "g_id g' = g_id g"
    "group_panes g' = filter (\<lambda>i. i \<notin> ids) (group_panes g)"
    using survivor_of [OF assms(1) g(1) assms(5)] .
  have "distinct (map g_id (removeTabsFromGroups gs ids))"
    using ids_ok_removeTabsFromGroups [OF assms(1,2)] by (simp add: ids_ok_def)
  from find_by_id [OF this g'(1)] g'(2)
  have found: "find (\<lambda>h. g_id h = g_id g) (removeTabsFromGroups gs ids) = Some g'" by simp
  have "removeTabsFromGroups gs ids \<noteq> []" using g'(1) by auto
  then have "getFallbackTabId gs (removeTabsFromGroups gs ids) (Some a) = Some (g_activeTabId g')"
    using k found assms(4) by (simp add: getFallbackTabId_def)
  moreover have "group_ok g'"
    using g'(1) groups_ok_removeTabsFromGroups [OF assms(1)] by (auto simp: groups_ok_def)
  ultimately show ?thesis using g'(3) by (auto simp: group_ok_def)
qed

text \<open>
  Closing the active pane of a split focuses a pane that is left of that split, not another
  tab of the bar.
\<close>

lemma closing_active_stays_in_split:
  assumes "state_ok s" and "s_activeTabId s = Some a" and "a \<in> set ids"
    and "findGroupOfTab (s_groups s) a = Some g" and "\<not> set (getPaneIds (g_root g)) \<subseteq> set ids"
  shows "\<exists>b. s_activeTabId (tabsReducer home s (RemoveTabs ids None)) = Some b
    \<and> b \<in> set (getPaneIds (g_root g)) - set ids"
proof -
  note u = unsettled_okD [OF state_okD(1) [OF assms(1)]]
  note a = active_id [OF u(1) [unfolded assms(2)]]
  obtain b where b: "getFallbackTabId (s_groups s) (removeTabsFromGroups (s_groups s) (set ids)) (Some a) = Some b"
      "b \<in> set (group_panes g) - set ids"
    using fallback_survivor [OF u(2,3) assms(4) a(2) assms(5)] by blast
  have "b \<in> set (map t_id (s_tabs s))"
    using b(2) findGroupOfTab_SomeD(1) [OF assms(4)] state_okD(2) [OF assms(1)] in_all_panes [of b "s_groups s"]
    by auto
  then obtain t where t: "t \<in> set (s_tabs s)" "t_id t = b" by auto
  let ?remaining = "filter (\<lambda>tab. t_id tab \<notin> set ids) (s_tabs s)"
  have in_remaining: "t \<in> set ?remaining" using t b(2) by simp
  then obtain p where p: "find_tab ?remaining (Some b) = Some p" "t_id p = b"
    using find_tab_None [of ?remaining "Some b"] find_tab_Some [of ?remaining "Some b"] t(2)
    by (cases "find_tab ?remaining (Some b)") auto
  have gone: "find_tab ?remaining (Some a) = None" using assms(3) by (auto simp: find_tab_None)
  have "\<exists>tab\<in>set (s_tabs s). t_id tab \<in> set ids" using a(1) assms(3) by auto
  moreover have "?remaining \<noteq> []" using in_remaining by (metis empty_iff list.set(1))
  ultimately have "snd (fst (removeTabsFromState (s_tabs s) (Some a) (set ids)
      (no_options\<lparr>opt_preferredActiveTabId := Some b\<rparr>))) = Some b"
    using p gone by (simp add: removeTabsFromState_def nextActiveTab_def no_options_def Let_def del: filter_empty_conv)
  then have "s_activeTabId (fst (applyTabsAction s (RemoveTabs ids None))) = Some b"
    using b(1) assms(2) by (simp add: Let_def case_prod_beta no_options_def)
  with b(2) show ?thesis by (simp add: s_activeTabId_tabsReducer)
qed

lemma closing_active_stays_in_split_witness:
  "s_activeTabId (tabsReducer None demo (RemoveTabs [''a''] None)) = Some ''b''"
proof -
  let ?g = "\<lparr>g_id = group_name 1, g_root = Split Horizontal [Pane ''a'', Pane ''b''] [1/2, 1/2],
    g_activeTabId = ''a'', g_zoomedTabId = None\<rparr>"
  have "findGroupOfTab (s_groups demo) ''a'' = Some ?g" by (simp add: demo_def findGroupOfTab_def)
  moreover have "s_activeTabId demo = Some ''a''" by (simp add: demo_def)
  ultimately have "\<exists>b. s_activeTabId (tabsReducer None demo (RemoveTabs [''a''] None)) = Some b
      \<and> b \<in> set (getPaneIds (g_root ?g)) - set [''a'']"
    by (intro closing_active_stays_in_split [OF demo_ok]) simp_all
  then show ?thesis by auto
qed

section \<open>Duplicating\<close>

lemma first_free_spec:
  "numbered base (first_free base titles k) \<notin> set titles
    \<and> k \<le> first_free base titles k
    \<and> (\<forall>j. k \<le> j \<and> j < first_free base titles k \<longrightarrow> numbered base j \<in> set titles)"
proof (induction base titles k rule: first_free.induct)
  case (1 base titles k)
  show ?case
  proof (cases "numbered base k \<in> set titles")
    case True
    then have eq: "first_free base titles k = first_free base titles (Suc k)"
      by (simp add: first_free.simps [of base titles k])
    have "numbered base j \<in> set titles" if "k \<le> j" "j < first_free base titles (Suc k)" for j
      using 1 [OF True] True that by (cases "j = k") auto
    with eq 1 [OF True] show ?thesis by auto
  qed (auto simp: first_free.simps [of base titles k])
qed

text \<open>
  C3: the loop that names a copy ends, and the name it finds is new among the titles and the
  first free one from \<open>-2\<close> on.
\<close>

theorem duplicate_title_is_first_free:
  "\<exists>k\<ge>2. getDuplicateTabTitle base titles = base @ ''-'' @ show_nat k
     \<and> getDuplicateTabTitle base titles \<notin> set titles
     \<and> (\<forall>j. 2 \<le> j \<and> j < k \<longrightarrow> base @ ''-'' @ show_nat j \<in> set titles)"
  using first_free_spec [of base titles 2]
  by (auto simp: getDuplicateTabTitle_def numbered_def)

theorem duplicate_title_is_first_free_witness:
  "getDuplicateTabTitle ''web'' [''web'', ''web-2''] \<notin> set [''web'', ''web-2'']"
  using duplicate_title_is_first_free [of "''web''" "[''web'', ''web-2'']"] by blast

end
