(* ===== verification/Group_Contract.thy ===== *)
theory Group_Contract
  imports Group_Moves
begin

text \<open>
  The contract of the operations that rearrange panes among the tabs of the bar
  (\<open>src/src/lib/tabGroups.ts\<close>): they keep groups well formed and neither lose nor
  double a pane. Focusing, zooming, placing, merging, breaking out, ungrouping and
  moving all keep it, in any order, and after any of them reconciling the
  groups with the tabs finds nothing to do.
\<close>

locale pane_rearrangement =
  fixes able :: "TabGroup list \<Rightarrow> bool" and move :: "TabGroup list \<Rightarrow> TabGroup list"
  assumes move_ok: "groups_ok gs \<Longrightarrow> groups_ok (move gs)"
    and move_panes: "groups_ok gs \<Longrightarrow> distinct (all_panes gs) \<Longrightarrow> able gs
      \<Longrightarrow> mset (all_panes (move gs)) = mset (all_panes gs)"
begin

lemma move_distinct:
  assumes "groups_ok gs" and "distinct (all_panes gs)" and "able gs"
  shows "distinct (all_panes (move gs))"
  using move_panes [OF assms] assms(2) by (metis mset_eq_imp_distinct_iff)

lemma move_set:
  assumes "groups_ok gs" and "distinct (all_panes gs)" and "able gs"
  shows "set (all_panes (move gs)) = set (all_panes gs)"
  using move_panes [OF assms] by (rule mset_eq_setD)

lemma move_settled:
  assumes "groups_ok gs" and "distinct (all_panes gs)" and "able gs" and "set (all_panes gs) = set tabIds"
  shows "reconcileGroups (move gs) tabIds n = (move gs, n)"
  using move_distinct [OF assms(1-3)] move_set [OF assms(1-3)] assms(4)
  by (simp add: all_panes_reconcileGroups_same)

end

lemma mset_put_beside:
  "mset (concat (map (put_beside d target new) xs)) = mset xs + repeat_mset (count_list xs target) (mset new)"
  by (induction xs) (auto simp: put_beside_def)

lemma count_list_distinct: "distinct xs \<Longrightarrow> x \<in> set xs \<Longrightarrow> count_list xs x = 1"
  by (induction xs) auto

lemma mset_taken_out:
  assumes "distinct xs" and "distinct ys" and "set ys \<subseteq> set xs"
  shows "mset (filter (\<lambda>x. x \<notin> set ys) xs) + mset ys = mset xs"
proof -
  have "mset (filter (\<lambda>x. x \<notin> set ys) xs @ ys) = mset xs"
    using assms by (subst set_eq_iff_mset_eq_distinct [symmetric]) auto
  then show ?thesis by simp
qed

lemma placePane_mset:
  assumes "groups_ok gs" and "distinct (all_panes gs)" and "i \<in> set (all_panes gs)"
  shows "mset (all_panes (placePane gs i target d)) = mset (all_panes gs)"
proof (cases "i = target \<or> target \<notin> set (all_panes gs)")
  case True
  then show ?thesis by (auto simp: placePane_def findGroupOfTab_None)
next
  case False
  let ?others = "filter (\<lambda>j. j \<noteq> i) (all_panes gs)"
  have "count_list ?others target = 1" using False assms(2) by (intro count_list_distinct) auto
  moreover have "mset ?others + {#i#} = mset (all_panes gs)"
    using mset_taken_out [OF assms(2), of "[i]"] assms(3) by simp
  ultimately show ?thesis
    using all_panes_placePane [OF assms(1,2), of i target d] False by (simp add: mset_put_beside)
qed

lemma mergeGroup_mset:
  assumes "groups_ok gs" and "distinct (all_panes gs)"
  shows "mset (all_panes (mergeGroup gs i target d)) = mset (all_panes gs)"
proof (cases rule: mergeGroup_cases [of gs i target d])
  case same
  then show ?thesis by simp
next
  case (merged s t)
  let ?src = "group_panes (gs ! s)"
  let ?others = "filter (\<lambda>j. j \<notin> set ?src) (all_panes gs)"
  note at_s = group_index_SomeD [OF merged(1)] and at_t = group_index_SomeD [OF merged(2)]
  have "target \<notin> set ?src"
    using distinct_all_panes_nth [OF assms(2)] at_s(1) at_t merged(3) by blast
  moreover have "target \<in> set (all_panes gs)" using nth_mem [OF at_t(1)] at_t(2) by (auto simp: in_all_panes)
  ultimately have "count_list ?others target = 1"
    using assms(2) by (intro count_list_distinct) auto
  moreover have "mset ?others + mset ?src = mset (all_panes gs)"
  proof (rule mset_taken_out [OF assms(2)])
    show "distinct ?src" using distinct_group_panes [OF assms(2)] at_s(1) by simp
    show "set ?src \<subseteq> set (all_panes gs)"
      using nth_mem [OF at_s(1)] by (auto simp: in_all_panes)
  qed
  ultimately show ?thesis
    using all_panes_mergeGroup [OF assms(2) merged(1-3), of d] by (simp add: mset_put_beside)
qed

section \<open>The operations keep the contract\<close>

lemmas rearranged_ok = groups_ok_focusPaneInGroups groups_ok_toggleZoom groups_ok_placePane
  groups_ok_mergeGroup groups_ok_breakOutPane groups_ok_ungroupPanes groups_ok_moveGroup

interpretation focusing: pane_rearrangement "\<lambda>gs. True" "\<lambda>gs. focusPaneInGroups gs i" for i
  by unfold_locales (simp_all add: rearranged_ok)

interpretation zooming: pane_rearrangement "\<lambda>gs. True" "\<lambda>gs. toggleZoom gs i" for i
  by unfold_locales (simp_all add: rearranged_ok)

interpretation placing: pane_rearrangement "\<lambda>gs. i \<in> set (all_panes gs)" "\<lambda>gs. placePane gs i target d"
  for i target d
  by unfold_locales (simp_all add: rearranged_ok placePane_mset)

interpretation merging: pane_rearrangement "\<lambda>gs. True" "\<lambda>gs. mergeGroup gs i target d" for i target d
  by unfold_locales (simp_all add: rearranged_ok mergeGroup_mset)

interpretation breaking_out: pane_rearrangement "\<lambda>gs. True" "\<lambda>gs. breakOutPane gs i gid index"
  for i gid index
  by unfold_locales (simp_all add: rearranged_ok breakOutPane_panes)

interpretation ungrouping: pane_rearrangement "\<lambda>gs. True" "\<lambda>gs. fst (ungroupPanes gs i n)" for i n
  by unfold_locales (simp_all add: rearranged_ok)

lemma moveGroup_panes: "mset (all_panes (moveGroup gs a b)) = mset (all_panes gs)"
proof -
  have "mset (all_panes gs) = sum_mset (image_mset (\<lambda>g. mset (group_panes g)) (mset gs))" for gs
    by (induction gs) auto
  then show ?thesis by (simp only: mset_moveGroup)
qed

interpretation moving: pane_rearrangement "\<lambda>gs. True" "\<lambda>gs. moveGroup gs a b" for a b
  by unfold_locales (simp_all add: rearranged_ok moveGroup_panes)

text \<open>
  C4: dragging panes and tabs of the bar about never loses or doubles a pane: placing a pane
  beside another, merging a tab of the bar into another, breaking a pane out, ungrouping,
  zooming, focusing and moving in the bar all leave well-formed groups that hold the very panes
  they held before.
\<close>

theorem rearranging_keeps_panes:
  assumes "groups_ok gs" and "distinct (all_panes gs)" and "i \<in> set (all_panes gs)"
    and "gs' \<in> {placePane gs i target d, mergeGroup gs i target d, breakOutPane gs i gid index,
      fst (ungroupPanes gs i n), toggleZoom gs i, focusPaneInGroups gs i, moveGroup gs a b}"
  shows "groups_ok gs' \<and> mset (all_panes gs') = mset (all_panes gs)"
  using assms(4) placing.move_ok merging.move_ok breaking_out.move_ok ungrouping.move_ok zooming.move_ok
    focusing.move_ok moving.move_ok placing.move_panes [OF assms(1-3)] merging.move_panes [OF assms(1,2)]
    breaking_out.move_panes [OF assms(1,2)] ungrouping.move_panes [OF assms(1,2)]
    zooming.move_panes [OF assms(1,2)] focusing.move_panes [OF assms(1,2)]
    moving.move_panes [OF assms(1,2)] assms(1) by auto

theorem rearranging_keeps_panes_witness:
  "mset (all_panes (placePane [single_group ''g'' ''a'', single_group ''h'' ''b''] ''a'' ''b'' ToLeft))
    = mset [''a'', ''b'']"
proof -
  let ?gs = "[single_group ''g'' ''a'', single_group ''h'' ''b'']"
  have "groups_ok (placePane ?gs ''a'' ''b'' ToLeft)
      \<and> mset (all_panes (placePane ?gs ''a'' ''b'' ToLeft)) = mset (all_panes ?gs)"
    by (rule rearranging_keeps_panes [where i = "''a''" and target = "''b''" and d = ToLeft]) simp_all
  then show ?thesis by simp
qed

end
