(* ===== verification/Layout_Properties.thy ===== *)
theory Layout_Properties
  imports Pane_Templates Group_Contract Groups_Persistence
begin

text \<open>
  The properties of split trees, layout templates and the saved layout
  (\<open>src/src/lib/tabGroups.ts\<close>, \<open>src/src/lib/paneTemplates.ts\<close>,
  \<open>src/src/lib/tabGroupsPersistence.ts\<close>), each with a concrete case.
\<close>

section \<open>Concrete layouts\<close>

definition demo_tree :: PaneNode where
  "demo_tree = Split Horizontal [Pane ''a'', Split Vertical [Pane ''b'', Pane ''c''] [1/4, 3/4]] [1/2, 1/2]"

definition demo_bar :: "TabGroup list" where
  "demo_bar = [\<lparr>g_id = group_name 1, g_root = demo_tree, g_activeTabId = ''b'', g_zoomedTabId = Some ''b''\<rparr>,
     single_group (group_name 2) ''d'']"

lemma demo_tree_ok: "canonical demo_tree" "getPaneIds demo_tree = [''a'', ''b'', ''c'']"
  by (simp_all add: demo_tree_def shares_def)

lemma demo_bar_ok: "groups_ok demo_bar" "all_panes demo_bar = [''a'', ''b'', ''c'', ''d'']"
  using demo_tree_ok by (simp_all add: demo_bar_def group_ok_def)

section \<open>Split trees\<close>

text \<open>
  Normalising a split tree gives the canonical shape (every split has two children or more,
  none of its own direction, and shares that sum to one), keeps the panes in their order, and
  changes a tree it has normalised no further.
\<close>

lemma normalizePaneTree_correct:
  assumes "no_empty t"
  shows "canonical (normalizePaneTree t) \<and> getPaneIds (normalizePaneTree t) = getPaneIds t
    \<and> normalizePaneTree (normalizePaneTree t) = normalizePaneTree t"
  using assms by (simp add: canonical_normalizePaneTree)

lemma normalizePaneTree_correct_witness:
  "getPaneIds (normalizePaneTree (Split Horizontal [Split Horizontal [Pane ''a'', Pane ''b''] [], Pane ''c''] [2]))
    = [''a'', ''b'', ''c'']"
  using normalizePaneTree_correct [of "Split Horizontal [Split Horizontal [Pane ''a'', Pane ''b''] [], Pane ''c''] [2]"]
  by simp

text \<open>
  Inserting a tree beside a pane puts its panes right before or after that pane, leaves
  every other pane in its place, and gives a canonical tree.
\<close>

lemma insertNextTo_beside:
  assumes "canonical t" and "canonical inserted" and "getPaneIds t = before @ target # after"
    and "distinct (getPaneIds t)"
  shows "canonical (insertNextTo t target inserted direction)
    \<and> getPaneIds (insertNextTo t target inserted direction)
      = before @ (if direction = ToLeft \<or> direction = ToAbove then getPaneIds inserted @ [target]
                  else target # getPaneIds inserted) @ after"
proof -
  have "target \<notin> set before" "target \<notin> set after" using assms(3,4) by simp_all
  then have "concat (map (put_beside direction target (getPaneIds inserted)) (getPaneIds t))
      = before @ (if direction = ToLeft \<or> direction = ToAbove then getPaneIds inserted @ [target]
                  else target # getPaneIds inserted) @ after"
    unfolding assms(3) by (simp add: put_beside_other) (simp add: put_beside_def is_before_def)
  then show ?thesis
    using assms by (simp add: getPaneIds_insertNextTo canonical_insertNextTo canonical_no_empty)
qed

lemma insertNextTo_beside_witness:
  "getPaneIds (insertNextTo demo_tree ''b'' (Pane ''x'') ToAbove) = [''a'', ''x'', ''b'', ''c'']"
  using insertNextTo_beside [OF demo_tree_ok(1), of "Pane ''x''" "[''a'']" "''b''" "[''c'']" ToAbove]
  by (simp add: demo_tree_ok)

text \<open>
  Removing panes keeps the others in order in a canonical tree, and yields no tree exactly
  when no pane is left.
\<close>

lemma removePanes_correct:
  assumes "canonical t"
  shows "case removePanes t ids of
      None \<Rightarrow> set (getPaneIds t) \<subseteq> ids
    | Some t' \<Rightarrow> canonical t' \<and> getPaneIds t' = filter (\<lambda>i. i \<notin> ids) (getPaneIds t) \<and> getPaneIds t' \<noteq> []"
proof (cases "removePanes t ids")
  case None
  with removePanes_None [OF canonical_no_empty [OF assms], of ids] show ?thesis by simp
next
  case (Some t')
  from removePanes_Some [OF canonical_no_empty [OF assms] Some] canonical_panes [of t'] Some
  show ?thesis by (simp add: filter_empty_conv)
qed

lemma removePanes_correct_witness:
  "\<exists>t'. removePanes demo_tree {''a''} = Some t' \<and> getPaneIds t' = [''b'', ''c'']"
  using removePanes_correct [OF demo_tree_ok(1), of "{''a''}"]
  by (cases "removePanes demo_tree {''a''}") (auto simp: demo_tree_ok)

section \<open>Layout templates\<close>

text \<open>
  A template read from a saved value, whatever it holds, is a split of at most nine
  panes nested at most four deep, every split in it has two parts or more, and the shares of each
  sum to one.
\<close>

lemma normalizeLayoutShape_within_bounds:
  assumes "normalizeLayoutShape value = Some shape"
  shows "shape_ok shape \<and> shape_depth shape \<le> 4 \<and> 2 \<le> countTemplatePanes shape \<and> countTemplatePanes shape \<le> 9"
proof -
  note bounds = normalizeLayoutShape_bounds [OF assms]
  obtain ori cs ss where shape: "shape = ShapeSplit ori cs ss" using bounds(4) by (cases shape) auto
  have "length cs \<le> sum_list (map countTemplatePanes cs)" if "\<forall>c\<in>set cs. 1 \<le> countTemplatePanes c" for cs
    using that by (induction cs) fastforce+
  moreover have "\<forall>c\<in>set cs. 1 \<le> countTemplatePanes c" using bounds(1) shape shape_ok_panes by simp
  ultimately have "length cs \<le> sum_list (map countTemplatePanes cs)" by blast
  with bounds shape show ?thesis by (simp add: MAX_TEMPLATE_DEPTH_def MAX_TEMPLATE_PANES_def)
qed

lemma normalizeLayoutShape_within_bounds_witness:
  "\<exists>shape. normalizeLayoutShape (JObj [(''type'', JStr ''split''), (''orientation'', JStr ''vertical''),
      (''children'', JArr [JObj [(''type'', JStr ''pane'')], JObj [(''type'', JStr ''pane'')]])]) = Some shape
    \<and> countTemplatePanes shape \<le> 9"
proof -
  let ?v = "JObj [(''type'', JStr ''split''), (''orientation'', JStr ''vertical''),
      (''children'', JArr [JObj [(''type'', JStr ''pane'')], JObj [(''type'', JStr ''pane'')]])]"
  have "normalizeLayoutShape ?v = Some (ShapeSplit Vertical [ShapePane, ShapePane] [1/2, 1/2])"
    by (simp add: normalizeLayoutShape_def readShape.simps read_orientation_def array_field_def
        read_shares_def MAX_TEMPLATE_DEPTH_def MAX_TEMPLATE_PANES_def nth_opt_def upt_rec)
  with normalizeLayoutShape_within_bounds [OF this] show ?thesis by blast
qed

text \<open>
  Saving a layout as a template and applying it to the same panes gives the layout back.
\<close>

lemma template_roundtrip:
  assumes "canonical t"
  shows "fillShape (shapeOfTree t) (getPaneIds t) = t"
  using fill_shapeOfTree [of t "[]"] assms by (simp add: fillShape_def)

lemma template_roundtrip_witness: "fillShape (shapeOfTree demo_tree) [''a'', ''b'', ''c''] = demo_tree"
  using template_roundtrip [OF demo_tree_ok(1)] by (simp add: demo_tree_ok)

text \<open>
  Laying a tab of the bar out as a template keeps every pane of every tab of the bar and
  adds only as many of the new ones as the template has places left.
\<close>

lemma applying_template_keeps_panes:
  assumes "groups_ok gs" and "distinct (all_panes gs)" and "shape_ok shape"
    and "findGroupOfTab gs i = Some g" and "applyTemplateToGroups gs i shape new n = Some (gs', n')"
  shows "groups_ok gs' \<and> mset (all_panes gs') = mset (all_panes gs)
    + mset (take (countTemplatePanes shape - length (getPaneIds (g_root g))) new)"
proof -
  from assms(4) obtain k where "group_index gs i = Some k" "gs ! k = g"
    by (auto simp: findGroupOfTab_index)
  with all_panes_applyTemplateToGroups [OF assms(2,5)] groups_ok_applyTemplateToGroups [OF assms(1-3,5)]
  show ?thesis by simp
qed

lemma applying_template_keeps_panes_witness:
  "\<exists>gs' n'. applyTemplateToGroups demo_bar ''d'' (ShapeSplit Vertical [ShapePane, ShapePane] [1/2, 1/2]) [''e''] 2
      = Some (gs', n') \<and> mset (all_panes gs') = mset [''a'', ''b'', ''c'', ''d'', ''e'']"
proof -
  let ?shape = "ShapeSplit Vertical [ShapePane, ShapePane] [1/2, 1/2]"
  have found: "findGroupOfTab demo_bar ''d'' = Some (single_group (group_name 2) ''d'')"
    by (simp add: demo_bar_def demo_tree_def findGroupOfTab_def)
  have "applyTemplateToGroups demo_bar ''d'' ?shape [''e''] 2 \<noteq> None"
    by (simp add: demo_bar_def demo_tree_def applyTemplateToGroups_def group_index_def kept_panes_def Let_def)
  then obtain gs' n' where applied: "applyTemplateToGroups demo_bar ''d'' ?shape [''e''] 2 = Some (gs', n')"
    by auto
  have "distinct (all_panes demo_bar)" "shape_ok ?shape" using demo_bar_ok by (simp_all add: shares_def)
  from applying_template_keeps_panes [OF demo_bar_ok(1) this found applied] applied demo_bar_ok(2)
  show ?thesis by auto
qed

section \<open>The saved layout\<close>

text \<open>
  C5: what \<open>serializeTabGroups\<close> writes to the session file, \<open>restoreTabGroups\<close> reads back as it
  is, whatever panes were left out of the save, as long as the saved tabs are restored with it.
\<close>

theorem restore_serialized:
  assumes "groups_ok gs" and "distinct (all_panes gs)"
    and "\<forall>i\<in>set (all_panes gs). i \<in> saved \<longrightarrow> i \<in> set tabIds"
  shows "restoreTabGroups (layout_json (serializeTabGroups gs saved)) tabIds = serializeTabGroups gs saved"
  using serializeTabGroups_spec [OF assms(1), of saved] assms(2,3)
  by (intro restore_layout_json) auto

theorem restore_serialized_witness:
  "restoreTabGroups (layout_json (serializeTabGroups demo_bar {''a'', ''b'', ''d''})) [''d'', ''b'', ''a'']
    = serializeTabGroups demo_bar {''a'', ''b'', ''d''}"
  by (rule restore_serialized [OF demo_bar_ok(1)]) (simp_all add: demo_bar_ok(2))

text \<open>
  C6: whatever the layout of the session file holds, in the current format or the one
  Dockview saved, hand-edited or not, every restored tab of the bar is a canonical tree of restored
  tabs with its active and zoomed pane among them, and no tab is in two of them.
\<close>

theorem restored_groups_ok:
  "(\<forall>g\<in>set (restoreTabGroups layout tabIds).
      canonical (sg_root g) \<and> set (getPaneIds (sg_root g)) \<subseteq> set tabIds
      \<and> sg_activeTabId g \<in> set (getPaneIds (sg_root g))
      \<and> set_option (sg_zoomedTabId g) \<subseteq> set (getPaneIds (sg_root g)))
   \<and> (\<forall>i. length (filter (\<lambda>g. i \<in> set (getPaneIds (sg_root g))) (restoreTabGroups layout tabIds)) \<le> 1)"
proof -
  let ?gs = "restoreTabGroups layout tabIds"
  note ok = restorable_restoreTabGroups [of tabIds layout, unfolded restorable_def]
  have "length (filter (\<lambda>g. i \<in> set (sg_panes g)) ?gs) \<le> 1" for i
  proof (cases "i \<in> set tabIds")
    case False
    with ok have "filter (\<lambda>g. i \<in> set (sg_panes g)) ?gs = []" by (auto simp: filter_empty_conv)
    then show ?thesis by simp
  qed (use ok in blast)
  with ok show ?thesis by (auto simp: saved_ok_def)
qed

theorem restored_groups_ok_witness:
  "list_all (\<lambda>g. sg_activeTabId g \<in> set (getPaneIds (sg_root g)))
    (restoreTabGroups (layout_json [\<lparr>sg_root = Split Vertical [Pane ''a'', Pane ''x''] [1],
      sg_activeTabId = ''x'', sg_zoomedTabId = None\<rparr>]) [''a''])"
  using restored_groups_ok [of "layout_json [\<lparr>sg_root = Split Vertical [Pane ''a'', Pane ''x''] [1],
      sg_activeTabId = ''x'', sg_zoomedTabId = None\<rparr>]" "[''a'']"] unfolding list_all_iff by blast

end
