(* ===== verification/Session_Persistence.thy ===== *)
theory Session_Persistence
  imports Tabs_Properties
begin

text \<open>
  Saving and loading the session (\<open>src/src/hooks/useSessionPersistence.ts\<close>): which
  tabs are saved, with which of their secrets, which one comes back active, and
  the debounced save with what it remembers between calls. A session is the
  object handed to the backend's \<open>save_session\<close> and answered by \<open>load_session\<close>;
  the backend's own clean-up of what it stores is not part of the model.
\<close>

section \<open>What is saved\<close>

record SessionData =
  sd_tabs :: "Tab list"
  sd_activeTabId :: "string option"
  sd_layout :: "json option"
  sd_lastSaved :: nat

definition getPersistableTabs :: "Tab list \<Rightarrow> Tab list" where
  "getPersistableTabs tabs = filter (\<lambda>tab. \<not> isPageTab tab \<and> t_type tab \<noteq> TyRemoteFileEditor) tabs"

definition getPersistedActiveTabId :: "Tab list \<Rightarrow> string option \<Rightarrow> string option \<Rightarrow> string option" where
  "getPersistedActiveTabId tabs activeTabId fallbackActiveTabId =
     (if truthy activeTabId \<and> (\<exists>tab\<in>set tabs. Some (t_id tab) = activeTabId) then activeTabId
      else if truthy fallbackActiveTabId \<and> (\<exists>tab\<in>set tabs. Some (t_id tab) = fallbackActiveTabId)
      then fallbackActiveTabId
      else map_option t_id (nth_opt tabs 0))"

definition sanitizeConnection :: "Connection \<Rightarrow> Connection" where
  "sanitizeConnection connection = connection
     \<lparr>c_password := None, c_privateKeyPassphrase := None,
      c_jumpHosts := map_option (map (\<lambda>jump. jump\<lparr>j_password := None\<rparr>)) (c_jumpHosts connection)\<rparr>"

definition sanitizeTabForPersistence :: "Tab \<Rightarrow> string option \<Rightarrow> Tab" where
  "sanitizeTabForPersistence tab activeTabId = tab
     \<lparr>t_isActive := (Some (t_id tab) = activeTabId),
      t_hasConnected := Some (Some (t_id tab) = activeTabId),
      t_sessionNonce := Some 0,
      t_connectionHeaderPinned := Some (or_default (t_connectionHeaderPinned tab) True),
      t_connection := map_option sanitizeConnection (t_connection tab)\<rparr>"

definition saveSession :: "Tab list \<Rightarrow> string option \<Rightarrow> TabGroup list \<Rightarrow> string option \<Rightarrow> nat \<Rightarrow> SessionData" where
  "saveSession tabs activeTabId groups fallbackActiveTabId now =
     (let persistable = getPersistableTabs tabs;
          active = getPersistedActiveTabId persistable activeTabId fallbackActiveTabId
      in \<lparr>sd_tabs = map (\<lambda>tab. sanitizeTabForPersistence tab active) persistable,
          sd_activeTabId = active,
          sd_layout = Some (layout_json (serializeTabGroups groups (set (map t_id persistable)))),
          sd_lastSaved = now\<rparr>)"

text \<open>\<open>None\<close> is a call that failed, and then no session.\<close>

definition loadSession :: "SessionData option \<Rightarrow> SessionData option" where
  "loadSession result = map_option (\<lambda>session.
     let persistable = getPersistableTabs (sd_tabs session);
         active = getPersistedActiveTabId persistable (sd_activeTabId session) None
     in session\<lparr>sd_tabs := map (\<lambda>tab. sanitizeTabForPersistence tab active) persistable,
                sd_activeTabId := active\<rparr>) result"

section \<open>The debounced save\<close>

definition SAVE_DEBOUNCE_MS :: nat where "SAVE_DEBOUNCE_MS = 1000"
definition SAVE_ERROR_TOAST_COOLDOWN_MS :: int where "SAVE_ERROR_TOAST_COOLDOWN_MS = 30000"

record SaveTimer =
  st_lastActiveContentTabId :: "string option"
  st_pending :: "(Tab list \<times> string option \<times> TabGroup list) option"
  st_due :: nat

definition debouncedSave ::
  "SaveTimer \<Rightarrow> nat \<Rightarrow> Tab list \<Rightarrow> string option \<Rightarrow> TabGroup list \<Rightarrow> SaveTimer" where
  "debouncedSave st now tabs activeTabId groups =
     st\<lparr>st_lastActiveContentTabId :=
           (case find (\<lambda>tab. Some (t_id tab) = activeTabId \<and> \<not> isPageTab tab) tabs of
              Some tab \<Rightarrow> Some (t_id tab) | None \<Rightarrow> st_lastActiveContentTabId st),
        st_pending := Some (tabs, activeTabId, groups),
        st_due := now + SAVE_DEBOUNCE_MS\<rparr>"

text \<open>The timer going off, if it is due: the session saved, and the timer idle.\<close>

definition save_timer_fires :: "SaveTimer \<Rightarrow> nat \<Rightarrow> SaveTimer \<times> SessionData option" where
  "save_timer_fires st now =
     (case st_pending st of
        None \<Rightarrow> (st, None)
      | Some (tabs, activeTabId, groups) \<Rightarrow>
          (if now < st_due st then (st, None)
           else (st\<lparr>st_pending := None\<rparr>,
                 Some (saveSession tabs activeTabId groups (st_lastActiveContentTabId st) now))))"

text \<open>A failed save: whether to show it, with when one was shown last.\<close>

definition reportSessionSaveError :: "int \<Rightarrow> int \<Rightarrow> bool \<times> int" where
  "reportSessionSaveError lastShownAt now =
     (let showToast = (SAVE_ERROR_TOAST_COOLDOWN_MS \<le> now - lastShownAt)
      in (showToast, if showToast then now else lastShownAt))"

section \<open>Lemmas\<close>

lemma sanitize_sel [simp]:
  "t_id (sanitizeTabForPersistence tab active) = t_id tab"
  "t_type (sanitizeTabForPersistence tab active) = t_type tab"
  by (simp_all add: sanitizeTabForPersistence_def)

lemma isPageTab_sanitize [simp]: "isPageTab (sanitizeTabForPersistence tab active) = isPageTab tab"
  by (simp add: isPageTab_def)

lemma sanitizeConnection_idem [simp]: "sanitizeConnection (sanitizeConnection c) = sanitizeConnection c"
  by (cases "c_jumpHosts c") (simp_all add: sanitizeConnection_def)

lemma sanitize_idem [simp]:
  "sanitizeTabForPersistence (sanitizeTabForPersistence tab active) active = sanitizeTabForPersistence tab active"
  by (simp add: sanitizeTabForPersistence_def option.map_comp comp_def)

lemma persistable_sanitized [simp]:
  "getPersistableTabs (map (\<lambda>tab. sanitizeTabForPersistence tab active) (getPersistableTabs tabs))
    = map (\<lambda>tab. sanitizeTabForPersistence tab active) (getPersistableTabs tabs)"
  by (simp add: getPersistableTabs_def filter_map comp_def)

lemma persisted_active:
  "set_option (getPersistedActiveTabId tabs active fallback) \<subseteq> set (map t_id tabs)"
  "getPersistedActiveTabId tabs active fallback = None \<longleftrightarrow> tabs = []"
  by (auto simp: getPersistedActiveTabId_def truthy_iff nth_opt_def)

lemma persisted_active_again:
  assumes "map t_id tabs = map t_id tabs'" and "[] \<notin> set (map t_id tabs)"
  shows "getPersistedActiveTabId tabs' (getPersistedActiveTabId tabs active fallback) None
    = getPersistedActiveTabId tabs active fallback"
proof (cases "getPersistedActiveTabId tabs active fallback")
  case None
  with assms(1) have "tabs' = []" by (simp add: persisted_active(2))
  with None show ?thesis by (simp add: getPersistedActiveTabId_def nth_opt_def)
next
  case (Some a)
  with persisted_active(1) [of tabs active fallback] have a: "a \<in> set (map t_id tabs)" by simp
  then have "a \<noteq> []" "a \<in> set (map t_id tabs')" using assms by (metis, simp)
  then show ?thesis using Some by (auto simp: getPersistedActiveTabId_def truthy_iff)
qed

lemma load_saved:
  assumes "[] \<notin> set (map t_id tabs)"
  shows "loadSession (Some (saveSession tabs active groups fallback now))
    = Some (saveSession tabs active groups fallback now)"
proof -
  let ?kept = "getPersistableTabs tabs"
  let ?active = "getPersistedActiveTabId ?kept active fallback"
  have "[] \<notin> set (map t_id ?kept)" using assms by (auto simp: getPersistableTabs_def)
  then have "getPersistedActiveTabId (map (\<lambda>tab. sanitizeTabForPersistence tab ?active) ?kept) ?active None = ?active"
    by (intro persisted_active_again) (simp_all add: comp_def)
  then show ?thesis by (simp add: loadSession_def saveSession_def Let_def)
qed

section \<open>A restart\<close>

lemma persistable_ids:
  assumes "distinct (map t_id tabs)"
  shows "map t_id (getPersistableTabs tabs)
    = filter (\<lambda>i. i \<in> set (map t_id (getPersistableTabs tabs))) (map t_id tabs)"
proof -
  have eq: "(t_id t \<in> set (map t_id (getPersistableTabs tabs))) = (\<not> isPageTab t \<and> t_type t \<noteq> TyRemoteFileEditor)"
    if "t \<in> set tabs" for t
  proof
    assume "t_id t \<in> set (map t_id (getPersistableTabs tabs))"
    then obtain u where "u \<in> set (getPersistableTabs tabs)" "t_id u = t_id t" by auto
    moreover from this assms that have "u = t"
      by (auto simp: getPersistableTabs_def distinct_map dest: inj_onD)
    ultimately show "\<not> isPageTab t \<and> t_type t \<noteq> TyRemoteFileEditor" by (simp add: getPersistableTabs_def)
  qed (use that in \<open>auto simp: getPersistableTabs_def\<close>)
  have "filter (\<lambda>i. i \<in> set (map t_id (getPersistableTabs tabs))) (map t_id tabs)
      = map t_id (filter (\<lambda>t. t_id t \<in> set (map t_id (getPersistableTabs tabs))) tabs)"
    by (simp add: filter_map comp_def del: set_map)
  also have "\<dots> = map t_id (getPersistableTabs tabs)"
    unfolding getPersistableTabs_def [of tabs]
    by (rule arg_cong [where f = "map t_id"], rule filter_cong [OF refl])
      (rule eq [unfolded getPersistableTabs_def])
  finally show ?thesis by simp
qed

lemma roots_of_restored:
  "map g_root (map2 restored_group [0..<length saved] saved) = map sg_root saved"
  "all_panes (map2 restored_group [0..<length saved] saved) = saved_panes saved"
proof -
  have *: "map g_root (map2 restored_group ks gs) = map sg_root gs
      \<and> all_panes (map2 restored_group ks gs) = saved_panes gs" if "length ks = length gs" for ks gs
    using that by (induction ks gs rule: list_induct2) (simp_all add: restored_group_def)
  show "map g_root (map2 restored_group [0..<length saved] saved) = map sg_root saved"
    "all_panes (map2 restored_group [0..<length saved] saved) = saved_panes saved"
    using * [of "[0..<length saved]" saved] by simp_all
qed

lemma focus_roots: "map g_root (focusPaneInGroups gs i) = map g_root gs"
  by (auto simp: focusPaneInGroups_def Let_def map_update_id dest: group_index_SomeD(1) split: option.splits)

lemma settle_in_order:
  assumes "all_panes (s_groups s) = map t_id (s_tabs s)" and "distinct (map t_id (s_tabs s))"
  shows "map g_root (s_groups (fst (settleGroups s))) = map g_root (s_groups s)"
    and "s_tabs (fst (settleGroups s)) = s_tabs s"
proof -
  have "reconcileGroups (s_groups s) (map t_id (s_tabs s)) (s_groupCount s) = (s_groups s, s_groupCount s)"
    using assms by (simp add: all_panes_reconcileGroups_same)
  moreover have "in_order (all_panes (s_groups s)) (s_tabs s)" using assms(1) by (intro in_order_self) simp
  ultimately show "map g_root (s_groups (fst (settleGroups s))) = map g_root (s_groups s)"
    and "s_tabs (fst (settleGroups s)) = s_tabs s"
    by (simp_all add: settleGroups_def Let_def focus_roots)
qed

lemma restore_saved:
  assumes "state_ok s"
    and saved: "d = saveSession (s_tabs s) (s_activeTabId s) (s_groups s) fallback now"
  shows "action_ok s0 (Restore (sd_tabs d) (sd_activeTabId d) (sd_layout d))"
    and "map t_id (s_tabs (tabsReducer home s0 (Restore (sd_tabs d) (sd_activeTabId d) (sd_layout d))))
      = map t_id (getPersistableTabs (s_tabs s))"
    and "map g_root (s_groups (tabsReducer home s0 (Restore (sd_tabs d) (sd_activeTabId d) (sd_layout d))))
      = map sg_root (serializeTabGroups (s_groups s) (set (map t_id (getPersistableTabs (s_tabs s)))))"
proof -
  let ?kept = "getPersistableTabs (s_tabs s)"
  let ?ids = "map t_id ?kept"
  let ?active = "getPersistedActiveTabId ?kept (s_activeTabId s) fallback"
  let ?saved = "serializeTabGroups (s_groups s) (set ?ids)"
  let ?a = "Restore (sd_tabs d) (sd_activeTabId d) (sd_layout d)"
  note u = unsettled_okD [OF state_okD(1) [OF assms(1)]]
  have ids: "distinct (map t_id (s_tabs s))" "[] \<notin> set (map t_id (s_tabs s))" using u(1) by (simp_all add: tabs_ok_def)
  have d: "map t_id (sd_tabs d) = ?ids" "sd_activeTabId d = ?active" "sd_layout d = Some (layout_json ?saved)"
    by (simp_all add: saved saveSession_def Let_def comp_def)
  have kept: "distinct ?ids" "[] \<notin> set ?ids"
    using ids by (auto simp: getPersistableTabs_def distinct_map_filter)
  show ok: "action_ok s0 ?a"
    unfolding action_ok.simps d using kept persisted_active(1) by blast
  have spec: "\<forall>g\<in>set ?saved. saved_ok g" "saved_panes ?saved = ?ids"
    using serializeTabGroups_spec [OF u(2), of "set ?ids"] persistable_ids [OF ids(1)] state_okD(2) [OF assms(1)]
    by (simp_all del: set_map)
  have restored: "restoreTabGroups (layout_json ?saved) ?ids = ?saved"
    using spec kept(1) by (intro restore_layout_json) simp_all
  let ?applied = "fst (applyTabsAction s0 ?a)"
  have applied: "map t_id (s_tabs ?applied) = ?ids" "s_groups ?applied = map2 restored_group [0..<length ?saved] ?saved"
    using d restored by (simp_all add: Let_def comp_def)
  then have "all_panes (s_groups ?applied) = map t_id (s_tabs ?applied)" "distinct (map t_id (s_tabs ?applied))"
    using roots_of_restored(2) [of ?saved] spec(2) kept(1) by simp_all
  note settled = settle_in_order [OF this]
  show "map t_id (s_tabs (tabsReducer home s0 ?a)) = ?ids"
    using settled(2) applied(1) by (simp add: tabsReducer_def case_prod_beta)
  show "map g_root (s_groups (tabsReducer home s0 ?a)) = map sg_root ?saved"
    using settled(1) applied(2) roots_of_restored(1) [of ?saved] by (simp add: tabsReducer_def case_prod_beta)
qed

section \<open>Properties\<close>


lemma initial_state_ok: "state_ok initial_state"
  using hook_ok_initial by (simp add: hook_ok_def initial_hook_def)



definition demo_jump :: JumpHostConnection where
  "demo_jump = \<lparr>j_host = ''bastion'', j_port = 22, j_username = ''me'', j_authMethod = AuthKey,
     j_password = Some ''secret'', j_privateKeyPath = Some ''id'', j_privateKeyPassphrase = Some ''phrase'',
     j_certificatePath = None, j_profileId = None\<rparr>"

definition demo_ssh :: Tab where
  "demo_ssh = (make_tab ''a'' ''web'' TySsh True)\<lparr>t_connection := Some (empty_connection
     \<lparr>c_password := Some ''secret'', c_jumpHosts := Some [demo_jump]\<rparr>)\<rparr>"

lemma demo_ssh_saved:
  "sd_tabs (saveSession [demo_ssh] (Some ''a'') [] None 0) = [sanitizeTabForPersistence demo_ssh (Some ''a'')]"
  by (simp add: saveSession_def getPersistableTabs_def demo_ssh_def isPageTab_def getPersistedActiveTabId_def Let_def)



end
