(* ===== verification/Pane_Layout.thy ===== *)
theory Pane_Layout
  imports Pane_Tree
begin

text \<open>
  Where panes and the dividers between them sit, and dragging a divider
  (\<open>src/src/lib/paneLayout.ts\<close>). Pixels are exact rationals; \<open>Math.round\<close> rounds
  halves up. The loop over a split's children is \<open>child_spans\<close>, which gives where
  each child starts and ends along the split, and \<open>place_children\<close>, which visits
  them in their boxes. A size past the end of a split's sizes, which would be
  \<open>undefined\<close>, reads as \<open>0\<close>; a canonical tree has none.
\<close>

section \<open>Boxes\<close>

record PaneBox =
  b_left :: rat
  b_top :: rat
  b_width :: rat
  b_height :: rat

record SashBox =
  sash_box :: PaneBox
  sash_path :: "nat list"
  sash_index :: nat
  sash_orientation :: SplitOrientation
  sash_room :: rat

record PaneMinimum =
  min_width :: rat
  min_height :: rat

definition box :: "rat \<Rightarrow> rat \<Rightarrow> rat \<Rightarrow> rat \<Rightarrow> PaneBox" where
  "box l t w h = \<lparr>b_left = l, b_top = t, b_width = w, b_height = h\<rparr>"

definition along :: "SplitOrientation \<Rightarrow> PaneBox \<Rightarrow> rat" where
  "along ori b = (if ori = Horizontal then b_width b else b_height b)"

definition round_half_up :: "rat \<Rightarrow> rat" where
  "round_half_up x = of_int \<lfloor>x + 1/2\<rfloor>"

section \<open>Laying out\<close>

text \<open>Where each child starts and ends, from child \<open>index\<close> on.\<close>

fun child_spans :: "rat \<Rightarrow> rat \<Rightarrow> rat \<Rightarrow> rat \<Rightarrow> nat \<Rightarrow> rat \<Rightarrow> rat \<Rightarrow> rat list \<Rightarrow> (rat \<times> rat) list" where
  "child_spans start extent room gap index share edge [] = []"
| "child_spans start extent room gap index share edge (s # ss) =
     (let share' = share + s;
          end_at = (if ss = [] then start + extent
                    else round_half_up (start + room * share' + gap * of_nat index))
      in (edge, end_at) # child_spans start extent room gap (Suc index) share' (end_at + gap) ss)"

definition split_room :: "SplitOrientation \<Rightarrow> PaneBox \<Rightarrow> rat \<Rightarrow> nat \<Rightarrow> rat" where
  "split_room ori area gap n = max 0 (along ori area - gap * (of_nat n - 1))"

definition spans_of :: "SplitOrientation \<Rightarrow> PaneBox \<Rightarrow> rat \<Rightarrow> PaneNode list \<Rightarrow> rat list \<Rightarrow> (rat \<times> rat) list" where
  "spans_of ori area gap cs ss =
     (let start = (if ori = Horizontal then b_left area else b_top area)
      in child_spans start (along ori area) (split_room ori area gap (length cs)) gap 0 0 start
           (map (size_at ss) [0..<length cs]))"

definition child_area :: "SplitOrientation \<Rightarrow> PaneBox \<Rightarrow> rat \<times> rat \<Rightarrow> PaneBox" where
  "child_area ori area sp =
     (if ori = Horizontal then box (fst sp) (b_top area) (snd sp - fst sp) (b_height area)
      else box (b_left area) (fst sp) (b_width area) (snd sp - fst sp))"

definition sash_after :: "SplitOrientation \<Rightarrow> PaneBox \<Rightarrow> rat \<Rightarrow> rat \<Rightarrow> nat list \<Rightarrow> nat \<Rightarrow> rat \<times> rat \<Rightarrow> SashBox" where
  "sash_after ori area gap room path index sp =
     \<lparr>sash_box = (if ori = Horizontal then box (snd sp) (b_top area) gap (b_height area)
                  else box (b_left area) (snd sp) (b_width area) gap),
      sash_path = path, sash_index = index, sash_orientation = ori, sash_room = room\<rparr>"

text \<open>The panes with their boxes and the dividers, in the order they are met.\<close>

fun place_node :: "rat \<Rightarrow> PaneNode \<Rightarrow> PaneBox \<Rightarrow> nat list \<Rightarrow> (string \<times> PaneBox) list \<times> SashBox list"
and place_children :: "rat \<Rightarrow> SplitOrientation \<Rightarrow> PaneBox \<Rightarrow> rat \<Rightarrow> nat list \<Rightarrow> nat \<Rightarrow> PaneNode list
    \<Rightarrow> (rat \<times> rat) list \<Rightarrow> (string \<times> PaneBox) list \<times> SashBox list" where
  "place_node gap (Pane i) area path = ([(i, area)], [])"
| "place_node gap (Split ori cs ss) area path =
     place_children gap ori area (split_room ori area gap (length cs)) path 0 cs (spans_of ori area gap cs ss)"
| "place_children gap ori area room path index [] spans = ([], [])"
| "place_children gap ori area room path index (c # cs) spans =
     (case place_node gap c (child_area ori area (hd spans)) (path @ [index]) of
        (panes, sashes) \<Rightarrow>
          (case place_children gap ori area room path (Suc index) cs (tl spans) of
             (panes', sashes') \<Rightarrow>
               (panes @ panes',
                sashes @ (if cs = [] then [] else [sash_after ori area gap room path index (hd spans)]) @ sashes')))"

definition layoutPaneTree :: "PaneNode \<Rightarrow> PaneBox \<Rightarrow> rat \<Rightarrow> (string \<times> PaneBox) list \<times> SashBox list" where
  "layoutPaneTree tree area gap = place_node gap tree area []"

fun minimumExtent :: "PaneNode \<Rightarrow> SplitOrientation \<Rightarrow> PaneMinimum \<Rightarrow> rat \<Rightarrow> rat" where
  "minimumExtent (Pane i) ori minimum gap = (if ori = Horizontal then min_width minimum else min_height minimum)"
| "minimumExtent (Split ori' cs ss) ori minimum gap =
     (let extents = map (\<lambda>c. minimumExtent c ori minimum gap) cs
      in if ori' = ori then sum_list extents + gap * (of_nat (length cs) - 1)
         else Max (set extents))"

definition dragSash :: "rat list \<Rightarrow> nat \<Rightarrow> rat \<Rightarrow> rat \<Rightarrow> rat list \<Rightarrow> rat list" where
  "dragSash sizes index delta room minimums =
     (if room \<le> 0 \<or> length sizes \<le> index + 1 then sizes
      else let before = sizes ! index * room;
               after = sizes ! (index + 1) * room;
               lowest = - max 0 (before - size_at minimums index);
               highest = max 0 (after - size_at minimums (index + 1));
               moved = min (max delta lowest) highest
           in sizes[index := (before + moved) / room, index + 1 := (after - moved) / room])"

fun getSplitAt :: "PaneNode \<Rightarrow> nat list \<Rightarrow> PaneNode option" where
  "getSplitAt (Pane i) path = None"
| "getSplitAt (Split ori cs ss) [] = Some (Split ori cs ss)"
| "getSplitAt (Split ori cs ss) (index # path) =
     (if index < length cs then getSplitAt (cs ! index) path else None)"

section \<open>Spans tile the split\<close>

fun span_total :: "(rat \<times> rat) list \<Rightarrow> rat" where
  "span_total [] = 0"
| "span_total (sp # spans) = snd sp - fst sp + span_total spans"

lemma length_child_spans [simp]:
  "length (child_spans start extent room gap index share edge ss) = length ss"
  by (induction ss arbitrary: index share edge) (auto simp: Let_def)

lemma child_spans_total:
  assumes "ss \<noteq> []"
  shows "span_total (child_spans start extent room gap index share edge ss)
      + gap * (of_nat (length ss) - 1) = start + extent - edge"
  using assms
proof (induction ss arbitrary: index share edge)
  case (Cons s ss)
  show ?case
  proof (cases "ss = []")
    case False
    let ?e = "round_half_up (start + room * (share + s) + gap * of_nat index)"
    from Cons.IH [OF False, of "Suc index" "share + s" "?e + gap"] False
    show ?thesis by (simp add: Let_def) (simp add: algebra_simps)
  qed (simp add: Let_def)
qed simp

lemma child_spans_edges:
  assumes "ss \<noteq> []" and spans: "spans = child_spans start extent room gap index share edge ss"
  shows "fst (hd spans) = edge" and "snd (last spans) = start + extent"
    and "Suc k < length ss \<Longrightarrow> fst (spans ! Suc k) = snd (spans ! k) + gap"
proof -
  have "fst (hd (child_spans start extent room gap index share edge ss)) = edge
      \<and> snd (last (child_spans start extent room gap index share edge ss)) = start + extent
      \<and> (\<forall>k. Suc k < length ss \<longrightarrow> fst (child_spans start extent room gap index share edge ss ! Suc k)
          = snd (child_spans start extent room gap index share edge ss ! k) + gap)"
    using assms(1)
  proof (induction ss arbitrary: index share edge)
    case (Cons s ss)
    show ?case
    proof (cases "ss = []")
      case False
      let ?e = "round_half_up (start + room * (share + s) + gap * of_nat index)"
      let ?rest = "child_spans start extent room gap (Suc index) (share + s) (?e + gap) ss"
      have rest: "?rest \<noteq> []" using False by (metis length_0_conv length_child_spans)
      have IH: "fst (hd ?rest) = ?e + gap" "snd (last ?rest) = start + extent"
        "\<And>k. Suc k < length ss \<Longrightarrow> fst (?rest ! Suc k) = snd (?rest ! k) + gap"
        using Cons.IH [OF False, of "Suc index" "share + s" "?e + gap"] by auto
      have "fst (((edge, ?e) # ?rest) ! Suc k) = snd (((edge, ?e) # ?rest) ! k) + gap"
        if "Suc k < length (s # ss)" for k
        using that IH(1,3) rest by (cases k) (auto simp: hd_conv_nth)
      with IH(2) rest False show ?thesis by (simp add: Let_def)
    qed (simp add: Let_def)
  qed simp
  then show "fst (hd spans) = edge" "snd (last spans) = start + extent"
    "Suc k < length ss \<Longrightarrow> fst (spans ! Suc k) = snd (spans ! k) + gap"
    by (auto simp: spans)
qed

section \<open>Panes and dividers fill the box\<close>

definition box_area :: "PaneBox \<Rightarrow> rat" where
  "box_area b = b_width b * b_height b"

definition pane_area :: "(string \<times> PaneBox) list \<Rightarrow> rat" where
  "pane_area panes = sum_list (map (\<lambda>(i, b). box_area b) panes)"

definition sash_area :: "SashBox list \<Rightarrow> rat" where
  "sash_area sashes = sum_list (map (\<lambda>s. box_area (sash_box s)) sashes)"

definition across :: "SplitOrientation \<Rightarrow> PaneBox \<Rightarrow> rat" where
  "across ori b = (if ori = Horizontal then b_height b else b_width b)"

lemma area_simps [simp]:
  "pane_area [] = 0" "pane_area (xs @ ys) = pane_area xs + pane_area ys"
  "sash_area [] = 0" "sash_area (as @ bs) = sash_area as + sash_area bs"
  by (simp_all add: pane_area_def sash_area_def)

lemma box_area_child: "box_area (child_area ori area sp) = (snd sp - fst sp) * across ori area"
  by (simp add: child_area_def box_area_def across_def box_def)

lemma sash_area_after: "sash_area [sash_after ori area gap room path index sp] = gap * across ori area"
  by (simp add: sash_area_def sash_after_def box_area_def across_def box_def)

lemma box_area_along: "box_area b = along ori b * across ori b"
  by (simp add: box_area_def along_def across_def)

lemma spans_of_total:
  assumes "cs \<noteq> []"
  shows "span_total (spans_of ori area gap cs ss) + gap * (of_nat (length cs) - 1)
    = along ori area"
proof -
  have "map (size_at ss) [0..<length cs] \<noteq> []" using assms by simp
  from child_spans_total [OF this] show ?thesis by (simp add: spans_of_def Let_def)
qed

lemma length_spans_of [simp]: "length (spans_of ori area gap cs ss) = length cs"
  by (simp add: spans_of_def Let_def)

lemma area_place:
  shows "no_empty t \<Longrightarrow> pane_area (fst (place_node gap t area path)) + sash_area (snd (place_node gap t area path))
      = box_area area"
    and "\<forall>c\<in>set cs. no_empty c \<Longrightarrow> length spans = length cs \<Longrightarrow>
      pane_area (fst (place_children gap ori area room path index cs spans))
        + sash_area (snd (place_children gap ori area room path index cs spans))
      = (span_total spans + gap * (if cs = [] then 0 else of_nat (length cs) - 1)) * across ori area"
proof (induction gap t area path and gap ori area room path index cs spans
    rule: place_node_place_children.induct)
  case (2 gap ori cs ss area path)
  then have "cs \<noteq> []" by simp
  with 2 show ?case
    by (simp add: spans_of_total box_area_along [of area ori])
next
  case (4 gap ori area room path index c cs spans)
  then obtain sp rest where spans: "spans = sp # rest" by (cases spans) auto
  have node: "pane_area (fst (place_node gap c (child_area ori area sp) (path @ [index])))
      + sash_area (snd (place_node gap c (child_area ori area sp) (path @ [index])))
    = (snd sp - fst sp) * across ori area"
    using 4(1) 4(3) spans by (simp add: box_area_child)
  obtain panes sashes where eq: "place_node gap c (child_area ori area sp) (path @ [index]) = (panes, sashes)"
    by (cases "place_node gap c (child_area ori area sp) (path @ [index])")
  have rest: "pane_area (fst (place_children gap ori area room path (Suc index) cs rest))
      + sash_area (snd (place_children gap ori area room path (Suc index) cs rest))
    = (span_total rest + gap * (if cs = [] then 0 else of_nat (length cs) - 1)) * across ori area"
    using 4(2) [of panes sashes] 4(3,4) spans eq by simp
  show ?case
    using node rest spans eq sash_area_after [of ori area gap room path index sp]
    by (cases "cs = []") (auto simp: case_prod_beta algebra_simps sash_area_def)
qed (simp_all add: pane_area_def)

lemma panes_place:
  "map fst (fst (place_node gap t area path)) = getPaneIds t"
  "length spans = length cs \<Longrightarrow>
    map fst (fst (place_children gap ori area room path index cs spans)) = concat (map getPaneIds cs)"
proof (induction gap t area path and gap ori area room path index cs spans
    rule: place_node_place_children.induct)
  case (4 gap ori area room path index c cs spans)
  obtain panes sashes where eq: "place_node gap c (child_area ori area (hd spans)) (path @ [index]) = (panes, sashes)"
    by (cases "place_node gap c (child_area ori area (hd spans)) (path @ [index])")
  from 4(1) 4(2) [of panes sashes] 4(3) eq show ?case by (auto simp: case_prod_beta)
qed simp_all

section \<open>Dividers lead to their split\<close>

lemma getSplitAt_append:
  "getSplitAt t path = Some (Split ori cs ss) \<Longrightarrow> k < length cs
    \<Longrightarrow> getSplitAt t (path @ k # rest) = getSplitAt (cs ! k) rest"
  by (induction t path rule: getSplitAt.induct) (auto split: if_splits)

lemma getSplitAt_Split: "getSplitAt t path = Some u \<Longrightarrow> \<exists>ori cs ss. u = Split ori cs ss"
  by (induction t path rule: getSplitAt.induct) (auto split: if_splits)

text \<open>A divider that stands between two children of the split its path leads to.\<close>

definition leads_to :: "PaneNode \<Rightarrow> SashBox \<Rightarrow> bool" where
  "leads_to tree sash \<longleftrightarrow> (case getSplitAt tree (sash_path sash) of
     Some (Split ori cs ss) \<Rightarrow> ori = sash_orientation sash \<and> sash_index sash + 1 < length cs
   | _ \<Rightarrow> False)"

lemma leads_to_place:
  shows "getSplitAt tree path = Some t \<or> (\<exists>i. t = Pane i) \<or> path = [] \<and> t = tree
      \<Longrightarrow> \<forall>sash\<in>set (snd (place_node gap t area path)). leads_to tree sash"
    and "getSplitAt tree path = Some (Split ori ds ss) \<Longrightarrow> cs = drop index ds \<Longrightarrow> length spans = length cs
      \<Longrightarrow> \<forall>sash\<in>set (snd (place_children gap ori area room path index cs spans)). leads_to tree sash"
proof (induction gap t area path and gap ori area room path index cs spans
    arbitrary: and ds ss rule: place_node_place_children.induct)
  case (2 gap ori cs ss area path)
  have "getSplitAt tree path = Some (Split ori cs ss)" using 2(2) by auto
  with 2(1) show ?case by simp
next
  case (4 gap ori area room path index c cs spans)
  then obtain sp rest where spans: "spans = sp # rest" by (cases spans) auto
  obtain panes sashes where eq: "place_node gap c (child_area ori area sp) (path @ [index]) = (panes, sashes)"
    by (cases "place_node gap c (child_area ori area sp) (path @ [index])")
  have c: "index < length ds" "ds ! index = c" "cs = drop (Suc index) ds"
  proof -
    from 4(4) have eq: "drop index ds = c # cs" by simp
    then show "index < length ds" by (metis drop_all linorder_not_le list.discI)
    from eq show "ds ! index = c" by (rule nth_via_drop)
    from eq show "cs = drop (Suc index) ds" by (metis drop_Suc drop_tl list.sel(3))
  qed
  have "getSplitAt tree (path @ [index]) = Some c \<or> (\<exists>i. c = Pane i)"
    using getSplitAt_append [OF 4(3) c(1), of "[]"] c(2) by (cases c) auto
  then have node: "\<forall>sash\<in>set sashes. leads_to tree sash" using 4(1) eq spans by auto
  have rest: "\<forall>sash\<in>set (snd (place_children gap ori area room path (Suc index) cs rest)). leads_to tree sash"
    using 4(2) [of panes sashes] 4(3,5) c(3) spans eq by simp
  have "leads_to tree (sash_after ori area gap room path index sp)" if "cs \<noteq> []"
    using 4(3) that c(3) by (auto simp: leads_to_def sash_after_def)
  with node rest eq spans show ?case by (auto simp: case_prod_beta)
qed simp_all

section \<open>Dragging\<close>

lemma sum_list_update2:
  fixes xs :: "rat list"
  assumes "Suc k < length xs"
  shows "sum_list (xs[k := a, Suc k := b]) = sum_list xs - xs ! k - xs ! Suc k + a + b"
  using assms
proof (induction xs arbitrary: k)
  case (Cons x xs)
  show ?case
  proof (cases k)
    case 0
    with Cons.prems obtain y ys where "xs = y # ys" by (cases xs) auto
    with 0 show ?thesis by simp
  next
    case (Suc j)
    with Cons show ?thesis by simp
  qed
qed simp

lemma dragSash_eq:
  assumes "0 < room" and "Suc k < length sizes"
  obtains moved where "dragSash sizes k delta room minimums
      = sizes[k := (sizes ! k * room + moved) / room, Suc k := (sizes ! Suc k * room - moved) / room]"
    and "- max 0 (sizes ! k * room - size_at minimums k) \<le> moved"
    and "moved \<le> max 0 (sizes ! Suc k * room - size_at minimums (Suc k))"
proof -
  let ?low = "- max 0 (sizes ! k * room - size_at minimums k)"
  let ?high = "max 0 (sizes ! Suc k * room - size_at minimums (Suc k))"
  have "dragSash sizes k delta room minimums
      = sizes[k := (sizes ! k * room + min (max delta ?low) ?high) / room,
              Suc k := (sizes ! Suc k * room - min (max delta ?low) ?high) / room]"
    using assms by (simp add: dragSash_def Let_def)
  moreover have "?low \<le> min (max delta ?low) ?high" "min (max delta ?low) ?high \<le> ?high" by auto
  ultimately show ?thesis using that by blast
qed

lemma sum_dragSash: "sum_list (dragSash sizes k delta room minimums) = sum_list sizes"
proof (cases "0 < room \<and> Suc k < length sizes")
  case True
  then obtain moved where "dragSash sizes k delta room minimums
      = sizes[k := (sizes ! k * room + moved) / room, Suc k := (sizes ! Suc k * room - moved) / room]"
    using dragSash_eq by metis
  then have "sum_list (dragSash sizes k delta room minimums) = sum_list sizes - sizes ! k - sizes ! Suc k
      + (sizes ! k * room + moved) / room + (sizes ! Suc k * room - moved) / room"
    using True by (simp add: sum_list_update2)
  also have "\<dots> = sum_list sizes" using True by (simp add: field_simps)
  finally show ?thesis .
qed (auto simp: dragSash_def)

section \<open>Properties\<close>

text \<open>
  The layout of a tree leaves no room unused and gives none out twice: it places every
  pane once, and the panes and dividers together cover exactly the area of the box, whatever its
  size and the rounding of the edges.
\<close>

lemma layout_fills_box:
  assumes "canonical tree"
  shows "map fst (fst (layoutPaneTree tree area gap)) = getPaneIds tree
    \<and> pane_area (fst (layoutPaneTree tree area gap)) + sash_area (snd (layoutPaneTree tree area gap))
      = b_width area * b_height area"
  using area_place(1) [OF canonical_no_empty [OF assms]] panes_place(1)
  by (simp add: layoutPaneTree_def box_area_def)

lemma layout_fills_box_witness:
  "map fst (fst (layoutPaneTree (Split Horizontal [Pane ''a'', Pane ''b''] [1/3, 2/3]) (box 0 0 101 40) 1)) = [''a'', ''b'']"
  using layout_fills_box [of "Split Horizontal [Pane ''a'', Pane ''b''] [1/3, 2/3]"] by (simp add: shares_def)

text \<open>
  Along a split, neighbouring children neither overlap nor leave a seam: the first starts
  at the split's start, each next one a gap after the end of the one before, and the last ends at
  the split's end.
\<close>

lemma children_neither_overlap_nor_seam:
  assumes "cs \<noteq> []" and "spans = spans_of ori area gap cs ss"
    and "start = (if ori = Horizontal then b_left area else b_top area)"
  shows "length spans = length cs \<and> fst (hd spans) = start \<and> snd (last spans) = start + along ori area
    \<and> (\<forall>k. Suc k < length cs \<longrightarrow> fst (spans ! Suc k) = snd (spans ! k) + gap)"
proof -
  have "map (size_at ss) [0..<length cs] \<noteq> []" using assms(1) by simp
  note edges = child_spans_edges [OF this, of spans start "along ori area" "split_room ori area gap (length cs)"
      gap 0 0 start]
  show ?thesis using edges assms(2,3) by (simp add: spans_of_def Let_def)
qed

lemma children_neither_overlap_nor_seam_witness:
  "snd (last (spans_of Horizontal (box 0 0 101 40) 1 [Pane ''a'', Pane ''b''] [1/3, 2/3])) = 101"
  using children_neither_overlap_nor_seam [OF _ refl refl, of "[Pane ''a'', Pane ''b'']" Horizontal "box 0 0 101 40" 1 "[1/3, 2/3]"]
  by (simp add: along_def box_def)

text \<open>
  Every divider of a layout leads back to its split: following its path from the root
  finds a split of its orientation with a child on either side of it.
\<close>

lemma dividers_lead_to_splits:
  "list_all (leads_to tree) (snd (layoutPaneTree tree area gap))"
proof -
  have "\<forall>sash\<in>set (snd (place_node gap tree area [])). leads_to tree sash"
    by (rule leads_to_place(1)) (cases tree; simp)
  then show ?thesis by (simp add: layoutPaneTree_def list_all_iff)
qed

text \<open>
  C11: dragging a divider changes only the two children beside it, keeps the sum of the
  sizes, and shrinks neither under its minimum, unless it was already under it.
\<close>

theorem dragging_keeps_minimums:
  assumes "0 < room" and "Suc k < length sizes" and "next = dragSash sizes k delta room minimums"
    and "k < length minimums" and "Suc k < length minimums"
  shows "length next = length sizes \<and> sum_list next = sum_list sizes
    \<and> (\<forall>j. j \<noteq> k \<and> j \<noteq> Suc k \<longrightarrow> next ! j = sizes ! j)
    \<and> min (sizes ! k * room) (minimums ! k) \<le> next ! k * room
    \<and> min (sizes ! Suc k * room) (minimums ! Suc k) \<le> next ! Suc k * room"
proof -
  obtain moved where m: "next = sizes[k := (sizes ! k * room + moved) / room,
      Suc k := (sizes ! Suc k * room - moved) / room]"
    "- max 0 (sizes ! k * room - size_at minimums k) \<le> moved"
    "moved \<le> max 0 (sizes ! Suc k * room - size_at minimums (Suc k))"
    using dragSash_eq [OF assms(1,2), of delta minimums] assms(3) by metis
  have "next ! k * room = sizes ! k * room + moved" "next ! Suc k * room = sizes ! Suc k * room - moved"
    using assms(1,2) m(1) by simp_all
  then show ?thesis
    using m sum_dragSash [of sizes k delta room minimums] assms(3-5) by (auto simp: size_at_def)
qed

theorem dragging_keeps_minimums_witness:
  "sum_list (dragSash [1/2, 1/2] 0 90 100 [20, 20]) = (1::rat)"
  using dragging_keeps_minimums [of 100 0 "[1/2, 1/2]" _ 90 "[20, 20]", OF _ _ refl] by simp

end
