(* ===== verification/Tab_Navigation.thy ===== *)
theory Tab_Navigation
  imports Tabs_Hook
begin

text \<open>
  Shortcuts between tabs and panes and the closing items of a tab's menu
  (\<open>src/src/lib/tabNavigation.ts\<close>, \<open>src/src/lib/tabClosing.ts\<close>,
  \<open>src/src/lib/paneNavigation.ts\<close>). \<open>js_rem\<close> is JavaScript's remainder, which takes
  the sign of the dividend. \<open>compareTabIds\<close> takes \<open>localeCompare\<close> as a parameter.
  Of \<open>paneNavigation.ts\<close> the reading order is left out: it sorts by a comparison
  that is no order (its tolerance is not transitive), so what it returns is up
  to the engine.
\<close>

section \<open>Siblings and positions\<close>

definition js_rem :: "int \<Rightarrow> int \<Rightarrow> int" where
  "js_rem a n = (if 0 \<le> a then a mod n else - ((- a) mod n))"

definition nth_js :: "'a list \<Rightarrow> int \<Rightarrow> 'a option" where
  "nth_js xs k = (if 0 \<le> k then nth_opt xs (nat k) else None)"

definition getSiblingTabId :: "string list \<Rightarrow> string option \<Rightarrow> int \<Rightarrow> string option" where
  "getSiblingTabId tabIds activeTabId offset =
     (if \<not> truthy activeTabId \<or> tabIds = [] then None
      else case index_of (the activeTabId) tabIds of
        None \<Rightarrow> None
      | Some index \<Rightarrow>
          nth_js tabIds (js_rem (int index + offset + int (length tabIds)) (int (length tabIds))))"

definition LAST_TAB_POSITION :: int where "LAST_TAB_POSITION = 9"

definition getTabIdAtPosition :: "string list \<Rightarrow> int \<Rightarrow> string option" where
  "getTabIdAtPosition tabIds place =
     (if place = LAST_TAB_POSITION then nth_js tabIds (int (length tabIds) - 1)
      else if place < 1 \<or> int (length tabIds) < place then None
      else nth_js tabIds (place - 1))"

datatype TabShortcutTarget = SwitchTo string | CurrentTab string | NoTab

definition resolveTabShortcutTarget :: "string option \<Rightarrow> string option \<Rightarrow> TabShortcutTarget" where
  "resolveTabShortcutTarget tabId activeTabId =
     (if \<not> truthy tabId then NoTab
      else if tabId = activeTabId then CurrentTab (the tabId) else SwitchTo (the tabId))"

text \<open>\<open>/^tab-(\d+)$/\<close>, and \<open>NaN\<close> as \<open>None\<close>.\<close>

definition tab_age :: "string \<Rightarrow> nat option" where
  "tab_age i =
     (if starts_with i ''tab-'' \<and> drop 4 i \<noteq> [] \<and> list_all is_digit (drop 4 i)
      then Some (read_nat (drop 4 i)) else None)"

definition compareTabIds :: "(string \<Rightarrow> string \<Rightarrow> int) \<Rightarrow> string \<Rightarrow> string \<Rightarrow> int" where
  "compareTabIds localeCompare first second =
     (case (tab_age first, tab_age second) of
        (Some m, Some n) \<Rightarrow> int m - int n
      | _ \<Rightarrow> localeCompare first second)"

section \<open>Closing\<close>

datatype TabCloseAction = CloseOthers | CloseLeft | CloseRight

record TabCloseContext =
  cc_index :: nat
  cc_otherIds :: "string list"
  cc_leftIds :: "string list"
  cc_rightIds :: "string list"

definition getTabCloseContext :: "string list \<Rightarrow> string \<Rightarrow> TabCloseContext option" where
  "getTabCloseContext tabIds tabId =
     map_option (\<lambda>index. \<lparr>cc_index = index, cc_otherIds = filter (\<lambda>i. i \<noteq> tabId) tabIds,
         cc_leftIds = take index tabIds, cc_rightIds = drop (index + 1) tabIds\<rparr>)
       (index_of tabId tabIds)"

definition getTabIdsForCloseAction :: "string list \<Rightarrow> string \<Rightarrow> TabCloseAction \<Rightarrow> string list" where
  "getTabIdsForCloseAction tabIds tabId action =
     (case getTabCloseContext tabIds tabId of
        None \<Rightarrow> []
      | Some context \<Rightarrow>
          (case action of
             CloseOthers \<Rightarrow> cc_otherIds context
           | CloseLeft \<Rightarrow> cc_leftIds context
           | CloseRight \<Rightarrow> cc_rightIds context))"

record TabCloseMenuLabels =
  l_closeTab :: string
  l_closeOtherTabs :: string
  l_closeTabsToLeft :: string
  l_closeTabsToRight :: string

record TabContextMenuAction =
  ma_label :: string
  ma_action :: string
  ma_icon :: "string option"
  ma_disabled :: bool
  ma_shortcut :: "string option"

definition menu_item :: "string \<Rightarrow> string \<Rightarrow> bool \<Rightarrow> TabContextMenuAction" where
  "menu_item label action disabled = \<lparr>ma_label = label, ma_action = action, ma_icon = None,
     ma_disabled = disabled, ma_shortcut = None\<rparr>"

definition getTabCloseMenuActions ::
  "string list \<Rightarrow> string \<Rightarrow> TabCloseMenuLabels \<Rightarrow> bool \<Rightarrow> TabContextMenuAction list" where
  "getTabCloseMenuActions tabIds tabId labels isSplit =
     (let context = getTabCloseContext tabIds tabId;
          none = (\<lambda>sel. case context of None \<Rightarrow> True | Some c \<Rightarrow> sel c = [])
      in [(menu_item (l_closeTab labels) ''close-tab'' False)
            \<lparr>ma_icon := Some ''x'', ma_shortcut := (if isSplit then None else Some ''tabs.closeActive'')\<rparr>,
          menu_item (l_closeOtherTabs labels) ''close-others'' (none cc_otherIds),
          menu_item (l_closeTabsToLeft labels) ''close-left'' (none cc_leftIds),
          menu_item (l_closeTabsToRight labels) ''close-right'' (none cc_rightIds)])"

section \<open>The pane in a direction\<close>

datatype PaneDirection = GoLeft | GoRight | GoUp | GoDown

record PaneRect =
  r_id :: string
  r_left :: int
  r_top :: int
  r_right :: int
  r_bottom :: int

definition EDGE_TOLERANCE :: int where "EDGE_TOLERANCE = 2"

definition isVisible :: "PaneRect \<Rightarrow> bool" where
  "isVisible pane = (r_left pane < r_right pane \<and> r_top pane < r_bottom pane)"

definition distanceBeyond :: "PaneRect \<Rightarrow> PaneRect \<Rightarrow> PaneDirection \<Rightarrow> int option" where
  "distanceBeyond active pane direction =
     (let distance = (case direction of
            GoLeft \<Rightarrow> r_left active - r_right pane
          | GoRight \<Rightarrow> r_left pane - r_right active
          | GoUp \<Rightarrow> r_top active - r_bottom pane
          | GoDown \<Rightarrow> r_top pane - r_bottom active)
      in if - EDGE_TOLERANCE \<le> distance then Some distance else None)"

definition sharedEdge :: "PaneRect \<Rightarrow> PaneRect \<Rightarrow> PaneDirection \<Rightarrow> int" where
  "sharedEdge active pane direction =
     (if direction = GoLeft \<or> direction = GoRight
      then min (r_bottom active) (r_bottom pane) - max (r_top active) (r_top pane)
      else min (r_right active) (r_right pane) - max (r_left active) (r_left pane))"

record Candidate =
  k_id :: string
  k_distance :: int
  k_shared :: int

definition candidate :: "PaneRect \<Rightarrow> PaneDirection \<Rightarrow> PaneRect \<Rightarrow> Candidate option" where
  "candidate active direction pane =
     (if r_id pane = r_id active then None
      else case distanceBeyond active pane direction of
        None \<Rightarrow> None
      | Some distance \<Rightarrow>
          (if sharedEdge active pane direction \<le> 0 then None
           else Some \<lparr>k_id = r_id pane, k_distance = distance,
                      k_shared = sharedEdge active pane direction\<rparr>))"

text \<open>\<open>b.shared - a.shared || recency(a.id) - recency(b.id)\<close> below zero; two panes never used are alike.\<close>

definition comes_before :: "string list \<Rightarrow> Candidate \<Rightarrow> Candidate \<Rightarrow> bool" where
  "comes_before recentIds a b =
     (if k_shared a \<noteq> k_shared b then k_shared b < k_shared a
      else case (index_of (k_id a) recentIds, index_of (k_id b) recentIds) of
        (Some i, Some j) \<Rightarrow> i < j
      | (Some i, None) \<Rightarrow> True
      | (None, _) \<Rightarrow> False)"

text \<open>The first of the sorted candidates: the first one that none comes before.\<close>

definition best_candidate :: "string list \<Rightarrow> Candidate list \<Rightarrow> Candidate" where
  "best_candidate recentIds cs =
     foldl (\<lambda>best c. if comes_before recentIds c best then c else best) (hd cs) (tl cs)"

definition findPaneInDirection ::
  "PaneRect list \<Rightarrow> string option \<Rightarrow> PaneDirection \<Rightarrow> string list \<Rightarrow> string option" where
  "findPaneInDirection panes activeId direction recentIds =
     (let visible = filter isVisible panes
      in case find (\<lambda>pane. Some (r_id pane) = activeId) visible of
           None \<Rightarrow> None
         | Some active \<Rightarrow>
             (let candidates = List.map_filter (candidate active direction) visible
              in if candidates = [] then None
                 else let nearest = Min (set (map k_distance candidates))
                      in Some (k_id (best_candidate recentIds
                           (filter (\<lambda>c. k_distance c - nearest \<le> EDGE_TOLERANCE) candidates)))))"

section \<open>Lemmas\<close>

lemma js_rem_nonneg: "0 \<le> a \<Longrightarrow> js_rem a n = a mod n"
  by (simp add: js_rem_def)

lemma nth_js_nth: "0 \<le> k \<Longrightarrow> k < int (length xs) \<Longrightarrow> nth_js xs k = Some (xs ! nat k)"
  by (simp add: nth_js_def nth_opt_def nat_less_iff)

lemma index_of_nth: "distinct xs \<Longrightarrow> k < length xs \<Longrightarrow> index_of (xs ! k) xs = Some k"
proof (induction xs arbitrary: k)
  case (Cons x xs)
  then show ?case by (cases k) (auto simp: nth_eq_iff_index_eq)
qed simp

lemma mod_index:
  assumes "k < length ids"
  shows "0 \<le> a mod int (length ids)" and "a mod int (length ids) < int (length ids)"
    and "nat (a mod int (length ids)) < length ids"
proof -
  have "0 < int (length ids)" using assms by (metis le_less_trans of_nat_0_le_iff of_nat_less_iff)
  then show "0 \<le> a mod int (length ids)" and *: "a mod int (length ids) < int (length ids)"
    by (rule pos_mod_sign, rule pos_mod_bound)
  with \<open>0 < int (length ids)\<close> show "nat (a mod int (length ids)) < length ids"
    by (simp add: nat_less_iff)
qed

lemma sibling_nth:
  assumes "distinct ids" and "[] \<notin> set ids" and "k < length ids" and "- int (length ids) \<le> offset"
  shows "getSiblingTabId ids (Some (ids ! k)) offset
    = Some (ids ! nat ((int k + offset) mod int (length ids)))"
proof -
  have "ids ! k \<noteq> []" using assms(2,3) by (metis nth_mem)
  moreover have "index_of (ids ! k) ids = Some k" using assms(1,3) by (rule index_of_nth)
  moreover have "js_rem (int k + offset + int (length ids)) (int (length ids)) = (int k + offset) mod int (length ids)"
    using assms(4) by (simp add: js_rem_nonneg)
  moreover have "nth_js ids ((int k + offset) mod int (length ids)) = Some (ids ! nat ((int k + offset) mod int (length ids)))"
    using mod_index [OF assms(3)] by (intro nth_js_nth)
  ultimately show ?thesis using assms(3) by (auto simp: getSiblingTabId_def)
qed

lemma best_candidate_in:
  assumes "cs \<noteq> []"
  shows "best_candidate recent cs \<in> set cs"
proof -
  have "foldl (\<lambda>best c. if comes_before recent c best then c else best) b cs \<in> insert b (set cs)" for b cs
  proof (induction cs arbitrary: b)
    case (Cons c cs)
    from Cons.IH [of "if comes_before recent c b then c else b"] show ?case by (auto split: if_splits)
  qed simp
  with assms show ?thesis by (cases cs) (simp_all add: best_candidate_def)
qed

section \<open>Properties\<close>

text \<open>
  The next-tab and previous-tab shortcuts go round the bar both ways: one step on and one
  step back is the tab itself, and as many steps on as there are tabs come full circle.
\<close>

lemma siblings_go_round:
  assumes "distinct ids" and "[] \<notin> set ids" and "i \<in> set ids"
  shows "Option.bind (getSiblingTabId ids (Some i) 1) (\<lambda>j. getSiblingTabId ids (Some j) (-1)) = Some i
    \<and> ((\<lambda>j. Option.bind j (\<lambda>j. getSiblingTabId ids (Some j) 1)) ^^ length ids) (Some i) = Some i"
proof -
  obtain k where k: "k < length ids" "i = ids ! k" using assms(3) by (auto simp: in_set_conv_nth)
  let ?n = "int (length ids)"
  have steps: "((\<lambda>j. Option.bind j (\<lambda>j. getSiblingTabId ids (Some j) 1)) ^^ m) (Some i)
      = Some (ids ! nat ((int k + int m) mod ?n))" for m
  proof (induction m)
    case (Suc m)
    have "nat ((int k + int m) mod ?n) < length ids" using mod_index(3) [OF k(1)] .
    moreover have "int (nat ((int k + int m) mod ?n)) = (int k + int m) mod ?n"
      using mod_index(1) [OF k(1)] by (rule nat_0_le)
    ultimately have "getSiblingTabId ids (Some (ids ! nat ((int k + int m) mod ?n))) 1
        = Some (ids ! nat ((int k + int m + 1) mod ?n))"
      using sibling_nth [OF assms(1,2), of "nat ((int k + int m) mod ?n)" 1] by (simp only: mod_add_left_eq)
    moreover have "int k + int m + 1 = int k + int (Suc m)" by simp
    ultimately show ?case using Suc by (simp only: funpow.simps comp_def Option.bind.simps)
  qed (use k in simp)
  have "int (nat ((int k + 1) mod ?n)) = (int k + 1) mod ?n"
    using mod_index(1) [OF k(1)] by (rule nat_0_le)
  moreover have "((int k + 1) mod ?n + -1) mod ?n = int k" using k(1) by (simp add: mod_diff_left_eq)
  ultimately have "getSiblingTabId ids (Some (ids ! nat ((int k + 1) mod ?n))) (-1) = Some (ids ! k)"
    using sibling_nth [OF assms(1,2) mod_index(3) [OF k(1), of "int k + 1"], of "-1"] k(1) by simp
  with sibling_nth [OF assms(1,2) k(1), of 1] steps [of "length ids"] k show ?thesis by simp
qed

lemma siblings_go_round_witness:
  "Option.bind (getSiblingTabId [''a'', ''b'', ''c''] (Some ''c'') 1)
    (\<lambda>j. getSiblingTabId [''a'', ''b'', ''c''] (Some j) (-1)) = Some ''c''"
  using siblings_go_round [of "[''a'', ''b'', ''c'']" "''c''"] by simp

text \<open>
  Closing others, those to the left or those to the right never closes the tab itself; the
  left and right ones are the others, and a menu item is enabled exactly when it would close one.
\<close>

lemma closing_spares_the_tab:
  assumes "distinct ids" and "i \<in> set ids"
  shows "i \<notin> set (getTabIdsForCloseAction ids i action)
    \<and> getTabIdsForCloseAction ids i CloseLeft @ getTabIdsForCloseAction ids i CloseRight
      = getTabIdsForCloseAction ids i CloseOthers
    \<and> map ma_disabled (tl (getTabCloseMenuActions ids i labels isSplit))
      = map (\<lambda>a. getTabIdsForCloseAction ids i a = []) [CloseOthers, CloseLeft, CloseRight]"
proof -
  obtain k where k: "k < length ids" "i = ids ! k" using assms(2) by (auto simp: in_set_conv_nth)
  then have index: "index_of i ids = Some k" using index_of_nth [OF assms(1)] by simp
  have ids: "ids = take k ids @ i # drop (Suc k) ids" using k id_take_nth_drop by metis
  then have apart: "i \<notin> set (take k ids)" "i \<notin> set (drop (Suc k) ids)"
  proof -
    from assms(1) ids have "distinct (take k ids @ i # drop (Suc k) ids)" by metis
    then show "i \<notin> set (take k ids)" "i \<notin> set (drop (Suc k) ids)" by auto
  qed
  have others: "filter (\<lambda>j. j \<noteq> i) ids = take k ids @ drop (Suc k) ids"
  proof -
    have "filter (\<lambda>j. j \<noteq> i) (take k ids) = take k ids" "filter (\<lambda>j. j \<noteq> i) (drop (Suc k) ids) = drop (Suc k) ids"
      using apart by (auto intro!: filter_True)
    then show ?thesis by (subst ids) simp
  qed
  show ?thesis using index others apart
    by (cases action) (auto simp: getTabIdsForCloseAction_def getTabCloseContext_def
      getTabCloseMenuActions_def menu_item_def Let_def)
qed

lemma closing_spares_the_tab_witness:
  "''b'' \<notin> set (getTabIdsForCloseAction [''a'', ''b'', ''c''] ''b'' CloseOthers)"
  using closing_spares_the_tab [of "[''a'', ''b'', ''c'']" "''b''" CloseOthers] by simp

text \<open>
  The pane a direction shortcut picks is a visible pane other than the active one, that
  lies on that side of it (within two pixels) and faces it along some edge, and none that does is
  nearer by more than two pixels.
\<close>

lemma direction_picks_neighbour:
  assumes "findPaneInDirection panes (Some a) direction recent = Some i"
    and "find (\<lambda>pane. Some (r_id pane) = Some a) (filter isVisible panes) = Some active"
  shows "\<exists>pane\<in>set panes. isVisible pane \<and> r_id pane = i \<and> i \<noteq> a
    \<and> (\<exists>d. distanceBeyond active pane direction = Some d \<and> 0 < sharedEdge active pane direction
      \<and> (\<forall>other\<in>set panes. \<forall>e. isVisible other \<and> r_id other \<noteq> a
        \<and> distanceBeyond active other direction = Some e \<and> 0 < sharedEdge active other direction \<longrightarrow> d \<le> e + 2))"
proof -
  let ?visible = "filter isVisible panes"
  let ?cs = "List.map_filter (candidate active direction) ?visible"
  let ?near = "filter (\<lambda>c. k_distance c - Min (set (map k_distance ?cs)) \<le> EDGE_TOLERANCE) ?cs"
  have a: "r_id active = a" using assms(2) by (auto simp: find_Some_iff)
  have found: "?cs \<noteq> []" "i = k_id (best_candidate recent ?near)"
    using assms by (auto simp: findPaneInDirection_def Let_def split: if_splits)
  have "Min (set (map k_distance ?cs)) \<in> set (map k_distance ?cs)" using found(1) by (intro Min_in) simp_all
  then obtain c' where "c' \<in> set ?cs" "k_distance c' = Min (set (map k_distance ?cs))" by auto
  then have "c' \<in> set ?near" by (simp add: EDGE_TOLERANCE_def)
  then have "?near \<noteq> []" by (metis empty_iff list.set(1))
  from best_candidate_in [OF this, of recent] obtain c where
    c: "c = best_candidate recent ?near" "c \<in> set ?cs" "k_distance c - Min (set (map k_distance ?cs)) \<le> 2"
    by (auto simp: EDGE_TOLERANCE_def)
  then obtain pane where pane: "pane \<in> set ?visible" "candidate active direction pane = Some c"
    by (auto simp: in_map_filter)
  then have facts: "r_id pane \<noteq> a" "distanceBeyond active pane direction = Some (k_distance c)"
      "0 < sharedEdge active pane direction" "k_id c = r_id pane"
    using a by (auto simp: candidate_def split: if_splits option.splits)
  have "k_distance c \<le> e + 2" if other: "other \<in> set panes" "isVisible other" "r_id other \<noteq> a"
      "distanceBeyond active other direction = Some e" "0 < sharedEdge active other direction" for other e
  proof -
    let ?d = "\<lparr>k_id = r_id other, k_distance = e, k_shared = sharedEdge active other direction\<rparr>"
    have "candidate active direction other = Some ?d" using other a by (simp add: candidate_def)
    then have "?d \<in> set ?cs" using other(1,2) by (auto simp: in_map_filter)
    then have "e \<in> set (map k_distance ?cs)" by force
    then have "Min (set (map k_distance ?cs)) \<le> e" by (intro Min_le) simp_all
    with c(3) show ?thesis by linarith
  qed
  with pane facts c(1) found(2) show ?thesis by auto
qed

definition demo_rect :: "string \<Rightarrow> int \<Rightarrow> PaneRect" where
  "demo_rect i left = \<lparr>r_id = i, r_left = left, r_top = 0, r_right = left + 50, r_bottom = 40\<rparr>"

lemma direction_picks_neighbour_witness:
  "findPaneInDirection [demo_rect ''a'' 0, demo_rect ''b'' 51, demo_rect ''c'' 102] (Some ''a'') GoRight []
      = Some ''b''
    \<and> (\<exists>d. distanceBeyond (demo_rect ''a'' 0) (demo_rect ''b'' 51) GoRight = Some d)"
proof -
  let ?panes = "[demo_rect ''a'' 0, demo_rect ''b'' 51, demo_rect ''c'' 102]"
  have picked: "findPaneInDirection ?panes (Some ''a'') GoRight [] = Some ''b''" by code_simp
  moreover have "find (\<lambda>pane. Some (r_id pane) = Some ''a'') (filter isVisible ?panes) = Some (demo_rect ''a'' 0)"
    by code_simp
  ultimately have "\<exists>pane\<in>set ?panes. isVisible pane \<and> r_id pane = ''b'' \<and> ''b'' \<noteq> ''a''
    \<and> (\<exists>d. distanceBeyond (demo_rect ''a'' 0) pane GoRight = Some d \<and> 0 < sharedEdge (demo_rect ''a'' 0) pane GoRight
      \<and> (\<forall>other\<in>set ?panes. \<forall>e. isVisible other \<and> r_id other \<noteq> ''a''
        \<and> distanceBeyond (demo_rect ''a'' 0) other GoRight = Some e
        \<and> 0 < sharedEdge (demo_rect ''a'' 0) other GoRight \<longrightarrow> d \<le> e + 2))"
    by (rule direction_picks_neighbour)
  then show ?thesis using picked by (auto simp: demo_rect_def)
qed

end
