(* ===== verification/Keymap.thy ===== *)
theory Keymap
  imports Json
begin

text \<open>
  Keyboard shortcuts (\<open>src/src/lib/keymap/\<close>): chords, the registry of actions, the
  bindings in effect, and the dispatcher that answers a key event. Action ids are
  strings, as they are the keys of the saved configuration. An optional boolean
  of a chord that is \<open>undefined\<close> is \<open>False\<close>; the platform is an argument. Of a
  key event the model has what the code reads; whether its target is an editable
  element, which the browser answers, is one of its fields. \<open>formatChord\<close> is left
  out: its symbols lie outside the characters of the model.
\<close>

section \<open>Chords (\<open>chord.ts\<close>)\<close>

record Chord =
  ch_key :: string
  ch_mod :: bool
  ch_ctrl :: bool
  ch_alt :: bool
  ch_shift :: bool

definition MODIFIER_KEYS :: "string list" where
  "MODIFIER_KEYS = [''Shift'', ''Control'', ''Alt'', ''Meta'']"

definition UNBINDABLE_KEYS :: "string list" where
  "UNBINDABLE_KEYS = [''Dead'', ''Unidentified'', ''Process'', ''Compose'']"

definition MODIFIER_TOKENS :: "string list" where
  "MODIFIER_TOKENS = [''mod'', ''ctrl'', ''alt'', ''shift'']"

definition KEY_ALIASES :: "(string \<times> string) list" where
  "KEY_ALIASES = [('' '', ''space''), (''+'', ''plus'')]"

definition quote :: char where "quote = CHR 0x27"

definition CODE_KEY_ALIASES :: "(string \<times> string) list" where
  "CODE_KEY_ALIASES =
     [(''Space'', ''space''), (''Backquote'', ''`''), (''Minus'', ''-''), (''Equal'', ''=''),
      (''BracketLeft'', ''[''), (''BracketRight'', '']''), (''Backslash'', [CHR 0x5C]),
      (''Semicolon'', '';''), (''Quote'', [quote]), (''Comma'', '',''), (''Period'', ''.''),
      (''Slash'', ''/'')]"

definition is_token_char :: "char \<Rightarrow> bool" where
  "is_token_char c = (is_lower c \<or> is_digit c)"

text \<open>\<open>NAMED_KEY_RE\<close> and \<open>SINGLE_CHAR_KEY_RE\<close>.\<close>

fun named_key :: "string \<Rightarrow> bool" where
  "named_key [] = False"
| "named_key (c # cs) = (is_lower c \<and> list_all is_token_char cs)"

definition key_punctuation :: "char list" where
  "key_punctuation = [CHR 0x5C, CHR ''/'', CHR ''-'', CHR ''['', CHR '']'', CHR ''`'', CHR '';'',
     CHR ''='', quote, CHR ''.'', CHR '','']"

fun single_char_key :: "string \<Rightarrow> bool" where
  "single_char_key [c] = (is_token_char c \<or> c \<in> set key_punctuation)"
| "single_char_key _ = False"

definition normalizeEventKey :: "string \<Rightarrow> string option" where
  "normalizeEventKey rawKey =
     (if rawKey = [] \<or> rawKey \<in> set MODIFIER_KEYS \<or> rawKey \<in> set UNBINDABLE_KEYS then None
      else case map_of KEY_ALIASES rawKey of
        Some aliased \<Rightarrow> Some aliased
      | None \<Rightarrow>
          (let lower = to_lower rawKey
           in if length rawKey = 1 then (if single_char_key lower then Some lower else None)
              else if named_key lower then Some lower else None))"

fun letter_code :: "string \<Rightarrow> string option" where
  "letter_code s = (if length s = 4 \<and> starts_with s ''Key'' \<and> is_upper (last s)
     then Some (to_lower (drop 3 s)) else None)"

fun digit_code :: "string \<Rightarrow> string option" where
  "digit_code s = (if length s = 6 \<and> starts_with s ''Digit'' \<and> is_digit (last s)
     then Some (drop 5 s) else None)"

definition normalizeEventCode :: "string \<Rightarrow> string option" where
  "normalizeEventCode rawCode =
     (if rawCode = [] then None
      else case letter_code rawCode of
        Some key \<Rightarrow> Some key
      | None \<Rightarrow>
          (case digit_code rawCode of
             Some key \<Rightarrow> Some key
           | None \<Rightarrow>
               (case map_of CODE_KEY_ALIASES rawCode of
                  Some aliased \<Rightarrow> Some aliased
                | None \<Rightarrow> normalizeEventKey rawCode)))"

record KeyEvent =
  ev_key :: string
  ev_code :: string
  ev_isComposing :: bool
  ev_ctrl :: bool
  ev_meta :: bool
  ev_alt :: bool
  ev_shift :: bool
  ev_editable :: bool

definition eventToChord :: "KeyEvent \<Rightarrow> bool \<Rightarrow> Chord option" where
  "eventToChord event isMac =
     (if ev_isComposing event \<or> ev_key event \<in> set UNBINDABLE_KEYS \<or> ev_key event \<in> set MODIFIER_KEYS
      then None
      else let key = or_else (normalizeEventCode (ev_code event)) (normalizeEventKey (ev_key event))
           in if \<not> truthy key then None
              else Some \<lparr>ch_key = the key,
                ch_mod = (if isMac then ev_meta event else ev_ctrl event),
                ch_ctrl = (isMac \<and> ev_ctrl event),
                ch_alt = ev_alt event, ch_shift = ev_shift event\<rparr>)"

definition modifier_parts :: "Chord \<Rightarrow> string list" where
  "modifier_parts chord =
     (if ch_mod chord then [''mod''] else []) @ (if ch_ctrl chord then [''ctrl''] else [])
     @ (if ch_alt chord then [''alt''] else []) @ (if ch_shift chord then [''shift''] else [])"

definition serializeChord :: "Chord \<Rightarrow> string option" where
  "serializeChord chord =
     (if ch_key chord = [] then None else Some (join ''+'' (modifier_parts chord @ [ch_key chord])))"

definition no_chord :: Chord where
  "no_chord = \<lparr>ch_key = [], ch_mod = False, ch_ctrl = False, ch_alt = False, ch_shift = False\<rparr>"

fun read_modifiers :: "Chord \<Rightarrow> string list \<Rightarrow> Chord option" where
  "read_modifiers chord [] = Some chord"
| "read_modifiers chord (part # parts) =
     (if part = ''mod'' then (if ch_mod chord then None else read_modifiers (chord\<lparr>ch_mod := True\<rparr>) parts)
      else if part = ''ctrl'' then (if ch_ctrl chord then None else read_modifiers (chord\<lparr>ch_ctrl := True\<rparr>) parts)
      else if part = ''alt'' then (if ch_alt chord then None else read_modifiers (chord\<lparr>ch_alt := True\<rparr>) parts)
      else if part = ''shift'' then (if ch_shift chord then None else read_modifiers (chord\<lparr>ch_shift := True\<rparr>) parts)
      else None)"

definition valid_key :: "string \<Rightarrow> bool" where
  "valid_key key = (key \<notin> set MODIFIER_TOKENS \<and> (single_char_key key \<or> named_key key))"

definition chord_parts :: "string \<Rightarrow> string list" where
  "chord_parts serialized =
     filter (\<lambda>part. part \<noteq> []) (map (\<lambda>part. to_lower (trim part)) (split_at (\<lambda>c. c = CHR ''+'') serialized))"

definition parseChord :: "string \<Rightarrow> Chord option" where
  "parseChord serialized =
     (let parts = chord_parts serialized
      in if parts = [] then None
         else case read_modifiers no_chord (butlast parts) of
           None \<Rightarrow> None
         | Some chord \<Rightarrow> if valid_key (last parts) then Some (chord\<lparr>ch_key := last parts\<rparr>) else None)"

definition chordsEqual :: "Chord \<Rightarrow> Chord \<Rightarrow> bool" where
  "chordsEqual a b = (ch_key a = ch_key b \<and> ch_mod a = ch_mod b \<and> ch_ctrl a = ch_ctrl b
     \<and> ch_alt a = ch_alt b \<and> ch_shift a = ch_shift b)"

section \<open>Actions (\<open>actions.ts\<close>)\<close>

record KeymapActionDefinition =
  ka_id :: string
  ka_group :: string
  ka_allowInEditable :: bool

definition action :: "string \<Rightarrow> string \<Rightarrow> bool \<Rightarrow> KeymapActionDefinition" where
  "action i g allow = \<lparr>ka_id = i, ka_group = g, ka_allowInEditable = allow\<rparr>"

definition KEYMAP_ACTIONS :: "KeymapActionDefinition list" where
  "KEYMAP_ACTIONS =
    [action ''workspace.newTab'' ''workspace'' True,
     action ''workspace.splitRight'' ''workspace'' True,
     action ''workspace.splitBelow'' ''workspace'' True,
     action ''workspace.focusNextPane'' ''workspace'' True,
     action ''workspace.focusPrevPane'' ''workspace'' True,
     action ''workspace.focusPaneLeft'' ''workspace'' True,
     action ''workspace.focusPaneRight'' ''workspace'' True,
     action ''workspace.focusPaneUp'' ''workspace'' True,
     action ''workspace.focusPaneDown'' ''workspace'' True,
     action ''workspace.restoreSingleGroup'' ''workspace'' True,
     action ''workspace.togglePaneZoom'' ''workspace'' True,
     action ''workspace.movePaneToNewTab'' ''workspace'' True,
     action ''workspace.chooseLayout'' ''workspace'' True,
     action ''commandLibrary.open'' ''workspace'' True,
     action ''broadcast.togglePanel'' ''workspace'' True,
     action ''tabs.next'' ''tabs'' True,
     action ''tabs.prev'' ''tabs'' True,
     action ''tabs.switchToNth'' ''tabs'' True,
     action ''tabs.renameActive'' ''tabs'' True,
     action ''tabs.duplicateActive'' ''tabs'' True,
     action ''tabs.closeActive'' ''tabs'' True,
     action ''terminal.find'' ''terminal'' True,
     action ''terminal.clear'' ''terminal'' True,
     action ''terminal.reset'' ''terminal'' True,
     action ''terminal.saveSelection'' ''terminal'' True,
     action ''terminal.fillSavedPassword'' ''terminal'' True,
     action ''terminal.zoomIn'' ''terminal'' True,
     action ''terminal.zoomOut'' ''terminal'' True,
     action ''terminal.zoomReset'' ''terminal'' True,
     action ''terminal.previousCommand'' ''terminal'' True,
     action ''terminal.nextCommand'' ''terminal'' True,
     action ''terminal.copyLastCommandOutput'' ''terminal'' True,
     action ''terminal.copy'' ''terminal'' True,
     action ''terminal.paste'' ''terminal'' True,
     action ''terminal.toggleComposer'' ''terminal'' True,
     action ''sftp.toggle'' ''sftp'' True,
     action ''sftp.selectAll'' ''sftp'' False,
     action ''sftp.focusPath'' ''sftp'' False,
     action ''sftp.pasteUpload'' ''sftp'' False,
     action ''sftp.back'' ''sftp'' False,
     action ''sftp.forward'' ''sftp'' False,
     action ''sftp.up'' ''sftp'' False,
     action ''zmodem.sendFiles'' ''zmodem'' True,
     action ''zmodem.receiveFiles'' ''zmodem'' True,
     action ''editor.save'' ''editor'' True]"

definition KEYMAP_ACTION_IDS :: "string list" where
  "KEYMAP_ACTION_IDS = map ka_id KEYMAP_ACTIONS"

definition getKeymapAction :: "string \<Rightarrow> KeymapActionDefinition option" where
  "getKeymapAction i = map_of (map (\<lambda>a. (ka_id a, a)) KEYMAP_ACTIONS) i"

definition getActionsByGroup :: "string \<Rightarrow> KeymapActionDefinition list" where
  "getActionsByGroup g = filter (\<lambda>a. ka_group a = g) KEYMAP_ACTIONS"

section \<open>Bindings (\<open>keymap.ts\<close>)\<close>

text \<open>A binding is \<open>null\<close> (\<open>None\<close>) or an array of chords; a missing override is a missing key.\<close>

type_synonym Bindings = "(string \<times> string list option) list"

definition digitChords :: "string \<Rightarrow> string list" where
  "digitChords modifier = map (\<lambda>k. modifier @ ''+'' @ show_nat (k + 1)) [0..<9]"

definition DEFAULT_BINDINGS :: Bindings where
  "DEFAULT_BINDINGS =
    [(''workspace.newTab'', Some [''ctrl+shift+t'']),
     (''workspace.splitRight'', Some [''mod+'' @ [CHR 0x5C]]),
     (''workspace.splitBelow'', Some [''mod+shift+'' @ [CHR 0x5C]]),
     (''workspace.focusNextPane'', Some [''mod+shift+]'']),
     (''workspace.focusPrevPane'', Some [''mod+shift+['']),
     (''workspace.focusPaneLeft'', Some [''mod+alt+arrowleft'']),
     (''workspace.focusPaneRight'', Some [''mod+alt+arrowright'']),
     (''workspace.focusPaneUp'', Some [''mod+alt+arrowup'']),
     (''workspace.focusPaneDown'', Some [''mod+alt+arrowdown'']),
     (''workspace.restoreSingleGroup'', Some [''mod+alt+'' @ [CHR 0x5C]]),
     (''workspace.togglePaneZoom'', Some [''mod+alt+enter'']),
     (''workspace.movePaneToNewTab'', None),
     (''workspace.chooseLayout'', None),
     (''commandLibrary.open'', Some [''mod+shift+p'']),
     (''broadcast.togglePanel'', Some [''mod+shift+b'']),
     (''tabs.next'', Some [''ctrl+tab'']),
     (''tabs.prev'', Some [''ctrl+shift+tab'']),
     (''tabs.switchToNth'', Some (digitChords ''alt'')),
     (''tabs.renameActive'', Some [''mod+shift+r'']),
     (''tabs.duplicateActive'', Some [''mod+shift+d'']),
     (''tabs.closeActive'', Some [''mod+shift+w'']),
     (''terminal.find'', Some [''mod+shift+f'']),
     (''terminal.clear'', Some [''mod+shift+k'']),
     (''terminal.reset'', None),
     (''terminal.saveSelection'', Some [''mod+shift+s'']),
     (''terminal.fillSavedPassword'', Some [''mod+shift+enter'']),
     (''terminal.zoomIn'', Some [''mod+='', ''mod+shift+='', ''mod+numpadadd'']),
     (''terminal.zoomOut'', Some [''mod+-'', ''mod+numpadsubtract'']),
     (''terminal.zoomReset'', Some [''mod+0'', ''mod+numpad0'']),
     (''terminal.previousCommand'', Some [''mod+arrowup'']),
     (''terminal.nextCommand'', Some [''mod+arrowdown'']),
     (''terminal.copyLastCommandOutput'', None),
     (''terminal.copy'', Some [''mod+shift+c'']),
     (''terminal.paste'', Some [''mod+shift+v'']),
     (''terminal.toggleComposer'', Some [''mod+shift+.'']),
     (''sftp.toggle'', Some [''mod+shift+e'']),
     (''sftp.selectAll'', Some [''mod+a'']),
     (''sftp.focusPath'', Some [''mod+l'']),
     (''sftp.pasteUpload'', Some [''mod+v'']),
     (''sftp.back'', Some [''alt+arrowleft'']),
     (''sftp.forward'', Some [''alt+arrowright'']),
     (''sftp.up'', Some [''alt+arrowup'']),
     (''zmodem.sendFiles'', None),
     (''zmodem.receiveFiles'', None),
     (''editor.save'', Some [''mod+s''])]"

definition MAC_DEFAULT_BINDINGS :: Bindings where
  "MAC_DEFAULT_BINDINGS =
    [(''workspace.newTab'', Some [''mod+t'']),
     (''terminal.find'', Some [''mod+f'']),
     (''tabs.switchToNth'', Some (digitChords ''mod'')),
     (''workspace.focusNextPane'', Some [''mod+]'']),
     (''workspace.focusPrevPane'', Some [''mod+['']),
     (''terminal.copy'', None),
     (''terminal.paste'', None)]"

definition valid_chords :: "string list \<Rightarrow> string list" where
  "valid_chords chords = List.map_filter (\<lambda>s. Option.bind (parseChord s) serializeChord) chords"

definition normalizeBinding :: "string list option \<Rightarrow> string list option" where
  "normalizeBinding source =
     (case source of
        None \<Rightarrow> None
      | Some chords \<Rightarrow> (let valid = valid_chords chords in if valid \<noteq> [] then Some valid else None))"

text \<open>\<open>{...DEFAULT_BINDINGS, ...MAC_DEFAULT_BINDINGS}\<close> on macOS.\<close>

definition default_binding :: "bool \<Rightarrow> string \<Rightarrow> string list option" where
  "default_binding isMac i =
     (case (if isMac then map_of MAC_DEFAULT_BINDINGS i else None) of
        Some b \<Rightarrow> b
      | None \<Rightarrow> (case map_of DEFAULT_BINDINGS i of Some b \<Rightarrow> b | None \<Rightarrow> None))"

definition effective_binding :: "Bindings \<Rightarrow> bool \<Rightarrow> string \<Rightarrow> string list option" where
  "effective_binding bindings isMac i =
     (case map_of bindings i of
        Some None \<Rightarrow> None
      | Some (Some chords) \<Rightarrow> or_else (normalizeBinding (Some chords)) (normalizeBinding (default_binding isMac i))
      | None \<Rightarrow> normalizeBinding (default_binding isMac i))"

definition resolveEffectiveKeymap :: "Bindings \<Rightarrow> bool \<Rightarrow> Bindings" where
  "resolveEffectiveKeymap bindings isMac =
     map (\<lambda>a. (ka_id a, effective_binding bindings isMac (ka_id a))) KEYMAP_ACTIONS"

text \<open>\<open>effective[id] ?? []\<close>.\<close>

definition chords_of :: "Bindings \<Rightarrow> string \<Rightarrow> string list" where
  "chords_of effective i = (case map_of effective i of Some (Some chords) \<Rightarrow> chords | _ \<Rightarrow> [])"

text \<open>Every chord with its action, in the order both loops meet them.\<close>

definition bound_pairs :: "Bindings \<Rightarrow> (string \<times> string) list" where
  "bound_pairs effective =
     concat (map (\<lambda>a. map (\<lambda>chord. (chord, ka_id a)) (chords_of effective (ka_id a))) KEYMAP_ACTIONS)"

fun add_owner :: "(string \<times> string list) list \<Rightarrow> string \<times> string \<Rightarrow> (string \<times> string list) list" where
  "add_owner [] (chord, i) = [(chord, [i])]"
| "add_owner ((c, owners) # rest) (chord, i) =
     (if c = chord then (c, if i \<in> set owners then owners else owners @ [i]) # rest
      else (c, owners) # add_owner rest (chord, i))"

definition chord_owners :: "Bindings \<Rightarrow> (string \<times> string list) list" where
  "chord_owners effective = foldl add_owner [] (bound_pairs effective)"

definition findKeymapConflicts :: "Bindings \<Rightarrow> (string \<times> string list) list" where
  "findKeymapConflicts effective = filter (\<lambda>(chord, owners). 1 < length owners) (chord_owners effective)"

text \<open>A chord already in the index keeps its action.\<close>

definition index_chord :: "(string \<times> string) list \<Rightarrow> string \<times> string \<Rightarrow> (string \<times> string) list" where
  "index_chord index entry = (if fst entry \<in> set (map fst index) then index else index @ [entry])"

definition buildChordIndex :: "Bindings \<Rightarrow> (string \<times> string) list" where
  "buildChordIndex effective = foldl index_chord [] (bound_pairs effective)"

definition KNOWN_CLI_CONFLICT_HINTS :: "(string \<times> string) list" where
  "KNOWN_CLI_CONFLICT_HINTS =
    [(''mod+s'', ''xoff''),
     (''mod+q'', ''xon''),
     (''mod+a'', ''readlineHome''),
     (''mod+e'', ''readlineEnd''),
     (''mod+u'', ''readlineKillLineStart''),
     (''mod+k'', ''readlineKillLineEnd''),
     (''mod+w'', ''readlineDeleteWord''),
     (''mod+l'', ''clearScreen''),
     (''mod+r'', ''historySearch''),
     (''mod+t'', ''readlineTransposeChars''),
     (''mod+f'', ''readlineForwardChar''),
     (''mod+b'', ''tmuxPrefix''),
     (''mod+z'', ''suspend''),
     (''mod+d'', ''eof''),
     (''mod+v'', ''quotedInsert''),
     (''mod+n'', ''historyNext''),
     (''mod+p'', ''historyPrevious''),
     (''mod+o'', ''operateAndGetNext''),
     (''alt+b'', ''wordBack''),
     (''alt+f'', ''wordForward''),
     (''alt+d'', ''wordKill'')]"

definition getCliConflictHint :: "string \<Rightarrow> bool \<Rightarrow> string option" where
  "getCliConflictHint chord isMac =
     (if isMac \<and> starts_with chord ''mod+'' then None
      else map_of KNOWN_CLI_CONFLICT_HINTS
        (if starts_with chord ''ctrl+'' then ''mod+'' @ drop 5 chord else chord))"

text \<open>The items of a raw binding that are strings; anything but an array stands for itself.\<close>

fun raw_chords :: "json \<Rightarrow> string list" where
  "raw_chords (JArr vs) = List.map_filter (\<lambda>v. case v of JStr s \<Rightarrow> Some s | _ \<Rightarrow> None) vs"
| "raw_chords (JStr s) = [s]"
| "raw_chords _ = []"

definition normalize_entry :: "string \<times> json \<Rightarrow> (string \<times> string list option) option" where
  "normalize_entry entry =
     (if fst entry \<notin> set KEYMAP_ACTION_IDS then None
      else if snd entry = JNull then Some (fst entry, None)
      else let valid = valid_chords (raw_chords (snd entry))
           in if valid \<noteq> [] then Some (fst entry, Some valid) else None)"

definition normalizeKeymap :: "json \<Rightarrow> Bindings" where
  "normalizeKeymap v =
     (case field v ''bindings'' of
        Some (JObj entries) \<Rightarrow> List.map_filter normalize_entry entries
      | _ \<Rightarrow> [])"

section \<open>Dispatching (\<open>dispatcher.ts\<close>)\<close>

text \<open>A handler answers whether it took the key: anything but \<open>false\<close>.\<close>

type_synonym KeymapHandler = "KeyEvent \<Rightarrow> Chord \<Rightarrow> bool"

record KeymapDispatchEnvironment =
  env_suppressed :: bool
  env_openLayer :: bool
  env_index :: "(string \<times> string) list"
  env_handlers :: "(string \<times> KeymapHandler list) list"
  env_isMac :: bool

definition isTerminalCtrlKey :: "string \<Rightarrow> bool" where
  "isTerminalCtrlKey key =
     ((length key = 1 \<and> list_all is_lower key) \<or> key = ''['' \<or> key = '']'' \<or> key = [CHR 0x5C])"

definition lookup_chord :: "(string \<times> string) list \<Rightarrow> Chord \<Rightarrow> string option" where
  "lookup_chord index chord = map_of index (or_default (serializeChord chord) [])"

definition chord_action :: "KeymapDispatchEnvironment \<Rightarrow> Chord \<Rightarrow> string option" where
  "chord_action env chord =
     (let own = lookup_chord (env_index env) chord
      in if \<not> truthy own \<and> env_isMac env \<and> ch_ctrl chord \<and> \<not> ch_mod chord \<and> \<not> isTerminalCtrlKey (ch_key chord)
         then lookup_chord (env_index env) (chord\<lparr>ch_ctrl := False, ch_mod := True\<rparr>)
         else if \<not> truthy own \<and> \<not> env_isMac env \<and> ch_mod chord
         then lookup_chord (env_index env) (chord\<lparr>ch_mod := False, ch_ctrl := True\<rparr>)
         else own)"

text \<open>What became of an event: the action it was taken for, and the handlers called for it.\<close>

record DispatchResult =
  dr_action :: "string option"
  dr_called :: "KeymapHandler list"

definition passed :: "KeymapHandler list \<Rightarrow> DispatchResult" where
  "passed called = \<lparr>dr_action = None, dr_called = called\<rparr>"

definition dispatchKeydownEvent :: "KeyEvent \<Rightarrow> KeymapDispatchEnvironment \<Rightarrow> DispatchResult" where
  "dispatchKeydownEvent event env =
     (if env_suppressed env \<or> env_openLayer env then passed []
      else if ev_key event = ''Escape'' then passed []
      else case eventToChord event (env_isMac env) of
        None \<Rightarrow> passed []
      | Some chord \<Rightarrow>
          if serializeChord chord = None then passed []
          else (let actionId = chord_action env chord
           in if \<not> truthy actionId then passed []
              else if (case getKeymapAction (the actionId) of
                         None \<Rightarrow> False
                       | Some a \<Rightarrow> \<not> ka_allowInEditable a \<and> ev_editable event) then passed []
              else let handlers = or_default (map_of (env_handlers env) (the actionId)) []
                   in if handlers = [] then passed []
                      else if \<not> (\<exists>handler\<in>set handlers. handler event chord) then passed handlers
                      else \<lparr>dr_action = actionId, dr_called = handlers\<rparr>))"

end
