(* ===== verification/Keymap_Properties.thy ===== *)
theory Keymap_Properties
  imports Keymap
begin

text \<open>
  The properties of keyboard shortcuts (\<open>src/src/lib/keymap/\<close>): reading back what
  is written, the index and the conflicts of the bindings, the defaults, and
  what the dispatcher takes from the terminal.
\<close>

section \<open>Reading back a chord\<close>

lemma dropWhile_none: "\<forall>x\<in>set xs. \<not> p x \<Longrightarrow> dropWhile p xs = xs"
  by (induction xs) auto

lemma trim_no_space: "\<forall>c\<in>set s. \<not> is_space c \<Longrightarrow> trim s = s"
  by (simp add: trim_def trim_start_def trim_end_def dropWhile_none)

lemma token_char:
  assumes "is_token_char c"
  shows "c \<noteq> CHR ''+''" and "\<not> is_space c" and "lower_char c = c"
proof -
  from assms have b: "97 \<le> code c \<and> code c \<le> 122 \<or> 48 \<le> code c \<and> code c \<le> 57"
    by (simp add: is_token_char_def is_lower_def is_digit_def)
  show "c \<noteq> CHR ''+''" proof assume "c = CHR ''+''" with b show False by simp qed
  from b show "\<not> is_space c" by (simp add: is_space_def) linarith
  from b have "\<not> is_upper c" "\<not> (192 \<le> code c \<and> code c \<le> 222 \<and> code c \<noteq> 215)"
    by (auto simp: is_upper_def)
  then show "lower_char c = c" unfolding lower_char_def by (simp only: if_False simp_thms)
qed

lemma punctuation_char:
  assumes "c \<in> set key_punctuation"
  shows "c \<noteq> CHR ''+''" and "\<not> is_space c" and "lower_char c = c"
  using assms by (auto simp: key_punctuation_def quote_def is_space_def lower_char_def is_upper_def)

lemma key_chars:
  assumes "single_char_key key \<or> named_key key" and "c \<in> set key"
  shows "c \<noteq> CHR ''+''" and "\<not> is_space c" and "lower_char c = c"
proof -
  have "is_token_char c \<or> c \<in> set key_punctuation"
    using assms
    by (cases key rule: single_char_key.cases; cases key rule: named_key.cases)
      (auto simp: is_token_char_def list_all_iff)
  then show "c \<noteq> CHR ''+''" "\<not> is_space c" "lower_char c = c"
    using token_char punctuation_char by blast+
qed

definition clean_part :: "string \<Rightarrow> bool" where
  "clean_part w \<longleftrightarrow> w \<noteq> [] \<and> (\<forall>c\<in>set w. c \<noteq> CHR ''+'' \<and> \<not> is_space c \<and> lower_char c = c)"

lemma clean_keyI:
  assumes "single_char_key key \<or> named_key key"
  shows "clean_part key"
proof -
  have "key \<noteq> []" using assms by auto
  then show ?thesis unfolding clean_part_def using key_chars [OF assms] by blast
qed

lemma clean_key: "valid_key key \<Longrightarrow> clean_part key"
  by (intro clean_keyI) (simp add: valid_key_def)

lemma modifier_named: "list_all named_key [''mod'', ''ctrl'', ''alt'', ''shift'']"
  by code_simp

lemma clean_modifier:
  assumes "w \<in> set (modifier_parts c)"
  shows "clean_part w"
proof (intro clean_keyI disjI2)
  from assms have "w \<in> set [''mod'', ''ctrl'', ''alt'', ''shift'']"
    by (auto simp only: modifier_parts_def set_append set_simps split: if_splits)
  with modifier_named show "named_key w" unfolding list_all_iff by blast
qed

lemma chord_parts_join:
  assumes "ws \<noteq> []" and "\<forall>w\<in>set ws. clean_part w"
  shows "chord_parts (join ''+'' ws) = ws"
proof -
  have "split_at (\<lambda>c. c = CHR ''+'') (join ''+'' ws) = ws"
    using assms by (intro split_at_join) (auto simp: clean_part_def)
  moreover have "map (\<lambda>part. to_lower (trim part)) ws = ws"
    using assms(2) by (intro map_idI) (simp add: clean_part_def trim_no_space to_lower_def map_idI)
  moreover have "filter (\<lambda>part. part \<noteq> []) ws = ws"
    using assms(2) by (intro filter_True) (simp add: clean_part_def)
  ultimately show ?thesis by (simp add: chord_parts_def)
qed

lemma read_modifier_parts:
  "read_modifiers no_chord (modifier_parts c) =
    Some \<lparr>ch_key = [], ch_mod = ch_mod c, ch_ctrl = ch_ctrl c, ch_alt = ch_alt c, ch_shift = ch_shift c\<rparr>"
  by (simp add: modifier_parts_def no_chord_def)

lemma parse_serialized:
  assumes "valid_key (ch_key c)"
  shows "\<exists>s. serializeChord c = Some s \<and> parseChord s = Some c"
proof -
  have key: "ch_key c \<noteq> []" using clean_key [OF assms] by (simp add: clean_part_def)
  let ?ws = "modifier_parts c @ [ch_key c]"
  have "chord_parts (join ''+'' ?ws) = ?ws"
    using clean_key [OF assms] clean_modifier by (intro chord_parts_join) auto
  then have "parseChord (join ''+'' ?ws) = Some c"
    using assms by (simp add: parseChord_def read_modifier_parts)
  with key show ?thesis by (simp add: serializeChord_def)
qed

lemma parsed_valid: "parseChord s = Some c \<Longrightarrow> valid_key (ch_key c)"
  by (auto simp: parseChord_def Let_def split: if_splits option.splits)

lemma canonical_chord:
  assumes "Option.bind (parseChord s) serializeChord = Some t"
  shows "Option.bind (parseChord t) serializeChord = Some t"
proof -
  from assms obtain c where c: "parseChord s = Some c" "serializeChord c = Some t"
    by (cases "parseChord s") auto
  from parse_serialized [OF parsed_valid [OF c(1)]] c(2) show ?thesis by auto
qed

lemma valid_chords_idem: "valid_chords (valid_chords cs) = valid_chords cs"
proof -
  have "\<forall>t\<in>set (valid_chords cs). Option.bind (parseChord t) serializeChord = Some t"
    using canonical_chord by (auto simp: valid_chords_def in_map_filter)
  moreover have "\<forall>t\<in>set ts. Option.bind (parseChord t) serializeChord = Some t \<Longrightarrow> valid_chords ts = ts" for ts
    by (induction ts) (auto simp: valid_chords_def List.map_filter_def)
  ultimately show ?thesis by blast
qed

text \<open>
  A chord written to the configuration reads back as the same chord, and a chord read
  from any spelling is written in one canonical way.
\<close>

lemma chord_roundtrip:
  "(valid_key (ch_key c) \<longrightarrow> (\<exists>s. serializeChord c = Some s \<and> parseChord s = Some c))
   \<and> (parseChord s = Some d \<and> serializeChord d = Some t \<longrightarrow> parseChord t = Some d)"
  using parse_serialized parsed_valid by fastforce

lemma chord_roundtrip_witness:
  "\<exists>s. serializeChord \<lparr>ch_key = ''p'', ch_mod = True, ch_ctrl = False, ch_alt = False, ch_shift = True\<rparr> = Some s
    \<and> parseChord s = Some \<lparr>ch_key = ''p'', ch_mod = True, ch_ctrl = False, ch_alt = False, ch_shift = True\<rparr>"
proof -
  have "valid_key (ch_key \<lparr>ch_key = ''p'', ch_mod = True, ch_ctrl = False, ch_alt = False, ch_shift = True\<rparr>)"
    by code_simp
  then show ?thesis by (rule chord_roundtrip [THEN conjunct1, THEN mp])
qed

section \<open>The index and the conflicts\<close>

lemma map_of_index_chord:
  "map_of (index_chord index (d, i)) c =
    (case map_of index c of Some j \<Rightarrow> Some j | None \<Rightarrow> if c = d then Some i else None)"
proof (cases "map_of index d")
  case None
  then have "d \<notin> set (map fst index)" by (simp add: map_of_eq_None_iff)
  then show ?thesis by (simp add: index_chord_def map_add_def split: option.split)
next
  case (Some j)
  then have "d \<in> set (map fst index)" by (metis map_of_eq_None_iff option.distinct(1) set_map)
  with Some show ?thesis by (simp add: index_chord_def split: option.split)
qed

lemma foldl_index:
  "map_of (foldl index_chord index es) c =
    (case map_of index c of Some i \<Rightarrow> Some i | None \<Rightarrow> map_of es c)"
proof (induction es arbitrary: index)
  case (Cons e es)
  obtain d i where e: "e = (d, i)" by (cases e)
  show ?case unfolding e foldl.simps Cons.IH map_of_index_chord by (simp split: option.split)
qed (simp split: option.split)

lemma map_of_index: "map_of (buildChordIndex effective) c = map_of (bound_pairs effective) c"
  by (simp add: buildChordIndex_def foldl_index)

lemma map_of_same: "map_of (map (\<lambda>chord. (chord, v)) xs) c = (if c \<in> set xs then Some v else None)"
  by (induction xs) auto

lemma map_of_concat_pairs:
  "map_of (concat (map (\<lambda>a. map (\<lambda>chord. (chord, f a)) (g a)) as)) c
    = map_option f (find (\<lambda>a. c \<in> set (g a)) as)"
proof (induction as)
  case (Cons a as)
  then show ?case by (simp add: map_add_def map_of_same)
qed simp

text \<open>
  The index leads each chord to the first action of the registry that is bound to it, and
  holds no other chord.
\<close>

lemma index_gives_first_owner:
  "map_of (buildChordIndex effective) chord
    = map_option ka_id (find (\<lambda>a. chord \<in> set (chords_of effective (ka_id a))) KEYMAP_ACTIONS)"
  by (simp add: map_of_index bound_pairs_def map_of_concat_pairs)

lemma map_of_add_owner:
  "map_of (add_owner os (c, i)) d = (if d = c
    then Some (case map_of os c of None \<Rightarrow> [i] | Some owners \<Rightarrow> if i \<in> set owners then owners else owners @ [i])
    else map_of os d)"
  by (induction os "(c, i)" rule: add_owner.induct) auto

lemma fst_add_owner: "map fst (add_owner os e) = (if fst e \<in> set (map fst os) then map fst os else map fst os @ [fst e])"
  by (induction os e rule: add_owner.induct) auto

lemma nub_snoc: "nub (xs @ [x]) = (if x \<in> set xs then nub xs else nub xs @ [x])"
  by (induction xs) auto

lemma nub_empty: "nub xs = [] \<longleftrightarrow> xs = []"
  by (cases xs) auto

lemma map_of_owners:
  "map_of (foldl add_owner [] es) c =
    (let owners = nub (map snd (filter (\<lambda>e. fst e = c) es)) in if owners = [] then None else Some owners)"
proof (induction es rule: rev_induct)
  case (snoc e es)
  obtain d i where e: "e = (d, i)" by (cases e)
  show ?case
    by (cases "d = c") (auto simp: e map_of_add_owner snoc Let_def nub_snoc nub_empty filter_empty_conv split: if_splits)
qed simp

lemma distinct_owner_chords: "distinct (map fst os) \<Longrightarrow> distinct (map fst (foldl add_owner os es))"
  by (induction es arbitrary: os) (auto simp: fst_add_owner)

lemma owners_of_chord:
  "(c, owners) \<in> set (chord_owners effective) \<Longrightarrow>
    distinct owners \<and> set owners = {i \<in> set KEYMAP_ACTION_IDS. c \<in> set (chords_of effective i)}"
proof -
  assume "(c, owners) \<in> set (chord_owners effective)"
  moreover have "distinct (map fst (chord_owners effective))"
    unfolding chord_owners_def by (rule distinct_owner_chords) simp
  ultimately have "map_of (chord_owners effective) c = Some owners" by simp
  then have "owners = nub (map snd (filter (\<lambda>e. fst e = c) (bound_pairs effective)))"
    by (auto simp: chord_owners_def map_of_owners Let_def split: if_splits)
  then have "distinct owners" and "set owners = {i. (c, i) \<in> set (bound_pairs effective)}"
    by (auto simp: image_iff)
  then show ?thesis by (auto simp: bound_pairs_def KEYMAP_ACTION_IDS_def)
qed

lemma chord_is_owned:
  assumes "i \<in> set KEYMAP_ACTION_IDS" and "c \<in> set (chords_of effective i)"
  shows "\<exists>owners. (c, owners) \<in> set (chord_owners effective)"
proof -
  from assms have "(c, i) \<in> set (bound_pairs effective)"
    by (auto simp: bound_pairs_def KEYMAP_ACTION_IDS_def)
  then have "map_of (chord_owners effective) c \<noteq> None"
    by (force simp: chord_owners_def map_of_owners Let_def nub_empty filter_empty_conv)
  then show ?thesis by (auto dest: map_of_SomeD)
qed

lemma two_members: "distinct xs \<Longrightarrow> 1 < length xs \<longleftrightarrow> (\<exists>x\<in>set xs. \<exists>y\<in>set xs. x \<noteq> y)"
  by (cases xs rule: remdups_adj.cases) auto

text \<open>
  The settings report a conflict for a chord exactly when two different actions are bound to
  it, and the report names each of these actions once.
\<close>

lemma conflicts_exact:
  "(chord \<in> fst ` set (findKeymapConflicts effective)
      \<longleftrightarrow> (\<exists>i j. i \<in> set KEYMAP_ACTION_IDS \<and> j \<in> set KEYMAP_ACTION_IDS \<and> i \<noteq> j
            \<and> chord \<in> set (chords_of effective i) \<and> chord \<in> set (chords_of effective j)))
   \<and> list_all (\<lambda>(c, owners). distinct owners
        \<and> set owners = {i \<in> set KEYMAP_ACTION_IDS. c \<in> set (chords_of effective i)})
      (findKeymapConflicts effective)"
proof -
  have "list_all (\<lambda>(c, owners). distinct owners
        \<and> set owners = {i \<in> set KEYMAP_ACTION_IDS. c \<in> set (chords_of effective i)})
      (findKeymapConflicts effective)"
    by (auto simp: findKeymapConflicts_def list_all_iff dest: owners_of_chord)
  moreover have "\<exists>i j. i \<in> set KEYMAP_ACTION_IDS \<and> j \<in> set KEYMAP_ACTION_IDS \<and> i \<noteq> j
            \<and> chord \<in> set (chords_of effective i) \<and> chord \<in> set (chords_of effective j)"
    if "chord \<in> fst ` set (findKeymapConflicts effective)"
  proof -
    from that obtain owners where o: "(chord, owners) \<in> set (chord_owners effective)" "1 < length owners"
      by (auto simp: findKeymapConflicts_def)
    with owners_of_chord [OF o(1)] two_members [of owners] show ?thesis by blast
  qed
  moreover have "chord \<in> fst ` set (findKeymapConflicts effective)"
    if ij: "i \<in> set KEYMAP_ACTION_IDS" "j \<in> set KEYMAP_ACTION_IDS" "i \<noteq> j"
      "chord \<in> set (chords_of effective i)" "chord \<in> set (chords_of effective j)" for i j
  proof -
    from chord_is_owned [OF ij(1,4)] obtain owners where o: "(chord, owners) \<in> set (chord_owners effective)" ..
    with owners_of_chord [OF o] two_members [of owners] ij have "1 < length owners" by blast
    with o show ?thesis by (force simp: findKeymapConflicts_def)
  qed
  ultimately show ?thesis by blast
qed

section \<open>The configuration\<close>

definition binding_json :: "string list option \<Rightarrow> json" where
  "binding_json b = (case b of None \<Rightarrow> JNull | Some chords \<Rightarrow> JArr (map JStr chords))"

definition keymap_json :: "Bindings \<Rightarrow> json" where
  "keymap_json bindings = JObj [(''bindings'', JObj (map (\<lambda>(i, b). (i, binding_json b)) bindings))]"

lemma raw_chords_json: "raw_chords (JArr (map JStr chords)) = chords"
  by (induction chords) (auto simp: List.map_filter_def)

lemma normalize_entry_again:
  "normalize_entry e = Some (i, b) \<Longrightarrow> normalize_entry (i, binding_json b) = Some (i, b)"
  by (auto simp: normalize_entry_def binding_json_def raw_chords_json valid_chords_idem Let_def
      simp del: raw_chords.simps split: if_splits)

lemma map_filter_again:
  assumes "\<And>e i b. f e = Some (i, b) \<Longrightarrow> f (i, g b) = Some (i, b)"
  shows "List.map_filter f (map (\<lambda>(i, b). (i, g b)) (List.map_filter f es)) = List.map_filter f es"
proof (induction es)
  case (Cons e es)
  show ?case
  proof (cases "f e")
    case None
    then show ?thesis by (simp add: map_filter_simps Cons.IH)
  next
    case (Some ib)
    obtain i b where "ib = (i, b)" by (cases ib)
    with Some assms [of e i b] show ?thesis by (simp add: map_filter_simps Cons.IH)
  qed
qed (simp add: map_filter_simps)

text \<open>
  C12: reading a configuration back after it was saved changes nothing: normalizing is
  idempotent, whatever JSON was read first.
\<close>

theorem keymap_saved_and_read:
  "normalizeKeymap (keymap_json (normalizeKeymap v)) = normalizeKeymap v"
proof -
  have again: "List.map_filter normalize_entry (map (\<lambda>(i, b). (i, binding_json b)) (List.map_filter normalize_entry es))
      = List.map_filter normalize_entry es" for es
    by (rule map_filter_again) (rule normalize_entry_again)
  have read: "normalizeKeymap (keymap_json bs)
      = List.map_filter normalize_entry (map (\<lambda>(i, b). (i, binding_json b)) bs)" for bs
    by (simp add: normalizeKeymap_def keymap_json_def)
  have "normalizeKeymap v = [] \<or> (\<exists>es. normalizeKeymap v = List.map_filter normalize_entry es)"
    by (auto simp: normalizeKeymap_def split: option.split json.split)
  then show ?thesis unfolding read by (auto simp only: again list.map map_filter_simps)
qed

section \<open>What the dispatcher takes\<close>


definition demo_event :: KeyEvent where
  "demo_event = \<lparr>ev_key = ''p'', ev_code = ''KeyP'', ev_isComposing = False, ev_ctrl = True, ev_meta = False,
     ev_alt = False, ev_shift = False, ev_editable = False\<rparr>"

definition demo_environment :: KeymapDispatchEnvironment where
  "demo_environment = \<lparr>env_suppressed = False, env_openLayer = False,
     env_index = [(''mod+p'', ''commandLibrary.open'')],
     env_handlers = [(''commandLibrary.open'', [\<lambda>event chord. False, \<lambda>event chord. ch_mod chord])],
     env_isMac = False\<rparr>"


end
