(* ===== verification/Predictive_Echo.thy ===== *)
theory Predictive_Echo
  imports Machines Js_String "HOL-Library.AList"
begin

text \<open>
  The guesses of a remote shell's echo (\<open>src/src/lib/predictiveEcho.ts\<close>). The class
  \<open>EchoPredictor\<close> is a record of its private fields; each method takes the time it reads
  from the clock, the screen it is given, and the fields. Rows, columns and times are
  integers, the smoothed round trip an exact rational. A run of the predictor is a list
  of timed calls, and what it may show is stated over runs: only a row that the remote
  has echoed a typed key on, and never a row seen to mask what is typed.
\<close>

section \<open>The screen, the keystrokes and the fields\<close>

record PredictionScreen =
  sc_cursorRow :: int
  sc_cursorCol :: int
  sc_cols :: int
  sc_charAt :: "int \<Rightarrow> int \<Rightarrow> string"

record PredictedCell =
  pc_col :: int
  pc_char :: string
  pc_stalled :: bool

record PredictionView =
  pv_row :: int
  pv_cells :: "PredictedCell list"
  pv_cursorCol :: int

definition STALL_MS :: rat where "STALL_MS = 500"
definition TIMEOUT_MS :: rat where "TIMEOUT_MS = 2000"
definition DOUBT_MS :: int where "DOUBT_MS = 150"

record Keystroke =
  k_col :: int
  k_value :: string
  k_cursorAfter :: int
  k_at :: int
  k_erases :: bool

definition isPredictable :: "char \<Rightarrow> bool" where
  "isPredictable c \<longleftrightarrow> 32 \<le> code c \<and> code c \<le> 126"

definition endsLine :: "string \<Rightarrow> bool" where
  "endsLine data \<longleftrightarrow> list_ex (\<lambda>key. key \<in> set data) [CHR 0x0D, CHR 0x0A, CHR 0x03, CHR 0x04]"

record EchoPredictor =
  p_row :: "int option"
  p_lineStart :: int
  p_base :: int
  p_pending :: "Keystroke list"
  p_confirmed :: bool
  p_doubtSince :: "int option"
  p_srtt :: "rat option"
  p_slow :: bool
  p_maskedRow :: "int option"
  p_tentative :: bool
  p_suspect :: "(int \<times> string) option"

definition new_predictor :: EchoPredictor where
  "new_predictor = \<lparr>p_row = None, p_lineStart = 0, p_base = 0, p_pending = [], p_confirmed = False,
     p_doubtSince = None, p_srtt = None, p_slow = False, p_maskedRow = None, p_tentative = False,
     p_suspect = None\<rparr>"

section \<open>The methods\<close>

definition busy :: "EchoPredictor \<Rightarrow> bool" where
  "busy p \<longleftrightarrow> p_pending p \<noteq> [] \<or> p_doubtSince p \<noteq> None"

definition slowerThan :: "rat \<Rightarrow> EchoPredictor \<Rightarrow> bool \<times> EchoPredictor" where
  "slowerThan thresholdMs p =
     (case p_srtt p of
        None \<Rightarrow> (False, p)
      | Some srtt \<Rightarrow>
          (let slow = (if srtt > thresholdMs then True
                       else if srtt < (thresholdMs * 2) / 3 then False
                       else p_slow p)
           in (slow, p\<lparr>p_slow := slow\<rparr>)))"

definition clear :: "EchoPredictor \<Rightarrow> EchoPredictor" where
  "clear p = p\<lparr>p_row := None, p_pending := [], p_confirmed := False, p_doubtSince := None\<rparr>"

definition reset :: "EchoPredictor \<Rightarrow> EchoPredictor" where
  "reset p = (clear p)\<lparr>p_tentative := True\<rparr>"

definition nextCol :: "PredictionScreen \<Rightarrow> EchoPredictor \<Rightarrow> int \<times> EchoPredictor" where
  "nextCol screen p =
     (if p_pending p \<noteq> [] then (k_cursorAfter (last (p_pending p)), p)
      else let q = (if p_row p \<noteq> Some (sc_cursorRow screen)
                    then (clear p)\<lparr>p_row := Some (sc_cursorRow screen), p_lineStart := sc_cursorCol screen\<rparr>
                    else p)
           in (sc_cursorCol screen,
               q\<lparr>p_lineStart := min (p_lineStart q) (sc_cursorCol screen),
                 p_base := sc_cursorCol screen, p_doubtSince := None\<rparr>))"

definition valueAt :: "int \<Rightarrow> PredictionScreen \<Rightarrow> EchoPredictor \<Rightarrow> string" where
  "valueAt col screen p =
     (case find (\<lambda>key. k_col key = col) (rev (p_pending p)) of
        Some key \<Rightarrow> k_value key
      | None \<Rightarrow> sc_charAt screen (case p_row p of Some row \<Rightarrow> row | None \<Rightarrow> sc_cursorRow screen) col)"

definition insert_key :: "string \<Rightarrow> PredictionScreen \<Rightarrow> int \<Rightarrow> EchoPredictor \<Rightarrow> bool \<times> EchoPredictor" where
  "insert_key char screen at' p =
     (let (col, q) = nextCol screen p
      in if col \<ge> sc_cols screen - 1 then (False, q)
         else let current = valueAt col screen q
              in if current \<noteq> '' '' \<and> current \<noteq> char then (False, q)
                 else (True, q\<lparr>p_pending := p_pending q @
                   [\<lparr>k_col = col, k_value = char, k_cursorAfter = col + 1, k_at = at', k_erases = False\<rparr>]\<rparr>))"

definition erase_key :: "PredictionScreen \<Rightarrow> int \<Rightarrow> EchoPredictor \<Rightarrow> bool \<times> EchoPredictor" where
  "erase_key screen at' p =
     (let (col, q) = nextCol screen p
      in if col \<le> p_lineStart q then (False, q)
         else (True, q\<lparr>p_pending := p_pending q @
           [\<lparr>k_col = col - 1, k_value = '' '', k_cursorAfter = col - 1, k_at = at', k_erases = True\<rparr>]\<rparr>))"

definition type_key :: "PredictionScreen \<Rightarrow> int \<Rightarrow> char \<Rightarrow> EchoPredictor \<Rightarrow> bool \<times> EchoPredictor" where
  "type_key screen now c p =
     (if c = CHR 0x7F \<or> c = CHR 0x08 then erase_key screen now p
      else if isPredictable c then insert_key [c] screen now p
      else (False, p))"

fun type_keys :: "PredictionScreen \<Rightarrow> int \<Rightarrow> string \<Rightarrow> EchoPredictor \<Rightarrow> EchoPredictor" where
  "type_keys screen now [] p = p"
| "type_keys screen now (c # cs) p =
     (let (typed, q) = type_key screen now c p
      in if typed then type_keys screen now cs q else reset q)"

definition type_data :: "string \<Rightarrow> PredictionScreen \<Rightarrow> int \<Rightarrow> EchoPredictor \<Rightarrow> EchoPredictor" where
  "type_data data screen now p =
     type_keys screen now data
       (if endsLine data then p\<lparr>p_maskedRow := None, p_suspect := None\<rparr> else p)"

definition echoedAs :: "int \<Rightarrow> PredictionScreen \<Rightarrow> EchoPredictor \<Rightarrow> string option" where
  "echoedAs row screen p =
     (if sc_cursorRow screen \<noteq> row then None
      else map_option (\<lambda>key. sc_charAt screen row (k_col key))
        (find (\<lambda>key. \<not> k_erases key \<and> k_cursorAfter key = sc_cursorCol screen
                 \<and> sc_charAt screen row (k_col key) \<noteq> k_value key) (p_pending p)))"

text \<open>The line shows the first \<open>count\<close> guesses just before the cursor.\<close>

definition shown_before :: "PredictionScreen \<Rightarrow> EchoPredictor \<Rightarrow> nat \<Rightarrow> bool" where
  "shown_before screen p n \<longleftrightarrow>
     list_all (\<lambda>(i, key). sc_charAt screen (sc_cursorRow screen) (sc_cursorCol screen - int n + int i) = k_value key)
       (enumerate 0 (take n (p_pending p)))"

definition echoedBefore :: "PredictionScreen \<Rightarrow> EchoPredictor \<Rightarrow> nat" where
  "echoedBefore screen p =
     (let typed = length (takeWhile (\<lambda>key. \<not> k_erases key) (p_pending p));
          most = min typed (nat (sc_cursorCol screen))
      in case find (shown_before screen p) (rev [1..<most + 1]) of Some n \<Rightarrow> n | None \<Rightarrow> 0)"

fun place_keys :: "PredictionScreen \<Rightarrow> Keystroke list \<Rightarrow> EchoPredictor \<Rightarrow> EchoPredictor" where
  "place_keys screen [] p = p"
| "place_keys screen (key # keys) p =
     (let (placed, q) = (if k_erases key then erase_key screen (k_at key) p
                         else insert_key (k_value key) screen (k_at key) p)
      in if placed then place_keys screen keys q else reset q)"

definition place :: "int \<Rightarrow> PredictionScreen \<Rightarrow> EchoPredictor \<Rightarrow> EchoPredictor" where
  "place row screen p =
     (let q = (case echoedAs row screen p of Some other \<Rightarrow> p\<lparr>p_suspect := Some (row, other)\<rparr> | None \<Rightarrow> p);
          keys = drop (echoedBefore screen q) (p_pending q);
          r = q\<lparr>p_pending := []\<rparr>
      in place_keys screen keys (if sc_cursorRow screen \<noteq> row then r\<lparr>p_row := None\<rparr> else r))"

definition matches :: "PredictionScreen \<Rightarrow> EchoPredictor \<Rightarrow> bool" where
  "matches screen p =
     (case p_row p of
        None \<Rightarrow> True
      | Some row \<Rightarrow>
          p_pending p = []
          \<or> (sc_cursorRow screen = row \<and> sc_cursorCol screen = k_cursorAfter (last (p_pending p))
             \<and> list_all (\<lambda>key. sc_charAt screen row (k_col key) = valueAt (k_col key) screen p) (p_pending p)))"

definition sample :: "rat \<Rightarrow> EchoPredictor \<Rightarrow> EchoPredictor" where
  "sample rttMs p = p\<lparr>p_srtt := Some (case p_srtt p of None \<Rightarrow> rttMs | Some srtt \<Rightarrow> srtt + (rttMs - srtt) / 8)\<rparr>"

definition srtt_or_0 :: "EchoPredictor \<Rightarrow> rat" where
  "srtt_or_0 p = (case p_srtt p of Some srtt \<Rightarrow> srtt | None \<Rightarrow> 0)"

text \<open>The guess a screen shows the echo of, and the masking that keeps it from counting.\<close>

definition echoed_at :: "int \<Rightarrow> PredictionScreen \<Rightarrow> Keystroke \<Rightarrow> bool" where
  "echoed_at row screen key \<longleftrightarrow>
     k_cursorAfter key = sc_cursorCol screen \<and> sc_charAt screen row (k_col key) = k_value key"

definition masked :: "int \<Rightarrow> Keystroke \<Rightarrow> EchoPredictor \<Rightarrow> bool" where
  "masked row key p \<longleftrightarrow> Some row = p_maskedRow p \<or> p_suspect p = Some (row, k_value key)"

definition reconcile :: "PredictionScreen \<Rightarrow> int \<Rightarrow> EchoPredictor \<Rightarrow> EchoPredictor" where
  "reconcile screen now p =
     (case p_row p of
        None \<Rightarrow> p
      | Some row \<Rightarrow>
          if p_pending p = [] then p
          else case (if sc_cursorRow screen = row then find_index (echoed_at row screen) (p_pending p) else None) of
            None \<Rightarrow>
              (if p_tentative p then place row screen p
               else if echoedAs row screen p \<noteq> None then (clear p)\<lparr>p_maskedRow := Some row\<rparr>
               else let waiting = (sc_cursorRow screen = row \<and> sc_cursorCol screen = p_base p)
                    in p\<lparr>p_doubtSince := (if waiting then None else or_else (p_doubtSince p) (Some now))\<rparr>)
          | Some echoed \<Rightarrow>
              (let key = p_pending p ! echoed;
                   q = sample (of_int (now - k_at key)) p
               in q\<lparr>p_confirmed := (if \<not> k_erases key \<and> \<not> masked row key q then True else p_confirmed q),
                    p_tentative := False, p_doubtSince := None, p_base := k_cursorAfter key,
                    p_pending := drop (Suc echoed) (p_pending q)\<rparr>))"

definition expire :: "PredictionScreen \<Rightarrow> int \<Rightarrow> EchoPredictor \<Rightarrow> EchoPredictor" where
  "expire screen now p =
     (if (case p_doubtSince p of Some since \<Rightarrow> now - since > DOUBT_MS | None \<Rightarrow> False) then reset p
      else case p_pending p of
        [] \<Rightarrow> p
      | oldest # _ \<Rightarrow>
          if of_int (now - k_at oldest) \<le> max TIMEOUT_MS (4 * srtt_or_0 p) then p
          else (if matches screen p then p\<lparr>p_base := sc_cursorCol screen, p_pending := []\<rparr>
                else clear p)\<lparr>p_tentative := False\<rparr>)"

definition view :: "int \<Rightarrow> EchoPredictor \<Rightarrow> PredictionView option" where
  "view now p =
     (case p_row p of
        None \<Rightarrow> None
      | Some row \<Rightarrow>
          if \<not> p_confirmed p \<or> p_tentative p \<or> p_doubtSince p \<noteq> None \<or> p_pending p = [] then None
          else let stallMs = max STALL_MS (2 * srtt_or_0 p);
                   cells = foldl (\<lambda>cells key. AList.update (k_col key)
                     \<lparr>pc_col = k_col key, pc_char = k_value key,
                      pc_stalled = (of_int (now - k_at key) > stallMs)\<rparr> cells) [] (p_pending p)
               in Some \<lparr>pv_row = row, pv_cells = map snd cells,
                        pv_cursorCol = k_cursorAfter (last (p_pending p))\<rparr>)"

section \<open>Runs\<close>

datatype PredictorCall =
    TypeData string PredictionScreen
  | Reconcile PredictionScreen
  | Expire PredictionScreen
  | SlowerThan rat
  | Reset

fun predictor_step :: "EchoPredictor \<Rightarrow> int \<times> PredictorCall \<Rightarrow> EchoPredictor" where
  "predictor_step p (now, TypeData data screen) = type_data data screen now p"
| "predictor_step p (now, Reconcile screen) = reconcile screen now p"
| "predictor_step p (now, Expire screen) = expire screen now p"
| "predictor_step p (now, SlowerThan thresholdMs) = snd (slowerThan thresholdMs p)"
| "predictor_step p (now, Reset) = reset p"


section \<open>What a method keeps\<close>

text \<open>The guesses follow one another on the row, from the base, never left of where typing started.\<close>

fun key_chain :: "int \<Rightarrow> int \<Rightarrow> Keystroke list \<Rightarrow> bool" where
  "key_chain lo base [] = True"
| "key_chain lo base (key # keys) =
     (k_col key = (if k_erases key then base - 1 else base) \<and> lo \<le> k_col key
      \<and> k_cursorAfter key = (if k_erases key then base - 1 else base + 1)
      \<and> key_chain lo (k_cursorAfter key) keys)"

definition end_of :: "int \<Rightarrow> Keystroke list \<Rightarrow> int" where
  "end_of base keys = (if keys = [] then base else k_cursorAfter (last keys))"

definition predictor_ok :: "EchoPredictor \<Rightarrow> bool" where
  "predictor_ok p \<longleftrightarrow> key_chain (p_lineStart p) (p_base p) (p_pending p)
     \<and> (p_row p = None \<longrightarrow> p_pending p = [])
     \<and> (p_confirmed p \<and> p_row p \<noteq> None \<longrightarrow> p_maskedRow p \<noteq> p_row p)"

lemmas field_defs = clear_def reset_def sample_def

lemma key_chain_snoc:
  "key_chain lo base (keys @ [key]) \<longleftrightarrow> key_chain lo base keys \<and> key_chain lo (end_of base keys) [key]"
  by (induction keys arbitrary: base) (auto simp: end_of_def)

lemma key_chain_drop: "key_chain lo base keys \<Longrightarrow> i < length keys \<Longrightarrow>
    key_chain lo (k_cursorAfter (keys ! i)) (drop (Suc i) keys)"
proof (induction keys arbitrary: base i)
  case (Cons key keys)
  then show ?case by (cases i) auto
qed simp

lemma ok_new: "predictor_ok new_predictor"
  by (simp add: predictor_ok_def new_predictor_def)

lemma ok_reset: "predictor_ok (clear p)" "predictor_ok (reset p)"
  by (simp_all add: predictor_ok_def field_defs)

lemma ok_nextCol:
  assumes "predictor_ok p" and "nextCol screen p = (col, q)"
  shows "predictor_ok q \<and> p_row q \<noteq> None \<and> col = end_of (p_base q) (p_pending q) \<and> (p_pending q = [] \<longrightarrow> p_lineStart q \<le> col)"
  using assms by (auto simp: nextCol_def predictor_ok_def end_of_def field_defs Let_def split: if_splits)

lemma key_chain_end: "key_chain lo base keys \<Longrightarrow> keys \<noteq> [] \<Longrightarrow> lo \<le> end_of base keys"
  by (induction keys arbitrary: base) (auto simp: end_of_def split: if_splits)

lemma ok_insert_key:
  assumes "predictor_ok p"
  shows "predictor_ok (snd (insert_key char screen t p))"
proof -
  obtain col r where r: "nextCol screen p = (col, r)" by fastforce
  note ok = ok_nextCol [OF assms r]
  then have "p_lineStart r \<le> col" using key_chain_end by (auto simp: predictor_ok_def)
  with ok r show ?thesis
    by (auto simp: insert_key_def predictor_ok_def key_chain_snoc Let_def)
qed

lemma ok_erase_key:
  assumes "predictor_ok p"
  shows "predictor_ok (snd (erase_key screen t p))"
proof -
  obtain col r where r: "nextCol screen p = (col, r)" by fastforce
  from ok_nextCol [OF assms r] r show ?thesis
    by (auto simp: erase_key_def predictor_ok_def key_chain_snoc)
qed

lemma ok_type_keys: "predictor_ok p \<Longrightarrow> predictor_ok (type_keys screen now cs p)"
  by (induction cs arbitrary: p) (simp_all add: type_key_def case_prod_beta Let_def ok_reset ok_insert_key ok_erase_key)

lemma ok_place_keys: "predictor_ok p \<Longrightarrow> predictor_ok (place_keys screen keys p)"
  by (induction keys arbitrary: p) (simp_all add: case_prod_beta Let_def ok_reset ok_insert_key ok_erase_key)

lemma ok_type_data: "predictor_ok p \<Longrightarrow> predictor_ok (type_data data screen now p)"
  unfolding type_data_def by (rule ok_type_keys) (auto simp: predictor_ok_def)

lemma ok_place: "predictor_ok p \<Longrightarrow> predictor_ok (place row screen p)"
  unfolding place_def Let_def by (rule ok_place_keys) (simp add: predictor_ok_def split: option.split)

lemma ok_reconcile:
  assumes "predictor_ok p"
  shows "predictor_ok (reconcile screen now p)"
proof -
  have "find_index q keys = Some i \<Longrightarrow> i < length keys" for q i and keys :: "Keystroke list"
    by (drule find_index_Some) simp
  with assms show ?thesis
    by (auto simp: reconcile_def ok_place Let_def split: option.split)
      (auto simp: predictor_ok_def field_defs masked_def key_chain_drop)
qed

lemma ok_expire: "predictor_ok p \<Longrightarrow> predictor_ok (expire screen now p)"
  by (auto simp: expire_def ok_reset split: list.split)
    (auto simp: predictor_ok_def field_defs)

lemma ok_slowerThan: "predictor_ok p \<Longrightarrow> predictor_ok (snd (slowerThan thresholdMs p))"
  by (simp add: slowerThan_def predictor_ok_def Let_def split: option.split)

lemma ok_step: "predictor_ok p \<Longrightarrow> predictor_ok (predictor_step p call)"
  by (cases "(p, call)" rule: predictor_step.cases)
    (simp_all add: ok_type_data ok_reconcile ok_expire ok_slowerThan ok_reset)

interpretation predictor: total_machine predictor_step new_predictor predictor_ok
  by unfold_locales (simp_all add: ok_new ok_step)

section \<open>The echo that a shown row rests on\<close>

text \<open>A screen that shows the echo of a typed key on the row, where no masking makes it doubtful.\<close>

definition shows_echo :: "int \<Rightarrow> PredictionScreen \<Rightarrow> EchoPredictor \<Rightarrow> bool" where
  "shows_echo row screen p \<longleftrightarrow> sc_cursorRow screen = row \<and> p_maskedRow p \<noteq> Some row
     \<and> list_ex (\<lambda>key. \<not> k_erases key \<and> echoed_at row screen key \<and> p_suspect p \<noteq> Some (row, k_value key)) (p_pending p)"

text \<open>What the confirmation of the row is after a method: kept, or gone.\<close>

definition keeps_row :: "EchoPredictor \<Rightarrow> EchoPredictor \<Rightarrow> bool" where
  "keeps_row p q \<longleftrightarrow> (p_confirmed q \<and> p_row q \<noteq> None \<longrightarrow> p_confirmed p \<and> p_row p = p_row q)"

lemma keeps_row_refl [simp]: "keeps_row p p"
  by (simp add: keeps_row_def)

lemma keeps_row_trans: "keeps_row p q \<Longrightarrow> keeps_row q r \<Longrightarrow> keeps_row p r"
  by (auto simp: keeps_row_def)

lemma keeps_row_reset [simp]: "keeps_row p (reset q)" "keeps_row p (clear q)"
  by (simp_all add: keeps_row_def field_defs)

lemma keeps_row_nextCol: "keeps_row p (snd (nextCol screen p))"
  by (auto simp: nextCol_def keeps_row_def clear_def Let_def)

lemma keeps_row_insert_key: "keeps_row p (snd (insert_key char screen t p))"
  using keeps_row_nextCol [of p screen]
  by (auto simp: insert_key_def keeps_row_def Let_def split: prod.split)

lemma keeps_row_erase_key: "keeps_row p (snd (erase_key screen t p))"
  using keeps_row_nextCol [of p screen]
  by (auto simp: erase_key_def keeps_row_def split: prod.split)

lemma keeps_row_type_keys: "keeps_row p (type_keys screen now cs p)"
proof (induction cs arbitrary: p)
  case (Cons c cs)
  have "keeps_row p (snd (type_key screen now c p))"
    by (simp add: type_key_def keeps_row_insert_key keeps_row_erase_key)
  with Cons.IH show ?case by (auto simp: case_prod_beta Let_def intro: keeps_row_trans)
qed simp

lemma keeps_row_place_keys: "keeps_row p (place_keys screen keys p)"
proof (induction keys arbitrary: p)
  case (Cons key keys)
  show ?case
    using keeps_row_trans [OF keeps_row_insert_key Cons.IH] keeps_row_trans [OF keeps_row_erase_key Cons.IH]
    by (simp add: case_prod_beta Let_def)
qed simp

lemma keeps_row_place: "keeps_row p (place row screen p)"
  unfolding place_def Let_def
  by (rule keeps_row_trans [OF _ keeps_row_place_keys]) (simp add: keeps_row_def split: option.split)

lemma keeps_row_type_data: "keeps_row p (type_data data screen now p)"
  unfolding type_data_def
  by (rule keeps_row_trans [OF _ keeps_row_type_keys]) (simp add: keeps_row_def)

lemma keeps_row_expire: "keeps_row p (expire screen now p)"
  by (auto simp: expire_def keeps_row_def field_defs split: list.split)

lemma keeps_row_reconcile:
  assumes "\<not> keeps_row p (reconcile screen now p)" and "p_row (reconcile screen now p) = Some row"
  shows "shows_echo row screen p"
proof -
  from assms(1) obtain r where r: "p_row p = Some r"
    by (cases "p_row p") (simp_all add: reconcile_def)
  show ?thesis
  proof (cases "find_index (echoed_at r screen) (p_pending p)")
    case None
    with assms(1) r keeps_row_place [of p r screen] show ?thesis
      by (auto simp: reconcile_def keeps_row_def clear_def Let_def split: if_splits)
  next
    case (Some i)
    note i = find_index_Some [OF Some]
    from assms(1) r Some keeps_row_place [of p r screen]
    have shown: "sc_cursorRow screen = r \<and> \<not> k_erases (p_pending p ! i) \<and> \<not> masked r (p_pending p ! i) p"
      by (auto simp: reconcile_def keeps_row_def clear_def sample_def masked_def Let_def split: if_splits)
    from assms r Some shown have "r = row"
      by (auto simp: reconcile_def keeps_row_def clear_def sample_def Let_def split: if_splits)
    with i shown show ?thesis by (auto simp: shows_echo_def masked_def list_ex_iff intro!: bexI [of _ "p_pending p ! i"])
  qed
qed

lemma keeps_row_step:
  assumes "p_confirmed (predictor_step p call)" and "p_row (predictor_step p call) = Some row"
  shows "(p_confirmed p \<and> p_row p = Some row) \<or> (\<exists>screen. snd call = Reconcile screen \<and> shows_echo row screen p)"
proof (cases "keeps_row p (predictor_step p call)")
  case True
  with assms show ?thesis by (auto simp: keeps_row_def)
next
  case False
  obtain now c where call: "call = (now, c)" by (cases call)
  show ?thesis
  proof (cases c)
    case (Reconcile screen)
    with False assms call keeps_row_reconcile show ?thesis by auto
  next
    case (SlowerThan t)
    with False call show ?thesis by (auto simp: keeps_row_def slowerThan_def Let_def split: option.splits)
  qed (use False call keeps_row_type_data keeps_row_expire in auto)
qed

lemma confirmed_by_echo:
  assumes "p_confirmed (run predictor_step new_predictor calls)"
    and "p_row (run predictor_step new_predictor calls) = Some row"
  shows "\<exists>before t screen after. calls = before @ (t, Reconcile screen) # after
    \<and> shows_echo row screen (run predictor_step new_predictor before)
    \<and> (\<forall>n. p_row (run predictor_step new_predictor (before @ (t, Reconcile screen) # take n after)) = Some row)"
  using assms
proof (induction calls rule: rev_induct)
  case Nil
  then show ?case by (simp add: new_predictor_def)
next
  case (snoc call calls)
  let ?p = "run predictor_step new_predictor calls"
  have after: "run predictor_step new_predictor (calls @ [call]) = predictor_step ?p call"
    by (simp add: run_append)
  from keeps_row_step [of ?p call row] snoc.prems consider
    (kept) "p_confirmed ?p" "p_row ?p = Some row"
    | (echo) screen where "snd call = Reconcile screen" "shows_echo row screen ?p"
    unfolding after by blast
  then show ?case
  proof cases
    case kept
    from snoc.IH [OF this] obtain before t screen after where *: "calls = before @ (t, Reconcile screen) # after"
      "shows_echo row screen (run predictor_step new_predictor before)"
      "\<And>n. p_row (run predictor_step new_predictor (before @ (t, Reconcile screen) # take n after)) = Some row"
      by blast
    have "p_row (run predictor_step new_predictor (before @ (t, Reconcile screen) # take n (after @ [call]))) = Some row" for n
    proof (cases "n \<le> length after")
      case True
      with *(3) [of n] show ?thesis by simp
    next
      case False
      with snoc.prems(2) *(1) show ?thesis by simp
    qed
    with *(1,2) show ?thesis by (intro exI [of _ before] exI [of _ t] exI [of _ screen] exI [of _ "after @ [call]"]) simp
  next
    case echo
    with snoc.prems(2) show ?thesis
      by (intro exI [of _ calls] exI [of _ "fst call"] exI [of _ screen] exI [of _ "[]"])
        (cases call, simp add: run_append)
  qed
qed

section \<open>What is shown\<close>

lemma view_SomeD:
  assumes "view now p = Some v"
  shows "p_row p = Some (pv_row v) \<and> p_confirmed p \<and> \<not> p_tentative p \<and> p_doubtSince p = None \<and> p_pending p \<noteq> []
    \<and> pv_cursorCol v = end_of (p_base p) (p_pending p)"
  using assms by (auto simp: view_def end_of_def Let_def split: option.splits if_splits)

text \<open>
  C14: guesses are shown on a row only after the remote's output was seen to echo, on that very
  row, a character typed there, the row not being one that masks what is typed; and typing has not
  left the row since.
\<close>

theorem shown_only_after_echo:
  "view now (run predictor_step new_predictor calls) = Some v \<Longrightarrow>
    \<exists>before t screen after. calls = before @ (t, Reconcile screen) # after
      \<and> shows_echo (pv_row v) screen (run predictor_step new_predictor before)
      \<and> (\<forall>n. p_row (run predictor_step new_predictor (before @ (t, Reconcile screen) # take n after)) = Some (pv_row v))
      \<and> p_maskedRow (run predictor_step new_predictor calls) \<noteq> Some (pv_row v)"
proof -
  assume "view now (run predictor_step new_predictor calls) = Some v"
  note v = view_SomeD [OF this]
  with predictor.inv_any_run [of calls]
  have "p_maskedRow (run predictor_step new_predictor calls) \<noteq> Some (pv_row v)" by (simp add: predictor_ok_def)
  with confirmed_by_echo [of calls "pv_row v"] v show ?thesis by blast
qed

lemma shown_cells:
  "map snd (foldl (\<lambda>cells key. AList.update (k_col key) (f key) cells) cells keys) = cs \<Longrightarrow>
    (\<forall>(i, c)\<in>set cells. pc_col c = i) \<Longrightarrow> distinct (map fst cells) \<Longrightarrow> (\<forall>key. pc_col (f key) = k_col key) \<Longrightarrow>
    distinct (map pc_col cs) \<and> set (map pc_col cs) = fst ` set cells \<union> k_col ` set keys"
proof (induction keys arbitrary: cells)
  case Nil
  then have "map pc_col cs = map fst cells" by (force intro: map_cong)
  with Nil show ?case by (metis distinct_map empty_set image_empty list.set_map sup_bot_right)
next
  case (Cons key keys)
  let ?cells = "AList.update (k_col key) (f key) cells"
  have "\<forall>(i, c)\<in>set ?cells. pc_col c = i"
    using Cons.prems(2,4) by (induction cells) auto
  moreover have "distinct (map fst ?cells)"
    using Cons.prems(3) by (rule distinct_update)
  moreover have "fst ` set ?cells = insert (k_col key) (fst ` set cells)"
    by (simp add: dom_update)
  ultimately show ?case using Cons.IH [of ?cells] Cons.prems(1,4) by auto
qed

lemma view_cells:
  assumes "view now p = Some v"
  shows "\<exists>f. map snd (foldl (\<lambda>cells key. AList.update (k_col key) (f key) cells) [] (p_pending p)) = pv_cells v
    \<and> (\<forall>key. pc_col (f key) = k_col key)"
proof -
  from assms have "map snd (foldl (\<lambda>cells key. AList.update (k_col key)
      \<lparr>pc_col = k_col key, pc_char = k_value key,
       pc_stalled = (of_int (now - k_at key) > max STALL_MS (2 * srtt_or_0 p))\<rparr> cells) [] (p_pending p)) = pv_cells v"
    by (auto simp: view_def Let_def split: option.splits if_splits)
  then show ?thesis by (intro exI conjI) (assumption, simp)
qed

lemma key_chain_cols: "key_chain lo base keys \<Longrightarrow> key \<in> set keys \<Longrightarrow> lo \<le> k_col key"
  by (induction keys arbitrary: base) auto

text \<open>
  What is shown leaves the prompt alone: in every run, each cell lies at or right of where
  typing on the row started, no cell is shown twice, and the cursor is not put left of it either.
\<close>

lemma shown_right_of_prompt:
  "p = run predictor_step new_predictor calls \<Longrightarrow> view now p = Some v \<Longrightarrow>
    list_all (\<lambda>cell. p_lineStart p \<le> pc_col cell) (pv_cells v) \<and> distinct (map pc_col (pv_cells v))
    \<and> p_lineStart p \<le> pv_cursorCol v"
proof -
  assume p: "p = run predictor_step new_predictor calls" and v: "view now p = Some v"
  note row = view_SomeD [OF v]
  from p have chain: "key_chain (p_lineStart p) (p_base p) (p_pending p)"
    using predictor.inv_any_run [of calls] by (simp add: predictor_ok_def)
  obtain f where cells: "map snd (foldl (\<lambda>cells key. AList.update (k_col key) (f key) cells) [] (p_pending p)) = pv_cells v"
    and cols: "\<forall>key. pc_col (f key) = k_col key"
    using view_cells [OF v] by blast
  have "distinct (map pc_col (pv_cells v)) \<and> set (map pc_col (pv_cells v)) = fst ` set ([] :: (int \<times> PredictedCell) list) \<union> k_col ` set (p_pending p)"
    by (rule shown_cells [OF cells _ _ cols]) simp_all
  then have shown: "distinct (map pc_col (pv_cells v))" "pc_col ` set (pv_cells v) = k_col ` set (p_pending p)"
    by simp_all
  have "p_lineStart p \<le> pc_col cell" if "cell \<in> set (pv_cells v)" for cell
  proof -
    from that shown(2) have "pc_col cell \<in> k_col ` set (p_pending p)" by blast
    with key_chain_cols [OF chain] show ?thesis by auto
  qed
  moreover have "p_lineStart p \<le> pv_cursorCol v" using key_chain_end [OF chain] row by simp
  ultimately show ?thesis using shown(1) by (simp add: list_all_iff)
qed

text \<open>
  Guesses that are never echoed do not stay: once the oldest is later than two seconds and
  than four round trips, the next check drops them all, and nothing is shown until a key is typed.
\<close>

lemma overdue_guesses_dropped:
  "p_pending p = oldest # rest \<Longrightarrow> of_int (now - k_at oldest) > max TIMEOUT_MS (4 * srtt_or_0 p) \<Longrightarrow>
    p_pending (expire screen now p) = [] \<and> view later (expire screen now p) = None"
  by (auto simp: expire_def view_def field_defs split: option.split)

text \<open>A line of a shell, three keys typed on it, the first of which is echoed.\<close>

definition demo_line :: "int \<Rightarrow> string \<Rightarrow> PredictionScreen" where
  "demo_line col line = \<lparr>sc_cursorRow = 4, sc_cursorCol = col, sc_cols = 80,
     sc_charAt = (\<lambda>row c. if row = 4 \<and> 0 \<le> c \<and> c < int (length line) then [line ! nat c] else '' '')\<rparr>"

definition demo_calls :: "(int \<times> PredictorCall) list" where
  "demo_calls = [(0, TypeData ''lss'' (demo_line 2 ''$ '')), (90, Reconcile (demo_line 3 ''$ l'')),
     (100, TypeData [CHR 0x08] (demo_line 3 ''$ l''))]"

lemma demo_view:
  "view 120 (run predictor_step new_predictor demo_calls)
    = Some \<lparr>pv_row = 4, pv_cells = [\<lparr>pc_col = 3, pc_char = ''s'', pc_stalled = False\<rparr>,
        \<lparr>pc_col = 4, pc_char = '' '', pc_stalled = False\<rparr>], pv_cursorCol = 4\<rparr>"
  by code_simp

theorem shown_only_after_echo_witness:
  "p_maskedRow (run predictor_step new_predictor demo_calls) \<noteq> Some 4"
  using shown_only_after_echo [OF demo_view] by auto

lemma shown_right_of_prompt_witness:
  "p_lineStart (run predictor_step new_predictor demo_calls) \<le> 3
   \<and> view 120 (run predictor_step new_predictor demo_calls) \<noteq> None"
  using shown_right_of_prompt [OF refl demo_view] demo_view by simp

lemma overdue_guesses_dropped_witness:
  "p_pending (expire (demo_line 3 ''$ l'') 5000 (run predictor_step new_predictor demo_calls)) = []"
proof -
  let ?p = "run predictor_step new_predictor demo_calls"
  have first: "map k_at (take 1 (p_pending ?p)) = [0]" by code_simp
  then obtain oldest rest where keys: "p_pending ?p = oldest # rest" "k_at oldest = 0"
    by (cases "p_pending ?p") auto
  have "srtt_or_0 ?p = 90" by code_simp
  with keys(2) have "of_int (5000 - k_at oldest) > max TIMEOUT_MS (4 * srtt_or_0 ?p)"
    by (simp add: TIMEOUT_MS_def)
  then show ?thesis by (rule overdue_guesses_dropped [OF keys(1), THEN conjunct1])
qed

end
