(* ===== verification/Serial_Settings.thy ===== *)
theory Serial_Settings
  imports Tab_Types Json
begin

text \<open>
  Serial connections (\<open>src/src/lib/serial.ts\<close>): reading saved settings, typed bytes in
  hexadecimal, the local echo and the time stamps of received lines. Settings are read
  from any JSON value; a property is missing when it is not there. A time is what the
  local clock shows. The echo line of the send bar, which shows an arrow outside the
  character range of the model, is left out.
\<close>

section \<open>Settings\<close>

definition SERIAL_BAUD_RATES :: "nat list" where
  "SERIAL_BAUD_RATES = [300, 1200, 2400, 4800, 9600, 14400, 19200, 38400, 57600, 74880, 115200, 230400,
     250000, 460800, 500000, 921600, 1000000, 1500000, 2000000, 3000000]"

definition SERIAL_DATA_BITS :: "(json \<times> nat) list" where
  "SERIAL_DATA_BITS = [(JNum 5, 5), (JNum 6, 6), (JNum 7, 7), (JNum 8, 8)]"

definition SERIAL_STOP_BITS :: "(json \<times> nat) list" where
  "SERIAL_STOP_BITS = [(JNum 1, 1), (JNum 2, 2)]"

definition SERIAL_PARITIES :: "(json \<times> SerialParity) list" where
  "SERIAL_PARITIES = [(JStr ''none'', ParityNone), (JStr ''odd'', ParityOdd), (JStr ''even'', ParityEven)]"

definition SERIAL_FLOW_CONTROLS :: "(json \<times> SerialFlowControl) list" where
  "SERIAL_FLOW_CONTROLS = [(JStr ''none'', FlowNone), (JStr ''software'', FlowSoftware), (JStr ''hardware'', FlowHardware)]"

definition SERIAL_LINE_ENDINGS :: "(json \<times> SerialLineEnding) list" where
  "SERIAL_LINE_ENDINGS = [(JStr ''cr'', LineCr), (JStr ''lf'', LineLf), (JStr ''crlf'', LineCrlf)]"

definition SERIAL_RECEIVE_NEWLINES :: "(json \<times> SerialReceiveNewline) list" where
  "SERIAL_RECEIVE_NEWLINES = [(JStr ''none'', ReceiveNone), (JStr ''cr'', ReceiveCr), (JStr ''lf'', ReceiveLf)]"

definition DEFAULT_SERIAL_SETTINGS :: SerialSettings where
  "DEFAULT_SERIAL_SETTINGS = \<lparr>ser_port = [], ser_baudRate = 115200, ser_dataBits = 8, ser_parity = ParityNone,
     ser_stopBits = 1, ser_flowControl = FlowNone, ser_lineEnding = LineCr, ser_receiveNewline = ReceiveNone,
     ser_localEcho = False, ser_timestamps = False, ser_hexView = False, ser_usb = None\<rparr>"

text \<open>A choice written in JSON, looked up among the choices.\<close>

definition oneOf :: "(json \<times> 'a) list \<Rightarrow> json option \<Rightarrow> 'a \<Rightarrow> 'a" where
  "oneOf choices v fallback = or_default (Option.bind v (map_of choices)) fallback"

subsection \<open>\<open>Number(value)\<close>\<close>

text \<open>The value of digits in a base; \<open>None\<close> for none at all, or for any other character.\<close>

definition any_digit :: "char \<Rightarrow> nat option" where
  "any_digit c =
     (if is_digit c then Some (code c - 48)
      else if is_lower c then Some (code c - 87)
      else if is_upper c then Some (code c - 55)
      else None)"

definition digits_in :: "nat \<Rightarrow> string \<Rightarrow> nat option" where
  "digits_in base s =
     (if s \<noteq> [] \<and> list_all (\<lambda>c. case any_digit c of Some d \<Rightarrow> d < base | None \<Rightarrow> False) s
      then Some (foldl (\<lambda>a c. base * a + or_default (any_digit c) 0) 0 s)
      else None)"

text \<open>\<open>12.5e3\<close> without a sign: digits, a fraction, an exponent; at least one digit before the exponent.\<close>

definition unsigned_number :: "string \<Rightarrow> rat option" where
  "unsigned_number s =
     (let mantissa = takeWhile (\<lambda>c. c \<notin> set ''eE'') s;
          exponent = drop (length mantissa) s;
          whole = takeWhile (\<lambda>c. c \<noteq> CHR ''.'') mantissa;
          fraction = drop (length whole + 1) mantissa;
          sign = take 1 (drop 1 exponent);
          power = (if exponent = [] then Some 0
                   else if sign = ''-'' then map_option (\<lambda>n. - int n) (digits_in 10 (drop 2 exponent))
                   else if sign = ''+'' then map_option int (digits_in 10 (drop 2 exponent))
                   else map_option int (digits_in 10 (drop 1 exponent)))
      in case (digits_in 10 (whole @ fraction), power) of
           (Some n, Some p) \<Rightarrow> Some (of_nat n * power_int 10 (p - int (length fraction)))
         | _ \<Rightarrow> None)"

text \<open>A number written in a string; \<open>None\<close> for \<open>NaN\<close> and the infinities.\<close>

definition number_of_string :: "string \<Rightarrow> rat option" where
  "number_of_string text =
     (let s = trim text; prefix = take 2 s; rest = drop 2 s
      in if s = [] then Some 0
         else if prefix = ''0x'' \<or> prefix = ''0X'' then map_option of_nat (digits_in 16 rest)
         else if prefix = ''0o'' \<or> prefix = ''0O'' then map_option of_nat (digits_in 8 rest)
         else if prefix = ''0b'' \<or> prefix = ''0B'' then map_option of_nat (digits_in 2 rest)
         else if take 1 s = ''-'' then map_option uminus (unsigned_number (drop 1 s))
         else if take 1 s = ''+'' then unsigned_number (drop 1 s)
         else unsigned_number s)"

text \<open>
  \<open>Number\<close> of a JSON value; an array is its items joined, so one of a single item is that
  item, but for a boolean, which joins as a word.
\<close>

fun js_number :: "json \<Rightarrow> rat option" where
  "js_number JNull = Some 0"
| "js_number (JBool b) = Some (if b then 1 else 0)"
| "js_number (JNum n) = Some n"
| "js_number (JStr s) = number_of_string s"
| "js_number (JArr []) = Some 0"
| "js_number (JArr [JBool b]) = None"
| "js_number (JArr [v]) = js_number v"
| "js_number (JArr vs) = None"
| "js_number (JObj props) = None"

definition is_integer :: "rat \<Rightarrow> bool" where
  "is_integer n \<longleftrightarrow> of_int \<lfloor>n\<rfloor> = n"

definition integer_field :: "json \<Rightarrow> string \<Rightarrow> int option" where
  "integer_field v name =
     (case field v name of Some (JNum n) \<Rightarrow> if is_integer n then Some \<lfloor>n\<rfloor> else None | _ \<Rightarrow> None)"

definition normalizeUsbId :: "json option \<Rightarrow> SerialUsbId option" where
  "normalizeUsbId value =
     (case value of
        None \<Rightarrow> None
      | Some v \<Rightarrow>
          (case (integer_field v ''vid'', integer_field v ''pid'') of
             (Some vid, Some pid) \<Rightarrow>
               Some \<lparr>usb_vid = vid, usb_pid = pid,
                 usb_serialNumber = (case string_field v ''serialNumber'' of
                    Some s \<Rightarrow> if s \<noteq> [] then Some s else None | None \<Rightarrow> None)\<rparr>
           | _ \<Rightarrow> None))"

definition baud_rate :: "rat option \<Rightarrow> nat" where
  "baud_rate n =
     (case n of
        Some n \<Rightarrow> if is_integer n \<and> n > 0 then nat \<lfloor>n\<rfloor> else ser_baudRate DEFAULT_SERIAL_SETTINGS
      | None \<Rightarrow> ser_baudRate DEFAULT_SERIAL_SETTINGS)"

definition normalizeSerialSettings :: "json option \<Rightarrow> SerialSettings" where
  "normalizeSerialSettings value =
     (let raw = (case value of Some v \<Rightarrow> if is_object v then v else JObj [] | None \<Rightarrow> JObj [])
      in \<lparr>ser_port = (case string_field raw ''port'' of Some p \<Rightarrow> trim p | None \<Rightarrow> []),
          ser_baudRate = baud_rate (Option.bind (field raw ''baudRate'') js_number),
          ser_dataBits = oneOf SERIAL_DATA_BITS (field raw ''dataBits'') 8,
          ser_parity = oneOf SERIAL_PARITIES (field raw ''parity'') ParityNone,
          ser_stopBits = oneOf SERIAL_STOP_BITS (field raw ''stopBits'') 1,
          ser_flowControl = oneOf SERIAL_FLOW_CONTROLS (field raw ''flowControl'') FlowNone,
          ser_lineEnding = oneOf SERIAL_LINE_ENDINGS (field raw ''lineEnding'') LineCr,
          ser_receiveNewline = oneOf SERIAL_RECEIVE_NEWLINES (field raw ''receiveNewline'') ReceiveNone,
          ser_localEcho = (field raw ''localEcho'' = Some (JBool True)),
          ser_timestamps = (field raw ''timestamps'' = Some (JBool True)),
          ser_hexView = (field raw ''hexView'' = Some (JBool True)),
          ser_usb = normalizeUsbId (field raw ''usb'')\<rparr>)"

subsection \<open>Showing settings and ports\<close>

definition parity_letter :: "SerialParity \<Rightarrow> string" where
  "parity_letter p = (case p of ParityNone \<Rightarrow> ''N'' | ParityOdd \<Rightarrow> ''O'' | ParityEven \<Rightarrow> ''E'')"

definition serialFraming :: "SerialSettings \<Rightarrow> string" where
  "serialFraming settings =
     show_nat (ser_dataBits settings) @ parity_letter (ser_parity settings) @ show_nat (ser_stopBits settings)"

definition serialSummary :: "SerialSettings \<Rightarrow> string" where
  "serialSummary settings = show_nat (ser_baudRate settings) @ '' '' @ serialFraming settings"

definition hex_char :: "nat \<Rightarrow> char" where
  "hex_char d = char_of (if d < 10 then 48 + d else 55 + d)"

fun show_hex :: "nat \<Rightarrow> string" where
  "show_hex n = (if n < 16 then [hex_char n] else show_hex (n div 16) @ [hex_char (n mod 16)])"

declare show_hex.simps [simp del]

definition pad_start :: "nat \<Rightarrow> char \<Rightarrow> string \<Rightarrow> string" where
  "pad_start width c s = replicate (width - length s) c @ s"

definition show_hex_int :: "int \<Rightarrow> string" where
  "show_hex_int n = (if n < 0 then CHR ''-'' # show_hex (nat (- n)) else show_hex (nat n))"

definition formatUsbId :: "SerialUsbId \<Rightarrow> string" where
  "formatUsbId usb = pad_start 4 (CHR ''0'') (show_hex_int (usb_vid usb)) @ '':''
     @ pad_start 4 (CHR ''0'') (show_hex_int (usb_pid usb))"

record SerialPortEntry =
  spe_path :: string
  spe_usb :: "SerialUsbId option"
  spe_manufacturer :: "string option"
  spe_product :: "string option"

text \<open>\<open>a?.trim() || b?.trim() || undefined\<close>.\<close>

definition serialPortDescription :: "SerialPortEntry \<Rightarrow> string option" where
  "serialPortDescription entry =
     (let product = map_option trim (spe_product entry); manufacturer = map_option trim (spe_manufacturer entry)
      in if truthy product then product else if truthy manufacturer then manufacturer else None)"

definition withSerialPort :: "SerialSettings \<Rightarrow> SerialPortEntry \<Rightarrow> SerialSettings" where
  "withSerialPort settings entry = settings\<lparr>ser_port := spe_path entry, ser_usb := spe_usb entry\<rparr>"

section \<open>Text sent and received\<close>

abbreviation CR :: char where "CR \<equiv> CHR 0x0D"
abbreviation LF :: char where "LF \<equiv> CHR 0x0A"
abbreviation ESC :: char where "ESC \<equiv> CHR 0x1B"

text \<open>\<open>split("\r\n").join("\r")\<close>.\<close>

fun crlf_to_cr :: "string \<Rightarrow> string" where
  "crlf_to_cr (c # d # s) = (if c = CR \<and> d = LF then CR # crlf_to_cr s else c # crlf_to_cr (d # s))"
| "crlf_to_cr s = s"

definition echo_char :: "char \<Rightarrow> string" where
  "echo_char c =
     (if c = CR then [CR, LF]
      else if c = CHR 0x7F \<or> c = CHR 0x08 then [CHR 0x08, CHR '' '', CHR 0x08]
      else [c])"

definition localEchoText :: "string \<Rightarrow> string" where
  "localEchoText data = (if starts_with data [ESC] then [] else concat (map echo_char (crlf_to_cr data)))"

record Clock =
  cl_hours :: nat
  cl_minutes :: nat
  cl_seconds :: nat
  cl_milliseconds :: nat

definition formatClock :: "Clock \<Rightarrow> string" where
  "formatClock now =
     (let pad = (\<lambda>value width. pad_start width (CHR ''0'') (show_nat value))
      in pad (cl_hours now) 2 @ '':'' @ pad (cl_minutes now) 2 @ '':'' @ pad (cl_seconds now) 2
         @ ''.'' @ pad (cl_milliseconds now) 3)"

definition timestampPrefix :: "Clock \<Rightarrow> string" where
  "timestampPrefix now = ESC # ''[2m['' @ formatClock now @ '']'' @ [ESC] @ ''[22m ''"

text \<open>One chunk through the stamper: its state is whether the next character starts a line.\<close>

fun stamp_chars :: "string \<Rightarrow> bool \<Rightarrow> string \<Rightarrow> string \<times> bool" where
  "stamp_chars stamp atLineStart [] = ([], atLineStart)"
| "stamp_chars stamp atLineStart (c # s) =
     (let stamped = (atLineStart \<and> c \<noteq> CR \<and> c \<noteq> LF);
          (rest, atEnd) = stamp_chars stamp (if c = LF then True else if stamped then False else atLineStart) s
      in ((if stamped then stamp else []) @ c # rest, atEnd))"

definition stampLines :: "bool \<Rightarrow> string \<Rightarrow> Clock \<Rightarrow> string \<times> bool" where
  "stampLines atLineStart s now = stamp_chars (timestampPrefix now) atLineStart s"

text \<open>What a stamper is asked to do, and what it writes.\<close>

datatype StamperCall = StampLines string Clock | StartLine

fun createLineTimestamper :: "bool \<Rightarrow> StamperCall list \<Rightarrow> string" where
  "createLineTimestamper atLineStart [] = []"
| "createLineTimestamper atLineStart (StampLines s now # calls) =
     (let (stamped, atEnd) = stampLines atLineStart s now in stamped @ createLineTimestamper atEnd calls)"
| "createLineTimestamper atLineStart (StartLine # calls) = createLineTimestamper True calls"

definition CONTROL_ESCAPES :: "(char \<times> string) list" where
  "CONTROL_ESCAPES = [(CR, CHR 0x5C # ''r''), (LF, CHR 0x5C # ''n''), (CHR 0x09, CHR 0x5C # ''t'')]"

definition visible_char :: "char \<Rightarrow> string" where
  "visible_char c =
     (if 32 \<le> code c \<and> code c \<noteq> 127 then [c]
      else case map_of CONTROL_ESCAPES c of
        Some s \<Rightarrow> s
      | None \<Rightarrow> CHR 0x5C # CHR ''x'' # pad_start 2 (CHR ''0'') (to_lower (show_hex (code c))))"

definition visibleText :: "string \<Rightarrow> string" where
  "visibleText s = concat (map visible_char s)"

section \<open>Bytes in hexadecimal\<close>

definition formatHexBytes :: "nat list \<Rightarrow> string" where
  "formatHexBytes bytes = join '' '' (map (\<lambda>b. pad_start 2 (CHR ''0'') (show_hex b)) bytes)"

datatype ParsedHex = HexBytes "nat list" | HexError string

definition hex_separator :: "char \<Rightarrow> bool" where
  "hex_separator c \<longleftrightarrow> is_space c \<or> c \<in> set '',;:-''"

definition is_hex :: "char \<Rightarrow> bool" where
  "is_hex c \<longleftrightarrow> (case any_digit c of Some d \<Rightarrow> d < 16 | None \<Rightarrow> False)"

fun without_0x :: "string \<Rightarrow> string" where
  "without_0x (c # d # s) = (if c = CHR ''0'' \<and> (d = CHR ''x'' \<or> d = CHR ''X'') then s else c # d # s)"
| "without_0x s = s"

fun byte_pairs :: "string \<Rightarrow> nat list" where
  "byte_pairs (c # d # s) = (16 * or_default (any_digit c) 0 + or_default (any_digit d) 0) # byte_pairs s"
| "byte_pairs s = []"

fun parse_hex_words :: "string list \<Rightarrow> nat list \<Rightarrow> ParsedHex" where
  "parse_hex_words [] bytes = HexBytes bytes"
| "parse_hex_words (raw # raws) bytes =
     (let token = without_0x raw
      in if token = [] \<or> \<not> list_all is_hex token \<or> odd (length token) then HexError raw
         else parse_hex_words raws (bytes @ byte_pairs token))"

definition parseHexBytes :: "string \<Rightarrow> ParsedHex" where
  "parseHexBytes s = parse_hex_words (words_by hex_separator s) []"

definition lineEndingBytes :: "SerialLineEnding \<Rightarrow> nat list" where
  "lineEndingBytes ending = (case ending of LineCr \<Rightarrow> [0x0D] | LineLf \<Rightarrow> [0x0A] | LineCrlf \<Rightarrow> [0x0D, 0x0A])"

section \<open>Saved settings can be opened with\<close>

definition choice_json :: "(json \<times> 'a) list \<Rightarrow> 'a \<Rightarrow> json" where
  "choice_json choices x = (case find (\<lambda>(j, y). y = x) choices of Some (j, y) \<Rightarrow> j | None \<Rightarrow> JNull)"

definition usb_json :: "SerialUsbId \<Rightarrow> json" where
  "usb_json usb = JObj ([(''vid'', JNum (of_int (usb_vid usb))), (''pid'', JNum (of_int (usb_pid usb)))]
     @ (case usb_serialNumber usb of Some s \<Rightarrow> [(''serialNumber'', JStr s)] | None \<Rightarrow> []))"

definition settings_json :: "SerialSettings \<Rightarrow> json" where
  "settings_json s = JObj
     ([(''port'', JStr (ser_port s)), (''baudRate'', JNum (of_nat (ser_baudRate s))),
       (''dataBits'', choice_json SERIAL_DATA_BITS (ser_dataBits s)),
       (''parity'', choice_json SERIAL_PARITIES (ser_parity s)),
       (''stopBits'', choice_json SERIAL_STOP_BITS (ser_stopBits s)),
       (''flowControl'', choice_json SERIAL_FLOW_CONTROLS (ser_flowControl s)),
       (''lineEnding'', choice_json SERIAL_LINE_ENDINGS (ser_lineEnding s)),
       (''receiveNewline'', choice_json SERIAL_RECEIVE_NEWLINES (ser_receiveNewline s)),
       (''localEcho'', JBool (ser_localEcho s)), (''timestamps'', JBool (ser_timestamps s)),
       (''hexView'', JBool (ser_hexView s))]
      @ (case ser_usb s of Some usb \<Rightarrow> [(''usb'', usb_json usb)] | None \<Rightarrow> []))"

definition usb_ok :: "SerialUsbId option \<Rightarrow> bool" where
  "usb_ok usb \<longleftrightarrow> (case usb of None \<Rightarrow> True | Some u \<Rightarrow> usb_serialNumber u \<noteq> Some [])"

definition can_open_with :: "SerialSettings \<Rightarrow> bool" where
  "can_open_with s \<longleftrightarrow> trim (ser_port s) = ser_port s \<and> 0 < ser_baudRate s
     \<and> ser_dataBits s \<in> {5, 6, 7, 8} \<and> ser_stopBits s \<in> {1, 2} \<and> usb_ok (ser_usb s)"

lemmas choice_lists = SERIAL_DATA_BITS_def SERIAL_STOP_BITS_def SERIAL_PARITIES_def SERIAL_FLOW_CONTROLS_def
  SERIAL_LINE_ENDINGS_def SERIAL_RECEIVE_NEWLINES_def

lemma oneOf_in: "oneOf choices v fallback \<in> insert fallback (snd ` set choices)"
proof (cases "Option.bind v (map_of choices)")
  case None
  then show ?thesis by (simp add: oneOf_def)
next
  case (Some x)
  then obtain j where "map_of choices j = Some x" by (cases v) auto
  then have "(j, x) \<in> set choices" by (rule map_of_SomeD)
  with Some show ?thesis by (force simp: oneOf_def)
qed

lemma oneOf_choice_json [simp]:
  "n \<in> {5, 6, 7, 8} \<Longrightarrow> oneOf SERIAL_DATA_BITS (Some (choice_json SERIAL_DATA_BITS n)) d = n"
  "m \<in> {1, 2} \<Longrightarrow> oneOf SERIAL_STOP_BITS (Some (choice_json SERIAL_STOP_BITS m)) e = m"
  "oneOf SERIAL_PARITIES (Some (choice_json SERIAL_PARITIES p)) p' = p"
  "oneOf SERIAL_FLOW_CONTROLS (Some (choice_json SERIAL_FLOW_CONTROLS f)) f' = f"
  "oneOf SERIAL_LINE_ENDINGS (Some (choice_json SERIAL_LINE_ENDINGS l)) l' = l"
  "oneOf SERIAL_RECEIVE_NEWLINES (Some (choice_json SERIAL_RECEIVE_NEWLINES r)) r' = r"
  by (auto simp: oneOf_def choice_json_def choice_lists)
    ((cases p; cases f; cases l; cases r; simp)+)?

lemma normalizeUsbId_json: "usb_ok (Some u) \<Longrightarrow> normalizeUsbId (Some (usb_json u)) = Some u"
  by (cases "usb_serialNumber u")
    (simp_all add: usb_ok_def usb_json_def normalizeUsbId_def integer_field_def is_integer_def string_field_def)

lemma normalizeUsbId_ok: "usb_ok (normalizeUsbId v)"
  by (auto simp: usb_ok_def normalizeUsbId_def split: option.splits)

lemma normalize_can_open: "can_open_with (normalizeSerialSettings v)"
proof -
  have "0 < baud_rate n" for n
    by (auto simp: baud_rate_def DEFAULT_SERIAL_SETTINGS_def is_integer_def split: option.split)
  moreover have "oneOf SERIAL_DATA_BITS w 8 \<in> {5, 6, 7, 8}" "oneOf SERIAL_STOP_BITS w 1 \<in> {1, 2}" for w
    using oneOf_in [of SERIAL_DATA_BITS w 8] oneOf_in [of SERIAL_STOP_BITS w 1] by (auto simp: choice_lists)
  ultimately show ?thesis
    by (simp add: can_open_with_def normalizeSerialSettings_def Let_def normalizeUsbId_ok split: option.split)
qed

lemma normalize_settings_json:
  assumes "can_open_with s"
  shows "normalizeSerialSettings (Some (settings_json s)) = s"
proof -
  have "baud_rate (Some (of_nat n)) = n" if "0 < n" for n
    using that by (simp add: baud_rate_def is_integer_def)
  moreover have "field (settings_json s) ''usb'' = map_option usb_json (ser_usb s)"
    by (simp add: settings_json_def split: option.split)
  ultimately show ?thesis
    using assms
    by (cases "ser_usb s")
      (simp_all add: normalizeSerialSettings_def settings_json_def can_open_with_def string_field_def
        normalizeUsbId_json normalizeUsbId_def [of None])
qed


section \<open>The stamper against lines\<close>

text \<open>Every character received with the stamp of its chunk; \<open>None\<close> where the line was ended otherwise.\<close>

fun received :: "StamperCall list \<Rightarrow> (char \<times> string) option list" where
  "received [] = []"
| "received (StampLines s now # calls) = map (\<lambda>c. Some (c, timestampPrefix now)) s @ received calls"
| "received (StartLine # calls) = None # received calls"

fun received_lines :: "(char \<times> string) option list \<Rightarrow> (char \<times> string) list list" where
  "received_lines [] = [[]]"
| "received_lines (None # cs) = [] # received_lines cs"
| "received_lines (Some (c, t) # cs) =
     (if c = LF then [(c, t)] # received_lines cs
      else ((c, t) # hd (received_lines cs)) # tl (received_lines cs))"

text \<open>A line, stamped before its first character other than a carriage return or its line feed.\<close>

fun stamped_line :: "(char \<times> string) list \<Rightarrow> string" where
  "stamped_line [] = []"
| "stamped_line ((c, t) # cs) = (if c = CR \<or> c = LF then c # stamped_line cs else t @ c # map fst cs)"

definition stamped_from :: "bool \<Rightarrow> (char \<times> string) list list \<Rightarrow> string" where
  "stamped_from atLineStart ls =
     (if atLineStart then stamped_line (hd ls) else map fst (hd ls)) @ concat (map stamped_line (tl ls))"

lemma received_lines_nonempty [simp]: "received_lines cs \<noteq> []"
  by (induction cs rule: received_lines.induct) auto

lemma concat_stamped: "ls \<noteq> [] \<Longrightarrow> concat (map stamped_line ls) = stamped_line (hd ls) @ concat (map stamped_line (tl ls))"
  by (cases ls) simp_all

lemma stamp_chars_lines:
  "stamp_chars t start s = (out, atEnd) \<Longrightarrow>
    stamped_from start (received_lines (map (\<lambda>c. Some (c, t)) s @ cs)) = out @ stamped_from atEnd (received_lines cs)"
proof (induction s arbitrary: start out)
  case (Cons c s)
  obtain rest where rest: "stamp_chars t (if c = LF then True else if start \<and> c \<noteq> CR \<and> c \<noteq> LF then False else start) s = (rest, atEnd)"
    and out: "out = (if start \<and> c \<noteq> CR \<and> c \<noteq> LF then t else []) @ c # rest"
    using Cons.prems by (auto simp: Let_def split: prod.splits)
  show ?case using Cons.IH [OF rest] unfolding out
    by (auto simp: stamped_from_def concat_stamped)
qed simp

lemma stamper_lines: "createLineTimestamper start calls = stamped_from start (received_lines (received calls))"
proof (induction calls arbitrary: start)
  case Nil
  then show ?case by (simp add: stamped_from_def)
next
  case (Cons call calls)
  show ?case
  proof (cases call)
    case (StampLines s now)
    obtain out atEnd where "stamp_chars (timestampPrefix now) start s = (out, atEnd)" by fastforce
    with StampLines stamp_chars_lines [OF this] Cons.IH show ?thesis by (simp add: stampLines_def)
  next
    case StartLine
    with Cons.IH show ?thesis by (simp add: stamped_from_def concat_stamped)
  qed
qed

text \<open>
  C16: however the output is split into chunks, the stamper writes what stamping whole lines
  gives: each line once, with the time of the chunk that brought its first visible character, and
  nothing else is added or lost.
\<close>

theorem stamper_implements_lines:
  "createLineTimestamper True calls = concat (map stamped_line (received_lines (received calls)))"
  by (simp add: stamper_lines stamped_from_def concat_stamped)

section \<open>Reading hexadecimal\<close>

definition hex_word :: "string \<Rightarrow> bool" where
  "hex_word raw \<longleftrightarrow> without_0x raw \<noteq> [] \<and> list_all is_hex (without_0x raw) \<and> even (length (without_0x raw))"

definition hex_byte :: "nat \<Rightarrow> string" where
  "hex_byte b = pad_start 2 (CHR ''0'') (show_hex b)"

lemma parse_hex_words_find:
  "parse_hex_words raws bytes =
    (case find (\<lambda>raw. \<not> hex_word raw) raws of
       Some raw \<Rightarrow> HexError raw
     | None \<Rightarrow> HexBytes (bytes @ concat (map (\<lambda>raw. byte_pairs (without_0x raw)) raws)))"
  by (induction raws bytes rule: parse_hex_words.induct) (auto simp: hex_word_def Let_def split: option.split)

lemma code_hex_char: "d < 16 \<Longrightarrow> code (hex_char d) = (if d < 10 then 48 + d else 55 + d)"
  by (simp add: hex_char_def)

lemma hex_char_digit:
  assumes "d < 16"
  shows "any_digit (hex_char d) = Some d" and "is_hex (hex_char d)" and "\<not> hex_separator (hex_char d)"
    and "hex_char d \<noteq> CHR ''x''" and "hex_char d \<noteq> CHR ''X''"
proof -
  note code = code_hex_char [OF assms]
  show digit: "any_digit (hex_char d) = Some d"
    using assms by (simp add: any_digit_def is_digit_def is_lower_def is_upper_def code)
  with assms show "is_hex (hex_char d)" by (simp add: is_hex_def)
  have "hex_char d \<notin> {CHR ''x'', CHR ''X'', CHR '','', CHR '';'', CHR '':'', CHR ''-''}"
  proof
    assume "hex_char d \<in> {CHR ''x'', CHR ''X'', CHR '','', CHR '';'', CHR '':'', CHR ''-''}"
    then have "code (hex_char d) \<in> code ` {CHR ''x'', CHR ''X'', CHR '','', CHR '';'', CHR '':'', CHR ''-''}" by blast
    with assms show False unfolding code by (auto split: if_splits)
  qed
  then show "\<not> hex_separator (hex_char d)" "hex_char d \<noteq> CHR ''x''" "hex_char d \<noteq> CHR ''X''"
    using assms by (auto simp: hex_separator_def is_space_def code split: if_splits)
qed

lemma hex_char_0: "hex_char 0 = CHR ''0''"
  by code_simp

lemma hex_byte_chars:
  assumes "b < 256"
  shows "hex_byte b = [hex_char (b div 16), hex_char (b mod 16)]"
proof (cases "b < 16")
  case True
  then show ?thesis by (simp add: hex_byte_def pad_start_def show_hex.simps [of b] hex_char_0)
next
  case False
  from assms have "b div 16 < 16" by simp
  with False show ?thesis
    by (simp only: hex_byte_def pad_start_def show_hex.simps [of b] show_hex.simps [of "b div 16"]) simp
qed

lemma hex_byte_word:
  assumes "b < 256"
  shows "hex_word (hex_byte b)" and "byte_pairs (without_0x (hex_byte b)) = [b]"
    and "\<forall>c\<in>set (hex_byte b). \<not> hex_separator c"
  using assms hex_char_digit [of "b div 16"] hex_char_digit [of "b mod 16"]
  by (auto simp: hex_byte_chars hex_word_def)

lemma words_of_bytes:
  assumes "\<forall>b\<in>set bytes. b < 256"
  shows "words_by hex_separator (formatHexBytes bytes) = map hex_byte bytes"
proof (cases "bytes = []")
  case True
  then show ?thesis by (simp add: words_by_def formatHexBytes_def)
next
  case False
  have "split_at hex_separator (join [CHR '' ''] (map hex_byte bytes)) = map hex_byte bytes"
    using False assms hex_byte_word(3) by (intro split_at_join) (auto simp: hex_separator_def is_space_def)
  moreover have "filter (\<lambda>w. w \<noteq> []) (map hex_byte bytes) = map hex_byte bytes"
    using assms by (intro filter_True) (auto simp: hex_byte_chars)
  ultimately show ?thesis by (simp add: words_by_def formatHexBytes_def hex_byte_def [abs_def])
qed

text \<open>
  Typed bytes are refused at the first word that is not an even run of hexadecimal digits,
  which the error names, and are otherwise all the bytes of the words in order; what the
  hexadecimal view shows reads back as the bytes it shows.
\<close>

lemma hex_bytes_read:
  "parseHexBytes s =
     (case find (\<lambda>raw. \<not> hex_word raw) (words_by hex_separator s) of
        Some raw \<Rightarrow> HexError raw
      | None \<Rightarrow> HexBytes (concat (map (\<lambda>raw. byte_pairs (without_0x raw)) (words_by hex_separator s))))
   \<and> (list_all (\<lambda>b. b < 256) bytes \<longrightarrow> parseHexBytes (formatHexBytes bytes) = HexBytes bytes)"
proof -
  have "parseHexBytes (formatHexBytes bytes) = HexBytes bytes" if b: "\<forall>b\<in>set bytes. b < 256"
  proof -
    have "find (\<lambda>raw. \<not> hex_word raw) (map hex_byte bytes) = None"
      using b hex_byte_word by (auto simp: find_None_iff)
    moreover have "concat (map (\<lambda>raw. byte_pairs (without_0x raw)) (map hex_byte bytes)) = bytes"
      using b by (induction bytes) (simp_all add: hex_byte_word)
    ultimately show ?thesis by (simp add: parseHexBytes_def parse_hex_words_find words_of_bytes [OF b])
  qed
  then show ?thesis by (simp add: parseHexBytes_def parse_hex_words_find list_all_iff split: option.split)
qed

lemma hex_bytes_read_witness: "parseHexBytes (formatHexBytes [0, 10, 255]) = HexBytes [0, 10, 255]"
  using hex_bytes_read [of "[]" "[0, 10, 255]"] by simp

end
