(* ===== verification/Profile_Types.thy ===== *)
theory Profile_Types
  imports Tab_Types Json
begin

text \<open>
  Saved profiles and their groups (\<open>src/src/types/tab.ts\<close>), as the backend lists them.
  What the source reads as \<open>unknown\<close> before it uses it, the proxy choice, the tab icon and
  the serial settings, is the JSON value that was saved.
\<close>

record ProfileGroup =
  pg_id :: string
  pg_name :: string
  pg_parentId :: "string option"

record SavedProfile =
  sp_id :: string
  sp_name :: string
  sp_group_id :: "string option"
  sp_group_path :: "string option"
  sp_connection_type :: ConnectionType
  sp_host :: "string option"
  sp_port :: "nat option"
  sp_username :: "string option"
  sp_password :: "string option"
  sp_ignore_saved_password :: "bool option"
  sp_remember_password :: bool
  sp_auth_method :: "string option"
  sp_agent_forward :: "bool option"
  sp_private_key_path :: "string option"
  sp_private_key_passphrase :: "string option"
  sp_certificate_path :: "string option"
  sp_keepalive_interval_secs :: nat
  sp_keepalive_count_max :: nat
  sp_server_monitor_visible :: "bool option"
  sp_use_jump_host :: "bool option"
  sp_jump_hosts :: "SavedJumpHost list option"
  sp_sudo_autofill :: "bool option"
  sp_sudo_password :: "string option"
  sp_clear_sudo_password :: "bool option"
  sp_encoding :: "string option"
  sp_terminal_theme :: "string option"
  sp_login_script :: "string option"
  sp_ssh_shell_integration :: "bool option"
  sp_session_log :: "string option"
  sp_sftp_start_directory :: "string option"
  sp_highlight_set :: "string option"
  sp_proxy :: "json option"
  sp_tab_icon :: "json option"
  sp_distro :: "string option"
  sp_serial :: "json option"

text \<open>A profile of which only the name and type are set.\<close>

definition bare_profile :: "string \<Rightarrow> ConnectionType \<Rightarrow> SavedProfile" where
  "bare_profile name type = \<lparr>sp_id = name, sp_name = name, sp_group_id = None, sp_group_path = None,
     sp_connection_type = type, sp_host = None, sp_port = None, sp_username = None, sp_password = None,
     sp_ignore_saved_password = None, sp_remember_password = False, sp_auth_method = None, sp_agent_forward = None,
     sp_private_key_path = None, sp_private_key_passphrase = None, sp_certificate_path = None,
     sp_keepalive_interval_secs = 15, sp_keepalive_count_max = 3, sp_server_monitor_visible = None,
     sp_use_jump_host = None, sp_jump_hosts = None, sp_sudo_autofill = None, sp_sudo_password = None,
     sp_clear_sudo_password = None, sp_encoding = None, sp_terminal_theme = None, sp_login_script = None,
     sp_ssh_shell_integration = None, sp_session_log = None, sp_sftp_start_directory = None,
     sp_highlight_set = None, sp_proxy = None, sp_tab_icon = None, sp_distro = None, sp_serial = None\<rparr>"

end
