(* ===== verification/Group_Tree.thy ===== *)
theory Group_Tree
  imports Profile_Types Js_Sort
begin

text \<open>
  The groups of saved connections as a tree (\<open>src/src/lib/profileGroups.ts\<close>). A group keeps
  the id of its parent, which may be gone or lie in a loop; the tree shows every group and
  every profile once all the same. The nodes are built as the source places them, the ids
  placed so far passed along; profiles and totals are filled in afterwards. Ids of groups
  are unique, as the backend keeps them, so a profile has one node to sit in. The collation
  \<open>localeCompare\<close> is a parameter.
\<close>

section \<open>Paths\<close>

definition GROUP_PATH_SEPARATOR :: char where "GROUP_PATH_SEPARATOR = CHR ''/''"
definition GROUP_PATH_JOINER :: string where "GROUP_PATH_JOINER = '' / ''"

definition normalizeGroupPath :: "string \<Rightarrow> string" where
  "normalizeGroupPath path =
     join GROUP_PATH_JOINER
       (filter (\<lambda>name. name \<noteq> []) (map trim (split_at (\<lambda>c. c = GROUP_PATH_SEPARATOR) path)))"

section \<open>The tree\<close>

datatype GroupNode = GroupNode
  (gn_group: ProfileGroup) (gn_depth: nat) (gn_path: string) (gn_children: "GroupNode list")
  (gn_profiles: "SavedProfile list") (gn_total: nat)

record GroupTree =
  gt_roots :: "GroupNode list"
  gt_ungrouped :: "SavedProfile list"

definition byName :: "(string \<Rightarrow> string \<Rightarrow> int) \<Rightarrow> ProfileGroup \<Rightarrow> ProfileGroup \<Rightarrow> int" where
  "byName localeCompare left right =
     (let c = localeCompare (pg_name left) (pg_name right)
      in if c \<noteq> 0 then c else localeCompare (pg_id left) (pg_id right))"

definition known_parent :: "ProfileGroup list \<Rightarrow> ProfileGroup \<Rightarrow> string option" where
  "known_parent groups g =
     (case pg_parentId g of
        Some p \<Rightarrow> if p \<noteq> [] \<and> p \<noteq> pg_id g \<and> p \<in> pg_id ` set groups then Some p else None
      | None \<Rightarrow> None)"

text \<open>The groups listed under a parent, \<open>None\<close> being the top.\<close>

definition children_of :: "(string \<Rightarrow> string \<Rightarrow> int) \<Rightarrow> ProfileGroup list \<Rightarrow> string option \<Rightarrow> ProfileGroup list" where
  "children_of localeCompare groups parent =
     filter (\<lambda>g. known_parent groups g = parent) (js_sort (byName localeCompare) groups)"

text \<open>
  What is left to place: it falls along every call below, since a group met again has no
  group under it left to place.
\<close>

definition unplaced_rank :: "'a set \<Rightarrow> 'a list \<Rightarrow> 'a set \<Rightarrow> nat" where
  "unplaced_rank U kids P = 2 * card (U - P) + (if \<exists>k\<in>set kids. k \<in> P \<and> k \<in> U then 1 else 0)"

lemma rank_children:
  assumes "finite U" and "k \<in> U" and "\<forall>j\<in>set kids. j \<notin> insert k P"
  shows "unplaced_rank U kids (insert k P) < unplaced_rank U (k # rest) P"
proof (cases "k \<in> P")
  case True
  then have "insert k P = P" by blast
  with True assms show ?thesis by (auto simp: unplaced_rank_def)
next
  case False
  with assms have "card (U - insert k P) < card (U - P)" by (intro psubset_card_mono) auto
  with assms(3) show ?thesis by (auto simp: unplaced_rank_def)
qed

lemma rank_outside: "k \<notin> U \<Longrightarrow> unplaced_rank U [] (insert k P) \<le> unplaced_rank U (k # rest) P"
  by (simp add: unplaced_rank_def)

lemma rank_siblings:
  assumes "finite U" and "insert k P \<subseteq> Q"
  shows "unplaced_rank U rest Q \<le> unplaced_rank U (k # rest) P"
proof (cases "U - Q = U - P")
  case True
  then show ?thesis by (auto simp: unplaced_rank_def)
next
  case False
  with assms have "card (U - Q) < card (U - P)" by (intro psubset_card_mono) auto
  then show ?thesis by (auto simp: unplaced_rank_def)
qed

lemma children_outside: "p \<notin> pg_id ` set groups \<Longrightarrow> children_of lc groups (Some p) = []"
  by (auto simp: children_of_def known_parent_def filter_empty_conv split: option.splits if_splits)

text \<open>
  \<open>place\<close> over a list of siblings. \<open>kids\<close> are the siblings to place, \<open>placed\<close> the ids
  that have a node already; a group in it is not placed below another.
\<close>

definition group_path :: "string \<Rightarrow> ProfileGroup \<Rightarrow> string" where
  "group_path parentPath g =
     (if parentPath \<noteq> [] then parentPath @ GROUP_PATH_JOINER @ pg_name g else pg_name g)"

function (sequential) place_groups ::
  "(string \<Rightarrow> string \<Rightarrow> int) \<Rightarrow> ProfileGroup list \<Rightarrow> ProfileGroup list \<Rightarrow> nat \<Rightarrow> string \<Rightarrow> string list
    \<Rightarrow> GroupNode list \<times> string list" where
  "place_groups lc groups [] depth parentPath placed = ([], placed)"
| "place_groups lc groups (g # siblings) depth parentPath placed =
     (let path = group_path parentPath g;
          placed' = pg_id g # placed;
          (children, placed'') = place_groups lc groups
            (filter (\<lambda>child. pg_id child \<notin> set placed') (children_of lc groups (Some (pg_id g))))
            (depth + 1) path placed';
          (nodes, placed''') = place_groups lc groups siblings depth parentPath placed''
      in (GroupNode g depth path children [] 0 # nodes, placed'''))"
  by pat_completeness auto
termination
proof (relation "measures [\<lambda>(lc, groups, kids, depth, path, placed).
      unplaced_rank (pg_id ` set groups) (map pg_id kids) (set placed),
    \<lambda>(lc, groups, kids, depth, path, placed). length kids]", goal_cases)
  case 1
  show ?case by simp
next
  case (2 lc groups g siblings depth parentPath placed path placed')
  let ?U = "pg_id ` set groups" and ?kids = "filter (\<lambda>child. pg_id child \<notin> set placed') (children_of lc groups (Some (pg_id g)))"
  show ?case
  proof (cases "pg_id g \<in> ?U")
    case True
    with 2 have "unplaced_rank ?U (map pg_id ?kids) (set placed') < unplaced_rank ?U (map pg_id (g # siblings)) (set placed)"
      by (simp del: filter.simps) (rule rank_children; auto)
    then show ?thesis by simp
  next
    case False
    then have "?kids = []" by (simp add: children_outside)
    with 2 False rank_outside [of "pg_id g" ?U "set placed" "map pg_id siblings"] show ?thesis by auto
  qed
next
  case (3 lc groups g siblings depth parentPath placed path placed' result nodes placed'')
  from 3(5) have "set placed' \<subseteq> set (snd result)" unfolding 3(3)
    by (induction rule: place_groups.pinduct) (fastforce simp: place_groups.psimps Let_def split: prod.split)+
  with 3 have "insert (pg_id g) (set placed) \<subseteq> set placed''" by (metis list.simps(15) snd_conv)
  then have "unplaced_rank (pg_id ` set groups) (map pg_id siblings) (set placed'')
      \<le> unplaced_rank (pg_id ` set groups) (pg_id g # map pg_id siblings) (set placed)"
    by (intro rank_siblings) auto
  then show ?case by auto
qed

lemma place_groups_grows:
  "place_groups lc groups kids depth path placed = (nodes, placed') \<Longrightarrow>
    set placed \<union> pg_id ` set kids \<subseteq> set placed'"
proof (induction lc groups kids depth path placed arbitrary: nodes placed' rule: place_groups.induct)
  case (2 lc groups g siblings depth path placed)
  obtain children p where c: "place_groups lc groups
      (filter (\<lambda>child. pg_id child \<notin> set (pg_id g # placed)) (children_of lc groups (Some (pg_id g))))
      (depth + 1) (group_path path g) (pg_id g # placed) = (children, p)"
    by fastforce
  obtain rest where r: "place_groups lc groups siblings depth path p = (rest, placed')"
    using 2(3) c by (auto simp: Let_def split: prod.splits)
  from "2.IH"(1) [OF refl refl c] "2.IH"(2) [OF refl refl c [symmetric] refl r] show ?case by auto
qed simp

text \<open>Groups in a loop are under no group at the top: of those left the one with the least id is cut out.\<close>

function place_cut ::
  "(string \<Rightarrow> string \<Rightarrow> int) \<Rightarrow> ProfileGroup list \<Rightarrow> string list \<Rightarrow> GroupNode list \<times> string list" where
  "place_cut lc groups placed =
     (case js_sort (\<lambda>left right. lc (pg_id left) (pg_id right)) (filter (\<lambda>g. pg_id g \<notin> set placed) groups) of
        [] \<Rightarrow> ([], placed)
      | least # _ \<Rightarrow>
          (let (nodes, placed') = place_groups lc groups [least] 0 [] placed;
               (rest, placed'') = place_cut lc groups placed'
           in (nodes @ rest, placed'')))"
  by pat_completeness auto
termination
proof (relation "measure (\<lambda>(lc, groups, placed). card (pg_id ` set groups - set placed))", goal_cases)
  case 1
  show ?case by simp
next
  case (2 lc groups placed least others result nodes placed')
  from 2(1) have "least \<in> set (filter (\<lambda>g. pg_id g \<notin> set placed) groups)"
    by (metis list.set_intros(1) set_js_sort)
  moreover from 2(2,3) have "set placed \<union> {pg_id least} \<subseteq> set placed'"
    using place_groups_grows [of lc groups "[least]" 0 "[]" placed nodes placed'] by simp
  ultimately have "card (pg_id ` set groups - set placed') < card (pg_id ` set groups - set placed)"
    by (intro psubset_card_mono) auto
  then show ?case by simp
qed

declare place_cut.simps [simp del]

text \<open>A node with its profiles, in the order given, and its total.\<close>

fun fill_node :: "SavedProfile list \<Rightarrow> GroupNode \<Rightarrow> GroupNode" where
  "fill_node profiles (GroupNode g depth path children ps n) =
     (let own = filter (\<lambda>profile. truthy (sp_group_id profile) \<and> sp_group_id profile = Some (pg_id g)) profiles;
          filled = map (fill_node profiles) children
      in GroupNode g depth path filled own (length own + sum_list (map gn_total filled)))"

definition buildGroupTree ::
  "(string \<Rightarrow> string \<Rightarrow> int) \<Rightarrow> ProfileGroup list \<Rightarrow> SavedProfile list \<Rightarrow> GroupTree" where
  "buildGroupTree lc groups profiles =
     (let (tops, placed) = place_groups lc groups (children_of lc groups None) 0 [] [];
          (cuts, placed') = place_cut lc groups placed;
          roots = js_sort (\<lambda>left right. byName lc (gn_group left) (gn_group right)) (tops @ cuts)
      in \<lparr>gt_roots = map (fill_node profiles) roots,
          gt_ungrouped = filter (\<lambda>profile. \<not> (truthy (sp_group_id profile) \<and> the (sp_group_id profile) \<in> set placed')) profiles\<rparr>)"

section \<open>What is listed\<close>

text \<open>A node and the nodes inside it, a group before the groups in it.\<close>

fun nodes_of :: "GroupNode \<Rightarrow> GroupNode list" where
  "nodes_of (GroupNode g depth path children ps n) = GroupNode g depth path children ps n # concat (map nodes_of children)"

definition tree_nodes :: "GroupTree \<Rightarrow> GroupNode list" where
  "tree_nodes tree = concat (map nodes_of (gt_roots tree))"

definition node_id :: "GroupNode \<Rightarrow> string" where
  "node_id node = pg_id (gn_group node)"

definition groupAndDescendantIds :: "GroupTree \<Rightarrow> string \<Rightarrow> string list" where
  "groupAndDescendantIds tree groupId =
     (case find (\<lambda>node. node_id node = groupId) (tree_nodes tree) of
        Some node \<Rightarrow> map node_id (nodes_of node) | None \<Rightarrow> [])"

fun visible_nodes :: "string list \<Rightarrow> GroupNode \<Rightarrow> GroupNode list" where
  "visible_nodes collapsed (GroupNode g depth path children ps n) =
     GroupNode g depth path children ps n
     # (if pg_id g \<in> set collapsed then [] else concat (map (visible_nodes collapsed) children))"

definition visibleGroupNodes :: "GroupTree \<Rightarrow> string list \<Rightarrow> GroupNode list" where
  "visibleGroupNodes tree collapsedIds = concat (map (visible_nodes collapsedIds) (gt_roots tree))"

fun visible_profiles :: "string list \<Rightarrow> GroupNode \<Rightarrow> SavedProfile list" where
  "visible_profiles collapsed (GroupNode g depth path children ps n) =
     (if pg_id g \<in> set collapsed then [] else concat (map (visible_profiles collapsed) children) @ ps)"

definition visibleTreeProfiles :: "GroupTree \<Rightarrow> string list \<Rightarrow> string \<Rightarrow> SavedProfile list" where
  "visibleTreeProfiles tree collapsedKeys ungroupedKey =
     concat (map (visible_profiles collapsedKeys) (gt_roots tree))
     @ (if ungroupedKey \<in> set collapsedKeys then [] else gt_ungrouped tree)"

definition emptyGroupIds :: "GroupTree \<Rightarrow> string list" where
  "emptyGroupIds tree = map node_id (filter (\<lambda>node. gn_total node = 0) (tree_nodes tree))"

section \<open>Every group once\<close>

definition all_nodes :: "GroupNode list \<Rightarrow> GroupNode list" where
  "all_nodes nodes = concat (map nodes_of nodes)"

text \<open>Placing adds the nodes' ids to those placed, each new and once, and the nodes are groups given.\<close>

definition places :: "ProfileGroup list \<Rightarrow> string list \<Rightarrow> GroupNode list \<Rightarrow> string list \<Rightarrow> bool" where
  "places groups placed nodes placed' \<longleftrightarrow>
     set placed' = set placed \<union> node_id ` set (all_nodes nodes) \<and> distinct (map node_id (all_nodes nodes))
     \<and> set placed \<inter> node_id ` set (all_nodes nodes) = {} \<and> gn_group ` set (all_nodes nodes) \<subseteq> set groups"

lemma all_nodes_simps [simp]:
  "all_nodes [] = []"
  "all_nodes (xs @ ys) = all_nodes xs @ all_nodes ys"
  "all_nodes (GroupNode g depth path children ps n # nodes)
    = GroupNode g depth path children ps n # all_nodes children @ all_nodes nodes"
  by (simp_all add: all_nodes_def)

lemma node_id_simp [simp]: "node_id (GroupNode g depth path children ps n) = pg_id g"
  by (simp add: node_id_def)

lemma places_trans: "places groups placed xs p \<Longrightarrow> places groups p ys q \<Longrightarrow> places groups placed (xs @ ys) q"
  by (auto simp: places_def)

text \<open>Every node placed is one of the siblings, or a child of a node placed.\<close>

definition from_siblings :: "ProfileGroup list \<Rightarrow> ProfileGroup list \<Rightarrow> GroupNode list \<Rightarrow> bool" where
  "from_siblings groups kids nodes \<longleftrightarrow> (\<forall>node\<in>set (all_nodes nodes). gn_group node \<in> set kids
     \<or> (\<exists>q\<in>node_id ` set (all_nodes nodes). known_parent groups (gn_group node) = Some q))"

definition siblings_ok :: "ProfileGroup list \<Rightarrow> ProfileGroup list \<Rightarrow> string list \<Rightarrow> bool" where
  "siblings_ok groups kids placed \<longleftrightarrow> set kids \<subseteq> set groups \<and> distinct (map pg_id kids)
     \<and> (\<forall>kid\<in>set kids. pg_id kid \<notin> set placed)
     \<and> (\<forall>kid\<in>set (tl kids). \<forall>q. known_parent groups kid = Some q \<longrightarrow> q \<in> set placed)"

lemma in_tl: "x \<in> set (tl xs) \<Longrightarrow> x \<in> set xs"
  by (cases xs) auto

lemma siblings_ok_children:
  assumes "distinct (map pg_id groups)" and "p \<in> set placed"
  shows "siblings_ok groups (filter (\<lambda>child. pg_id child \<notin> set placed) (children_of lc groups (Some p))) placed"
  using assms by (auto simp: siblings_ok_def children_of_def distinct_map_filter dest!: in_tl)

lemma place_groups_places:
  assumes "place_groups lc groups kids depth path placed = (nodes, placed')"
    and "distinct (map pg_id groups)" and "siblings_ok groups kids placed"
  shows "places groups placed nodes placed' \<and> from_siblings groups kids nodes"
  using assms
proof (induction lc groups kids depth path placed arbitrary: nodes placed' rule: place_groups.induct)
  case (1 lc groups depth path placed)
  then show ?case by (simp add: places_def from_siblings_def)
next
  case (2 lc groups g siblings depth path placed)
  let ?kids = "filter (\<lambda>child. pg_id child \<notin> set (pg_id g # placed)) (children_of lc groups (Some (pg_id g)))"
  obtain children p where c: "place_groups lc groups ?kids (depth + 1) (group_path path g) (pg_id g # placed) = (children, p)"
    by fastforce
  obtain rest where r: "place_groups lc groups siblings depth path p = (rest, placed')"
    and nodes: "nodes = GroupNode g depth (group_path path g) children [] 0 # rest"
    using 2(3) c by (auto simp: Let_def split: prod.splits)
  have child: "places groups (pg_id g # placed) children p" "from_siblings groups ?kids children"
    using "2.IH"(1) [OF refl refl c 2(4)] siblings_ok_children [OF 2(4), of "pg_id g" "pg_id g # placed" lc] by auto
  have new: "pg_id s \<notin> node_id ` set (all_nodes children)" if "s \<in> set siblings" for s
  proof
    assume "pg_id s \<in> node_id ` set (all_nodes children)"
    then obtain n where n: "n \<in> set (all_nodes children)" "pg_id (gn_group n) = pg_id s" by (auto simp: node_id_def)
    have "gn_group n \<in> set groups" using child(1) n(1) by (auto simp: places_def)
    moreover have "s \<in> set groups" using 2(5) that by (auto simp: siblings_ok_def)
    ultimately have "gn_group n = s" using 2(4) n(2) by (auto simp: distinct_map dest: inj_onD)
    with child(2) n(1) obtain q where q: "known_parent groups s = Some q"
      and "q = pg_id g \<or> q \<in> node_id ` set (all_nodes children)"
      by (auto simp: from_siblings_def children_of_def)
    moreover from q 2(5) that have "q \<in> set placed" by (auto simp: siblings_ok_def)
    ultimately show False using 2(5) child(1) by (auto simp: siblings_ok_def places_def)
  qed
  have "siblings_ok groups siblings p"
    unfolding siblings_ok_def
  proof (intro conjI ballI allI impI)
    show "set siblings \<subseteq> set groups" "distinct (map pg_id siblings)" using 2(5) by (simp_all add: siblings_ok_def)
    show "pg_id kid \<notin> set p" if "kid \<in> set siblings" for kid
    proof -
      from 2(5) have "pg_id g \<notin> pg_id ` set siblings" "\<forall>k\<in>set siblings. pg_id k \<notin> set placed"
        by (simp_all add: siblings_ok_def)
      with that have "pg_id kid \<noteq> pg_id g" "pg_id kid \<notin> set placed" by (metis imageI, blast)
      with new [OF that] child(1) show ?thesis by (auto simp: places_def)
    qed
    show "q \<in> set p" if "kid \<in> set (tl siblings)" "known_parent groups kid = Some q" for kid q
      using 2(5) child(1) in_tl [OF that(1)] that(2) by (auto simp: siblings_ok_def places_def)
  qed
  then have rest: "places groups p rest placed'" "from_siblings groups siblings rest"
    using "2.IH"(2) [OF refl refl c [symmetric] refl r 2(4)] by auto
  have "places groups placed [GroupNode g depth (group_path path g) children [] 0] p"
    using child(1) 2(5) by (auto simp: places_def siblings_ok_def)
  from places_trans [OF this rest(1)] have "places groups placed nodes placed'" by (simp add: nodes)
  moreover have "from_siblings groups (g # siblings) nodes"
    using child(2) rest(2) by (auto simp: nodes from_siblings_def children_of_def)
  ultimately show ?case by simp
qed

lemma place_cut_places:
  assumes "place_cut lc groups placed = (nodes, placed')" and "distinct (map pg_id groups)"
  shows "places groups placed nodes placed' \<and> pg_id ` set groups \<subseteq> set placed'"
  using assms
proof (induction lc groups placed arbitrary: nodes placed' rule: place_cut.induct)
  case (1 lc groups placed)
  let ?left = "filter (\<lambda>g. pg_id g \<notin> set placed) groups"
  show ?case
  proof (cases "js_sort (\<lambda>left right. lc (pg_id left) (pg_id right)) ?left")
    case Nil
    with 1(2) have "nodes = []" "placed' = placed" by (simp_all add: place_cut.simps [of lc groups placed])
    moreover from Nil have "?left = []" by simp
    ultimately show ?thesis by (auto simp: places_def filter_empty_conv)
  next
    case (Cons least others)
    obtain first p where f: "place_groups lc groups [least] 0 [] placed = (first, p)" by fastforce
    obtain rest where r: "place_cut lc groups p = (rest, placed')" and nodes: "nodes = first @ rest"
      using 1(2) Cons f by (auto simp: place_cut.simps [of lc groups placed] split: prod.splits)
    have "least \<in> set ?left" using Cons by (metis list.set_intros(1) set_js_sort)
    then have "siblings_ok groups [least] placed" by (auto simp: siblings_ok_def)
    from place_groups_places [OF f 1(3) this] have "places groups placed first p" by simp
    with "1.IH" [OF Cons f [symmetric] refl r 1(3)] show ?thesis by (auto simp: nodes intro: places_trans)
  qed
qed

lemma node_fill [simp]: "gn_group (fill_node profiles n) = gn_group n"
  by (cases n) (simp add: Let_def)

lemma tree_nodes_all: "tree_nodes tree = all_nodes (gt_roots tree)"
  by (simp add: tree_nodes_def all_nodes_def)

lemma all_nodes_fill: "map gn_group (all_nodes (map (fill_node profiles) nodes)) = map gn_group (all_nodes nodes)"
proof -
  have fill: "map gn_group (nodes_of (fill_node profiles n)) = map gn_group (nodes_of n)" for n
  proof (induction n)
    case (GroupNode g depth path children ps k)
    then have "map (\<lambda>n. map gn_group (nodes_of (fill_node profiles n))) children
        = map (\<lambda>n. map gn_group (nodes_of n)) children"
      by simp
    then show ?case by (simp add: Let_def map_concat comp_def cong: map_cong)
  qed
  show ?thesis by (simp add: all_nodes_def map_concat comp_def fill)
qed

lemma mset_all_nodes: "mset xs = mset ys \<Longrightarrow> mset (all_nodes xs) = mset (all_nodes ys)"
  by (simp add: all_nodes_def mset_concat) (metis mset_map sum_mset_sum_list)

text \<open>The groups of the tree, and the ids placed: all of them.\<close>

lemma built_places:
  assumes "distinct (map pg_id groups)"
  obtains roots where "gt_roots (buildGroupTree lc groups profiles) = map (fill_node profiles) roots"
    and "mset (map gn_group (all_nodes roots)) = mset groups"
    and "gt_ungrouped (buildGroupTree lc groups profiles)
      = filter (\<lambda>profile. \<not> (truthy (sp_group_id profile) \<and> the (sp_group_id profile) \<in> pg_id ` set groups)) profiles"
proof -
  obtain tops p where t: "place_groups lc groups (children_of lc groups None) 0 [] [] = (tops, p)" by fastforce
  obtain cuts q where c: "place_cut lc groups p = (cuts, q)" by fastforce
  let ?roots = "js_sort (\<lambda>left right. byName lc (gn_group left) (gn_group right)) (tops @ cuts)"
  have "siblings_ok groups (children_of lc groups None) []"
    using assms by (auto simp: siblings_ok_def children_of_def distinct_map_filter dest!: in_tl)
  from place_groups_places [OF t assms this] place_cut_places [OF c assms]
  have all: "places groups [] (tops @ cuts) q" "pg_id ` set groups \<subseteq> set q" by (auto intro: places_trans)
  let ?gs = "map gn_group (all_nodes (tops @ cuts))"
  from all(1) have ids: "distinct (map pg_id ?gs)" "set q = pg_id ` set ?gs" "set ?gs \<subseteq> set groups"
    by (auto simp: places_def node_id_def [abs_def] comp_def image_image)
  have "set groups \<subseteq> set ?gs"
  proof
    fix g assume g: "g \<in> set groups"
    then have "pg_id g \<in> pg_id ` set ?gs" using all(2) unfolding ids(2) by blast
    then obtain h where h: "h \<in> set ?gs" "pg_id g = pg_id h" by blast
    have "g = h" using assms h(2) g subsetD [OF ids(3) h(1)] unfolding distinct_map by (blast dest: inj_onD)
    with h(1) show "g \<in> set ?gs" by simp
  qed
  with ids(3) have "set ?gs = set groups" by blast
  moreover have "distinct ?gs" "distinct groups" using ids(1) assms by (simp_all only: distinct_map)
  ultimately have "mset ?gs = mset groups" using set_eq_iff_mset_eq_distinct by blast
  moreover have "mset (map gn_group (all_nodes ?roots)) = mset ?gs"
    using mset_all_nodes [of ?roots "tops @ cuts"] by simp
  moreover have "set q = pg_id ` set groups" using all(2) ids by auto
  ultimately show thesis
    using that [of ?roots] t c by (simp add: buildGroupTree_def)
qed

text \<open>
  Whatever parents the groups name, gone, themselves or round in a loop, the tree holds every
  group exactly once.
\<close>

lemma every_group_once:
  "distinct (map pg_id groups) \<Longrightarrow> mset (map gn_group (tree_nodes (buildGroupTree lc groups profiles))) = mset groups"
proof -
  assume d: "distinct (map pg_id groups)"
  obtain roots where r: "gt_roots (buildGroupTree lc groups profiles) = map (fill_node profiles) roots"
    "mset (map gn_group (all_nodes roots)) = mset groups"
    using built_places [OF d] by metis
  from r(1) have "map gn_group (tree_nodes (buildGroupTree lc groups profiles)) = map gn_group (all_nodes roots)"
    by (simp add: tree_nodes_all all_nodes_fill)
  with r(2) show ?thesis by simp
qed

section \<open>Every profile once\<close>

definition own_profiles :: "SavedProfile list \<Rightarrow> ProfileGroup \<Rightarrow> SavedProfile list" where
  "own_profiles profiles g = filter (\<lambda>profile. truthy (sp_group_id profile) \<and> sp_group_id profile = Some (pg_id g)) profiles"

lemma sum_list_concat_map: "sum_list (map f (concat xss)) = (\<Sum>xs\<leftarrow>xss. sum_list (map f xs))"
  by (induction xss) simp_all

lemma visible_filled:
  "mset (visible_profiles [] (fill_node profiles n)) = (\<Sum>m\<leftarrow>nodes_of n. mset (own_profiles profiles (gn_group m)))"
proof (induction n)
  case (GroupNode g depth path children ps k)
  then have "map (\<lambda>n. mset (visible_profiles [] (fill_node profiles n))) children
      = map (\<lambda>n. \<Sum>m\<leftarrow>nodes_of n. mset (own_profiles profiles (gn_group m))) children"
    by simp
  then show ?case
    by (simp add: Let_def mset_concat comp_def own_profiles_def sum_list_concat_map cong: map_cong)
qed

lemma total_filled: "gn_total (fill_node profiles n) = length (visible_profiles [] (fill_node profiles n))"
proof (induction n)
  case (GroupNode g depth path children ps k)
  then have "map (\<lambda>n. gn_total (fill_node profiles n)) children
      = map (\<lambda>n. length (visible_profiles [] (fill_node profiles n))) children"
    by simp
  then show ?case by (simp add: Let_def length_concat comp_def cong: map_cong)
qed

lemma sum_list_mset:
  fixes f :: "'a \<Rightarrow> 'b :: comm_monoid_add"
  assumes "mset xs = mset ys"
  shows "sum_list (map f xs) = sum_list (map f ys)"
proof -
  have "mset (map f xs) = mset (map f ys)" using assms by simp
  then show ?thesis by (metis sum_mset_sum_list)
qed

lemma mset_partition: "mset (filter P xs) + mset (filter (\<lambda>x. \<not> P x) xs) = mset xs"
  by (induction xs) simp_all

lemma own_profiles_sum:
  "distinct (map pg_id gs) \<Longrightarrow>
    (\<Sum>g\<leftarrow>gs. mset (own_profiles profiles g))
      = mset (filter (\<lambda>profile. truthy (sp_group_id profile) \<and> the (sp_group_id profile) \<in> pg_id ` set gs) profiles)"
proof (induction gs)
  case (Cons g gs)
  have "mset (own_profiles profiles g)
      + mset (filter (\<lambda>profile. truthy (sp_group_id profile) \<and> the (sp_group_id profile) \<in> pg_id ` set gs) profiles)
      = mset (filter (\<lambda>profile. truthy (sp_group_id profile) \<and> the (sp_group_id profile) \<in> pg_id ` set (g # gs)) profiles)"
    unfolding own_profiles_def using Cons.prems
    by (induction profiles) (auto simp: truthy_iff simp del: mset_filter)
  with Cons show ?case by simp
qed simp

text \<open>
  With nothing collapsed the list shows every saved profile exactly once, whatever group it
  names, and the total of a group is the number of profiles listed in it.
\<close>

lemma every_profile_once:
  "distinct (map pg_id groups) \<Longrightarrow>
    mset (visibleTreeProfiles (buildGroupTree lc groups profiles) [] ungroupedKey) = mset profiles
    \<and> list_all (\<lambda>n. gn_total n = length (visible_profiles [] n)) (gt_roots (buildGroupTree lc groups profiles))"
proof -
  assume d: "distinct (map pg_id groups)"
  obtain roots where r: "gt_roots (buildGroupTree lc groups profiles) = map (fill_node profiles) roots"
    and all: "mset (map gn_group (all_nodes roots)) = mset groups"
    and rest: "gt_ungrouped (buildGroupTree lc groups profiles)
      = filter (\<lambda>profile. \<not> (truthy (sp_group_id profile) \<and> the (sp_group_id profile) \<in> pg_id ` set groups)) profiles"
    by (rule built_places [OF d])
  have "mset (concat (map (visible_profiles [] \<circ> fill_node profiles) roots))
      = (\<Sum>m\<leftarrow>all_nodes roots. mset (own_profiles profiles (gn_group m)))"
    by (simp add: mset_concat visible_filled comp_def all_nodes_def sum_list_concat_map)
  also have "\<dots> = (\<Sum>g\<leftarrow>map gn_group (all_nodes roots). mset (own_profiles profiles g))" by (simp add: comp_def)
  also have "\<dots> = (\<Sum>g\<leftarrow>groups. mset (own_profiles profiles g))"
    by (rule sum_list_mset [OF all])
  finally have "mset (concat (map (visible_profiles [] \<circ> fill_node profiles) roots))
      = mset (filter (\<lambda>profile. truthy (sp_group_id profile) \<and> the (sp_group_id profile) \<in> pg_id ` set groups) profiles)"
    using own_profiles_sum [OF d] by simp
  then have "mset (visibleTreeProfiles (buildGroupTree lc groups profiles) [] ungroupedKey) = mset profiles"
    unfolding visibleTreeProfiles_def r rest
    by (simp only: map_map mset_append mset_partition list.set(1) empty_iff if_False)
  then show ?thesis by (simp add: r total_filled list_all_iff)
qed

text \<open>Two groups in a loop, one below them, one at the top; a profile in the loop and a stray one.\<close>

definition demo_groups :: "ProfileGroup list" where
  "demo_groups = [\<lparr>pg_id = ''a'', pg_name = ''prod'', pg_parentId = Some ''b''\<rparr>,
     \<lparr>pg_id = ''b'', pg_name = ''web'', pg_parentId = Some ''a''\<rparr>,
     \<lparr>pg_id = ''c'', pg_name = ''db'', pg_parentId = Some ''b''\<rparr>,
     \<lparr>pg_id = ''d'', pg_name = ''home'', pg_parentId = None\<rparr>]"

definition demo_compare :: "string \<Rightarrow> string \<Rightarrow> int" where
  "demo_compare s t = int (length s) - int (length t)"

definition demo_profiles :: "SavedProfile list" where
  "demo_profiles = [(bare_profile ''alpha'' ConnSsh)\<lparr>sp_group_id := Some ''c''\<rparr>,
     (bare_profile ''beta'' ConnSsh)\<lparr>sp_group_id := Some ''gone''\<rparr>]"

lemma demo_groups_distinct: "distinct (map pg_id demo_groups)"
  by (simp add: demo_groups_def)

lemma every_group_once_witness:
  "mset (map gn_group (tree_nodes (buildGroupTree demo_compare demo_groups []))) = mset demo_groups"
  by (rule every_group_once [OF demo_groups_distinct])

lemma every_profile_once_witness:
  "mset (visibleTreeProfiles (buildGroupTree demo_compare demo_groups demo_profiles) [] ''ungrouped'') = mset demo_profiles"
  using every_profile_once [OF demo_groups_distinct] by blast

end
