(* ===== verification/Recents.thy ===== *)
theory Recents
  imports Json
begin

text \<open>
  The lists of what was used lately (\<open>src/src/lib/profileRecents.ts\<close>,
  \<open>src/src/lib/recentCommands.ts\<close>, and in \<open>Quick_Connect\<close> the quick connections): newest
  first, each key once, cut to a limit. The locale \<open>recent_list\<close> states the contract they
  share; what follows in it is that such a list holds exactly the keys used most recently.
  Storage is the JSON value it holds, \<open>None\<close> when it holds none or text that does not parse.
\<close>

section \<open>The contract\<close>

text \<open>The keys used, newest first, each once.\<close>

definition latest :: "nat \<Rightarrow> 'k list \<Rightarrow> 'k list" where
  "latest limit used = take limit (nub (rev used))"

lemma take_filter_distinct:
  "distinct ys \<Longrightarrow> take n (filter (\<lambda>y. y \<noteq> k) (take (Suc n) ys)) = take n (filter (\<lambda>y. y \<noteq> k) ys)"
proof (induction ys arbitrary: n)
  case (Cons y ys)
  show ?case
  proof (cases "y = k")
    case True
    with Cons.prems have "filter (\<lambda>z. z \<noteq> k) ys = ys" by (intro filter_True) auto
    moreover from True Cons.prems have "filter (\<lambda>z. z \<noteq> k) (take n ys) = take n ys"
      by (intro filter_True) (auto dest: in_set_takeD)
    ultimately show ?thesis using True by simp
  next
    case False
    with Cons show ?thesis by (cases n) auto
  qed
qed simp

lemma latest_snoc:
  assumes "0 < limit"
  shows "latest limit (used @ [k]) = take limit (k # filter (\<lambda>y. y \<noteq> k) (latest limit used))"
proof -
  obtain n where n: "limit = Suc n" using assms by (cases limit) auto
  show ?thesis by (simp add: latest_def n take_filter_distinct)
qed

lemma distinct_latest: "distinct (latest limit used)"
  by (simp add: latest_def)

lemma length_latest: "length (latest limit used) \<le> limit"
  by (simp add: latest_def)

locale recent_list =
  fixes key :: "'a \<Rightarrow> 'k" and limit :: nat and add :: "'a list \<Rightarrow> 'u \<Rightarrow> 'a list"
    and use_key :: "'u \<Rightarrow> 'k option" and ok :: "'a list \<Rightarrow> bool"
  assumes limit_pos: "0 < limit"
    and ok_empty: "ok []"
    and add_unused: "use_key u = None \<Longrightarrow> add rs u = rs"
    and add_used: "ok rs \<Longrightarrow> use_key u = Some k \<Longrightarrow>
      ok (add rs u) \<and> map key (add rs u) = take limit (k # filter (\<lambda>j. j \<noteq> k) (map key rs))"
begin

lemma keys_of_uses:
  "ok (foldl add [] us) \<and> map key (foldl add [] us) = latest limit (List.map_filter use_key us)"
proof (induction us rule: rev_induct)
  case Nil
  show ?case by (simp add: ok_empty latest_def map_filter_simps)
next
  case (snoc u us)
  have split: "List.map_filter use_key (us @ [u]) = List.map_filter use_key us @ List.map_filter use_key [u]"
    by (simp add: List.map_filter_def)
  show ?case
  proof (cases "use_key u")
    case None
    with snoc show ?thesis by (simp add: split add_unused map_filter_simps)
  next
    case (Some k)
    with snoc add_used [of "foldl add [] us" u k] show ?thesis
      by (simp add: split map_filter_simps latest_snoc [OF limit_pos])
  qed
qed

lemma bounded: "length (foldl add [] us) \<le> limit"
  using keys_of_uses [of us] length_latest by (metis length_map)

end

section \<open>Profiles (\<open>profileRecents.ts\<close>)\<close>

record RecentProfile =
  rp_profileId :: string
  rp_lastUsedAt :: int

definition PROFILE_RECENTS_LIMIT :: nat where "PROFILE_RECENTS_LIMIT = 50"

definition addRecentProfile :: "RecentProfile list \<Rightarrow> string \<Rightarrow> int \<Rightarrow> RecentProfile list" where
  "addRecentProfile recents profileId usedAt =
     take PROFILE_RECENTS_LIMIT
       (\<lparr>rp_profileId = profileId, rp_lastUsedAt = usedAt\<rparr>
        # filter (\<lambda>recent. rp_profileId recent \<noteq> profileId) recents)"

definition removeRecentProfile :: "RecentProfile list \<Rightarrow> string \<Rightarrow> RecentProfile list" where
  "removeRecentProfile recents profileId = filter (\<lambda>recent. rp_profileId recent \<noteq> profileId) recents"

text \<open>A \<open>Map\<close> made of pairs: the last one of a key wins.\<close>

definition profileLastUsed :: "RecentProfile list \<Rightarrow> string \<rightharpoonup> int" where
  "profileLastUsed recents = map_of (rev (map (\<lambda>recent. (rp_profileId recent, rp_lastUsedAt recent)) recents))"

text \<open>Values of a stored array that pass the type guard, cut to the limit.\<close>

definition load_recents :: "(json \<Rightarrow> bool) \<Rightarrow> nat \<Rightarrow> json option \<Rightarrow> json list" where
  "load_recents guard limit stored =
     (case stored of Some (JArr items) \<Rightarrow> take limit (filter guard items) | _ \<Rightarrow> [])"

fun is_json_string :: "json option \<Rightarrow> bool" where
  "is_json_string (Some (JStr s)) = True"
| "is_json_string _ = False"

fun is_json_number :: "json option \<Rightarrow> bool" where
  "is_json_number (Some (JNum n)) = True"
| "is_json_number _ = False"

definition loadRecentProfiles :: "json option \<Rightarrow> json list" where
  "loadRecentProfiles stored =
     load_recents (\<lambda>item. is_object item \<and> is_json_string (field item ''profileId'')
       \<and> is_json_number (field item ''lastUsedAt'')) PROFILE_RECENTS_LIMIT stored"

interpretation profiles: recent_list rp_profileId PROFILE_RECENTS_LIMIT
  "\<lambda>rs (profileId, usedAt). addRecentProfile rs profileId usedAt" "\<lambda>(profileId, usedAt). Some profileId" "\<lambda>rs. True"
  by unfold_locales
    (auto simp: PROFILE_RECENTS_LIMIT_def addRecentProfile_def take_map filter_map comp_def take_Cons')

section \<open>Commands (\<open>recentCommands.ts\<close>)\<close>

record RecentCommand =
  rc_id :: string
  rc_commandText :: string
  rc_profileId :: "string option"
  rc_profileName :: "string option"
  rc_lastUsedAt :: nat
  rc_useCount :: nat

record ExecutedCommand =
  ex_commandText :: string
  ex_profileId :: "string option"
  ex_profileName :: "string option"
  ex_executedAt :: nat

definition RECENT_COMMANDS_LIMIT :: nat where "RECENT_COMMANDS_LIMIT = 100"

definition commandKey :: "string \<Rightarrow> string option \<Rightarrow> string" where
  "commandKey commandText profileId = or_default profileId ''global'' @ [CHR 0x00] @ trim commandText"

text \<open>Lines end at \<open>\n\<close>; the \<open>\r\<close> before it goes with the trimming.\<close>

definition suggestCommandName :: "string \<Rightarrow> string" where
  "suggestCommandName commandText =
     (case find (\<lambda>line. line \<noteq> []) (map trim (split_at (\<lambda>c. c = CHR 0x0A) commandText)) of
        None \<Rightarrow> []
      | Some firstLine \<Rightarrow>
          (if length firstLine \<le> 48 then firstLine else trim_end (take 45 firstLine) @ ''...''))"

definition addRecentCommand :: "RecentCommand list \<Rightarrow> ExecutedCommand \<Rightarrow> RecentCommand list" where
  "addRecentCommand commands executed =
     (let commandText = trim (ex_commandText executed)
      in if commandText = [] then commands
         else let key = commandKey commandText (ex_profileId executed);
                  existing = find (\<lambda>command. commandKey (rc_commandText command) (rc_profileId command) = key) commands;
                  recent = \<lparr>rc_id = (case existing of Some command \<Rightarrow> rc_id command
                                     | None \<Rightarrow> show_nat (ex_executedAt executed) @ '':'' @ key),
                            rc_commandText = commandText,
                            rc_profileId = ex_profileId executed,
                            rc_profileName = ex_profileName executed,
                            rc_lastUsedAt = ex_executedAt executed,
                            rc_useCount = (case existing of Some command \<Rightarrow> rc_useCount command | None \<Rightarrow> 0) + 1\<rparr>
              in take RECENT_COMMANDS_LIMIT
                   (recent # filter (\<lambda>command. Some (rc_id command) \<noteq> map_option rc_id existing) commands))"

definition loadRecentCommands :: "json option \<Rightarrow> json list" where
  "loadRecentCommands stored =
     load_recents (\<lambda>item. is_object item \<and> is_json_string (field item ''id'')
       \<and> is_json_string (field item ''commandText'') \<and> is_json_number (field item ''lastUsedAt'')
       \<and> is_json_number (field item ''useCount'')) RECENT_COMMANDS_LIMIT stored"

text \<open>The key of a listed command, and of one executed: none when it is blank.\<close>

definition recent_key :: "RecentCommand \<Rightarrow> string" where
  "recent_key command = commandKey (rc_commandText command) (rc_profileId command)"

definition executed_key :: "ExecutedCommand \<Rightarrow> string option" where
  "executed_key executed =
     (if trim (ex_commandText executed) = [] then None
      else Some (commandKey (ex_commandText executed) (ex_profileId executed)))"

text \<open>Each key once, and an id is the time its command was first used, and its key.\<close>

definition commands_ok :: "RecentCommand list \<Rightarrow> bool" where
  "commands_ok commands \<longleftrightarrow> distinct (map recent_key commands) \<and>
     (\<forall>command\<in>set commands. \<exists>t. rc_id command = show_nat t @ '':'' @ recent_key command)"

lemma id_determines_key:
  assumes "show_nat s @ '':'' @ k = show_nat t @ '':'' @ l"
  shows "k = l"
proof -
  have digits: "\<forall>c\<in>set (show_nat n). c \<noteq> CHR '':''" for n
    using show_nat_digits by (force simp: is_digit_def)
  have "takeWhile (\<lambda>c. c \<noteq> CHR '':'') (show_nat n @ '':'' @ m) = show_nat n" for n m
    using digits by (simp add: takeWhile_append2)
  then have "show_nat s = show_nat t" using assms by metis
  with assms show ?thesis by simp
qed

lemma commands_ok_take: "commands_ok rs \<Longrightarrow> commands_ok (take n rs)"
  unfolding commands_ok_def take_map [symmetric] by (auto dest: in_set_takeD)

lemma commands_ok_Cons:
  "commands_ok rs \<Longrightarrow> recent_key r \<notin> recent_key ` set rs \<Longrightarrow> \<exists>t. rc_id r = show_nat t @ '':'' @ recent_key r \<Longrightarrow>
    commands_ok (r # rs)"
  by (simp add: commands_ok_def)

lemma addRecentCommand_keys:
  assumes ok: "commands_ok rs" and key: "executed_key u = Some k"
  shows "commands_ok (addRecentCommand rs u)
    \<and> map recent_key (addRecentCommand rs u)
        = take RECENT_COMMANDS_LIMIT (k # filter (\<lambda>j. j \<noteq> k) (map recent_key rs))"
proof -
  let ?existing = "find (\<lambda>command. recent_key command = k) rs"
  have k: "k = commandKey (trim (ex_commandText u)) (ex_profileId u)" and nonblank: "trim (ex_commandText u) \<noteq> []"
    using key by (auto simp: executed_key_def commandKey_def split: if_splits)
  let ?recent = "\<lparr>rc_id = (case ?existing of Some command \<Rightarrow> rc_id command
        | None \<Rightarrow> show_nat (ex_executedAt u) @ '':'' @ k),
      rc_commandText = trim (ex_commandText u), rc_profileId = ex_profileId u, rc_profileName = ex_profileName u,
      rc_lastUsedAt = ex_executedAt u,
      rc_useCount = (case ?existing of Some command \<Rightarrow> rc_useCount command | None \<Rightarrow> 0) + 1\<rparr>"
  have recent: "recent_key ?recent = k" by (simp add: recent_key_def k)
  have found: "d \<in> set rs \<and> recent_key d = k" if "?existing = Some d" for d
    using that by (auto simp: find_Some_iff)
  have same: "Some (rc_id command) \<noteq> map_option rc_id ?existing \<longleftrightarrow> recent_key command \<noteq> k"
    if c: "command \<in> set rs" for command
  proof (cases ?existing)
    case None
    with c have "recent_key command \<noteq> k" by (auto simp: find_None_iff)
    with None show ?thesis by simp
  next
    case (Some d)
    note d = found [OF Some]
    from ok have ids: "\<exists>t. rc_id e = show_nat t @ '':'' @ recent_key e" if "e \<in> set rs" for e
      using that by (simp add: commands_ok_def)
    from ids [OF c] ids [of d] d obtain s t where "rc_id command = show_nat s @ '':'' @ recent_key command"
      and "rc_id d = show_nat t @ '':'' @ k"
      by blast
    then have "rc_id command = rc_id d \<Longrightarrow> recent_key command = k" using id_determines_key by metis
    moreover have "recent_key command = k \<Longrightarrow> command = d"
      using ok c d by (auto simp: commands_ok_def distinct_map dest: inj_onD)
    ultimately show ?thesis using Some by auto
  qed
  have "addRecentCommand rs u = take RECENT_COMMANDS_LIMIT
      (?recent # filter (\<lambda>command. Some (rc_id command) \<noteq> map_option rc_id ?existing) rs)"
    unfolding addRecentCommand_def Let_def recent_key_def k using nonblank by simp
  also have "filter (\<lambda>command. Some (rc_id command) \<noteq> map_option rc_id ?existing) rs = filter (\<lambda>c. recent_key c \<noteq> k) rs"
    using same by (intro filter_cong) auto
  finally have add: "addRecentCommand rs u = take RECENT_COMMANDS_LIMIT (?recent # filter (\<lambda>c. recent_key c \<noteq> k) rs)" .
  have keys: "map recent_key (?recent # filter (\<lambda>c. recent_key c \<noteq> k) rs) = k # filter (\<lambda>j. j \<noteq> k) (map recent_key rs)"
    using recent by (simp add: filter_map comp_def)
  have id: "\<exists>t. rc_id ?recent = show_nat t @ '':'' @ recent_key ?recent"
    unfolding recent using ok found by (cases ?existing) (auto simp: commands_ok_def)
  have "commands_ok (filter (\<lambda>c. recent_key c \<noteq> k) rs)"
    using ok by (simp add: commands_ok_def distinct_map inj_on_def)
  moreover have "recent_key ?recent \<notin> recent_key ` set (filter (\<lambda>c. recent_key c \<noteq> k) rs)"
    unfolding recent by auto
  ultimately have "commands_ok (?recent # filter (\<lambda>c. recent_key c \<noteq> k) rs)"
    using id by (rule commands_ok_Cons)
  then have "commands_ok (addRecentCommand rs u)" unfolding add by (rule commands_ok_take)
  with keys show ?thesis unfolding add by (metis take_map)
qed

lemma addRecentCommand_blank: "executed_key u = None \<Longrightarrow> addRecentCommand rs u = rs"
  by (simp add: executed_key_def addRecentCommand_def split: if_splits)

interpretation commands: recent_list recent_key RECENT_COMMANDS_LIMIT addRecentCommand executed_key commands_ok
  by unfold_locales
    (simp_all add: RECENT_COMMANDS_LIMIT_def commands_ok_def [of "[]"] addRecentCommand_blank addRecentCommand_keys
      addRecentCommand_keys [unfolded RECENT_COMMANDS_LIMIT_def])

end
