(* ===== verification/Quick_Connect.thy ===== *)
theory Quick_Connect
  imports Profile_Types Recents
begin

text \<open>
  Connecting to a typed host (\<open>src/src/lib/quickConnect.ts\<close>): reading \<open>[user@]host[:port]\<close> and
  \<open>ssh\<close> command lines, filling a target in from \<open>~/.ssh/config\<close>, the tab and the draft
  profile of a connection, and the connections used lately. What reads as nothing is
  \<open>None\<close>. The regular expressions are predicates on strings; a space is what \<open>\s\<close> matches.
\<close>

section \<open>Endpoints\<close>

record QuickConnectEndpoint =
  qe_username :: "string option"
  qe_host :: string
  qe_port :: "nat option"

record QuickConnectTarget =
  qt_endpoint :: QuickConnectEndpoint
  qt_jumpHost :: "QuickConnectEndpoint option"
  qt_privateKeyPath :: "string option"

definition QUICK_CONNECT_RECENTS_LIMIT :: nat where "QUICK_CONNECT_RECENTS_LIMIT = 8"
definition DEFAULT_SSH_PORT :: nat where "DEFAULT_SSH_PORT = 22"

definition HOSTNAME :: "string \<Rightarrow> bool" where
  "HOSTNAME s \<longleftrightarrow> s \<noteq> [] \<and> is_word (hd s) \<and> is_word (last s)
     \<and> list_all (\<lambda>c. is_word c \<or> c = CHR ''.'' \<or> c = CHR ''-'') s"

definition is_ipv6_char :: "char \<Rightarrow> bool" where
  "is_ipv6_char c \<longleftrightarrow> is_digit c \<or> (97 \<le> code c \<and> code c \<le> 102) \<or> (65 \<le> code c \<and> code c \<le> 70)
     \<or> c \<in> set '':.%''"

definition IPV6 :: "string \<Rightarrow> bool" where
  "IPV6 s \<longleftrightarrow> s \<noteq> [] \<and> list_all is_ipv6_char s"

definition parsePort :: "string \<Rightarrow> nat option" where
  "parsePort value =
     (if value = [] \<or> 5 < length value \<or> \<not> list_all is_digit value then None
      else let port = read_nat value in if 1 \<le> port \<and> port \<le> 65535 then Some port else None)"

text \<open>\<open>[host]\<close>, with digits after a colon or without.\<close>

definition bracketed :: "string \<Rightarrow> (string \<times> string option) option" where
  "bracketed rest =
     (case rest of
        [] \<Rightarrow> None
      | c # s \<Rightarrow>
          (let inner = takeWhile (\<lambda>d. d \<noteq> CHR '']'') s; after = drop (length inner + 1) s
           in if c \<noteq> CHR ''['' \<or> inner = [] \<or> length inner = length s then None
              else if after = [] then Some (inner, None)
              else if hd after = CHR '':'' \<and> tl after \<noteq> [] \<and> list_all is_digit (tl after)
              then Some (inner, Some (tl after))
              else None))"

definition colons :: "string \<Rightarrow> nat" where
  "colons s = length (filter (\<lambda>c. c = CHR '':'') s)"

text \<open>The host and the port after the user name; \<open>None\<close> where the source returns \<open>null\<close>.\<close>

definition parse_host :: "string \<Rightarrow> (string \<times> nat option) option" where
  "parse_host rest =
     (case bracketed rest of
        Some (inner, portText) \<Rightarrow>
          (if \<not> IPV6 inner then None
           else case portText of
             None \<Rightarrow> Some (inner, None)
           | Some t \<Rightarrow> map_option (\<lambda>port. (inner, Some port)) (parsePort t))
      | None \<Rightarrow>
          (if colons rest = 1
           then (let name = takeWhile (\<lambda>c. c \<noteq> CHR '':'') rest; portText = drop (length name + 1) rest
                 in map_option (\<lambda>port. (name, Some port)) (parsePort portText))
           else if colons rest \<noteq> 0 \<and> \<not> IPV6 rest then None
           else Some (rest, None)))"

definition user_ok :: "string \<Rightarrow> bool" where
  "user_ok username \<longleftrightarrow> username \<noteq> [] \<and> list_all (\<lambda>c. \<not> is_space c \<and> c \<noteq> CHR '':'' \<and> c \<noteq> CHR ''@'') username"

text \<open>The user name before the last \<open>@\<close>, if there is one, and what follows it.\<close>

definition split_user :: "string \<Rightarrow> string option \<times> string" where
  "split_user s =
     (case last_index (\<lambda>c. c = CHR ''@'') s of
        Some i \<Rightarrow> (Some (take i s), drop (i + 1) s)
      | None \<Rightarrow> (None, s))"

definition parseEndpoint :: "string \<Rightarrow> QuickConnectEndpoint option" where
  "parseEndpoint s =
     (let (username, rest) = split_user s
      in if (case username of Some u \<Rightarrow> \<not> user_ok u | None \<Rightarrow> False) then None
         else case parse_host rest of
           None \<Rightarrow> None
         | Some (host, port) \<Rightarrow>
             (if colons host = 0 \<and> \<not> HOSTNAME host then None
              else Some \<lparr>qe_username = username, qe_host = host, qe_port = port\<rparr>))"

section \<open>What was typed\<close>

record ReadTokens =
  rt_endpoint :: "QuickConnectEndpoint option"
  rt_port :: "nat option"
  rt_username :: "string option"
  rt_jumpHost :: "QuickConnectEndpoint option"
  rt_privateKeyPath :: "string option"

definition nothing_read :: ReadTokens where
  "nothing_read = \<lparr>rt_endpoint = None, rt_port = None, rt_username = None, rt_jumpHost = None, rt_privateKeyPath = None\<rparr>"

text \<open>\<open>-p22\<close> and the like: the option's letter and what follows it in the token.\<close>

definition option_token :: "string \<Rightarrow> (char \<times> string) option" where
  "option_token token =
     (if take 1 token = ''-'' \<and> 1 < length token \<and> token ! 1 \<in> set ''pliJ'' then Some (token ! 1, drop 2 token) else None)"

definition read_option :: "char \<Rightarrow> string \<Rightarrow> ReadTokens \<Rightarrow> ReadTokens option" where
  "read_option letter value st =
     (if letter = CHR ''p'' then map_option (\<lambda>port. st\<lparr>rt_port := Some port\<rparr>) (parsePort value)
      else if letter = CHR ''l'' then Some (st\<lparr>rt_username := Some value\<rparr>)
      else if letter = CHR ''i'' then Some (st\<lparr>rt_privateKeyPath := Some value\<rparr>)
      else if CHR '','' \<in> set value then None
      else map_option (\<lambda>jump. st\<lparr>rt_jumpHost := Some jump\<rparr>) (parseEndpoint value))"

fun read_tokens :: "string list \<Rightarrow> ReadTokens \<Rightarrow> ReadTokens option" where
  "read_tokens [] st = Some st"
| "read_tokens (token # tokens) st =
     (case option_token token of
        Some (letter, inline) \<Rightarrow>
          (if inline \<noteq> [] then Option.bind (read_option letter inline st) (read_tokens tokens)
           else case tokens of
             [] \<Rightarrow> None
           | value # rest \<Rightarrow> Option.bind (read_option letter value st) (read_tokens rest))
      | None \<Rightarrow>
          (if starts_with token ''-'' \<or> rt_endpoint st \<noteq> None then None
           else case parseEndpoint token of
             None \<Rightarrow> None
           | Some e \<Rightarrow> read_tokens tokens (st\<lparr>rt_endpoint := Some e\<rparr>)))"

definition parseQuickConnectInput :: "string \<Rightarrow> QuickConnectTarget option" where
  "parseQuickConnectInput input =
     (let typed = words_by is_space (trim input);
          tokens = (if typed \<noteq> [] \<and> hd typed = ''ssh'' then tl typed else typed)
      in case read_tokens tokens nothing_read of
           None \<Rightarrow> None
         | Some st \<Rightarrow>
             map_option (\<lambda>e. \<lparr>qt_endpoint = e\<lparr>qe_username := or_else (qe_username e) (rt_username st),
                                qe_port := or_else (rt_port st) (qe_port e)\<rparr>,
                              qt_jumpHost = rt_jumpHost st, qt_privateKeyPath = rt_privateKeyPath st\<rparr>)
               (rt_endpoint st))"

text \<open>\<open>port && port !== DEFAULT_SSH_PORT\<close>.\<close>

definition other_port :: "nat option \<Rightarrow> bool" where
  "other_port port \<longleftrightarrow> (case port of Some p \<Rightarrow> p \<noteq> 0 \<and> p \<noteq> DEFAULT_SSH_PORT | None \<Rightarrow> False)"

definition formatEndpoint :: "QuickConnectEndpoint \<Rightarrow> string" where
  "formatEndpoint e =
     (let host = (if colons (qe_host e) \<noteq> 0 \<and> other_port (qe_port e) then ''['' @ qe_host e @ '']'' else qe_host e);
          user = (if truthy (qe_username e) then the (qe_username e) @ ''@'' else []);
          port = (if other_port (qe_port e) then '':'' @ show_nat (the (qe_port e)) else [])
      in user @ host @ port)"

section \<open>Connections\<close>

record SshConfigHost =
  sc_hostPattern :: string
  sc_name :: string
  sc_host :: "string option"
  sc_port :: nat
  sc_username :: "string option"
  sc_privateKeyPath :: "string option"
  sc_agentForward :: bool
  sc_keepaliveIntervalSecs :: nat
  sc_keepaliveCountMax :: nat
  sc_jumpHosts :: "SavedJumpHost list"
  sc_skipped :: bool

record QuickConnection =
  qc_title :: string
  qc_username :: string
  qc_host :: string
  qc_port :: nat
  qc_privateKeyPath :: "string option"
  qc_agentForward :: "bool option"
  qc_keepaliveIntervalSecs :: "nat option"
  qc_keepaliveCountMax :: "nat option"
  qc_jumpHosts :: "JumpHostConnection list option"

definition findSshConfigHost :: "SshConfigHost list \<Rightarrow> string \<Rightarrow> SshConfigHost option" where
  "findSshConfigHost hosts alias = find (\<lambda>host. \<not> sc_skipped host \<and> sc_hostPattern host = alias) hosts"

definition configHostToLookUp :: "string \<Rightarrow> SshConfigHost list \<Rightarrow> string option" where
  "configHostToLookUp input hosts =
     (case parseQuickConnectInput (trim input) of
        None \<Rightarrow> None
      | Some target \<Rightarrow>
          (if findSshConfigHost hosts (qe_host (qt_endpoint target)) \<noteq> None then None
           else Some (qe_host (qt_endpoint target))))"

definition auto_jump :: "string \<Rightarrow> nat \<Rightarrow> string \<Rightarrow> string option \<Rightarrow> JumpHostConnection" where
  "auto_jump host port username privateKeyPath =
     \<lparr>j_host = host, j_port = port, j_username = username, j_authMethod = AuthAuto, j_password = None,
      j_privateKeyPath = privateKeyPath, j_privateKeyPassphrase = None, j_certificatePath = None, j_profileId = None\<rparr>"

definition jumpHostsFromConfig :: "SavedJumpHost list \<Rightarrow> JumpHostConnection list" where
  "jumpHostsFromConfig jumpHosts =
     map (\<lambda>jump. auto_jump (sj_host jump) (sj_port jump) (sj_username jump) (sj_private_key_path jump)) jumpHosts"

definition config_field :: "SshConfigHost option \<Rightarrow> (SshConfigHost \<Rightarrow> 'a option) \<Rightarrow> 'a option" where
  "config_field config f = Option.bind config f"

definition resolve_jumps ::
  "QuickConnectEndpoint option \<Rightarrow> string \<Rightarrow> SshConfigHost option \<Rightarrow> JumpHostConnection list option" where
  "resolve_jumps jump username config =
     (let jumpUsername = map_option (\<lambda>j. or_default (qe_username j) username) jump
      in if jump \<noteq> None \<and> truthy jumpUsername
         then Some [auto_jump (qe_host (the jump)) (or_default (qe_port (the jump)) DEFAULT_SSH_PORT) (the jumpUsername) None]
         else case config of
           Some c \<Rightarrow> if sc_jumpHosts c \<noteq> [] then Some (jumpHostsFromConfig (sc_jumpHosts c)) else None
         | None \<Rightarrow> None)"

definition resolveQuickConnectTarget :: "QuickConnectTarget \<Rightarrow> SshConfigHost list \<Rightarrow> QuickConnection option" where
  "resolveQuickConnectTarget target configHosts =
     (let e = qt_endpoint target;
          config = findSshConfigHost configHosts (qe_host e);
          username = or_else (qe_username e) (config_field config sc_username);
          port = or_default (or_else (qe_port e) (map_option sc_port config)) DEFAULT_SSH_PORT
      in if \<not> truthy username then None
         else Some \<lparr>qc_title =
               (case config of
                  Some c \<Rightarrow>
                    if or_default (qe_port e) 0 = 0 then the username @ ''@'' @ sc_name c
                    else formatEndpoint \<lparr>qe_username = username, qe_host = qe_host e, qe_port = Some port\<rparr>
                | None \<Rightarrow> formatEndpoint \<lparr>qe_username = username, qe_host = qe_host e, qe_port = Some port\<rparr>),
             qc_username = the username,
             qc_host = or_default (config_field config sc_host) (qe_host e),
             qc_port = port,
             qc_privateKeyPath = or_else (qt_privateKeyPath target) (config_field config sc_privateKeyPath),
             qc_agentForward = map_option sc_agentForward config,
             qc_keepaliveIntervalSecs = map_option sc_keepaliveIntervalSecs config,
             qc_keepaliveCountMax = map_option sc_keepaliveCountMax config,
             qc_jumpHosts = resolve_jumps (qt_jumpHost target) (the username) config\<rparr>)"

definition quickConnectionFromConfig :: "SshConfigHost \<Rightarrow> QuickConnection option" where
  "quickConnectionFromConfig config =
     resolveQuickConnectTarget
       \<lparr>qt_endpoint = \<lparr>qe_username = None, qe_host = sc_hostPattern config, qe_port = None\<rparr>,
        qt_jumpHost = None, qt_privateKeyPath = None\<rparr> [config]"

text \<open>A tab but for its id and whether it is active, which the caller adds.\<close>

definition buildQuickConnectTab :: "QuickConnection \<Rightarrow> string \<Rightarrow> bool \<Rightarrow> Tab" where
  "buildQuickConnectTab connection i active =
     (make_tab i (qc_title connection) TySsh active)
       \<lparr>t_isModified := Some False, t_quickConnect := Some True,
        t_connection := Some (empty_connection
          \<lparr>c_type := Some ConnSsh, c_profileName := Some (qc_title connection),
           c_host := Some (qc_host connection), c_port := Some (qc_port connection),
           c_username := Some (qc_username connection), c_authMethod := Some AuthAuto,
           c_privateKeyPath := qc_privateKeyPath connection,
           c_agentForward := Some (qc_agentForward connection = Some True),
           c_keepaliveIntervalSecs := qc_keepaliveIntervalSecs connection,
           c_keepaliveCountMax := qc_keepaliveCountMax connection,
           c_jumpHosts := qc_jumpHosts connection\<rparr>)\<rparr>"

definition quickConnectionFromTab :: "Tab \<Rightarrow> QuickConnection option" where
  "quickConnectionFromTab tab =
     (case t_connection tab of
        None \<Rightarrow> None
      | Some c \<Rightarrow>
          (if \<not> truthy (c_host c) \<or> \<not> truthy (c_username c) then None
           else Some \<lparr>qc_title = t_title tab, qc_username = the (c_username c), qc_host = the (c_host c),
             qc_port = or_default (c_port c) DEFAULT_SSH_PORT, qc_privateKeyPath = c_privateKeyPath c,
             qc_agentForward = c_agentForward c, qc_keepaliveIntervalSecs = c_keepaliveIntervalSecs c,
             qc_keepaliveCountMax = c_keepaliveCountMax c,
             qc_jumpHosts = map_option (map (\<lambda>jump. auto_jump (j_host jump) (j_port jump) (j_username jump)
               (j_privateKeyPath jump))) (c_jumpHosts c)\<rparr>))"

section \<open>Connections used lately\<close>

definition recentKey :: "QuickConnection \<Rightarrow> string" where
  "recentKey connection =
     (let jumps = join '','' (map (\<lambda>jump. j_username jump @ ''@'' @ j_host jump @ '':'' @ show_nat (j_port jump))
        (or_default (qc_jumpHosts connection) []))
      in qc_username connection @ ''@'' @ qc_host connection @ '':'' @ show_nat (qc_port connection) @ ''|'' @ jumps)"

type_synonym RecentQuickConnection = "QuickConnection \<times> int"

definition addRecentQuickConnection ::
  "RecentQuickConnection list \<Rightarrow> QuickConnection \<Rightarrow> int \<Rightarrow> RecentQuickConnection list" where
  "addRecentQuickConnection recents connection usedAt =
     (let key = recentKey connection
      in take QUICK_CONNECT_RECENTS_LIMIT
           ((connection, usedAt) # filter (\<lambda>recent. recentKey (fst recent) \<noteq> key) recents))"

definition removeRecentQuickConnection ::
  "RecentQuickConnection list \<Rightarrow> QuickConnection \<Rightarrow> RecentQuickConnection list" where
  "removeRecentQuickConnection recents connection =
     (let key = recentKey connection in filter (\<lambda>recent. recentKey (fst recent) \<noteq> key) recents)"

definition loadRecentQuickConnections :: "json option \<Rightarrow> json list" where
  "loadRecentQuickConnections stored =
     load_recents (\<lambda>item. is_object item \<and> is_json_string (field item ''title'')
       \<and> is_json_string (field item ''username'') \<and> is_json_string (field item ''host'')
       \<and> is_json_number (field item ''port'') \<and> is_json_number (field item ''lastUsedAt''))
     QUICK_CONNECT_RECENTS_LIMIT stored"

definition matchesQuery :: "string \<Rightarrow> string option list \<Rightarrow> bool" where
  "matchesQuery query searched =
     (let sought = words_by is_space (to_lower query);
          haystack = to_lower (join '' '' (List.map_filter (\<lambda>f. if truthy f then f else None) searched))
      in list_all (includes_str haystack) sought)"

section \<open>What got in, and the profile to save\<close>

definition applyQuickConnectAuth :: "Tab \<Rightarrow> SshAuthUsed \<Rightarrow> Tab" where
  "applyQuickConnectAuth tab auth =
     (case t_connection tab of
        None \<Rightarrow> tab
      | Some c \<Rightarrow>
          (if c_authMethod c \<noteq> Some AuthAuto then tab
           else tab\<lparr>t_quickConnectAuth := Some auth,
             t_connection := Some (if au_reusable auth
               then c\<lparr>c_authMethod := Some (au_method auth),
                 c_privateKeyPath := (if au_method auth = AuthKey then au_privateKeyPath auth else None)\<rparr>
               else c)\<rparr>))"

definition DEFAULT_KEEPALIVE_INTERVAL_SECS :: nat where "DEFAULT_KEEPALIVE_INTERVAL_SECS = 15"
definition DEFAULT_KEEPALIVE_COUNT_MAX :: nat where "DEFAULT_KEEPALIVE_COUNT_MAX = 3"

definition draftAuthMethod :: "string option \<Rightarrow> ConnectionAuthMethod" where
  "draftAuthMethod privateKeyPath = (if truthy privateKeyPath then AuthKey else AuthPassword)"

definition auth_name :: "ConnectionAuthMethod \<Rightarrow> string" where
  "auth_name method = (case method of AuthPassword \<Rightarrow> ''password'' | AuthKey \<Rightarrow> ''key'' | AuthAgent \<Rightarrow> ''agent''
     | AuthInteractive \<Rightarrow> ''interactive'' | AuthAuto \<Rightarrow> ''auto'')"

definition draft_jump :: "JumpHostConnection \<Rightarrow> SavedJumpHost" where
  "draft_jump jump =
     \<lparr>sj_host = j_host jump, sj_port = j_port jump, sj_username = j_username jump,
      sj_auth_method = auth_name (if j_authMethod jump = AuthAuto then draftAuthMethod (j_privateKeyPath jump)
        else j_authMethod jump),
      sj_private_key_path = j_privateKeyPath jump, sj_private_key_passphrase = None, sj_certificate_path = None,
      sj_password = None, sj_profile_id = None\<rparr>"

definition draftProfileFromTab :: "Tab \<Rightarrow> SavedProfile" where
  "draftProfileFromTab tab =
     (let connection = or_default (t_connection tab) empty_connection;
          auth = t_quickConnectAuth tab;
          authMethod = (case c_authMethod connection of
              Some m \<Rightarrow> if m \<noteq> AuthAuto then m
                else or_default (map_option au_method auth) (draftAuthMethod (c_privateKeyPath connection))
            | None \<Rightarrow> or_default (map_option au_method auth) (draftAuthMethod (c_privateKeyPath connection)));
          privateKeyPath = or_else (Option.bind auth au_privateKeyPath) (c_privateKeyPath connection);
          jumpHosts = or_default (c_jumpHosts connection) []
      in (bare_profile (t_title tab) ConnSsh)
           \<lparr>sp_id := [], sp_host := c_host connection,
            sp_port := Some (or_default (c_port connection) DEFAULT_SSH_PORT),
            sp_username := c_username connection, sp_auth_method := Some (auth_name authMethod),
            sp_agent_forward := Some (c_agentForward connection = Some True),
            sp_private_key_path := (if authMethod = AuthKey then privateKeyPath else None),
            sp_keepalive_interval_secs := or_default (c_keepaliveIntervalSecs connection) DEFAULT_KEEPALIVE_INTERVAL_SECS,
            sp_keepalive_count_max := or_default (c_keepaliveCountMax connection) DEFAULT_KEEPALIVE_COUNT_MAX,
            sp_use_jump_host := Some (jumpHosts \<noteq> []), sp_jump_hosts := Some (map draft_jump jumpHosts)\<rparr>)"

definition draftProfileFromInput :: "string \<Rightarrow> SshConfigHost list \<Rightarrow> SavedProfile option" where
  "draftProfileFromInput input configHosts =
     (case parseQuickConnectInput input of
        None \<Rightarrow> None
      | Some target \<Rightarrow>
          (let host = qe_host (qt_endpoint target);
               connection = or_default (resolveQuickConnectTarget target configHosts)
                 \<lparr>qc_title = formatEndpoint (qt_endpoint target), qc_username = [],
                  qc_host = or_default (config_field (findSshConfigHost configHosts host) sc_host) host,
                  qc_port = or_default (qe_port (qt_endpoint target)) DEFAULT_SSH_PORT,
                  qc_privateKeyPath = None, qc_agentForward = None, qc_keepaliveIntervalSecs = None,
                  qc_keepaliveCountMax = None, qc_jumpHosts = None\<rparr>
           in Some (draftProfileFromTab (buildQuickConnectTab connection [] False))))"

section \<open>Reading back an endpoint\<close>

definition host_ok :: "string \<Rightarrow> bool" where
  "host_ok host \<longleftrightarrow> (colons host = 0 \<and> HOSTNAME host) \<or> (colons host \<noteq> 0 \<and> IPV6 host)"

definition port_ok :: "nat option \<Rightarrow> bool" where
  "port_ok port \<longleftrightarrow> (case port of Some p \<Rightarrow> 1 \<le> p \<and> p \<le> 65535 | None \<Rightarrow> True)"

definition endpoint_ok :: "QuickConnectEndpoint \<Rightarrow> bool" where
  "endpoint_ok e \<longleftrightarrow> host_ok (qe_host e) \<and> port_ok (qe_port e)
     \<and> (case qe_username e of Some u \<Rightarrow> user_ok u | None \<Rightarrow> True)"

lemma parsePort_range: "parsePort t = Some p \<Longrightarrow> 1 \<le> p \<and> p \<le> 65535"
  by (auto simp: parsePort_def Let_def split: if_splits)

lemma colons_simps [simp]: "colons [] = 0" "colons (c # s) = (if c = CHR '':'' then Suc (colons s) else colons s)"
  "colons (s @ t) = colons s + colons t"
  by (simp_all add: colons_def)

lemma colons_0: "colons s = 0 \<longleftrightarrow> CHR '':'' \<notin> set s"
  by (induction s) auto

lemma parse_host_ok:
  assumes "parse_host rest = Some (host, port)"
  shows "port_ok port \<and> (colons host \<noteq> 0 \<longrightarrow> IPV6 host)"
proof (cases "bracketed rest")
  case None
  have "colons (takeWhile (\<lambda>c. c \<noteq> CHR '':'') rest) = 0" by (auto simp: colons_0 dest: set_takeWhileD)
  with None assms show ?thesis
    by (auto simp: parse_host_def port_ok_def Let_def split: if_splits dest!: parsePort_range)
next
  case (Some b)
  with assms show ?thesis
    by (cases b) (auto simp: parse_host_def port_ok_def split: if_splits option.splits dest!: parsePort_range)
qed

lemma parseEndpoint_ok: "parseEndpoint s = Some e \<Longrightarrow> endpoint_ok e"
  using parse_host_ok
  by (fastforce simp: parseEndpoint_def endpoint_ok_def host_ok_def split: prod.splits option.splits if_splits)

lemma length_show_nat: "n < 10 ^ k \<Longrightarrow> 0 < k \<Longrightarrow> length (show_nat n) \<le> k"
proof (induction n arbitrary: k rule: show_nat.induct)
  case (1 n)
  show ?case
  proof (cases "n < 10")
    case True
    with 1(3) show ?thesis by (simp add: show_nat.simps [of n])
  next
    case False
    with 1(2,3) obtain j where j: "k = Suc j" "0 < j" by (cases k; cases "k - 1") auto
    with 1(2) have "n div 10 < 10 ^ j" by (simp add: less_mult_imp_div_less mult.commute)
    from 1(1) [OF False this j(2)] False j show ?thesis by (simp add: show_nat.simps [of n])
  qed
qed

lemma parsePort_show:
  assumes "1 \<le> p" and "p \<le> 65535"
  shows "parsePort (show_nat p) = Some p"
proof -
  have "length (show_nat p) \<le> 5" using assms by (intro length_show_nat) auto
  then show ?thesis
    using assms show_nat_digits [of _ p] by (auto simp: parsePort_def list_all_iff)
qed

lemma show_nat_no:
  "CHR ''@'' \<notin> set (show_nat p)" "CHR '':'' \<notin> set (show_nat p)" "CHR '']'' \<notin> set (show_nat p)" "CHR ''['' \<notin> set (show_nat p)"
  using show_nat_digits [of _ p] by (force simp: is_digit_def)+

lemma hostname_chars:
  assumes "HOSTNAME host"
  shows "CHR ''@'' \<notin> set host" and "CHR ''['' \<notin> set host" and "CHR '':'' \<notin> set host" and "hd host \<noteq> CHR ''[''"
  using assms by (auto simp: HOSTNAME_def list_all_iff is_word_def is_letter_def is_lower_def is_upper_def is_digit_def)

lemma ipv6_chars:
  assumes "IPV6 host"
  shows "CHR ''@'' \<notin> set host" and "CHR ''['' \<notin> set host" and "CHR '']'' \<notin> set host" and "hd host \<noteq> CHR ''[''" and "host \<noteq> []"
proof -
  show no: "CHR ''@'' \<notin> set host" "CHR ''['' \<notin> set host" "CHR '']'' \<notin> set host" and ne: "host \<noteq> []"
    using assms by (auto simp: IPV6_def list_all_iff is_ipv6_char_def is_digit_def)
  from ne have "hd host \<in> set host" by simp
  with no(2) show "hd host \<noteq> CHR ''[''" by metis
qed

lemma last_index_none: "c \<notin> set t \<Longrightarrow> last_index (\<lambda>d. d = c) t = None"
  by (auto simp: last_index_def find_index_None)

lemma last_index_mid:
  assumes "c \<notin> set t"
  shows "last_index (\<lambda>d. d = c) (s @ c # t) = Some (length s)"
proof -
  have "find_index (\<lambda>d. d = c) (rev t @ c # rev s) = Some (length (rev t))"
    using assms by (intro find_index_append_hit) auto
  then show ?thesis by (simp add: last_index_def)
qed

lemma bracketed_none: "hd s \<noteq> CHR ''['' \<Longrightarrow> bracketed s = None"
  by (cases s) (simp_all add: bracketed_def Let_def)

lemma bracketed_port:
  assumes "CHR '']'' \<notin> set host" and "host \<noteq> []"
  shows "bracketed (''['' @ host @ '']'' @ '':'' @ show_nat p) = Some (host, Some (show_nat p))"
proof -
  have "takeWhile (\<lambda>d. d \<noteq> CHR '']'') (host @ CHR '']'' # CHR '':'' # show_nat p) = host"
    using assms(1) by (simp add: takeWhile_append2 takeWhile_tail) (metis takeWhile_eq_all_conv)
  then show ?thesis using assms(2) show_nat_digits [of _ p] by (simp add: bracketed_def Let_def list_all_iff)
qed

definition host_and_port :: "string \<Rightarrow> nat option \<Rightarrow> string" where
  "host_and_port host port =
     (if colons host \<noteq> 0 \<and> other_port port then ''['' @ host @ '']'' else host)
     @ (if other_port port then '':'' @ show_nat (the port) else [])"

text \<open>A host with a single colon reads as a host and a port, and is no address.\<close>

lemma parse_host_and_port:
  assumes "host_ok host" and "port_ok port" and "colons host \<noteq> 1"
  shows "parse_host (host_and_port host port) = Some (host, if other_port port then port else None)"
proof (cases "colons host = 0")
  case True
  with assms(1) have h: "HOSTNAME host" by (simp add: host_ok_def)
  then have ne: "host \<noteq> []" by (simp add: HOSTNAME_def)
  show ?thesis
  proof (cases "other_port port")
    case op: True
    then obtain p where p: "port = Some p" by (cases port) (auto simp: other_port_def)
    have "takeWhile (\<lambda>c. c \<noteq> CHR '':'') (host @ CHR '':'' # show_nat p) = host"
      using hostname_chars(3) [OF h] by (simp add: takeWhile_append2 takeWhile_tail) (metis takeWhile_eq_all_conv)
    moreover have "bracketed (host @ CHR '':'' # show_nat p) = None"
      using hostname_chars(4) [OF h] ne by (intro bracketed_none) (cases host; simp)
    moreover have "colons (show_nat p) = 0" using show_nat_no by (simp add: colons_0)
    moreover have "parsePort (show_nat p) = Some p" using assms(2) p by (intro parsePort_show) (simp_all add: port_ok_def)
    ultimately show ?thesis using True op p by (simp add: parse_host_def host_and_port_def Let_def)
  next
    case False
    with True bracketed_none [OF hostname_chars(4) [OF h]] show ?thesis by (simp add: parse_host_def host_and_port_def)
  qed
next
  case False
  with assms(1) have h: "IPV6 host" by (simp add: host_ok_def)
  show ?thesis
  proof (cases "other_port port")
    case True
    then obtain p where p: "port = Some p" by (cases port) (auto simp: other_port_def)
    have "parsePort (show_nat p) = Some p" using assms(2) p by (intro parsePort_show) (simp_all add: port_ok_def)
    with False True p h bracketed_port [OF ipv6_chars(3) [OF h] ipv6_chars(5) [OF h], of p] show ?thesis
      by (simp add: parse_host_def host_and_port_def)
  next
    case False': False
    with False assms(3) h bracketed_none [OF ipv6_chars(4) [OF h]] show ?thesis
      by (simp add: parse_host_def host_and_port_def)
  qed
qed

lemma host_and_port_no_at: "host_ok host \<Longrightarrow> CHR ''@'' \<notin> set (host_and_port host port)"
  using hostname_chars(1) ipv6_chars(1) show_nat_no(1) by (auto simp: host_ok_def host_and_port_def)

lemma formatEndpoint_eq:
  assumes "endpoint_ok e"
  shows "formatEndpoint e = (case qe_username e of Some u \<Rightarrow> u @ ''@'' | None \<Rightarrow> []) @ host_and_port (qe_host e) (qe_port e)"
  using assms
  by (cases "qe_username e") (auto simp: formatEndpoint_def host_and_port_def Let_def endpoint_ok_def user_ok_def)



section \<open>Whole inputs\<close>

definition target_ok :: "QuickConnectTarget \<Rightarrow> bool" where
  "target_ok target \<longleftrightarrow> host_ok (qe_host (qt_endpoint target)) \<and> port_ok (qe_port (qt_endpoint target))
     \<and> qe_username (qt_endpoint target) \<noteq> Some [] \<and> qt_privateKeyPath target \<noteq> Some []
     \<and> (case qt_jumpHost target of Some jump \<Rightarrow> endpoint_ok jump | None \<Rightarrow> True)"

definition read_ok :: "ReadTokens \<Rightarrow> bool" where
  "read_ok st \<longleftrightarrow> (case rt_endpoint st of Some e \<Rightarrow> endpoint_ok e | None \<Rightarrow> True) \<and> port_ok (rt_port st)
     \<and> rt_username st \<noteq> Some [] \<and> rt_privateKeyPath st \<noteq> Some []
     \<and> (case rt_jumpHost st of Some jump \<Rightarrow> endpoint_ok jump | None \<Rightarrow> True)"

lemma read_option_ok: "read_ok st \<Longrightarrow> value \<noteq> [] \<Longrightarrow> read_option letter value st = Some st' \<Longrightarrow> read_ok st'"
  by (auto simp: read_option_def read_ok_def port_ok_def split: if_splits dest!: parsePort_range parseEndpoint_ok)

lemma read_tokens_ok:
  "\<forall>token\<in>set tokens. token \<noteq> [] \<Longrightarrow> read_ok st \<Longrightarrow> read_tokens tokens st = Some st' \<Longrightarrow> read_ok st'"
proof (induction tokens st rule: read_tokens.induct)
  case (2 token tokens st)
  show ?case
  proof (cases "option_token token")
    case None
    with 2 obtain e where e: "parseEndpoint token = Some e" by (auto split: if_splits option.splits)
    with 2(5) have "read_ok (st\<lparr>rt_endpoint := Some e\<rparr>)" by (simp add: read_ok_def parseEndpoint_ok [OF e])
    with 2 None e show ?thesis by (auto split: if_splits)
  next
    case (Some lv)
    obtain letter inline where lv: "lv = (letter, inline)" by (cases lv)
    show ?thesis
    proof (cases "inline = []")
      case True
      with 2 Some lv read_option_ok [of st] show ?thesis
        by (cases tokens) (auto split: Option.bind_splits)
    next
      case False
      with 2 Some lv read_option_ok [of st] show ?thesis by (auto split: Option.bind_splits)
    qed
  qed
qed simp

lemma words_nonempty: "w \<in> set (words_by p s) \<Longrightarrow> w \<noteq> []"
  by (simp add: words_by_def)

lemma split_at_app: "p c \<Longrightarrow> split_at p (s @ c # t) = split_at p s @ split_at p t"
  by (induction s) (auto split: list.split)

lemma words_by_append: "p c \<Longrightarrow> words_by p (s @ c # t) = words_by p s @ words_by p t"
  by (simp add: words_by_def split_at_app)

lemma words_by_single: "w \<noteq> [] \<Longrightarrow> \<forall>c\<in>set w. \<not> p c \<Longrightarrow> words_by p w = [w]"
  by (simp add: words_by_def split_at_none)

lemma words_by_before: "\<forall>c\<in>set lead. p c \<Longrightarrow> words_by p (lead @ s) = words_by p s"
  by (induction lead) (simp_all add: words_by_def)

lemma words_by_after: "\<forall>c\<in>set trail. p c \<Longrightarrow> words_by p (s @ trail) = words_by p s"
proof (induction trail arbitrary: s)
  case (Cons c trail)
  from Cons.prems words_by_before [of trail p "[]"] show ?case
    by (simp add: words_by_append) (simp add: words_by_def)
qed simp

lemma words_by_trim: "words_by is_space (trim s) = words_by is_space s"
proof -
  have start: "words_by is_space (trim_start t) = words_by is_space t" for t
  proof -
    have "t = takeWhile is_space t @ trim_start t" by (simp add: trim_start_def)
    then show ?thesis by (metis words_by_before set_takeWhileD)
  qed
  have "words_by is_space (trim_end t) = words_by is_space t" for t
  proof -
    have "rev t = takeWhile is_space (rev t) @ dropWhile is_space (rev t)" by simp
    then have "t = trim_end t @ rev (takeWhile is_space (rev t))"
      unfolding trim_end_def by (metis rev_append rev_rev_ident)
    moreover have "\<forall>c\<in>set (rev (takeWhile is_space (rev t))). is_space c" by (auto dest: set_takeWhileD)
    ultimately show ?thesis by (metis words_by_after)
  qed
  with start show ?thesis by (simp add: trim_def)
qed

lemma read_tokens_append: "read_tokens ts st = Some st' \<Longrightarrow> read_tokens (ts @ us) st = read_tokens us st'"
proof (induction ts st rule: read_tokens.induct)
  case (2 token tokens st)
  show ?case
  proof (cases "option_token token")
    case None
    with 2 show ?thesis by (auto split: if_splits option.splits)
  next
    case (Some lv)
    obtain letter inline where lv: "lv = (letter, inline)" by (cases lv)
    show ?thesis
    proof (cases "inline = []")
      case True
      with 2 Some lv show ?thesis by (cases tokens) (auto split: Option.bind_splits)
    next
      case False
      with 2 Some lv show ?thesis by (auto split: Option.bind_splits)
    qed
  qed
qed simp

text \<open>A token that completes nothing: a word, an option that is not known, or one without its value.\<close>

definition completes_nothing :: "string \<Rightarrow> bool" where
  "completes_nothing w \<longleftrightarrow> w \<noteq> [] \<and> list_all (\<lambda>c. \<not> is_space c) w
     \<and> (case option_token w of None \<Rightarrow> True | Some (letter, inline) \<Rightarrow> inline = [])"

lemma parse_input_tokens:
  assumes "parseQuickConnectInput input = Some target"
  obtains tokens st e where "(words_by is_space input = tokens \<and> hd tokens \<noteq> ''ssh'') \<or> words_by is_space input = ''ssh'' # tokens"
    and "tokens \<noteq> []"
    and "read_tokens tokens nothing_read = Some st" and "rt_endpoint st = Some e"
    and "target = \<lparr>qt_endpoint = e\<lparr>qe_username := or_else (qe_username e) (rt_username st),
                                qe_port := or_else (rt_port st) (qe_port e)\<rparr>,
                              qt_jumpHost = rt_jumpHost st, qt_privateKeyPath = rt_privateKeyPath st\<rparr>"
proof -
  let ?typed = "words_by is_space input"
  let ?tokens = "if ?typed \<noteq> [] \<and> hd ?typed = ''ssh'' then tl ?typed else ?typed"
  from assms obtain st e where st: "read_tokens ?tokens nothing_read = Some st" "rt_endpoint st = Some e"
    and target: "target = \<lparr>qt_endpoint = e\<lparr>qe_username := or_else (qe_username e) (rt_username st),
                                qe_port := or_else (rt_port st) (qe_port e)\<rparr>,
                              qt_jumpHost = rt_jumpHost st, qt_privateKeyPath = rt_privateKeyPath st\<rparr>"
    unfolding parseQuickConnectInput_def words_by_trim Let_def by (auto split: option.splits)
  have "?tokens \<noteq> []" using st by (auto simp: nothing_read_def)
  moreover from this have "(?typed = ?tokens \<and> hd ?tokens \<noteq> ''ssh'') \<or> ?typed = ''ssh'' # ?tokens" by (cases ?typed) auto
  ultimately show thesis using st target by (intro that [of ?tokens st e])
qed

text \<open>
  C18: what is read from an input is well formed, the host, the ports, the user names and the jump
  host alike; and an input with anything more after it, a remote command, an option that is not
  known or one without its value, reads as no host at all.
\<close>

theorem input_read_or_refused:
  "parseQuickConnectInput input = Some target \<Longrightarrow>
    target_ok target \<and> (completes_nothing w \<longrightarrow> parseQuickConnectInput (input @ '' '' @ w) = None)"
proof -
  assume parsed: "parseQuickConnectInput input = Some target"
  obtain tokens st e where typed: "(words_by is_space input = tokens \<and> hd tokens \<noteq> ''ssh'') \<or> words_by is_space input = ''ssh'' # tokens"
    and ne: "tokens \<noteq> []"
    and st: "read_tokens tokens nothing_read = Some st" and e: "rt_endpoint st = Some e"
    and target: "target = \<lparr>qt_endpoint = e\<lparr>qe_username := or_else (qe_username e) (rt_username st),
                                qe_port := or_else (rt_port st) (qe_port e)\<rparr>,
                              qt_jumpHost = rt_jumpHost st, qt_privateKeyPath = rt_privateKeyPath st\<rparr>"
    by (rule parse_input_tokens [OF parsed])
  have "[] \<notin> set (words_by is_space input)" using words_nonempty by blast
  with typed have "\<forall>token\<in>set tokens. token \<noteq> []" by auto
  moreover have "read_ok nothing_read" by (simp add: read_ok_def nothing_read_def port_ok_def)
  ultimately have "read_ok st" using st by (rule read_tokens_ok)
  with e have "target_ok target"
    by (cases "qe_username e"; cases "rt_port st")
      (auto simp: target target_ok_def read_ok_def endpoint_ok_def user_ok_def split: option.splits)
  moreover have "parseQuickConnectInput (input @ '' '' @ w) = None" if w: "completes_nothing w"
  proof -
    have "words_by is_space (input @ CHR '' '' # w) = words_by is_space input @ [w]"
      using w by (simp add: words_by_append words_by_single completes_nothing_def list_all_iff is_space_def)
    moreover have "read_tokens (tokens @ [w]) nothing_read = None"
      using w e by (auto simp: read_tokens_append [OF st] completes_nothing_def split: option.splits)
    ultimately show ?thesis
      using typed ne unfolding parseQuickConnectInput_def words_by_trim Let_def by (cases tokens) auto
  qed
  ultimately show ?thesis by blast
qed

theorem input_read_or_refused_witness: "parseQuickConnectInput (''ssh root@db-1'' @ '' '' @ ''uptime'') = None"
proof -
  have "parseQuickConnectInput ''ssh root@db-1''
      = Some \<lparr>qt_endpoint = \<lparr>qe_username = Some ''root'', qe_host = ''db-1'', qe_port = None\<rparr>,
          qt_jumpHost = None, qt_privateKeyPath = None\<rparr>"
    by code_simp
  moreover have "completes_nothing ''uptime''" by code_simp
  ultimately show ?thesis using input_read_or_refused by blast
qed

section \<open>Recents\<close>

interpretation connections: recent_list "recentKey \<circ> fst" QUICK_CONNECT_RECENTS_LIMIT
  "\<lambda>rs (connection, usedAt). addRecentQuickConnection rs connection usedAt"
  "\<lambda>(connection, usedAt). Some (recentKey connection)" "\<lambda>rs. True"
  by unfold_locales
    (auto simp: QUICK_CONNECT_RECENTS_LIMIT_def addRecentQuickConnection_def take_map filter_map comp_def take_Cons')

text \<open>
  After any run of uses, the recent connections, profiles and commands are exactly the eight,
  fifty and a hundred used last, newest first and each once; a blank command is not recorded.
\<close>

lemma recents_are_the_latest:
  "map (recentKey \<circ> fst) (foldl (\<lambda>rs (connection, usedAt). addRecentQuickConnection rs connection usedAt) [] uses)
      = latest 8 (map (recentKey \<circ> fst) uses)
   \<and> map rp_profileId (foldl (\<lambda>rs (profileId, usedAt). addRecentProfile rs profileId usedAt) [] opened)
      = latest 50 (map fst opened)
   \<and> map recent_key (foldl addRecentCommand [] executed) = latest 100 (List.map_filter executed_key executed)"
proof -
  have some: "List.map_filter (\<lambda>(a, b). Some (f a)) ps = map (\<lambda>p. f (fst p)) ps" for f :: "'a \<Rightarrow> 'b" and ps :: "('a \<times> 'c) list"
    by (simp add: List.map_filter_def case_prod_beta comp_def)
  have id: "List.map_filter (\<lambda>(a, b). Some a) ps = map fst ps" for ps :: "('a \<times> 'c) list"
    by (simp add: List.map_filter_def case_prod_beta comp_def)
  show ?thesis
    using connections.keys_of_uses [of uses] profiles.keys_of_uses [of opened] commands.keys_of_uses [of executed]
    by (simp add: some id comp_def QUICK_CONNECT_RECENTS_LIMIT_def PROFILE_RECENTS_LIMIT_def RECENT_COMMANDS_LIMIT_def)
qed

end
