(* ===== verification/Distro.thy ===== *)
theory Distro
  imports Js_String
begin

text \<open>
  Which Linux distribution's logo a host shows (\<open>src/src/lib/distro.ts\<close>): the rules over
  what \<open>/etc/os-release\<close> says, and the report of the WSL launcher.
\<close>

record LinuxDistributionInfo =
  di_id :: string
  di_idLike :: "string list"
  di_name :: string
  di_prettyName :: string
  di_versionId :: "string option"

definition DISTRO_IDS :: "string list" where
  "DISTRO_IDS = [''linux'', ''ubuntu'', ''debian'', ''centos'', ''rhel'', ''fedora'', ''rocky'', ''alma'',
     ''oracle'', ''amazon'', ''suse'', ''alpine'', ''arch'', ''manjaro'', ''endeavouros'', ''cachyos'',
     ''garuda'', ''gentoo'', ''nixos'', ''void'', ''slackware'', ''kali'', ''parrot'', ''linuxmint'',
     ''popos'', ''elementary'', ''zorin'', ''deepin'', ''mx'', ''antix'', ''biglinux'', ''nobara'',
     ''bazzite'', ''freebsd'', ''macos'']"

definition DISTRO_NAMES :: "(string \<times> string) list" where
  "DISTRO_NAMES =
    [(''linux'', ''Linux''),
     (''ubuntu'', ''Ubuntu''),
     (''debian'', ''Debian''),
     (''centos'', ''CentOS''),
     (''rhel'', ''Red Hat Enterprise Linux''),
     (''fedora'', ''Fedora''),
     (''rocky'', ''Rocky Linux''),
     (''alma'', ''AlmaLinux''),
     (''oracle'', ''Oracle Linux''),
     (''amazon'', ''Amazon Linux''),
     (''suse'', ''openSUSE''),
     (''alpine'', ''Alpine Linux''),
     (''arch'', ''Arch Linux''),
     (''manjaro'', ''Manjaro''),
     (''endeavouros'', ''EndeavourOS''),
     (''cachyos'', ''CachyOS''),
     (''garuda'', ''Garuda Linux''),
     (''gentoo'', ''Gentoo''),
     (''nixos'', ''NixOS''),
     (''void'', ''Void Linux''),
     (''slackware'', ''Slackware''),
     (''kali'', ''Kali Linux''),
     (''parrot'', ''Parrot OS''),
     (''linuxmint'', ''Linux Mint''),
     (''popos'', ''Pop!_OS''),
     (''elementary'', ''elementary OS''),
     (''zorin'', ''Zorin OS''),
     (''deepin'', ''deepin''),
     (''mx'', ''MX Linux''),
     (''antix'', ''antiX''),
     (''biglinux'', ''BigLinux''),
     (''nobara'', ''Nobara''),
     (''bazzite'', ''Bazzite''),
     (''freebsd'', ''FreeBSD''),
     (''macos'', ''macOS'')]"

record DistroRule =
  dr_patterns :: "string list"
  dr_id :: string
  dr_exact :: bool

definition rule :: "string list \<Rightarrow> string \<Rightarrow> bool \<Rightarrow> DistroRule" where
  "rule patterns i exact = \<lparr>dr_patterns = patterns, dr_id = i, dr_exact = exact\<rparr>"

definition DISTRO_RULES :: "DistroRule list" where
  "DISTRO_RULES =
    [rule [''archlinux''] ''arch'' False,
     rule [''ubuntu''] ''ubuntu'' False,
     rule [''linuxmint'', ''linux mint''] ''linuxmint'' False,
     rule [''mint''] ''linuxmint'' False,
     rule [''debian''] ''debian'' False,
     rule [''gentoo''] ''gentoo'' False,
     rule [''manjaro''] ''manjaro'' False,
     rule [''kali''] ''kali'' False,
     rule [''pop!_os'', ''pop_os''] ''popos'' False,
     rule [''pop os'', ''pop!''] ''popos'' False,
     rule [''zorin''] ''zorin'' False,
     rule [''elementary''] ''elementary'' False,
     rule [''mx linux''] ''mx'' False,
     rule [''mx''] ''mx'' True,
     rule [''endeavouros''] ''endeavouros'' False,
     rule [''endeavour''] ''endeavouros'' False,
     rule [''cachyos''] ''cachyos'' False,
     rule [''nixos'', ''nix os''] ''nixos'' False,
     rule [''nobara''] ''nobara'' False,
     rule [''bazzite''] ''bazzite'' False,
     rule [''antix''] ''antix'' False,
     rule [''biglinux'', ''big linux''] ''biglinux'' False,
     rule [''deepin''] ''deepin'' False,
     rule [''garuda''] ''garuda'' False,
     rule [''slackware''] ''slackware'' False,
     rule [''void''] ''void'' False,
     rule [''parrot''] ''parrot'' False,
     rule [''rocky''] ''rocky'' False,
     rule [''alma''] ''alma'' False,
     rule [''centos''] ''centos'' False,
     rule [''rhel'', ''redhat'', ''red hat''] ''rhel'' False,
     rule [''fedora''] ''fedora'' False,
     rule [''suse'', ''opensuse''] ''suse'' False,
     rule [''arch''] ''arch'' False,
     rule [''alpine''] ''alpine'' False,
     rule [''amazon''] ''amazon'' False,
     rule [''amzn''] ''amazon'' True,
     rule [''oracle''] ''oracle'' False,
     rule [''freebsd''] ''freebsd'' False,
     rule [''macos'', ''mac os x''] ''macos'' False]"

definition rule_matches :: "string \<Rightarrow> DistroRule \<Rightarrow> bool" where
  "rule_matches value r \<longleftrightarrow>
     list_ex (\<lambda>pattern. if dr_exact r then value = pattern else includes_str value pattern) (dr_patterns r)"

text \<open>The rule of the first value that has one.\<close>

fun first_rule :: "string list \<Rightarrow> DistroRule option" where
  "first_rule [] = None"
| "first_rule (value # values) =
     (case find (rule_matches value) DISTRO_RULES of Some r \<Rightarrow> Some r | None \<Rightarrow> first_rule values)"

definition distro_values :: "LinuxDistributionInfo option \<Rightarrow> string list" where
  "distro_values info =
     (case info of
        None \<Rightarrow> []
      | Some i \<Rightarrow> map to_lower (filter (\<lambda>value. value \<noteq> []) ([di_id i, di_name i, di_prettyName i] @ di_idLike i)))"

definition detectDistroId :: "LinuxDistributionInfo option \<Rightarrow> string" where
  "detectDistroId info = (case first_rule (distro_values info) of Some r \<Rightarrow> dr_id r | None \<Rightarrow> ''linux'')"

text \<open>A field of the report, empty when it is missing.\<close>

definition report_field :: "string list \<Rightarrow> nat \<Rightarrow> string" where
  "report_field parts n = (if n < length parts then parts ! n else [])"

definition parseOsReport :: "string \<Rightarrow> LinuxDistributionInfo option" where
  "parseOsReport data =
     (let parts = split_at (\<lambda>c. c = CHR '';'') data;
          i = report_field parts 1; idLike = report_field parts 2; name = report_field parts 3
      in if hd parts \<noteq> ''tterm-os'' \<or> 4 < length parts \<or> (i = [] \<and> name = []) then None
         else Some \<lparr>di_id = i, di_idLike = words_by (\<lambda>c. c = CHR '' '') idLike, di_name = name,
           di_prettyName = [], di_versionId = None\<rparr>)"

definition isDistroId :: "string \<Rightarrow> bool" where
  "isDistroId value \<longleftrightarrow> value \<in> set DISTRO_IDS"

definition distroName :: "string \<Rightarrow> string option" where
  "distroName i = map_of DISTRO_NAMES i"

definition distroIconSrc :: "string \<Rightarrow> string" where
  "distroIconSrc i = ''/assets/distro-icons/'' @ i @ ''.svg''"

lemma rules_give_ids: "list_all (\<lambda>r. isDistroId (dr_id r)) DISTRO_RULES"
  by code_simp

lemma first_rule_in: "first_rule vs = Some r \<Longrightarrow> r \<in> set DISTRO_RULES"
  by (induction vs) (auto split: option.splits simp: find_Some_iff)

lemma detected_is_distro: "isDistroId (detectDistroId info)"
proof (cases "first_rule (distro_values info)")
  case None
  moreover have "isDistroId ''linux''" by code_simp
  ultimately show ?thesis by (simp add: detectDistroId_def)
next
  case (Some r)
  with rules_give_ids first_rule_in [OF Some] show ?thesis by (simp add: detectDistroId_def list_all_iff)
qed

end
