(* ===== verification/Tab_Icons.thy ===== *)
theory Tab_Icons
  imports Tab_Types Json Distro Js_Sort
begin

text \<open>
  The icon in front of a tab's title (\<open>src/src/lib/tabIcons.ts\<close>, \<open>brandLogos.ts\<close>): the glyphs
  and logos there are, what each shell and host shows, and the user's choices, read from
  any JSON value. A table keyed by strings is a list of pairs. Ids of glyphs, logos and
  distributions are strings, as the source compares them.
\<close>

section \<open>Glyphs and logos\<close>

definition TAB_ICON_IDS :: "string list" where
  "TAB_ICON_IDS = [''terminal'', ''square-terminal'', ''square-chevron-right'', ''chevron-right'', ''code'',
     ''braces'', ''brackets'', ''hash'', ''binary'', ''file-code'', ''bot'', ''sparkles'',
     ''git-branch'', ''git-merge'', ''git-commit-horizontal'', ''package'', ''layers'', ''puzzle'',
     ''wrench'', ''hammer'', ''server'', ''database'', ''cloud'', ''container'', ''box'', ''cpu'',
     ''hard-drive'', ''network'', ''globe'', ''wifi'', ''monitor'', ''laptop'', ''usb'', ''zap'',
     ''flame'', ''rocket'', ''bug'', ''shield'', ''lock'', ''key'', ''star'', ''heart'', ''flag'',
     ''bookmark'', ''bell'', ''eye'', ''target'', ''crown'', ''gem'', ''anchor'', ''compass'', ''fish'',
     ''leaf'', ''tree-pine'', ''sun'', ''moon'', ''snowflake'', ''coffee'', ''cat'', ''dog'', ''bird'',
     ''rabbit'', ''turtle'', ''ghost'', ''skull'', ''gamepad-2'', ''music'', ''palette'']"

definition BRAND_LOGO_IDS :: "string list" where
  "BRAND_LOGO_IDS = [''bash'', ''zsh'', ''nushell'', ''git'', ''github'', ''gitlab'', ''linux'', ''apple'',
     ''raspberry-pi'', ''docker'', ''kubernetes'', ''python'', ''nodejs'', ''go'', ''vim'', ''tmux'',
     ''redis'', ''postgresql'', ''mysql'', ''mongodb'', ''nginx'', ''ansible'', ''terraform'',
     ''google-cloud'', ''cloudflare'']"

text \<open>Names and colors by logo.\<close>

definition BRAND_LOGOS :: "(string \<times> string \<times> string) list" where
  "BRAND_LOGOS =
    [(''bash'', ''Bash'', ''#4eaa25''),
     (''zsh'', ''Zsh'', ''#f15a24''),
     (''nushell'', ''Nushell'', ''#4e9a06''),
     (''git'', ''Git'', ''#f03c2e''),
     (''github'', ''GitHub'', ''''),
     (''gitlab'', ''GitLab'', ''#fc6d26''),
     (''linux'', ''Linux'', ''''),
     (''apple'', ''Apple'', ''''),
     (''raspberry-pi'', ''Raspberry Pi'', ''#a22846''),
     (''docker'', ''Docker'', ''#2496ed''),
     (''kubernetes'', ''Kubernetes'', ''#326ce5''),
     (''python'', ''Python'', ''#3776ab''),
     (''nodejs'', ''Node.js'', ''#5fa04e''),
     (''go'', ''Go'', ''#00add8''),
     (''vim'', ''Vim'', ''#019733''),
     (''tmux'', ''tmux'', ''#1bb91f''),
     (''redis'', ''Redis'', ''#ff4438''),
     (''postgresql'', ''PostgreSQL'', ''#4169e1''),
     (''mysql'', ''MySQL'', ''#4479a1''),
     (''mongodb'', ''MongoDB'', ''#47a248''),
     (''nginx'', ''NGINX'', ''#009639''),
     (''ansible'', ''Ansible'', ''#ee0000''),
     (''terraform'', ''Terraform'', ''#844fba''),
     (''google-cloud'', ''Google Cloud'', ''#4285f4''),
     (''cloudflare'', ''Cloudflare'', ''#f38020'')]"

definition AGENT_LOGO_IDS :: "string list" where
  "AGENT_LOGO_IDS = [''claude'', ''codex'', ''opencode'', ''pi'']"

definition AGENT_LOGO_COLORS :: "(string \<times> string) list" where
  "AGENT_LOGO_COLORS = [(''claude'', ''#d97757''), (''codex'', ''''), (''opencode'', ''''), (''pi'', '''')]"

definition isBrandLogoId :: "string \<Rightarrow> bool" where
  "isBrandLogoId value \<longleftrightarrow> value \<in> set BRAND_LOGO_IDS"

definition brandLogoName :: "string \<Rightarrow> string option" where
  "brandLogoName i = map_option fst (map_of BRAND_LOGOS i)"

definition brandLogoColor :: "string \<Rightarrow> string" where
  "brandLogoColor i = (case map_of BRAND_LOGOS i of Some (name, color) \<Rightarrow> color | None \<Rightarrow> [])"

record ResolvedTabIcon =
  ri_icon :: string
  ri_color :: string

record TabIconConfig =
  tc_enabled :: bool
  tc_agents :: bool
  tc_shells :: "(string \<times> TabIconStyle) list"

definition DEFAULT_TAB_ICON_CONFIG :: TabIconConfig where
  "DEFAULT_TAB_ICON_CONFIG = \<lparr>tc_enabled = True, tc_agents = True, tc_shells = []\<rparr>"

definition resolved :: "string \<Rightarrow> string \<Rightarrow> ResolvedTabIcon" where
  "resolved icon color = \<lparr>ri_icon = icon, ri_color = color\<rparr>"

definition PLAIN :: ResolvedTabIcon where "PLAIN = resolved ''terminal'' []"
definition POWERSHELL :: ResolvedTabIcon where "POWERSHELL = resolved ''square-chevron-right'' ''#3b9ae1''"
definition UNIX :: ResolvedTabIcon where "UNIX = resolved ''terminal'' ''#4caf7a''"
definition SERVER :: ResolvedTabIcon where "SERVER = resolved ''server'' []"
definition SERIAL :: ResolvedTabIcon where "SERIAL = resolved ''usb'' []"

definition brandIcon :: "string \<Rightarrow> ResolvedTabIcon" where
  "brandIcon i = resolved (''logo:'' @ i) (brandLogoColor i)"

definition BUILT_IN :: "(string \<times> ResolvedTabIcon) list" where
  "BUILT_IN =
    [(''pwsh'', POWERSHELL),
     (''powershell'', POWERSHELL),
     (''cmd'', resolved ''square-terminal'' []),
     (''git bash'', brandIcon ''git''),
     (''wsl'', resolved ''terminal'' ''#e9853a''),
     (''bash'', brandIcon ''bash''),
     (''zsh'', brandIcon ''zsh''),
     (''sh'', UNIX),
     (''fish'', resolved ''fish'' ''#4caf7a''),
     (''nu'', brandIcon ''nushell'')]"

definition SHELL_NAMES :: "(string \<times> string) list" where
  "SHELL_NAMES = [(''pwsh'', ''PowerShell 7 (pwsh)''), (''powershell'', ''Windows PowerShell''), (''cmd'', ''cmd''), (''git bash'', ''Git Bash''), (''wsl'', ''WSL''), (''nu'', ''Nushell'')]"

definition WINDOWS_SHELLS :: "string list" where
  "WINDOWS_SHELLS = [''pwsh'', ''powershell'', ''cmd'', ''git bash'', ''wsl'']"

definition UNIX_SHELLS :: "string list" where
  "UNIX_SHELLS = [''zsh'', ''bash'', ''fish'', ''sh'']"

section \<open>Shells\<close>

definition shellKey :: "string option \<Rightarrow> string" where
  "shellKey shellName = (case shellName of Some s \<Rightarrow> to_lower (trim s) | None \<Rightarrow> [])"

definition shellDisplayName :: "string \<Rightarrow> string" where
  "shellDisplayName key = or_default (map_of SHELL_NAMES key) key"

definition builtInShellIcon :: "string \<Rightarrow> ResolvedTabIcon" where
  "builtInShellIcon key = or_default (map_of BUILT_IN key) PLAIN"

definition add_key :: "string list \<Rightarrow> string \<Rightarrow> string list" where
  "add_key keys key = (if key \<noteq> [] \<and> key \<notin> set keys then keys @ [key] else keys)"

text \<open>The order of \<open>sort()\<close> without a comparator: by code units.\<close>

fun compare_strings :: "string \<Rightarrow> string \<Rightarrow> int" where
  "compare_strings [] [] = 0"
| "compare_strings [] (d # t) = -1"
| "compare_strings (c # s) [] = 1"
| "compare_strings (c # s) (d # t) = (if code c < code d then -1 else if code d < code c then 1 else compare_strings s t)"

definition shellsForSettings :: "string \<Rightarrow> TabIconConfig \<Rightarrow> string option list \<Rightarrow> string list" where
  "shellsForSettings platform config found =
     (let keys = foldl add_key (if platform = ''windows'' then WINDOWS_SHELLS else UNIX_SHELLS) (map shellKey found);
          saved = filter (\<lambda>key. key \<notin> set keys) (map fst (tc_shells config))
      in keys @ js_sort compare_strings saved)"

definition applyTabIconStyle :: "ResolvedTabIcon \<Rightarrow> TabIconStyle option \<Rightarrow> ResolvedTabIcon" where
  "applyTabIconStyle base style =
     \<lparr>ri_icon = or_default (Option.bind style icon_icon) (ri_icon base),
      ri_color = or_default (Option.bind style icon_color) (ri_color base)\<rparr>"

definition shellTabIcon :: "TabIconConfig \<Rightarrow> string option \<Rightarrow> ResolvedTabIcon" where
  "shellTabIcon config shellName =
     (let key = shellKey shellName in applyTabIconStyle (builtInShellIcon key) (map_of (tc_shells config) key))"

definition isDistroTabIcon :: "string \<Rightarrow> bool" where
  "isDistroTabIcon icon \<longleftrightarrow> starts_with icon ''distro:''"

definition isBrandTabIcon :: "string \<Rightarrow> bool" where
  "isBrandTabIcon icon \<longleftrightarrow> starts_with icon ''logo:''"

definition tabIconBrand :: "string \<Rightarrow> string" where
  "tabIconBrand icon = drop 5 icon"

definition isAgentTabIcon :: "string \<Rightarrow> bool" where
  "isAgentTabIcon icon \<longleftrightarrow> starts_with icon ''agent:''"

definition tabIconAgent :: "string \<Rightarrow> string" where
  "tabIconAgent icon = drop 6 icon"

definition isAgentLogoId :: "string \<Rightarrow> bool" where
  "isAgentLogoId value \<longleftrightarrow> value \<in> set AGENT_LOGO_IDS"

definition agent_color :: "string \<Rightarrow> string" where
  "agent_color agent = or_default (map_of AGENT_LOGO_COLORS agent) []"

definition agentTabIcon :: "string \<Rightarrow> ResolvedTabIcon option" where
  "agentTabIcon agent =
     (if \<not> isAgentLogoId agent then None else Some (resolved (''agent:'' @ agent) (agent_color agent)))"

definition pickedLogoColor :: "string \<Rightarrow> string option" where
  "pickedLogoColor icon =
     (if isBrandTabIcon icon then Some (brandLogoColor (tabIconBrand icon))
      else if isAgentTabIcon icon then Some (agent_color (tabIconAgent icon))
      else None)"

definition tabIconDistro :: "string \<Rightarrow> string" where
  "tabIconDistro icon = drop 7 icon"

section \<open>Tabs\<close>

definition distroTabIcon :: "string \<Rightarrow> ResolvedTabIcon" where
  "distroTabIcon distroId = resolved (''distro:'' @ distroId) []"

definition sshTabIcon :: "string option \<Rightarrow> ResolvedTabIcon" where
  "sshTabIcon distroId = (if truthy distroId then distroTabIcon (the distroId) else SERVER)"

definition localTabIcon :: "TabIconConfig \<Rightarrow> string option \<Rightarrow> string option \<Rightarrow> ResolvedTabIcon" where
  "localTabIcon config shellName distroId =
     (let key = shellKey shellName
      in if key \<noteq> ''wsl'' \<or> \<not> truthy distroId then shellTabIcon config shellName
         else applyTabIconStyle (distroTabIcon (the distroId)) (map_of (tc_shells config) key))"

definition withLocalDistro :: "Tab \<Rightarrow> string \<Rightarrow> Tab" where
  "withLocalDistro tab distroId =
     (if t_type tab \<noteq> TyTerminal \<or> t_distroId tab = Some distroId then tab else tab\<lparr>t_distroId := Some distroId\<rparr>)"

definition hasLocalBadge :: "Tab \<Rightarrow> ResolvedTabIcon \<Rightarrow> bool" where
  "hasLocalBadge tab icon \<longleftrightarrow>
     t_type tab = TyTerminal \<and> shellKey (t_shellName tab) = ''wsl'' \<and> isDistroTabIcon (ri_icon icon)"

definition hasTabIcon :: "Tab \<Rightarrow> bool" where
  "hasTabIcon tab = isSessionTab tab"

definition inheritedTabIcon :: "Tab \<Rightarrow> TabIconConfig \<Rightarrow> ResolvedTabIcon" where
  "inheritedTabIcon tab config =
     (if t_type tab = TySsh then sshTabIcon (t_distroId tab)
      else if t_type tab = TySerial then SERIAL
      else localTabIcon config (t_shellName tab) (t_distroId tab))"

definition resolveTabIcon :: "Tab \<Rightarrow> TabIconConfig \<Rightarrow> string option \<Rightarrow> ResolvedTabIcon option" where
  "resolveTabIcon tab config agent =
     (if \<not> hasTabIcon tab \<or> \<not> tc_enabled config then None
      else let agentIcon = (if truthy agent \<and> tc_agents config then agentTabIcon (the agent) else None)
           in Some (applyTabIconStyle (or_default agentIcon (inheritedTabIcon tab config)) (t_iconStyle tab)))"

section \<open>Saved choices\<close>

definition is_tab_icon_choice :: "string \<Rightarrow> bool" where
  "is_tab_icon_choice s \<longleftrightarrow>
     (if starts_with s ''distro:'' then isDistroId (drop 7 s)
      else if starts_with s ''logo:'' then isBrandLogoId (drop 5 s)
      else if starts_with s ''agent:'' then isAgentLogoId (drop 6 s)
      else s \<in> set TAB_ICON_IDS)"

fun isTabIconChoice :: "json \<Rightarrow> bool" where
  "isTabIconChoice (JStr s) = is_tab_icon_choice s"
| "isTabIconChoice _ = False"

definition is_hex_color :: "string \<Rightarrow> bool" where
  "is_hex_color s \<longleftrightarrow> length s = 7 \<and> take 1 s = ''#''
     \<and> list_all (\<lambda>c. is_digit c \<or> (97 \<le> code c \<and> code c \<le> 102) \<or> (65 \<le> code c \<and> code c \<le> 70)) (drop 1 s)"

definition normalizeTabIconStyle :: "json option \<Rightarrow> TabIconStyle option" where
  "normalizeTabIconStyle value =
     (case value of
        None \<Rightarrow> None
      | Some v \<Rightarrow>
          (let icon = (case string_field v ''icon'' of Some s \<Rightarrow> if is_tab_icon_choice s then Some s else None | None \<Rightarrow> None);
               color = (case string_field v ''color'' of
                  Some s \<Rightarrow> if s = [] \<or> is_hex_color s then Some (to_lower s) else None | None \<Rightarrow> None)
           in if icon = None \<and> color = None then None else Some \<lparr>icon_icon = icon, icon_color = color\<rparr>))"

definition style_json :: "TabIconStyle \<Rightarrow> json" where
  "style_json style = JObj ((case icon_icon style of Some s \<Rightarrow> [(''icon'', JStr s)] | None \<Rightarrow> [])
     @ (case icon_color style of Some s \<Rightarrow> [(''color'', JStr s)] | None \<Rightarrow> []))"

definition normalizeSavedSshTab :: "Tab \<Rightarrow> Tab" where
  "normalizeSavedSshTab tab =
     (if t_type tab \<noteq> TySsh then tab
      else tab\<lparr>t_iconStyle := normalizeTabIconStyle (map_option style_json (t_iconStyle tab)),
        t_distroId := (case t_distroId tab of Some d \<Rightarrow> if isDistroId d then Some d else None | None \<Rightarrow> None)\<rparr>)"

text \<open>\<open>shells[key] = style\<close> and \<open>delete shells[key]\<close>.\<close>

fun set_shell :: "string \<Rightarrow> TabIconStyle \<Rightarrow> (string \<times> TabIconStyle) list \<Rightarrow> (string \<times> TabIconStyle) list" where
  "set_shell key style [] = [(key, style)]"
| "set_shell key style ((k, s) # shells) = (if k = key then (k, style) # shells else (k, s) # set_shell key style shells)"

definition read_shell ::
  "(string \<times> TabIconStyle) list \<Rightarrow> string \<times> json \<Rightarrow> (string \<times> TabIconStyle) list" where
  "read_shell shells entry =
     (case normalizeTabIconStyle (Some (snd entry)) of
        Some valid \<Rightarrow> if shellKey (Some (fst entry)) \<noteq> [] then set_shell (shellKey (Some (fst entry))) valid shells else shells
      | None \<Rightarrow> shells)"

text \<open>The entries of an array are keyed by its indices.\<close>

fun object_entries :: "json \<Rightarrow> (string \<times> json) list" where
  "object_entries (JObj props) = props"
| "object_entries (JArr vs) = map (\<lambda>i. (show_nat i, vs ! i)) [0..<length vs]"
| "object_entries v = []"

definition normalizeTabIconConfig :: "json option \<Rightarrow> TabIconConfig" where
  "normalizeTabIconConfig value =
     (case value of
        Some v \<Rightarrow>
          (if is_object v
           then \<lparr>tc_enabled = (field v ''enabled'' \<noteq> Some (JBool False)),
                 tc_agents = (field v ''agents'' \<noteq> Some (JBool False)),
                 tc_shells = (case field v ''shells'' of
                    Some shells \<Rightarrow> foldl read_shell [] (object_entries shells) | None \<Rightarrow> [])\<rparr>
           else DEFAULT_TAB_ICON_CONFIG)
      | None \<Rightarrow> DEFAULT_TAB_ICON_CONFIG)"

definition withShellIconStyle :: "TabIconConfig \<Rightarrow> string \<Rightarrow> TabIconStyle option \<Rightarrow> TabIconConfig" where
  "withShellIconStyle config key style =
     (case normalizeTabIconStyle (map_option style_json style) of
        Some valid \<Rightarrow> config\<lparr>tc_shells := set_shell key valid (tc_shells config)\<rparr>
      | None \<Rightarrow> config\<lparr>tc_shells := filter (\<lambda>entry. fst entry \<noteq> key) (tc_shells config)\<rparr>)"

section \<open>Only known icons are shown\<close>

definition style_ok :: "TabIconStyle option \<Rightarrow> bool" where
  "style_ok style \<longleftrightarrow> (case Option.bind style icon_icon of Some s \<Rightarrow> is_tab_icon_choice s | None \<Rightarrow> True)"

lemma normalized_style_ok: "style_ok (normalizeTabIconStyle v)"
  by (auto simp: style_ok_def normalizeTabIconStyle_def Let_def split: option.splits if_splits)

lemma set_shell_ok:
  "list_all (\<lambda>(k, s). style_ok (Some s)) shells \<Longrightarrow> style_ok (Some style) \<Longrightarrow>
    list_all (\<lambda>(k, s). style_ok (Some s)) (set_shell key style shells)"
  by (induction key style shells rule: set_shell.induct) auto

lemma read_shells_ok:
  "list_all (\<lambda>(k, s). style_ok (Some s)) shells \<Longrightarrow>
    list_all (\<lambda>(k, s). style_ok (Some s)) (foldl read_shell shells entries)"
proof (induction entries arbitrary: shells)
  case (Cons e entries)
  have "list_all (\<lambda>(k, s). style_ok (Some s)) (read_shell shells e)"
    using Cons.prems normalized_style_ok [of "Some (snd e)"]
    by (auto simp: read_shell_def intro!: set_shell_ok split: option.split)
  then show ?case by (simp add: Cons.IH)
qed simp

lemma config_shell_ok: "style_ok (map_of (tc_shells (normalizeTabIconConfig v)) key)"
proof -
  have "list_all (\<lambda>(k, s). style_ok (Some s)) (tc_shells (normalizeTabIconConfig v))"
    by (auto simp: normalizeTabIconConfig_def DEFAULT_TAB_ICON_CONFIG_def read_shells_ok split: option.split)
  then show ?thesis
    by (cases "map_of (tc_shells (normalizeTabIconConfig v)) key")
      (auto simp: style_ok_def [of None] list_all_iff dest!: map_of_SomeD)
qed

lemma applied_ok: "is_tab_icon_choice (ri_icon base) \<Longrightarrow> style_ok style \<Longrightarrow> is_tab_icon_choice (ri_icon (applyTabIconStyle base style))"
  by (cases style; cases "icon_icon (the style)") (auto simp: style_ok_def applyTabIconStyle_def)

lemma built_in_ok: "is_tab_icon_choice (ri_icon (builtInShellIcon key))"
proof -
  have "list_all (\<lambda>e. is_tab_icon_choice (ri_icon (snd e))) BUILT_IN" and "is_tab_icon_choice (ri_icon PLAIN)"
    by code_simp+
  then show ?thesis
    by (cases "map_of BUILT_IN key") (auto simp: builtInShellIcon_def list_all_iff dest!: map_of_SomeD)
qed

lemma fixed_icons_ok: "is_tab_icon_choice (ri_icon SERVER)" "is_tab_icon_choice (ri_icon SERIAL)"
  by code_simp+

lemma logo_ok:
  "isDistroId d \<Longrightarrow> is_tab_icon_choice (ri_icon (distroTabIcon d))"
  "agentTabIcon agent = Some icon \<Longrightarrow> is_tab_icon_choice (ri_icon icon)"
  by (auto simp: distroTabIcon_def agentTabIcon_def resolved_def is_tab_icon_choice_def split: if_splits)

lemma shell_icon_ok: "is_tab_icon_choice (ri_icon (shellTabIcon (normalizeTabIconConfig v) name))"
  by (simp add: shellTabIcon_def Let_def applied_ok built_in_ok config_shell_ok)

lemma inherited_ok:
  assumes "pred_option isDistroId (t_distroId tab)"
  shows "is_tab_icon_choice (ri_icon (inheritedTabIcon tab (normalizeTabIconConfig v)))"
  using assms
  by (cases "t_distroId tab")
    (simp_all add: inheritedTabIcon_def sshTabIcon_def localTabIcon_def Let_def fixed_icons_ok logo_ok shell_icon_ok
      applied_ok config_shell_ok)

text \<open>
  Whatever JSON the settings and the tab's own style were read from, the icon a tab shows is a
  known glyph, or the logo of a known distribution, brand or agent.
\<close>

lemma known_icons_only:
  "resolveTabIcon tab (normalizeTabIconConfig v) agent = Some icon \<Longrightarrow> t_iconStyle tab = normalizeTabIconStyle w \<Longrightarrow>
    pred_option isDistroId (t_distroId tab) \<Longrightarrow> is_tab_icon_choice (ri_icon icon)"
proof -
  assume shown: "resolveTabIcon tab (normalizeTabIconConfig v) agent = Some icon"
    and style: "t_iconStyle tab = normalizeTabIconStyle w" and distro: "pred_option isDistroId (t_distroId tab)"
  from shown obtain base where icon: "icon = applyTabIconStyle base (t_iconStyle tab)"
    and base: "base = inheritedTabIcon tab (normalizeTabIconConfig v) \<or> agentTabIcon (the agent) = Some base"
    by (cases "agentTabIcon (the agent)") (auto simp: resolveTabIcon_def Let_def split: if_splits)
  have "is_tab_icon_choice (ri_icon base)" using base inherited_ok [OF distro] logo_ok(2) by auto
  then show ?thesis unfolding icon style by (rule applied_ok) (rule normalized_style_ok)
qed

lemma known_icons_only_witness:
  "is_tab_icon_choice (ri_icon (the (resolveTabIcon
     ((make_tab ''t'' ''host'' TySsh True)\<lparr>t_distroId := Some ''debian''\<rparr>)
     (normalizeTabIconConfig (Some (JObj []))) (Some ''claude''))))"
proof -
  let ?tab = "(make_tab ''t'' ''host'' TySsh True)\<lparr>t_distroId := Some ''debian''\<rparr>"
  obtain icon where "resolveTabIcon ?tab (normalizeTabIconConfig (Some (JObj []))) (Some ''claude'') = Some icon"
    by (simp add: resolveTabIcon_def hasTabIcon_def isSessionTab_def normalizeTabIconConfig_def)
  moreover have "t_iconStyle ?tab = normalizeTabIconStyle None" by (simp add: make_tab_def normalizeTabIconStyle_def)
  moreover have "isDistroId ''debian''" by code_simp
  ultimately show ?thesis using known_icons_only by simp
qed

end
