(* ===== verification/Profiles.thy ===== *)
theory Profiles
  imports Profile_Types Tab_Icons Serial_Settings
begin

text \<open>
  Tabs of saved connections (\<open>src/src/lib/profileConnections.ts\<close>), with the choices a profile
  makes among proxies (\<open>proxy.ts\<close>) and starting directories (\<open>sftpStartDirectory.ts\<close>): the
  connection a profile opens, and what an open tab becomes when its profile is edited.
\<close>

section \<open>Proxies (\<open>proxy.ts\<close>)\<close>

datatype ProxyKind = ProxyHttp | ProxySocks5 | ProxyCommand

record ProxyServer =
  px_id :: string
  px_name :: string
  px_kind :: ProxyKind
  px_host :: string
  px_port :: rat
  px_username :: "string option"
  px_command :: "string option"

definition DEFAULT_PROXY_CHOICE :: ProxyChoice where "DEFAULT_PROXY_CHOICE = ProxyDefault"

definition normalizeProxyChoice :: "json option \<Rightarrow> ProxyChoice" where
  "normalizeProxyChoice value =
     (case value of
        None \<Rightarrow> DEFAULT_PROXY_CHOICE
      | Some v \<Rightarrow>
          (if string_field v ''mode'' = Some ''direct'' then ProxyDirect
           else if string_field v ''mode'' = Some ''server'' \<and> truthy (string_field v ''id'')
           then ProxyServerId (the (string_field v ''id''))
           else DEFAULT_PROXY_CHOICE))"

definition proxyChoicePayload :: "ProxyChoice \<Rightarrow> ProxyChoice option" where
  "proxyChoicePayload choice = (if choice = ProxyDefault then None else Some choice)"

definition proxyChoiceKey :: "ProxyChoice \<Rightarrow> string" where
  "proxyChoiceKey choice = (case choice of ProxyServerId i \<Rightarrow> ''server:'' @ i | ProxyDirect \<Rightarrow> ''direct'' | ProxyDefault \<Rightarrow> ''default'')"

definition parseProxyChoiceKey :: "string \<Rightarrow> ProxyChoice" where
  "parseProxyChoiceKey key =
     (if key = ''direct'' then ProxyDirect
      else if starts_with key ''server:'' \<and> 7 < length key then ProxyServerId (drop 7 key)
      else DEFAULT_PROXY_CHOICE)"

definition proxyAddress :: "string \<Rightarrow> nat \<Rightarrow> string" where
  "proxyAddress host port = (if CHR '':'' \<in> set host then ''['' @ host @ '']'' else host) @ '':'' @ show_nat port"

text \<open>Every \<open>%\<close> starts one of the tokens \<open>%%\<close>, \<open>%h\<close>, \<open>%n\<close>, \<open>%p\<close> and \<open>%r\<close>.\<close>

fun hasOnlyKnownProxyTokens :: "string \<Rightarrow> bool" where
  "hasOnlyKnownProxyTokens [] = True"
| "hasOnlyKnownProxyTokens [c] = (c \<noteq> CHR ''%'')"
| "hasOnlyKnownProxyTokens (c # d # s) =
     (if c \<noteq> CHR ''%'' then hasOnlyKnownProxyTokens (d # s) else d \<in> set ''%hnpr'' \<and> hasOnlyKnownProxyTokens s)"

datatype ProxyDraftError = BadName | BadHost | BadPort | BadCommand | BadCommandToken

definition validateProxyDraft :: "ProxyServer \<Rightarrow> ProxyDraftError option" where
  "validateProxyDraft draft =
     (if trim (px_name draft) = [] then Some BadName
      else if px_kind draft = ProxyCommand
      then (let command = or_default (map_option trim (px_command draft)) []
            in if command = [] then Some BadCommand
               else if hasOnlyKnownProxyTokens command then None else Some BadCommandToken)
      else let host = trim (px_host draft)
           in if host = [] \<or> list_ex is_space host then Some BadHost
              else if \<not> is_integer (px_port draft) \<or> px_port draft < 1 \<or> 65535 < px_port draft then Some BadPort
              else None)"

definition countProfilesUsingProxy :: "SavedProfile list \<Rightarrow> string \<Rightarrow> nat" where
  "countProfilesUsingProxy profiles i =
     length (filter (\<lambda>profile. normalizeProxyChoice (sp_proxy profile) = ProxyServerId i) profiles)"

section \<open>Starting directories (\<open>sftpStartDirectory.ts\<close>)\<close>

definition SFTP_START_DIRECTORIES :: "(string \<times> SftpStartDirectory) list" where
  "SFTP_START_DIRECTORIES = [(''home'', StartHome), (''last'', StartLast), (''terminal'', StartTerminal)]"

definition normalizeSftpStartDirectory :: "string option \<Rightarrow> SftpStartDirectory option" where
  "normalizeSftpStartDirectory value = Option.bind value (map_of SFTP_START_DIRECTORIES)"

definition sftpFallbackPath :: "SftpStartDirectory \<Rightarrow> string option" where
  "sftpFallbackPath choice = (if choice = StartLast then None else Some ''.'')"

definition sftpStartPath :: "SftpStartDirectory \<Rightarrow> bool \<Rightarrow> string option \<Rightarrow> string option" where
  "sftpStartPath choice followsTerminal terminalCwd =
     (if (choice = StartTerminal \<or> followsTerminal) \<and> truthy terminalCwd then terminalCwd else sftpFallbackPath choice)"

section \<open>Connections (\<open>profileConnections.ts\<close>)\<close>

definition normalizeSshAuthMethod :: "string option \<Rightarrow> ConnectionAuthMethod" where
  "normalizeSshAuthMethod value =
     (if value = Some ''key'' then AuthKey else if value = Some ''agent'' then AuthAgent
      else if value = Some ''interactive'' then AuthInteractive else AuthPassword)"

definition normalizeSessionLogPolicy :: "string option \<Rightarrow> SessionLogPolicy option" where
  "normalizeSessionLogPolicy value =
     (if value = Some ''always'' then Some LogAlways else if value = Some ''never'' then Some LogNever else None)"

definition profile_jump :: "SavedJumpHost \<Rightarrow> JumpHostConnection" where
  "profile_jump jump =
     \<lparr>j_host = sj_host jump, j_port = sj_port jump, j_username = sj_username jump,
      j_authMethod = normalizeSshAuthMethod (Some (sj_auth_method jump)), j_password = None,
      j_privateKeyPath = sj_private_key_path jump, j_privateKeyPassphrase = None,
      j_certificatePath = sj_certificate_path jump, j_profileId = sj_profile_id jump\<rparr>"

definition serial_connection :: "SavedProfile \<Rightarrow> Connection" where
  "serial_connection profile = empty_connection
     \<lparr>c_type := Some ConnSerial, c_profileId := Some (sp_id profile), c_profileName := Some (sp_name profile),
      c_terminalTheme := sp_terminal_theme profile, c_encoding := sp_encoding profile,
      c_sessionLog := normalizeSessionLogPolicy (sp_session_log profile),
      c_highlightSet := sp_highlight_set profile,
      c_serial := Some (normalizeSerialSettings (sp_serial profile))\<rparr>"

definition shell_connection :: "SavedProfile \<Rightarrow> Connection" where
  "shell_connection profile =
     (let jumpHosts = or_default (sp_jump_hosts profile) [];
          useJumpHost = or_default (sp_use_jump_host profile) (jumpHosts \<noteq> [])
      in empty_connection
           \<lparr>c_type := Some (sp_connection_type profile), c_profileId := Some (sp_id profile),
            c_profileName := Some (sp_name profile), c_host := sp_host profile, c_port := sp_port profile,
            c_username := sp_username profile, c_authMethod := Some (normalizeSshAuthMethod (sp_auth_method profile)),
            c_agentForward := Some (sp_agent_forward profile = Some True),
            c_privateKeyPath := (if sp_auth_method profile = Some ''key'' then sp_private_key_path profile else None),
            c_certificatePath := (if sp_auth_method profile = Some ''key'' then sp_certificate_path profile else None),
            c_keepaliveIntervalSecs := Some (sp_keepalive_interval_secs profile),
            c_keepaliveCountMax := Some (sp_keepalive_count_max profile),
            c_serverMonitorVisible := Some (sp_server_monitor_visible profile = Some True),
            c_encoding := sp_encoding profile, c_terminalTheme := sp_terminal_theme profile,
            c_loginScript := sp_login_script profile, c_sshShellIntegration := sp_ssh_shell_integration profile,
            c_sessionLog := normalizeSessionLogPolicy (sp_session_log profile),
            c_sftpStartDirectory := normalizeSftpStartDirectory (sp_sftp_start_directory profile),
            c_highlightSet := sp_highlight_set profile,
            c_proxy := proxyChoicePayload (normalizeProxyChoice (sp_proxy profile)),
            c_jumpHosts := (if useJumpHost \<and> jumpHosts \<noteq> [] then Some (map profile_jump jumpHosts) else None)\<rparr>)"

definition tab_type_of :: "ConnectionType \<Rightarrow> TabType" where
  "tab_type_of t = (case t of ConnTerminal \<Rightarrow> TyTerminal | ConnSsh \<Rightarrow> TySsh | ConnSerial \<Rightarrow> TySerial)"

text \<open>The icon and the distribution; \<open>None\<close> where the source gives an object with neither.\<close>

definition profileTabIcon :: "SavedProfile \<Rightarrow> (TabIconStyle option \<times> string option) option" where
  "profileTabIcon profile =
     (if sp_connection_type profile \<noteq> ConnSsh then None
      else Some (normalizeTabIconStyle (sp_tab_icon profile),
        (case sp_distro profile of Some d \<Rightarrow> if isDistroId d then Some d else None | None \<Rightarrow> None)))"

definition with_profile_icon :: "SavedProfile \<Rightarrow> Tab \<Rightarrow> Tab" where
  "with_profile_icon profile tab =
     (case profileTabIcon profile of
        Some (style, distro) \<Rightarrow> tab\<lparr>t_iconStyle := style, t_distroId := distro\<rparr> | None \<Rightarrow> tab)"

definition buildConnectionFromProfile :: "SavedProfile \<Rightarrow> string \<Rightarrow> bool \<Rightarrow> Tab" where
  "buildConnectionFromProfile profile i active =
     (if sp_connection_type profile = ConnSerial
      then (make_tab i (sp_name profile) TySerial active)
        \<lparr>t_isModified := Some False, t_connection := Some (serial_connection profile)\<rparr>
      else with_profile_icon profile ((make_tab i (sp_name profile) (tab_type_of (sp_connection_type profile)) active)
        \<lparr>t_isModified := Some False, t_connection := Some (shell_connection profile)\<rparr>))"

definition connection_profile :: "Tab \<Rightarrow> string option" where
  "connection_profile tab = Option.bind (t_connection tab) c_profileId"

definition sameConnectionTabs :: "Tab list \<Rightarrow> Tab \<Rightarrow> Tab list" where
  "sameConnectionTabs tabs tab =
     (let profileId = (if t_type tab = TySsh then connection_profile tab else None)
      in if \<not> truthy profileId then [tab]
         else filter (\<lambda>other. t_type other = TySsh \<and> connection_profile other = profileId) tabs)"

text \<open>
  \<open>{...previous, ...next}\<close>: the properties a connection is built with win, missing values and
  all; the others are kept.
\<close>

definition over_connection :: "SavedProfile \<Rightarrow> Connection \<Rightarrow> Connection \<Rightarrow> Connection" where
  "over_connection profile previous new =
     (if sp_connection_type profile = ConnSerial
      then previous
        \<lparr>c_type := c_type new, c_profileId := c_profileId new, c_profileName := c_profileName new,
         c_terminalTheme := c_terminalTheme new, c_encoding := c_encoding new, c_sessionLog := c_sessionLog new,
         c_highlightSet := c_highlightSet new, c_serial := c_serial new\<rparr>
      else new
        \<lparr>c_password := c_password previous, c_ignoreSavedPassword := c_ignoreSavedPassword previous,
         c_rememberPassword := c_rememberPassword previous,
         c_privateKeyPassphrase := c_privateKeyPassphrase previous,
         c_terminalShell := c_terminalShell previous,
         c_terminalShellCustomPath := c_terminalShellCustomPath previous,
         c_terminalShellCustomArgs := c_terminalShellCustomArgs previous,
         c_terminalShellId := c_terminalShellId previous,
         c_terminalShellWslDistro := c_terminalShellWslDistro previous, c_cwd := c_cwd previous,
         c_sftpSudo := c_sftpSudo previous, c_serial := c_serial previous\<rparr>)"

definition same_account :: "Connection \<Rightarrow> Connection \<Rightarrow> bool" where
  "same_account previous new \<longleftrightarrow>
     c_host previous = c_host new \<and> c_port previous = c_port new \<and> c_username previous = c_username new
     \<and> c_authMethod previous = c_authMethod new \<and> c_privateKeyPath previous = c_privateKeyPath new"

text \<open>The title and the base of its copies after the profile was renamed.\<close>

definition renamed_title :: "string option \<Rightarrow> string \<Rightarrow> string \<Rightarrow> string option \<Rightarrow> string \<times> string option" where
  "renamed_title oldName name title duplicateBaseTitle =
     (if truthy oldName \<and> oldName \<noteq> Some name
      then (if Some title = oldName then (name, duplicateBaseTitle)
            else if duplicateBaseTitle = oldName \<and> starts_with title (the oldName)
            then (name @ drop (length (the oldName)) title, Some name)
            else (title, duplicateBaseTitle))
      else (title, duplicateBaseTitle))"

definition applyProfileToTab :: "Tab \<Rightarrow> SavedProfile \<Rightarrow> Tab" where
  "applyProfileToTab tab profile =
     (let previous = or_default (t_connection tab) empty_connection;
          new = or_default (t_connection (buildConnectionFromProfile profile [] False)) empty_connection;
          merged = over_connection profile previous new;
          connection = (if same_account previous new then merged
            else merged\<lparr>c_password := None, c_privateKeyPassphrase := None, c_ignoreSavedPassword := None\<rparr>);
          (title, base) = renamed_title (c_profileName previous) (sp_name profile) (t_title tab) (t_duplicateBaseTitle tab)
      in (with_profile_icon profile tab)
           \<lparr>t_title := title, t_duplicateBaseTitle := base, t_connection := Some connection\<rparr>)"

section \<open>Editing a profile\<close>

definition new_connection :: "SavedProfile \<Rightarrow> Connection" where
  "new_connection profile = (if sp_connection_type profile = ConnSerial then serial_connection profile else shell_connection profile)"

lemma built_connection [simp]: "t_connection (buildConnectionFromProfile profile i active) = Some (new_connection profile)"
  by (simp add: buildConnectionFromProfile_def with_profile_icon_def new_connection_def split: option.split)

lemma icon_keeps [simp]:
  "t_title (with_profile_icon profile tab) = t_title tab"
  "t_duplicateBaseTitle (with_profile_icon profile tab) = t_duplicateBaseTitle tab"
  "t_connection (with_profile_icon profile tab) = t_connection tab"
  by (simp_all add: with_profile_icon_def split: option.split)

lemma applied_connection:
  "t_connection (applyProfileToTab tab profile) =
    (let previous = or_default (t_connection tab) empty_connection; new = new_connection profile;
         merged = over_connection profile previous new
     in Some (if same_account previous new then merged
         else merged\<lparr>c_password := None, c_privateKeyPassphrase := None, c_ignoreSavedPassword := None\<rparr>))"
  by (simp add: applyProfileToTab_def Let_def split: prod.split)

lemma applied_name:
  "Option.bind (t_connection (applyProfileToTab tab profile)) c_profileName = Some (sp_name profile)"
  by (simp add: applied_connection over_connection_def new_connection_def serial_connection_def shell_connection_def
      Let_def)

lemma over_twice:
  "over_connection profile (over_connection profile previous new) new = over_connection profile previous new"
  by (simp add: over_connection_def)

lemma over_cleared:
  "over_connection profile (c\<lparr>c_password := None, c_privateKeyPassphrase := None, c_ignoreSavedPassword := None\<rparr>) new
    = (over_connection profile c new)\<lparr>c_password := None, c_privateKeyPassphrase := None, c_ignoreSavedPassword := None\<rparr>"
  by (simp add: over_connection_def)

lemma applied_twice:
  "t_connection (applyProfileToTab (applyProfileToTab tab profile) profile) = t_connection (applyProfileToTab tab profile)"
proof -
  let ?previous = "or_default (t_connection tab) empty_connection" and ?new = "new_connection profile"
  show ?thesis
  proof (cases "same_account ?previous ?new")
    case True
    have "same_account (over_connection profile ?previous ?new) ?new"
      using True by (simp add: over_connection_def same_account_def)
    with True show ?thesis by (simp add: applied_connection Let_def over_twice)
  next
    case False
    then show ?thesis by (simp add: applied_connection Let_def over_twice over_cleared)
  qed
qed

lemma icon_again: "with_profile_icon profile (applyProfileToTab tab profile) = applyProfileToTab tab profile"
  by (simp add: with_profile_icon_def applyProfileToTab_def Let_def split: option.split prod.split)

lemma applied_titles:
  "t_title (applyProfileToTab tab profile) = fst (renamed_title
     (c_profileName (or_default (t_connection tab) empty_connection)) (sp_name profile) (t_title tab) (t_duplicateBaseTitle tab))"
  "t_duplicateBaseTitle (applyProfileToTab tab profile) = snd (renamed_title
     (c_profileName (or_default (t_connection tab) empty_connection)) (sp_name profile) (t_title tab) (t_duplicateBaseTitle tab))"
  by (simp_all add: applyProfileToTab_def Let_def case_prod_beta)

lemma title_again:
  "t_title (applyProfileToTab (applyProfileToTab tab profile) profile) = t_title (applyProfileToTab tab profile)"
  "t_duplicateBaseTitle (applyProfileToTab (applyProfileToTab tab profile) profile)
    = t_duplicateBaseTitle (applyProfileToTab tab profile)"
proof -
  have same: "c_profileName (or_default (t_connection (applyProfileToTab tab profile)) empty_connection) = Some (sp_name profile)"
    using applied_name [of tab profile] by (cases "t_connection (applyProfileToTab tab profile)") simp_all
  show "t_title (applyProfileToTab (applyProfileToTab tab profile) profile) = t_title (applyProfileToTab tab profile)"
    unfolding applied_titles(1) [of "applyProfileToTab tab profile"] same by (simp add: renamed_title_def)
  show "t_duplicateBaseTitle (applyProfileToTab (applyProfileToTab tab profile) profile)
    = t_duplicateBaseTitle (applyProfileToTab tab profile)"
    unfolding applied_titles(2) [of "applyProfileToTab tab profile"] same by (simp add: renamed_title_def)
qed

lemma applied_fields:
  "applyProfileToTab tab profile = (with_profile_icon profile tab)
     \<lparr>t_title := t_title (applyProfileToTab tab profile),
      t_duplicateBaseTitle := t_duplicateBaseTitle (applyProfileToTab tab profile),
      t_connection := t_connection (applyProfileToTab tab profile)\<rparr>"
  by (simp add: applyProfileToTab_def Let_def case_prod_beta)

lemma kept_secrets:
  assumes "t_connection tab = Some old" and "t_connection (applyProfileToTab tab profile) = Some c"
    and "c_password c \<noteq> None \<or> c_privateKeyPassphrase c \<noteq> None"
  shows "same_account old (new_connection profile) \<and> c = over_connection profile old (new_connection profile)"
  using assms by (auto simp: applied_connection Let_def split: if_splits)

text \<open>
  Editing a profile twice is editing it once; and a password or passphrase typed for an open
  tab is left in it only while the tab still signs in to the same account the same way, and is then
  the one that was typed.
\<close>

lemma editing_a_profile:
  "applyProfileToTab (applyProfileToTab tab profile) profile = applyProfileToTab tab profile
   \<and> (t_connection tab = Some old \<and> t_connection (applyProfileToTab tab profile) = Some c
        \<and> (c_password c \<noteq> None \<or> c_privateKeyPassphrase c \<noteq> None) \<longrightarrow>
      same_account old (new_connection profile)
      \<and> c_password c = c_password old \<and> c_privateKeyPassphrase c = c_privateKeyPassphrase old)"
proof (intro conjI impI)
  show "applyProfileToTab (applyProfileToTab tab profile) profile = applyProfileToTab tab profile"
    by (subst applied_fields) (simp add: icon_again title_again applied_twice)
  assume *: "t_connection tab = Some old \<and> t_connection (applyProfileToTab tab profile) = Some c
    \<and> (c_password c \<noteq> None \<or> c_privateKeyPassphrase c \<noteq> None)"
  then have kept: "same_account old (new_connection profile)" "c = over_connection profile old (new_connection profile)"
    using kept_secrets by blast+
  show "same_account old (new_connection profile)" by (rule kept(1))
  show "c_password c = c_password old" "c_privateKeyPassphrase c = c_privateKeyPassphrase old"
    unfolding kept(2) by (simp_all add: over_connection_def)
qed

text \<open>An SSH tab with a typed password, whose profile is saved again unchanged.\<close>

definition demo_profile :: SavedProfile where
  "demo_profile = (bare_profile ''web'' ConnSsh)\<lparr>sp_host := Some ''example.com'', sp_port := Some 22, sp_username := Some ''root''\<rparr>"

definition demo_old :: Connection where
  "demo_old = (new_connection demo_profile)\<lparr>c_password := Some ''typed''\<rparr>"

definition demo_tab :: Tab where
  "demo_tab = (make_tab ''tab-1'' ''web'' TySsh True)\<lparr>t_connection := Some demo_old\<rparr>"

lemma editing_a_profile_witness:
  "c_password (the (t_connection (applyProfileToTab demo_tab demo_profile))) = Some ''typed''
   \<and> same_account demo_old (new_connection demo_profile)"
proof -
  have old: "t_connection demo_tab = Some demo_old" by (simp add: demo_tab_def)
  have same: "same_account demo_old (new_connection demo_profile)" by (simp add: demo_old_def same_account_def)
  then have new: "t_connection (applyProfileToTab demo_tab demo_profile) = Some (over_connection demo_profile demo_old (new_connection demo_profile))"
    by (simp add: applied_connection old)
  have typed: "c_password (over_connection demo_profile demo_old (new_connection demo_profile)) = Some ''typed''"
    by (simp add: over_connection_def demo_old_def demo_profile_def bare_profile_def)
  have "t_connection demo_tab = Some demo_old \<and> t_connection (applyProfileToTab demo_tab demo_profile)
      = Some (over_connection demo_profile demo_old (new_connection demo_profile))
    \<and> (c_password (over_connection demo_profile demo_old (new_connection demo_profile)) \<noteq> None
      \<or> c_privateKeyPassphrase (over_connection demo_profile demo_old (new_connection demo_profile)) \<noteq> None)"
    using old new typed by simp
  from editing_a_profile [THEN conjunct2, THEN mp, OF this] new typed show ?thesis by simp
qed

end
