(* ===== verification/Agent_Status.thy ===== *)
theory Agent_Status
  imports Machines Js_String
begin

text \<open>
  What AI agents report and which terminal a report is for
  (\<open>src/src/lib/agentStatus.ts\<close>). Every terminal has an \<open>AgentTracker\<close>, numbered by a
  \<open>nat\<close>; all share the module's map \<open>sessionOwners\<close>, so the state is that map, the
  fields of every tracker, and the callbacks called so far in order. A timer is the time
  it is due and the agent it announces; the step \<open>Elapse\<close> is the timer of one tracker
  being served, which the event loop does only once it is due.
\<close>

section \<open>Reports\<close>

datatype AgentReportState = St_processing | St_waiting | St_done | St_error | St_idle | St_ended

definition REPORT_STATES :: "(string \<times> AgentReportState) list" where
  "REPORT_STATES = [(''processing'', St_processing), (''waiting'', St_waiting), (''done'', St_done),
     (''error'', St_error), (''idle'', St_idle), (''ended'', St_ended)]"

record AgentReport =
  ar_agent :: string
  ar_state :: AgentReportState
  ar_session :: "string option"

text \<open>\<open>/^[a-z0-9][a-z0-9-]{0,31}$/\<close> and \<open>/^[A-Za-z0-9-]{1,64}$/\<close>.\<close>

definition is_agent_name :: "string \<Rightarrow> bool" where
  "is_agent_name s \<longleftrightarrow> s \<noteq> [] \<and> (is_lower (hd s) \<or> is_digit (hd s)) \<and> length s \<le> 32
     \<and> list_all (\<lambda>c. is_lower c \<or> is_digit c \<or> c = CHR ''-'') (tl s)"

definition is_session_id :: "string \<Rightarrow> bool" where
  "is_session_id s \<longleftrightarrow> s \<noteq> [] \<and> length s \<le> 64 \<and> list_all (\<lambda>c. is_letter c \<or> is_digit c \<or> c = CHR ''-'') s"

definition parseAgentReport :: "string \<Rightarrow> AgentReport option" where
  "parseAgentReport data =
     (case split_at (\<lambda>c. c = CHR '';'') data of
        command # agent # state # rest \<Rightarrow>
          if command \<noteq> ''tterm-agent'' \<or> length rest > 1 then None
          else if \<not> is_agent_name agent then None
          else (case map_of REPORT_STATES state of
                  None \<Rightarrow> None
                | Some st \<Rightarrow>
                    (case rest of
                       [] \<Rightarrow> Some \<lparr>ar_agent = agent, ar_state = st, ar_session = None\<rparr>
                     | session # _ \<Rightarrow>
                         if \<not> is_session_id session then None
                         else Some \<lparr>ar_agent = agent, ar_state = st, ar_session = Some session\<rparr>))
      | _ \<Rightarrow> None)"

definition DISPLAY_NAMES :: "(string \<times> string) list" where
  "DISPLAY_NAMES = [(''claude'', ''Claude Code''), (''codex'', ''Codex''), (''opencode'', ''OpenCode''),
     (''pi'', ''pi'')]"

definition agentDisplayName :: "string \<Rightarrow> string" where
  "agentDisplayName agent = or_default (map_of DISPLAY_NAMES agent) agent"

section \<open>The trackers\<close>

datatype AgentActivity = Act_processing | Act_waiting

record AgentStatus =
  as_agent :: string
  as_activity :: AgentActivity

datatype AnnouncedState = Ann_waiting | Ann_done | Ann_error

record AgentAnnouncement =
  an_agent :: string
  an_state :: AnnouncedState

definition AGENT_WAIT_ANNOUNCE_DELAY_MS :: int where "AGENT_WAIT_ANNOUNCE_DELAY_MS = 3000"
definition AGENT_ECHO_WINDOW_MS :: int where "AGENT_ECHO_WINDOW_MS = 10000"
definition AGENT_CLAIM_WINDOW_MS :: int where "AGENT_CLAIM_WINDOW_MS = 10000"

definition AGENTS_REPORTING_STOPS :: "string list" where
  "AGENTS_REPORTING_STOPS = [''codex'', ''opencode'', ''pi'']"

text \<open>The callbacks of a tracker, as the calls they get.\<close>

datatype AgentEvent =
    OnStatus "AgentStatus option"
  | OnAgent "string option"
  | OnAnnounce AgentAnnouncement

record AgentTracker =
  at_status :: "AgentStatus option"
  at_agent :: "string option"
  at_lastReportAt :: "int option"
  at_waitTimer :: "(int \<times> string) option"
  at_submittedAt :: "int option"
  at_sessions :: "string list"
  at_waitDelayMs :: int

definition new_tracker :: "int \<Rightarrow> AgentTracker" where
  "new_tracker waitDelayMs = \<lparr>at_status = None, at_agent = None, at_lastReportAt = None,
     at_waitTimer = None, at_submittedAt = None, at_sessions = [], at_waitDelayMs = waitDelayMs\<rparr>"

record Agents =
  sessionOwners :: "string \<Rightarrow> nat option"
  trackers :: "nat \<Rightarrow> AgentTracker"
  told :: "(nat \<times> AgentEvent) list"

definition new_agents :: "(nat \<Rightarrow> int) \<Rightarrow> Agents" where
  "new_agents delays = \<lparr>sessionOwners = Map.empty, trackers = (\<lambda>i. new_tracker (delays i)), told = []\<rparr>"

text \<open>\<open>Set.add\<close>, the members in the order they came.\<close>

definition set_add :: "'a \<Rightarrow> 'a list \<Rightarrow> 'a list" where
  "set_add x xs = (if x \<in> set xs then xs else xs @ [x])"

text \<open>An assignment to fields of \<open>this\<close>, and a call of a callback.\<close>

definition this_upd :: "nat \<Rightarrow> (AgentTracker \<Rightarrow> AgentTracker) \<Rightarrow> Agents \<Rightarrow> Agents" where
  "this_upd i f w = w\<lparr>trackers := (trackers w)(i := f (trackers w i))\<rparr>"

definition tell :: "nat \<Rightarrow> AgentEvent \<Rightarrow> Agents \<Rightarrow> Agents" where
  "tell i event w = w\<lparr>told := told w @ [(i, event)]\<rparr>"

definition speaksForAgent :: "int \<Rightarrow> AgentTracker \<Rightarrow> bool" where
  "speaksForAgent now t \<longleftrightarrow> at_status t \<noteq> None
     \<or> (case at_lastReportAt t of Some at' \<Rightarrow> now - at' < AGENT_ECHO_WINDOW_MS | None \<Rightarrow> False)"

definition cancelWait :: "nat \<Rightarrow> Agents \<Rightarrow> Agents" where
  "cancelWait i w =
     (if at_waitTimer (trackers w i) = None then w else this_upd i (\<lambda>t. t\<lparr>at_waitTimer := None\<rparr>) w)"

definition setAgent :: "nat \<Rightarrow> string option \<Rightarrow> Agents \<Rightarrow> Agents" where
  "setAgent i agent w =
     (if at_agent (trackers w i) = agent then w
      else tell i (OnAgent agent) (this_upd i (\<lambda>t. t\<lparr>at_agent := agent\<rparr>) w))"

definition setStatus :: "nat \<Rightarrow> AgentStatus option \<Rightarrow> Agents \<Rightarrow> Agents" where
  "setStatus i status w =
     (if at_status (trackers w i) = status then w
      else tell i (OnStatus status) (this_upd i (\<lambda>t. t\<lparr>at_status := status\<rparr>) w))"

definition releaseSession :: "nat \<Rightarrow> string \<Rightarrow> Agents \<Rightarrow> Agents" where
  "releaseSession i session w =
     (let v = (if sessionOwners w session = Some i then w\<lparr>sessionOwners := (sessionOwners w)(session := None)\<rparr> else w)
      in this_upd i (\<lambda>t. t\<lparr>at_sessions := filter (\<lambda>s. s \<noteq> session) (at_sessions t)\<rparr>) v)"

definition releaseSessions :: "nat \<Rightarrow> Agents \<Rightarrow> Agents" where
  "releaseSessions i w = fold (releaseSession i) (at_sessions (trackers w i)) w"

definition claim :: "nat \<Rightarrow> int \<Rightarrow> string \<Rightarrow> AgentReportState \<Rightarrow> Agents \<Rightarrow> bool \<times> Agents" where
  "claim i now session state w =
     (case sessionOwners w session of
        Some owner \<Rightarrow>
          if owner = i then (True, if state = St_ended then releaseSession i session w else w)
          else (False, w)
      | None \<Rightarrow>
          if state = St_ended then (False, w)
          else (case at_submittedAt (trackers w i) of
                  None \<Rightarrow> (False, w)
                | Some at' \<Rightarrow>
                    if now - at' > AGENT_CLAIM_WINDOW_MS then (False, w)
                    else (True,
                      (this_upd i (\<lambda>t. t\<lparr>at_submittedAt := None, at_sessions := set_add session (at_sessions t)\<rparr>) w)
                        \<lparr>sessionOwners := (sessionOwners w)(session := Some i)\<rparr>)))"

definition reset_tracker :: "nat \<Rightarrow> Agents \<Rightarrow> Agents" where
  "reset_tracker i w =
     setAgent i None (setStatus i None
       (this_upd i (\<lambda>t. t\<lparr>at_lastReportAt := None\<rparr>) (releaseSessions i (cancelWait i w))))"

definition take_report :: "nat \<Rightarrow> int \<Rightarrow> AgentReport \<Rightarrow> Agents \<Rightarrow> Agents" where
  "take_report i now r w =
     (let agent = ar_agent r; v = cancelWait i w
      in if ar_state r = St_ended then reset_tracker i v
         else let u = setAgent i (Some agent) (this_upd i (\<lambda>t. t\<lparr>at_lastReportAt := Some now\<rparr>) v)
              in case ar_state r of
                   St_idle \<Rightarrow> setStatus i None u
                 | St_processing \<Rightarrow> setStatus i (Some \<lparr>as_agent = agent, as_activity = Act_processing\<rparr>) u
                 | St_waiting \<Rightarrow>
                     this_upd i (\<lambda>t. t\<lparr>at_waitTimer := Some (now + at_waitDelayMs t, agent)\<rparr>)
                       (setStatus i (Some \<lparr>as_agent = agent, as_activity = Act_waiting\<rparr>) u)
                 | St_done \<Rightarrow> tell i (OnAnnounce \<lparr>an_agent = agent, an_state = Ann_done\<rparr>) (setStatus i None u)
                 | St_error \<Rightarrow> tell i (OnAnnounce \<lparr>an_agent = agent, an_state = Ann_error\<rparr>) (setStatus i None u)
                 | St_ended \<Rightarrow> u)"

definition report :: "nat \<Rightarrow> int \<Rightarrow> AgentReport \<Rightarrow> Agents \<Rightarrow> Agents" where
  "report i now r w =
     (case ar_session r of
        None \<Rightarrow> take_report i now r w
      | Some session \<Rightarrow>
          (let (claimed, v) = claim i now session (ar_state r) w
           in if claimed then take_report i now r v else v))"

definition submit :: "nat \<Rightarrow> int \<Rightarrow> Agents \<Rightarrow> Agents" where
  "submit i now w = this_upd i (\<lambda>t. t\<lparr>at_submittedAt := Some now\<rparr>) w"

definition interrupt :: "nat \<Rightarrow> Agents \<Rightarrow> Agents" where
  "interrupt i w =
     (case at_status (trackers w i) of
        None \<Rightarrow> w
      | Some status \<Rightarrow>
          if as_agent status \<in> set AGENTS_REPORTING_STOPS then w
          else setStatus i None (cancelWait i w))"

definition answer :: "nat \<Rightarrow> Agents \<Rightarrow> Agents" where
  "answer i w =
     (case at_status (trackers w i) of
        None \<Rightarrow> w
      | Some status \<Rightarrow>
          if as_activity status \<noteq> Act_waiting \<or> as_agent status \<notin> set AGENTS_REPORTING_STOPS then w
          else setStatus i (Some \<lparr>as_agent = as_agent status, as_activity = Act_processing\<rparr>) (cancelWait i w))"

definition dispose :: "nat \<Rightarrow> Agents \<Rightarrow> Agents" where
  "dispose i w = releaseSessions i (cancelWait i w)"

text \<open>The callback given to \<open>setTimeout\<close>, run once its time has come.\<close>

definition wait_elapsed :: "nat \<Rightarrow> int \<Rightarrow> Agents \<Rightarrow> Agents" where
  "wait_elapsed i now w =
     (case at_waitTimer (trackers w i) of
        Some (due, agent) \<Rightarrow>
          if due \<le> now
          then tell i (OnAnnounce \<lparr>an_agent = agent, an_state = Ann_waiting\<rparr>)
                 (this_upd i (\<lambda>t. t\<lparr>at_waitTimer := None\<rparr>) w)
          else w
      | None \<Rightarrow> w)"

section \<open>Runs\<close>

datatype AgentCall = Report AgentReport | Submit | Interrupt | Answer | Reset_agent | Dispose | Elapse

fun agent_step :: "Agents \<Rightarrow> nat \<times> int \<times> AgentCall \<Rightarrow> Agents" where
  "agent_step w (i, now, Report r) = report i now r w"
| "agent_step w (i, now, Submit) = submit i now w"
| "agent_step w (i, now, Interrupt) = interrupt i w"
| "agent_step w (i, now, Answer) = answer i w"
| "agent_step w (i, now, Reset_agent) = reset_tracker i w"
| "agent_step w (i, now, Dispose) = dispose i w"
| "agent_step w (i, now, Elapse) = wait_elapsed i now w"

section \<open>What a step changes\<close>

lemma set_set_add [simp]: "set (set_add x xs) = insert x (set xs)"
  by (auto simp: set_add_def)

named_theorems agent_simps \<open>fields of a tracker and of the module after an operation\<close>

lemma this_upd_simps [agent_simps]:
  "trackers (this_upd i f w) j = (if j = i then f (trackers w i) else trackers w j)"
  "sessionOwners (this_upd i f w) = sessionOwners w" "told (this_upd i f w) = told w"
  by (auto simp: this_upd_def)

lemma tell_simps [agent_simps]:
  "trackers (tell i e w) = trackers w" "sessionOwners (tell i e w) = sessionOwners w"
  "told (tell i e w) = told w @ [(i, e)]"
  by (auto simp: tell_def)

lemma cancelWait_simps [agent_simps]:
  "trackers (cancelWait i w) j = (if j = i then (trackers w i)\<lparr>at_waitTimer := None\<rparr> else trackers w j)"
  "sessionOwners (cancelWait i w) = sessionOwners w" "told (cancelWait i w) = told w"
  by (auto simp: cancelWait_def agent_simps)

lemma setAgent_simps [agent_simps]:
  "trackers (setAgent i a w) j = (if j = i then (trackers w i)\<lparr>at_agent := a\<rparr> else trackers w j)"
  "sessionOwners (setAgent i a w) = sessionOwners w"
  by (auto simp: setAgent_def agent_simps)

lemma setStatus_simps [agent_simps]:
  "trackers (setStatus i st w) j = (if j = i then (trackers w i)\<lparr>at_status := st\<rparr> else trackers w j)"
  "sessionOwners (setStatus i st w) = sessionOwners w"
  by (auto simp: setStatus_def agent_simps)

lemma releaseSession_simps [agent_simps]:
  "trackers (releaseSession i s w) j =
     (if j = i then (trackers w i)\<lparr>at_sessions := filter (\<lambda>r. r \<noteq> s) (at_sessions (trackers w i))\<rparr> else trackers w j)"
  "sessionOwners (releaseSession i s w) =
     (if sessionOwners w s = Some i then (sessionOwners w)(s := None) else sessionOwners w)"
  "told (releaseSession i s w) = told w"
  by (auto simp: releaseSession_def agent_simps)

lemma release_fold:
  "trackers (fold (releaseSession i) ss w) j =
     (if j = i then (trackers w i)\<lparr>at_sessions := filter (\<lambda>s. s \<notin> set ss) (at_sessions (trackers w i))\<rparr>
      else trackers w j)"
  "sessionOwners (fold (releaseSession i) ss w) s =
     (if s \<in> set ss \<and> sessionOwners w s = Some i then None else sessionOwners w s)"
  "told (fold (releaseSession i) ss w) = told w"
  by (induction ss arbitrary: w) (auto simp: agent_simps)

lemma releaseSessions_simps [agent_simps]:
  "trackers (releaseSessions i w) j =
     (if j = i then (trackers w i)\<lparr>at_sessions := []\<rparr> else trackers w j)"
  "sessionOwners (releaseSessions i w) s =
     (if s \<in> set (at_sessions (trackers w i)) \<and> sessionOwners w s = Some i then None else sessionOwners w s)"
  "told (releaseSessions i w) = told w"
  by (auto simp: releaseSessions_def release_fold)

lemma reset_tracker_simps [agent_simps]:
  "trackers (reset_tracker i w) j =
     (if j = i then new_tracker (at_waitDelayMs (trackers w i))\<lparr>at_submittedAt := at_submittedAt (trackers w i)\<rparr>
      else trackers w j)"
  "sessionOwners (reset_tracker i w) s =
     (if s \<in> set (at_sessions (trackers w i)) \<and> sessionOwners w s = Some i then None else sessionOwners w s)"
  by (auto simp: reset_tracker_def agent_simps new_tracker_def)

section \<open>The invariant\<close>

text \<open>
  A session is in the set of exactly the terminal the shared map names; a wait is only
  counted down while the status says that agent waits, and a status is that of the agent
  shown to run.
\<close>

definition tracker_ok :: "AgentTracker \<Rightarrow> bool" where
  "tracker_ok t \<longleftrightarrow>
     (\<forall>due agent. at_waitTimer t = Some (due, agent) \<longrightarrow>
        at_status t = Some \<lparr>as_agent = agent, as_activity = Act_waiting\<rparr>)
     \<and> (\<forall>status. at_status t = Some status \<longrightarrow> at_agent t = Some (as_agent status))"

definition agents_ok :: "Agents \<Rightarrow> bool" where
  "agents_ok w \<longleftrightarrow>
     (\<forall>i s. s \<in> set (at_sessions (trackers w i)) \<longleftrightarrow> sessionOwners w s = Some i)
     \<and> (\<forall>i. tracker_ok (trackers w i))"

lemma agents_ok_new: "agents_ok (new_agents delays)"
  by (simp add: agents_ok_def new_agents_def new_tracker_def tracker_ok_def)

lemma claim_ok:
  assumes "agents_ok w" and "claim i now s st w = (claimed, v)"
  shows "agents_ok v"
  using assms
  by (auto simp: claim_def agents_ok_def tracker_ok_def agent_simps split: option.splits if_splits)

lemma take_report_ok: "agents_ok w \<Longrightarrow> agents_ok (take_report i now r w)"
  by (cases "ar_state r") (auto simp: take_report_def Let_def agents_ok_def tracker_ok_def agent_simps new_tracker_def)

lemma report_ok: "agents_ok w \<Longrightarrow> agents_ok (report i now r w)"
  by (auto simp: report_def take_report_ok claim_ok split: option.split prod.split)

lemma interrupt_ok: "agents_ok w \<Longrightarrow> agents_ok (interrupt i w)"
  by (auto simp: interrupt_def agents_ok_def tracker_ok_def agent_simps split: option.split)

lemma answer_ok: "agents_ok w \<Longrightarrow> agents_ok (answer i w)"
  by (auto simp: answer_def agents_ok_def tracker_ok_def agent_simps split: option.split)

lemma other_calls_ok:
  assumes "agents_ok w"
  shows "agents_ok (submit i now w)" and "agents_ok (dispose i w)" and "agents_ok (reset_tracker i w)"
    and "agents_ok (wait_elapsed i now w)"
  using assms
  by (auto simp: submit_def dispose_def wait_elapsed_def agents_ok_def tracker_ok_def agent_simps new_tracker_def
      split: option.split)

lemma agent_step_ok: "agents_ok w \<Longrightarrow> agents_ok (agent_step w call)"
  by (cases "(w, call)" rule: agent_step.cases)
    (simp_all add: report_ok interrupt_ok answer_ok other_calls_ok)

interpretation agents: total_machine agent_step "new_agents delays" agents_ok
  by unfold_locales (simp_all add: agents_ok_new agent_step_ok)

section \<open>One terminal hears of a session\<close>

text \<open>Every call of a callback in between is one of terminal \<open>i\<close>.\<close>

definition told_to :: "nat \<Rightarrow> Agents \<Rightarrow> Agents \<Rightarrow> bool" where
  "told_to i w v \<longleftrightarrow> (\<exists>events. told v = told w @ map (Pair i) events)"

lemma told_to_same [simp]: "told v = told w \<Longrightarrow> told_to i w v"
  by (auto simp: told_to_def)

lemma told_to_trans [trans]: "told_to i w v \<Longrightarrow> told_to i v u \<Longrightarrow> told_to i w u"
  by (auto simp: told_to_def simp flip: map_append)

lemma told_to_tell:
  assumes "told_to i w v"
  shows "told_to i w (tell i e v)"
proof -
  from assms obtain events where "told v = told w @ map (Pair i) events" by (auto simp: told_to_def)
  then have "told (tell i e v) = told w @ map (Pair i) (events @ [e])" by (simp add: tell_def)
  then show ?thesis unfolding told_to_def by blast
qed

lemma told_to_this_upd [simp]: "told_to i w (this_upd j f v) = told_to i w v"
  by (simp add: told_to_def agent_simps)

lemma told_to_cancelWait [simp]: "told_to i w (cancelWait j v) = told_to i w v"
  by (simp add: told_to_def agent_simps)

lemma told_to_set:
  "told_to i w v \<Longrightarrow> told_to i w (setAgent i a v)"
  "told_to i w v \<Longrightarrow> told_to i w (setStatus i st v)"
  by (simp_all add: setAgent_def setStatus_def told_to_tell)

lemma told_to_reset: "told_to i w v \<Longrightarrow> told_to i w (reset_tracker i v)"
  unfolding reset_tracker_def by (intro told_to_set) (simp add: told_to_def agent_simps)

lemma told_to_take_report: "told_to i w (take_report i now r w)"
  by (cases "ar_state r")
    (simp_all add: take_report_def Let_def told_to_reset told_to_tell told_to_set)

lemma claim_told: "claim i now s st w = (c, v) \<Longrightarrow> told v = told w"
  by (auto simp: claim_def agent_simps split: option.splits if_splits)

lemma told_to_report: "told_to i w (report i now r w)"
proof (cases "ar_session r")
  case None
  then show ?thesis by (simp add: report_def told_to_take_report)
next
  case (Some s)
  obtain c v where v: "claim i now s (ar_state r) w = (c, v)" by fastforce
  from claim_told [OF v] have "told_to i w v" by simp
  then show ?thesis using Some v told_to_trans [OF _ told_to_take_report]
    by (simp add: report_def)
qed

lemma report_of_other:
  assumes "ar_session r = Some s" and "sessionOwners w s = Some j" and "i \<noteq> j"
  shows "report i now r w = w"
  using assms by (simp add: report_def claim_def)

lemma report_ended_free:
  assumes "ar_session r = Some s" and "sessionOwners w s = None" and "ar_state r = St_ended"
  shows "report i now r w = w"
  using assms by (simp add: report_def claim_def)

lemma take_report_owners: "ar_state r \<noteq> St_ended \<Longrightarrow> sessionOwners (take_report i now r w) = sessionOwners w"
  by (cases "ar_state r") (simp_all add: take_report_def Let_def agent_simps)

lemma report_owned:
  assumes "ar_session r = Some s" and "sessionOwners w s = Some i"
  shows "sessionOwners (report i now r w) s = (if ar_state r = St_ended then None else Some i)"
  using assms by (simp add: report_def claim_def take_report_owners)
    (simp add: take_report_def Let_def agent_simps)

lemma report_free:
  assumes "ar_session r = Some s" and "sessionOwners w s = None"
  shows "report i now r w = w \<or> ar_state r \<noteq> St_ended \<and> sessionOwners (report i now r w) s = Some i"
proof -
  obtain c v where v: "claim i now s (ar_state r) w = (c, v)" by fastforce
  then have "\<not> c \<and> v = w \<or> c \<and> ar_state r \<noteq> St_ended \<and> sessionOwners v s = Some i"
    using assms by (auto simp: claim_def split: option.splits if_splits)
  then show ?thesis using assms v by (auto simp: report_def take_report_owners)
qed

definition broadcast :: "AgentReport \<Rightarrow> (nat \<times> int) list \<Rightarrow> (nat \<times> int \<times> AgentCall) list" where
  "broadcast r terminals = map (\<lambda>(i, now). (i, now, Report r)) terminals"

lemma broadcast_owned:
  assumes s: "ar_session r = Some s" and o: "sessionOwners w s = Some j"
  shows "told_to j w (run agent_step w (broadcast r terminals))"
  using o
proof (induction terminals arbitrary: w)
  case (Cons t terminals)
  obtain i now where t: "t = (i, now)" by fastforce
  show ?case
  proof (cases "i = j")
    case False
    then show ?thesis using Cons report_of_other [OF s] t by (simp add: broadcast_def)
  next
    case True
    let ?v = "report j now r w"
    show ?thesis
    proof (cases "ar_state r = St_ended")
      case True
      have free: "sessionOwners ?v s = None" using report_owned [OF s Cons.prems] True by simp
      have "run agent_step v (broadcast r ts) = v" if "sessionOwners v s = None" for v ts
        using that by (induction ts) (auto simp: broadcast_def report_ended_free s True)
      then show ?thesis using free t \<open>i = j\<close> told_to_report by (simp add: broadcast_def)
    next
      case False
      then have "told_to j ?v (run agent_step ?v (broadcast r terminals))"
        by (intro Cons.IH) (simp add: report_owned [OF s Cons.prems])
      then show ?thesis using told_to_trans [OF told_to_report] t True by (simp add: broadcast_def)
    qed
  qed
qed (simp add: broadcast_def)

lemma broadcast_heard_once:
  assumes s: "ar_session r = Some s"
  shows "\<exists>j. told_to j w (run agent_step w (broadcast r terminals))"
proof (induction terminals)
  case (Cons t terminals)
  obtain i now where t: "t = (i, now)" by fastforce
  show ?case
  proof (cases "sessionOwners w s")
    case (Some j)
    then show ?thesis using broadcast_owned [OF s] by blast
  next
    case None
    from report_free [OF s None, of i now]
    consider "report i now r w = w" | "sessionOwners (report i now r w) s = Some i" by blast
    then show ?thesis
    proof cases
      case 1
      then show ?thesis using Cons.IH t by (simp add: broadcast_def)
    next
      case 2
      from told_to_trans [OF told_to_report broadcast_owned [OF s 2, of terminals]]
      show ?thesis using t by (auto simp: broadcast_def)
    qed
  qed
qed (auto simp: broadcast_def intro: exI [of _ 0])

section \<open>What a terminal takes\<close>

definition session_of :: "AgentCall \<Rightarrow> string option" where
  "session_of call = (case call of Report r \<Rightarrow> ar_session r | _ \<Rightarrow> None)"

text \<open>The sessions that become those of terminal \<open>i\<close> in a run.\<close>

definition takes :: "nat \<Rightarrow> Agents \<Rightarrow> nat \<times> int \<times> AgentCall \<Rightarrow> string list" where
  "takes i w c =
     (case session_of (snd (snd c)) of
        Some s \<Rightarrow> if sessionOwners w s \<noteq> Some i \<and> sessionOwners (agent_step w c) s = Some i then [s] else []
      | None \<Rightarrow> [])"

fun taken :: "nat \<Rightarrow> Agents \<Rightarrow> (nat \<times> int \<times> AgentCall) list \<Rightarrow> string list" where
  "taken i w [] = []"
| "taken i w (c # cs) = takes i w c @ taken i (agent_step w c) cs"

definition is_submit :: "nat \<Rightarrow> nat \<times> int \<times> AgentCall \<Rightarrow> bool" where
  "is_submit i c \<longleftrightarrow> fst c = i \<and> snd (snd c) = Submit"

lemma take_report_keeps:
  "sessionOwners (take_report i now r w) s = Some j \<Longrightarrow> sessionOwners w s = Some j"
  by (cases "ar_state r") (auto simp: take_report_def Let_def agent_simps split: if_splits)

lemma take_report_submitted:
  "at_submittedAt (trackers (take_report i now r w) j) = at_submittedAt (trackers w j)"
  by (cases "ar_state r") (auto simp: take_report_def Let_def agent_simps)

text \<open>How a terminal comes to own a session: its own Enter, used up by it.\<close>

lemma report_takes:
  assumes "sessionOwners (report i now r w) s = Some j" and "sessionOwners w s \<noteq> Some j"
  shows "i = j \<and> ar_session r = Some s
    \<and> (\<exists>t. at_submittedAt (trackers w i) = Some t \<and> now - t \<le> AGENT_CLAIM_WINDOW_MS)
    \<and> at_submittedAt (trackers (report i now r w) i) = None"
proof (cases "ar_session r")
  case None
  with assms show ?thesis by (auto simp: report_def dest: take_report_keeps)
next
  case (Some x)
  obtain c v where v: "claim i now x (ar_state r) w = (c, v)" by fastforce
  with assms Some have "sessionOwners v s = Some j"
    by (auto simp: report_def dest: take_report_keeps split: if_splits)
  with v assms(2) have "c \<and> i = j \<and> x = s \<and> at_submittedAt (trackers v i) = None
      \<and> (\<exists>t. at_submittedAt (trackers w i) = Some t \<and> now - t \<le> AGENT_CLAIM_WINDOW_MS)"
    by (auto simp: claim_def agent_simps split: option.splits if_splits)
  with v Some show ?thesis by (auto simp: report_def take_report_submitted)
qed

lemma report_submitted:
  "at_submittedAt (trackers (report i now r w) j) = Some t \<Longrightarrow> at_submittedAt (trackers w j) = Some t"
  by (auto simp: report_def take_report_submitted claim_def agent_simps split: option.splits if_splits prod.splits)

lemma other_steps:
  assumes "call = Submit \<or> call = Interrupt \<or> call = Answer \<or> call = Reset_agent \<or> call = Dispose \<or> call = Elapse"
  shows "sessionOwners (agent_step w (i, now, call)) s = Some j \<Longrightarrow> sessionOwners w s = Some j"
    and "call \<noteq> Submit \<or> i \<noteq> j \<Longrightarrow>
      at_submittedAt (trackers (agent_step w (i, now, call)) j) = at_submittedAt (trackers w j)"
  using assms
  by (auto simp: submit_def interrupt_def answer_def dispose_def wait_elapsed_def agent_simps
      split: option.splits if_splits)

lemma step_takes:
  assumes "sessionOwners (agent_step w c) s = Some j" and "sessionOwners w s \<noteq> Some j"
  shows "takes j w c = [s]
    \<and> (\<exists>t. at_submittedAt (trackers w j) = Some t \<and> fst (snd c) - t \<le> AGENT_CLAIM_WINDOW_MS)
    \<and> at_submittedAt (trackers (agent_step w c) j) = None"
proof -
  obtain i now call where c: "c = (i, now, call)" by (cases c) auto
  show ?thesis
  proof (cases call)
    case (Report r)
    with assms c report_takes [of i now r w s j] show ?thesis by (auto simp: takes_def session_of_def)
  qed (use assms c other_steps(1) [of call w i now s j] in auto)
qed

lemma step_submitted:
  assumes "at_submittedAt (trackers (agent_step w c) i) = Some t"
  shows "at_submittedAt (trackers w i) = Some t \<or> c = (i, t, Submit)"
proof -
  obtain j now call where c: "c = (j, now, call)" by (cases c) auto
  show ?thesis
  proof (cases call)
    case (Report r)
    with assms c report_submitted [of j now r w i t] show ?thesis by simp
  next
    case Submit
    with assms c show ?thesis by (auto simp: submit_def agent_simps split: if_splits)
  qed (use assms c other_steps(2) [of call j i w now] in auto)
qed

lemma takes_cases:
  "takes i w c = [] \<or> (\<exists>s. takes i w c = [s] \<and> at_submittedAt (trackers w i) \<noteq> None
     \<and> at_submittedAt (trackers (agent_step w c) i) = None)"
proof (cases "takes i w c")
  case (Cons s ss)
  then have "sessionOwners (agent_step w c) s = Some i" "sessionOwners w s \<noteq> Some i"
    by (auto simp: takes_def split: option.splits if_splits)
  from step_takes [OF this] show ?thesis by auto
qed simp

definition enter_left :: "nat \<Rightarrow> Agents \<Rightarrow> nat" where
  "enter_left i w = (if at_submittedAt (trackers w i) = None then 0 else 1)"

lemma takes_bounded:
  "length (takes i w c) + enter_left i (agent_step w c) \<le> enter_left i w + (if is_submit i c then 1 else 0)"
proof -
  have "enter_left i (agent_step w c) \<le> enter_left i w + (if is_submit i c then 1 else 0)"
    using step_submitted [of w c i] by (cases "at_submittedAt (trackers (agent_step w c) i)") (auto simp: enter_left_def is_submit_def)
  moreover have "enter_left i (agent_step w c) = 0 \<and> enter_left i w = 1" if "takes i w c \<noteq> []"
    using takes_cases [of i w c] that by (auto simp: enter_left_def)
  moreover have "length (takes i w c) \<le> 1" using takes_cases [of i w c] by auto
  ultimately show ?thesis by (cases "takes i w c") auto
qed

lemma taken_bounded:
  "length (taken i w cs) + enter_left i (run agent_step w cs) \<le> enter_left i w + length (filter (is_submit i) cs)"
proof (induction cs arbitrary: w)
  case (Cons c cs)
  from Cons.IH [of "agent_step w c"] takes_bounded [of i w c] show ?case by auto
qed simp

lemma submitted_in_run:
  "at_submittedAt (trackers (run agent_step (new_agents delays) cs) i) = Some t \<Longrightarrow> (i, t, Submit) \<in> set cs"
proof (induction cs rule: rev_induct)
  case Nil
  then show ?case by (simp add: new_agents_def new_tracker_def)
next
  case (snoc c cs)
  then show ?case using step_submitted by (fastforce simp: run_append)
qed

lemma owned_was_taken:
  "sessionOwners (run agent_step w cs) s = Some i \<Longrightarrow> sessionOwners w s = Some i \<or> s \<in> set (taken i w cs)"
proof (induction cs arbitrary: w)
  case (Cons c cs)
  then show ?case using step_takes [of w c s i] by fastforce
qed simp

section \<open>Waits\<close>

definition waits :: "nat \<Rightarrow> string \<Rightarrow> Agents \<Rightarrow> bool" where
  "waits i agent w \<longleftrightarrow> at_status (trackers w i) = Some \<lparr>as_agent = agent, as_activity = Act_waiting\<rparr>"

text \<open>A run whose last part starts with a report of waiting and keeps the status until its end.\<close>

definition waited_since :: "nat \<Rightarrow> string \<Rightarrow> int \<Rightarrow> Agents \<Rightarrow> (nat \<times> int \<times> AgentCall) list \<Rightarrow> bool" where
  "waited_since i agent t w cs \<longleftrightarrow>
     (\<exists>before r after. cs = before @ (i, t, Report r) # after \<and> ar_agent r = agent \<and> ar_state r = St_waiting
        \<and> (\<forall>n\<le>length after. waits i agent (run agent_step w (before @ (i, t, Report r) # take n after))))"

lemma take_report_timer:
  "at_waitTimer (trackers (take_report i now r w) j) =
     (if i \<noteq> j then at_waitTimer (trackers w j)
      else if ar_state r = St_waiting then Some (now + at_waitDelayMs (trackers w i), ar_agent r) else None)"
  by (cases "ar_state r") (auto simp: take_report_def Let_def agent_simps new_tracker_def)

lemma claim_timer:
  "claim i now s st w = (c, v) \<Longrightarrow> at_waitTimer (trackers v j) = at_waitTimer (trackers w j)
     \<and> at_waitDelayMs (trackers v j) = at_waitDelayMs (trackers w j)"
  by (auto simp: claim_def agent_simps split: option.splits if_splits)

lemma report_timer:
  assumes "at_waitTimer (trackers (report i now r w) j) = Some (due, agent)"
  shows "at_waitTimer (trackers w j) = Some (due, agent)
    \<or> i = j \<and> ar_state r = St_waiting \<and> ar_agent r = agent \<and> due = now + at_waitDelayMs (trackers w j)"
  using assms
  by (auto simp: report_def take_report_timer claim_timer split: option.splits if_splits prod.splits)

lemma step_timer:
  assumes "at_waitTimer (trackers (agent_step w c) i) = Some (due, agent)"
  shows "at_waitTimer (trackers w i) = Some (due, agent)
    \<or> (\<exists>now r. c = (i, now, Report r) \<and> ar_state r = St_waiting \<and> ar_agent r = agent
          \<and> due = now + at_waitDelayMs (trackers w i))"
proof -
  obtain j now call where c: "c = (j, now, call)" by (cases c) auto
  show ?thesis
  proof (cases call)
    case (Report r)
    with assms c report_timer [of j now r w i due agent] show ?thesis by auto
  qed (use assms c in \<open>auto simp: submit_def interrupt_def answer_def dispose_def wait_elapsed_def agent_simps
         new_tracker_def split: option.splits if_splits\<close>)
qed

lemma take_report_delay: "at_waitDelayMs (trackers (take_report i now r w) j) = at_waitDelayMs (trackers w j)"
  by (cases "ar_state r") (auto simp: take_report_def Let_def agent_simps new_tracker_def)

lemma step_delay: "at_waitDelayMs (trackers (agent_step w c) i) = at_waitDelayMs (trackers w i)"
  by (cases "(w, c)" rule: agent_step.cases)
    (auto simp: report_def take_report_delay claim_timer submit_def interrupt_def answer_def dispose_def
      wait_elapsed_def agent_simps new_tracker_def split: option.splits prod.splits)

lemma run_delay: "at_waitDelayMs (trackers (run agent_step w cs) i) = at_waitDelayMs (trackers w i)"
  by (induction cs arbitrary: w) (simp_all add: step_delay)

lemma timer_waits: "agents_ok w \<Longrightarrow> at_waitTimer (trackers w i) = Some (due, agent) \<Longrightarrow> waits i agent w"
  by (simp add: agents_ok_def tracker_ok_def waits_def)

lemma timer_waited:
  "at_waitTimer (trackers (run agent_step (new_agents delays) cs) i) = Some (due, agent)
    \<Longrightarrow> waited_since i agent (due - delays i) (new_agents delays) cs"
proof (induction cs rule: rev_induct)
  case Nil
  then show ?case by (simp add: new_agents_def new_tracker_def)
next
  case (snoc c cs)
  let ?w = "run agent_step (new_agents delays) cs"
  have now_waits: "waits i agent (run agent_step (new_agents delays) (cs @ [c]))"
    by (rule timer_waits [OF agents.inv_any_run snoc.prems])
  have delay: "at_waitDelayMs (trackers ?w i) = delays i"
    by (simp add: run_delay) (simp add: new_agents_def new_tracker_def)
  from step_timer [of ?w c i due agent] snoc.prems delay
  consider "at_waitTimer (trackers ?w i) = Some (due, agent)"
    | now r where "c = (i, now, Report r)" "ar_state r = St_waiting" "ar_agent r = agent" "due = now + delays i"
    by (auto simp: run_append)
  then show ?case
  proof cases
    case 1
    from snoc.IH [OF this] obtain before r after
      where split: "cs = before @ (i, due - delays i, Report r) # after" "ar_agent r = agent" "ar_state r = St_waiting"
        and all: "\<And>n. n \<le> length after \<Longrightarrow> waits i agent (run agent_step (new_agents delays)
          (before @ (i, due - delays i, Report r) # take n after))"
      unfolding waited_since_def by blast
    have "waits i agent (run agent_step (new_agents delays)
        (before @ (i, due - delays i, Report r) # take n (after @ [c])))" if "n \<le> Suc (length after)" for n
      using that all [of n] now_waits split(1) by (cases "n = Suc (length after)") auto
    with split show ?thesis
      unfolding waited_since_def by (intro exI [of _ before] exI [of _ r] exI [of _ "after @ [c]"]) simp
  next
    case 2
    with now_waits show ?thesis
      unfolding waited_since_def by (intro exI [of _ cs] exI [of _ r] exI [of _ "[]"]) simp
  qed
qed

text \<open>The waits announced so far.\<close>

definition waits_told :: "Agents \<Rightarrow> (nat \<times> string) list" where
  "waits_told w = List.map_filter (\<lambda>(i, event). case event of
     OnAnnounce a \<Rightarrow> if an_state a = Ann_waiting then Some (i, an_agent a) else None | _ \<Rightarrow> None) (told w)"

lemma waits_told_tell:
  "waits_told (tell i e w) = waits_told w @ (case e of
     OnAnnounce a \<Rightarrow> if an_state a = Ann_waiting then [(i, an_agent a)] else [] | _ \<Rightarrow> [])"
  by (cases e) (simp_all add: waits_told_def tell_def List.map_filter_def)

lemma waits_told_same: "told v = told w \<Longrightarrow> waits_told v = waits_told w"
  by (simp add: waits_told_def)

lemma waits_told_upd [simp]:
  "waits_told (this_upd i f w) = waits_told w" "waits_told (cancelWait i w) = waits_told w"
  "waits_told (releaseSessions i w) = waits_told w"
  by (simp_all add: waits_told_def agent_simps)

lemma waits_told_set [simp]:
  "waits_told (setAgent i a w) = waits_told w" "waits_told (setStatus i st w) = waits_told w"
  by (simp_all add: setAgent_def setStatus_def waits_told_tell)

lemma waits_told_reset [simp]: "waits_told (reset_tracker i w) = waits_told w"
  by (simp add: reset_tracker_def)

lemma waits_told_report [simp]: "waits_told (report i now r w) = waits_told w"
proof -
  have "waits_told (take_report i now r v) = waits_told v" for v
    by (cases "ar_state r") (simp_all add: take_report_def Let_def waits_told_tell)
  then show ?thesis by (auto simp: report_def dest: claim_told waits_told_same split: option.split prod.split)
qed

lemma waits_told_step:
  assumes "waits_told (agent_step w c) = waits_told w @ [(i, agent)]"
  shows "\<exists>due now. c = (i, now, Elapse) \<and> at_waitTimer (trackers w i) = Some (due, agent) \<and> due \<le> now"
  using assms
  by (cases "(w, c)" rule: agent_step.cases)
    (auto simp: submit_def interrupt_def answer_def dispose_def wait_elapsed_def waits_told_tell
      split: option.splits if_splits)

lemma others_keep_tracker:
  "list_all (\<lambda>c. fst c \<noteq> i) cs \<Longrightarrow> trackers (run agent_step w cs) i = trackers w i"
proof (induction cs arbitrary: w)
  case (Cons c cs)
  have "trackers (take_report j now r v) i = trackers v i" if "j \<noteq> i" for j now r v
    using that by (cases "ar_state r") (simp_all add: take_report_def Let_def agent_simps)
  moreover have "claim j now s st w = (b, v) \<Longrightarrow> j \<noteq> i \<Longrightarrow> trackers v i = trackers w i" for j now s st b v
    by (auto simp: claim_def agent_simps split: option.splits if_splits)
  ultimately have "trackers (agent_step w c) i = trackers w i"
    using Cons.prems
    by (cases "(w, c)" rule: agent_step.cases)
      (auto simp: report_def submit_def interrupt_def answer_def dispose_def wait_elapsed_def agent_simps
        split: option.splits prod.splits)
  with Cons show ?case by simp
qed simp

section \<open>Properties\<close>

text \<open>C19: However many terminals are told of a report that names its session, and in whatever order, at most
  one of them hears it (the others make no call); and at any time a session is in the set of exactly the
  terminal the shared map names as its owner, so in that of one terminal at most.\<close>

theorem session_heard_by_one_terminal:
  assumes "ar_session r = Some session" and "w = run agent_step (new_agents delays) calls"
  shows "(\<exists>i. told_to i w (run agent_step w (broadcast r terminals)))
    \<and> (\<forall>i. session \<in> set (at_sessions (trackers w i)) \<longleftrightarrow> sessionOwners w session = Some i)"
  using broadcast_heard_once [OF assms(1), of w terminals] agents.inv_any_run [of delays calls] assms(2)
  by (simp add: agents_ok_def)

theorem session_heard_by_one_terminal_witness:
  "\<exists>i. told_to i (new_agents (\<lambda>_. 3000)) (run agent_step (new_agents (\<lambda>_. 3000))
     (broadcast \<lparr>ar_agent = ''codex'', ar_state = St_waiting, ar_session = Some ''a''\<rparr> [(0, 5), (1, 6)]))"
  using session_heard_by_one_terminal
    [of "\<lparr>ar_agent = ''codex'', ar_state = St_waiting, ar_session = Some ''a''\<rparr>" "''a''" _ "\<lambda>_. 3000" "[]" "[(0, 5), (1, 6)]"]
  by simp

text \<open>
  A terminal owns only sessions it took, takes at most one for each Enter typed in it, and takes one
  no later than ten seconds after such an Enter.\<close>

lemma each_enter_takes_one_session:
  fixes calls :: "(nat \<times> int \<times> AgentCall) list" and delays :: "nat \<Rightarrow> int"
  defines "w \<equiv> run agent_step (new_agents delays) calls"
  shows "length (taken i (new_agents delays) calls) \<le> length (filter (is_submit i) calls)
    \<and> (\<forall>session. sessionOwners w session = Some i \<longrightarrow> session \<in> set (taken i (new_agents delays) calls))
    \<and> (\<forall>call. takes i w call \<noteq> [] \<longrightarrow>
        (\<exists>t. (i, t, Submit) \<in> set calls \<and> fst (snd call) - t \<le> AGENT_CLAIM_WINDOW_MS))"
proof -
  have "length (taken i (new_agents delays) calls) \<le> length (filter (is_submit i) calls)"
    using taken_bounded [of i "new_agents delays" calls] by (simp add: enter_left_def new_agents_def new_tracker_def)
  moreover have "session \<in> set (taken i (new_agents delays) calls)" if "sessionOwners w session = Some i" for session
    using that owned_was_taken [of "new_agents delays" calls session i] by (simp add: w_def new_agents_def)
  moreover have "\<exists>t. (i, t, Submit) \<in> set calls \<and> fst (snd call) - t \<le> AGENT_CLAIM_WINDOW_MS"
    if "takes i w call \<noteq> []" for call
  proof -
    from that obtain s where "sessionOwners (agent_step w call) s = Some i" "sessionOwners w s \<noteq> Some i"
      by (auto simp: takes_def split: option.splits if_splits)
    from step_takes [OF this] show ?thesis using submitted_in_run [of delays calls i] by (auto simp: w_def)
  qed
  ultimately show ?thesis by blast
qed

lemma each_enter_takes_one_session_witness:
  "taken 1 (new_agents (\<lambda>_. 3000)) [(1, 0, Submit),
     (1, 50, Report \<lparr>ar_agent = ''codex'', ar_state = St_processing, ar_session = Some ''a''\<rparr>),
     (1, 60, Report \<lparr>ar_agent = ''codex'', ar_state = St_processing, ar_session = Some ''b''\<rparr>)] = [''a'']
   \<and> length (taken 1 (new_agents (\<lambda>_. 3000)) [(1, 0, Submit)]) \<le> length (filter (is_submit 1) [(1, 0, Submit)])"
proof
  show "taken 1 (new_agents (\<lambda>_. 3000)) [(1, 0, Submit),
     (1, 50, Report \<lparr>ar_agent = ''codex'', ar_state = St_processing, ar_session = Some ''a''\<rparr>),
     (1, 60, Report \<lparr>ar_agent = ''codex'', ar_state = St_processing, ar_session = Some ''b''\<rparr>)] = [''a'']"
    by (simp add: takes_def session_of_def submit_def report_def claim_def agent_simps new_agents_def new_tracker_def
      take_report_owners AGENT_CLAIM_WINDOW_MS_def take_report_submitted)
qed (use each_enter_takes_one_session [of 1 "\<lambda>_. 3000" "[(1, 0, Submit)]"] in blast)



end
