(* ===== verification/Terminal_Notifications.thy ===== *)
theory Terminal_Notifications
  imports Agent_Status "HOL-Library.AList"
begin

text \<open>
  Notifications programs ask for, the timing of commands, and what an event in a
  terminal leads to (\<open>src/src/lib/terminalNotifications.ts\<close>). Two things the code uses
  lie outside the 8-bit strings of the model and are arguments: the character
  U+2026 a cut text ends in (\<open>ellipsis\<close>) and \<open>decodeBase64Utf8\<close> (\<open>decode\<close>). Times are
  integers, in milliseconds.
\<close>

section \<open>Requests\<close>

record TerminalNotificationRequest =
  rq_title :: "string option"
  rq_body :: string

definition MAX_TITLE_LENGTH :: nat where "MAX_TITLE_LENGTH = 256"
definition MAX_BODY_LENGTH :: nat where "MAX_BODY_LENGTH = 1024"

text \<open>\<open>\p{Cc}\<close>, and the replacement of each run of it by a space.\<close>

definition is_control :: "char \<Rightarrow> bool" where
  "is_control c \<longleftrightarrow> code c \<le> 31 \<or> (127 \<le> code c \<and> code c \<le> 159)"

fun blank_controls :: "bool \<Rightarrow> string \<Rightarrow> string" where
  "blank_controls in_run [] = []"
| "blank_controls in_run (c # s) =
     (if is_control c then (if in_run then [] else '' '') @ blank_controls True s
      else c # blank_controls False s)"

definition clean :: "char \<Rightarrow> string \<Rightarrow> nat \<Rightarrow> string" where
  "clean ellipsis text' maxLength =
     (let visible = trim (blank_controls False text')
      in if length visible > maxLength then take (maxLength - 1) visible @ [ellipsis] else visible)"

definition request :: "char \<Rightarrow> string option \<Rightarrow> string \<Rightarrow> TerminalNotificationRequest option" where
  "request ellipsis title body =
     (let cleanTitle = (case title of None \<Rightarrow> [] | Some t \<Rightarrow> clean ellipsis t MAX_TITLE_LENGTH);
          cleanBody = clean ellipsis body MAX_BODY_LENGTH
      in if cleanTitle = [] \<and> cleanBody = [] then None
         else if cleanBody = [] then Some \<lparr>rq_title = None, rq_body = cleanTitle\<rparr>
         else Some \<lparr>rq_title = (if cleanTitle = [] then None else Some cleanTitle), rq_body = cleanBody\<rparr>)"

text \<open>\<open>/^\d+(;|$)/\<close>.\<close>

definition numbered_command :: "string \<Rightarrow> bool" where
  "numbered_command data \<longleftrightarrow> takeWhile is_digit data \<noteq> []
     \<and> (dropWhile is_digit data = [] \<or> hd (dropWhile is_digit data) = CHR '';'')"

definition parseOsc9Notification :: "char \<Rightarrow> string \<Rightarrow> TerminalNotificationRequest option" where
  "parseOsc9Notification ellipsis data =
     (if numbered_command data then None else request ellipsis None data)"

definition parseOsc777Notification :: "char \<Rightarrow> string \<Rightarrow> TerminalNotificationRequest option" where
  "parseOsc777Notification ellipsis data =
     (case split_at (\<lambda>c. c = CHR '';'') data of
        [] \<Rightarrow> None
      | command # rest \<Rightarrow>
          if command \<noteq> ''notify'' then None
          else (case rest of
                  [] \<Rightarrow> request ellipsis (Some []) (join '';'' [])
                | title # body \<Rightarrow> request ellipsis (Some title) (join '';'' body)))"

section \<open>Chunks\<close>

record KittyPartial =
  kp_title :: string
  kp_body :: string

text \<open>\<open>partials\<close>: a \<open>Map\<close> as its entries in insertion order.\<close>

type_synonym kitty_partials = "(string \<times> KittyPartial) list"

definition before_equals :: "string \<Rightarrow> (string \<times> string) option" where
  "before_equals pair = (case index_of (CHR ''='') pair of
     Some equals \<Rightarrow> if equals > 0 then Some (take equals pair, drop (Suc equals) pair) else None
   | None \<Rightarrow> None)"

definition kitty_metadata :: "string \<Rightarrow> string \<Rightarrow> string option" where
  "kitty_metadata head' = foldl (\<lambda>m pair. case before_equals pair of Some (k, v) \<Rightarrow> m(k \<mapsto> v) | None \<Rightarrow> m)
     Map.empty (split_at (\<lambda>c. c = CHR '':'') head')"

text \<open>A chunk as its metadata reads: id, part, payload, and whether more follow.\<close>

record KittyChunk =
  kc_id :: string
  kc_part :: string
  kc_payload :: string
  kc_more :: bool

definition read_chunk :: "(string \<Rightarrow> string option) \<Rightarrow> string \<Rightarrow> KittyChunk option" where
  "read_chunk decode data =
     (case index_of (CHR '';'') data of
        None \<Rightarrow> None
      | Some separator \<Rightarrow>
          (let metadata = kitty_metadata (take separator data);
               payload = drop (Suc separator) data
           in case (if metadata ''e'' = Some ''1'' then decode payload else Some payload) of
                None \<Rightarrow> None
              | Some payload \<Rightarrow>
                  Some \<lparr>kc_id = or_default (metadata ''i'') [], kc_part = or_default (metadata ''p'') ''title'',
                    kc_payload = payload, kc_more = (metadata ''d'' = Some ''0'')\<rparr>))"

definition MAX_PARTIALS :: nat where "MAX_PARTIALS = 16"

definition add_chunk :: "KittyChunk \<Rightarrow> kitty_partials \<Rightarrow> KittyPartial option" where
  "add_chunk c partials =
     (let partial = or_default (map_of partials (kc_id c)) \<lparr>kp_title = [], kp_body = []\<rparr>
      in if kc_part c = ''title'' then Some (partial\<lparr>kp_title := kp_title partial @ kc_payload c\<rparr>)
         else if kc_part c = ''body'' then Some (partial\<lparr>kp_body := kp_body partial @ kc_payload c\<rparr>)
         else None)"

definition handle_chunk ::
  "char \<Rightarrow> KittyChunk \<Rightarrow> kitty_partials \<Rightarrow> TerminalNotificationRequest option \<times> kitty_partials" where
  "handle_chunk ellipsis c partials =
     (case add_chunk c partials of
        None \<Rightarrow> (None, partials)
      | Some partial \<Rightarrow>
          if kc_more c
          then let kept = (if map_of partials (kc_id c) = None \<and> length partials \<ge> MAX_PARTIALS
                           then tl partials else partials)
               in (None, AList.update (kc_id c) partial kept)
          else (if kp_body partial \<noteq> [] then request ellipsis (Some (kp_title partial)) (kp_body partial)
                else request ellipsis None (kp_title partial),
                AList.delete (kc_id c) partials))"

definition kitty_handle ::
  "char \<Rightarrow> (string \<Rightarrow> string option) \<Rightarrow> string \<Rightarrow> kitty_partials \<Rightarrow> TerminalNotificationRequest option \<times> kitty_partials" where
  "kitty_handle ellipsis decode data partials =
     (case read_chunk decode data of None \<Rightarrow> (None, partials) | Some c \<Rightarrow> handle_chunk ellipsis c partials)"

section \<open>Timing commands\<close>

datatype CommandMark = Mark_prompt | Mark_output | Mark_done "int option"

record FinishedCommand =
  fc_command :: "string option"
  fc_exitCode :: "int option"
  fc_durationMs :: int

record CommandTimer =
  ct_startedAt :: "int option"
  ct_command :: "string option"
  ct_running :: "string option"

definition new_timer :: CommandTimer where
  "new_timer = \<lparr>ct_startedAt = None, ct_command = None, ct_running = None\<rparr>"

text \<open>Each method gives the timer and the calls of \<open>onRunning\<close>.\<close>

type_synonym timer_result = "CommandTimer \<times> string option list"

definition timer_prompt :: "CommandTimer \<Rightarrow> timer_result" where
  "timer_prompt t =
     (let s = t\<lparr>ct_startedAt := None, ct_command := None\<rparr>
      in if ct_running t = None then (s, []) else (s\<lparr>ct_running := None\<rparr>, [None]))"

definition reportRunning :: "CommandTimer \<Rightarrow> timer_result" where
  "reportRunning t =
     (if ct_running t \<noteq> None \<or> ct_startedAt t = None \<or> \<not> truthy (ct_command t) then (t, [])
      else (t\<lparr>ct_running := ct_command t\<rparr>, [ct_command t]))"

definition timer_start :: "int \<Rightarrow> CommandTimer \<Rightarrow> timer_result" where
  "timer_start now t = reportRunning (if ct_startedAt t = None then t\<lparr>ct_startedAt := Some now\<rparr> else t)"

definition setCommand :: "string \<Rightarrow> CommandTimer \<Rightarrow> timer_result" where
  "setCommand command t =
     (let s = t\<lparr>ct_command := Some command\<rparr>
      in if ct_running t = None \<or> ct_running t = Some command then reportRunning s
         else (s\<lparr>ct_running := Some command\<rparr>, [Some command]))"

definition setTypedCommand :: "string \<Rightarrow> CommandTimer \<Rightarrow> timer_result" where
  "setTypedCommand command t =
     (if ct_startedAt t \<noteq> None then (t, []) else reportRunning (t\<lparr>ct_command := Some command\<rparr>))"

definition timer_finish :: "int option \<Rightarrow> int \<Rightarrow> CommandTimer \<Rightarrow> FinishedCommand option \<times> timer_result" where
  "timer_finish exitCode now t =
     (case ct_startedAt t of
        None \<Rightarrow> (None, timer_prompt t)
      | Some startedAt \<Rightarrow>
          (Some \<lparr>fc_command = ct_command t, fc_exitCode = exitCode, fc_durationMs = max 0 (now - startedAt)\<rparr>,
           timer_prompt t))"

definition timer_mark :: "CommandMark \<Rightarrow> int \<Rightarrow> CommandTimer \<Rightarrow> FinishedCommand option \<times> timer_result" where
  "timer_mark mark now t =
     (case mark of
        Mark_done exitCode \<Rightarrow> timer_finish exitCode now t
      | Mark_prompt \<Rightarrow> (None, timer_prompt t)
      | Mark_output \<Rightarrow> (None, timer_start now t))"

section \<open>Attention\<close>

datatype TabAttentionLevel = Lv_activity | Lv_bell | Lv_notification

fun ATTENTION_RANK :: "TabAttentionLevel \<Rightarrow> nat" where
  "ATTENTION_RANK Lv_activity = 1"
| "ATTENTION_RANK Lv_bell = 2"
| "ATTENTION_RANK Lv_notification = 3"

definition strongerAttention :: "TabAttentionLevel option \<Rightarrow> TabAttentionLevel \<Rightarrow> TabAttentionLevel" where
  "strongerAttention current next' =
     (case current of
        Some level \<Rightarrow> if ATTENTION_RANK level \<ge> ATTENTION_RANK next' then level else next'
      | None \<Rightarrow> next')"

definition localShellsMarkCommands :: "bool \<Rightarrow> bool \<Rightarrow> string \<Rightarrow> bool" where
  "localShellsMarkCommands command_marks local_unix_shell_integration platform \<longleftrightarrow>
     command_marks \<and> (platform = ''windows'' \<or> local_unix_shell_integration)"

datatype TerminalAttentionEvent =
    Ev_command FinishedCommand
  | Ev_request TerminalNotificationRequest
  | Ev_agent AgentAnnouncement
  | Ev_bell

record NotificationSettings =
  notifications_enabled :: bool
  notify_command_finished :: bool
  notify_command_min_secs :: int
  notify_terminal_requests :: bool
  notify_agent_waiting :: bool
  notify_agent_done :: bool
  bell_notify :: bool

record AttentionDecision =
  ad_mark :: "TabAttentionLevel option"
  ad_system :: bool
  ad_toast :: bool

definition ad_nothing :: AttentionDecision where
  "ad_nothing = \<lparr>ad_mark = None, ad_system = False, ad_toast = False\<rparr>"

definition decideAttention ::
  "TerminalAttentionEvent \<Rightarrow> NotificationSettings \<Rightarrow> bool \<Rightarrow> bool \<Rightarrow> bool \<Rightarrow> AttentionDecision" where
  "decideAttention event settings windowFocused tabVisible tabFocused =
     (if windowFocused \<and> tabFocused then ad_nothing
      else
        let mark = (if tabVisible then None else if event = Ev_bell then Some Lv_bell else Some Lv_notification);
            decided = (\<lambda>announce. \<lparr>ad_mark = mark, ad_system = (announce \<and> \<not> windowFocused),
              ad_toast = (announce \<and> windowFocused \<and> event \<noteq> Ev_bell)\<rparr>)
        in case event of
             Ev_command command \<Rightarrow>
               if \<not> notify_command_finished settings
                  \<or> fc_durationMs command < notify_command_min_secs settings * 1000 then ad_nothing
               else decided (notifications_enabled settings)
           | Ev_request _ \<Rightarrow>
               if \<not> notify_terminal_requests settings then ad_nothing
               else decided (notifications_enabled settings)
           | Ev_agent announcement \<Rightarrow>
               (let wanted = (if an_state announcement = Ann_waiting then notify_agent_waiting settings
                              else notify_agent_done settings)
                in if \<not> wanted then ad_nothing else decided (notifications_enabled settings))
           | Ev_bell \<Rightarrow> decided (notifications_enabled settings \<and> bell_notify settings))"

definition formatCommandDuration :: "int \<Rightarrow> string" where
  "formatCommandDuration durationMs =
     (let totalSeconds = (durationMs + 500) div 1000;
          hours = totalSeconds div 3600;
          minutes = (totalSeconds mod 3600) div 60;
          seconds = totalSeconds mod 60
      in if hours > 0 then show_nat (nat hours) @ ''h '' @ show_nat (nat minutes) @ ''m''
         else if minutes > 0 then show_nat (nat minutes) @ ''m '' @ show_nat (nat seconds) @ ''s''
         else show_nat (nat seconds) @ ''s'')"

section \<open>Levels in order\<close>

instantiation TabAttentionLevel :: linorder
begin

definition less_eq_TabAttentionLevel :: "TabAttentionLevel \<Rightarrow> TabAttentionLevel \<Rightarrow> bool" where
  "less_eq_TabAttentionLevel a b \<longleftrightarrow> ATTENTION_RANK a \<le> ATTENTION_RANK b"

definition less_TabAttentionLevel :: "TabAttentionLevel \<Rightarrow> TabAttentionLevel \<Rightarrow> bool" where
  "less_TabAttentionLevel a b \<longleftrightarrow> ATTENTION_RANK a < ATTENTION_RANK b"

instance
proof
  show "a \<le> b \<Longrightarrow> b \<le> a \<Longrightarrow> a = b" for a b :: TabAttentionLevel
    by (cases a; cases b) (simp_all add: less_eq_TabAttentionLevel_def)
qed (auto simp: less_eq_TabAttentionLevel_def less_TabAttentionLevel_def)

end

lemma strongerAttention_max: "strongerAttention (Some a) b = max a b" "strongerAttention None b = b"
  by (auto simp: strongerAttention_def max_def less_eq_TabAttentionLevel_def)
    (cases a; cases b; simp)+

section \<open>The texts of a request\<close>

text \<open>Shown in one line: no control character, no white space around, and of bounded length.\<close>

definition shown_text :: "nat \<Rightarrow> string \<Rightarrow> bool" where
  "shown_text most s \<longleftrightarrow> s \<noteq> [] \<and> length s \<le> most \<and> list_all (\<lambda>c. \<not> is_control c) s
     \<and> \<not> is_space (hd s) \<and> \<not> is_space (last s)"

definition shown_request :: "TerminalNotificationRequest \<Rightarrow> bool" where
  "shown_request r \<longleftrightarrow> shown_text MAX_BODY_LENGTH (rq_body r)
     \<and> (case rq_title r of None \<Rightarrow> True | Some title \<Rightarrow> shown_text MAX_TITLE_LENGTH title)"

lemma blank_controls_clean: "list_all (\<lambda>c. \<not> is_control c) (blank_controls b s)"
  by (induction b s rule: blank_controls.induct) (auto simp: is_control_def)

lemma trim_set: "c \<in> set (trim s) \<Longrightarrow> c \<in> set s"
  unfolding trim_def trim_end_def trim_start_def
  by (metis set_dropWhileD set_rev)

lemma trim_ends:
  assumes "trim s \<noteq> []"
  shows "\<not> is_space (hd (trim s))" and "\<not> is_space (last (trim s))"
proof -
  have "dropWhile is_space (trim s) = trim s" using trim_start_trim [of s] by (simp add: trim_start_def)
  with assms show "\<not> is_space (hd (trim s))" using hd_dropWhile [of is_space "trim s"] by simp
  show "\<not> is_space (last (trim s))" using assms trim_end_no_space by (simp add: trim_def)
qed

lemma clean_shown:
  assumes "\<not> is_control ellipsis" and "\<not> is_space ellipsis" and "2 \<le> most" and "clean ellipsis s most \<noteq> []"
  shows "shown_text most (clean ellipsis s most)"
proof -
  let ?v = "trim (blank_controls False s)"
  have v: "list_all (\<lambda>c. \<not> is_control c) ?v"
    using blank_controls_clean [of False s] by (auto simp: list_all_iff dest: trim_set)
  show ?thesis
  proof (cases "length ?v > most")
    case True
    then have "?v \<noteq> []" by auto
    from True assms have "hd (take (most - 1) ?v @ [ellipsis]) = hd ?v"
      by (cases ?v) (auto simp: take_Cons split: nat.split)
    with True v trim_ends(1) [OF \<open>?v \<noteq> []\<close>] assms show ?thesis
      by (auto simp: clean_def shown_text_def Let_def list_all_iff dest: in_set_takeD)
  next
    case False
    with assms v trim_ends [of "blank_controls False s"] show ?thesis
      by (simp add: clean_def shown_text_def Let_def)
  qed
qed

lemma shown_text_mono: "shown_text m s \<Longrightarrow> m \<le> n \<Longrightarrow> shown_text n s"
  by (simp add: shown_text_def)

lemma request_shown:
  assumes e: "\<not> is_control ellipsis" "\<not> is_space ellipsis" and "request ellipsis title body = Some r"
  shows "shown_request r"
  using assms(3) clean_shown [OF e, of MAX_TITLE_LENGTH] clean_shown [OF e, of MAX_BODY_LENGTH]
    shown_text_mono [of MAX_TITLE_LENGTH _ MAX_BODY_LENGTH]
  by (auto simp: request_def shown_request_def Let_def MAX_TITLE_LENGTH_def MAX_BODY_LENGTH_def
      split: option.splits if_splits)

section \<open>Assembled chunks\<close>

definition partials_ok :: "kitty_partials \<Rightarrow> bool" where
  "partials_ok partials \<longleftrightarrow> distinct (map fst partials) \<and> length partials \<le> MAX_PARTIALS"

lemma length_update:
  "length (AList.update k v al) = (if map_of al k = None then Suc (length al) else length al)"
  by (induction al) auto

lemma handle_chunk_ok:
  assumes "partials_ok partials"
  shows "partials_ok (snd (handle_chunk ellipsis c partials))"
proof -
  have "length (AList.update (kc_id c) p
      (if map_of partials (kc_id c) = None \<and> length partials \<ge> MAX_PARTIALS then tl partials else partials)) \<le> MAX_PARTIALS" for p
    using assms
    by (auto simp: length_update partials_ok_def MAX_PARTIALS_def)
  moreover have "distinct (map fst (AList.update k p (tl partials)))" "distinct (map fst (AList.update k p partials))" for k p
    using assms by (auto simp: partials_ok_def map_tl intro!: distinct_update distinct_tl)
  moreover have "length (AList.delete k partials) \<le> MAX_PARTIALS" for k
    using assms length_delete_le [of k partials] by (simp add: partials_ok_def)
  ultimately show ?thesis using assms
    by (auto simp: handle_chunk_def Let_def partials_ok_def intro: distinct_delete split: option.split)
qed

fun kitty_step ::
  "char \<times> (string \<Rightarrow> string option) \<Rightarrow> kitty_partials \<Rightarrow> string \<Rightarrow> kitty_partials" where
  "kitty_step (ellipsis, decode) partials data = snd (kitty_handle ellipsis decode data partials)"

interpretation kitty: total_machine "kitty_step env" "[]" partials_ok
proof unfold_locales
  show "partials_ok (kitty_step env partials data)" if "partials_ok partials" for partials data
    using that by (cases env) (simp add: kitty_handle_def handle_chunk_ok split: option.split)
qed (simp add: partials_ok_def)

definition run_chunks :: "char \<Rightarrow> KittyChunk list \<Rightarrow> kitty_partials \<Rightarrow> kitty_partials" where
  "run_chunks ellipsis cs partials = fold (\<lambda>c p. snd (handle_chunk ellipsis c p)) cs partials"

definition part_of :: "string \<Rightarrow> string \<Rightarrow> KittyChunk list \<Rightarrow> string" where
  "part_of part i cs = concat (map kc_payload (filter (\<lambda>c. kc_id c = i \<and> kc_part c = part) cs))"

definition pending :: "string \<Rightarrow> kitty_partials \<Rightarrow> KittyPartial" where
  "pending i partials = or_default (map_of partials i) \<lparr>kp_title = [], kp_body = []\<rparr>"

lemma not_evicted:
  assumes "distinct (map fst al)" and "insert k (fst ` set al) \<subseteq> ids" and "finite ids" and "card ids \<le> n"
  shows "\<not> (map_of al k = None \<and> length al \<ge> n)"
proof
  assume h: "map_of al k = None \<and> length al \<ge> n"
  then have "k \<notin> set (map fst al)" by (auto simp: map_of_eq_None_iff)
  then have "card (insert k (set (map fst al))) = Suc (length al)"
    using distinct_card [OF assms(1)] by simp
  moreover have "card (insert k (set (map fst al))) \<le> card ids" by (rule card_mono) (use assms in auto)
  ultimately show False using h assms(4) by simp
qed

lemma set_tl: "x \<in> set (tl xs) \<Longrightarrow> x \<in> set xs"
  by (cases xs) auto

lemma handle_chunk_keys:
  "distinct (map fst al) \<Longrightarrow> distinct (map fst (snd (handle_chunk ellipsis c al)))"
  "fst ` set (snd (handle_chunk ellipsis c al)) \<subseteq> insert (kc_id c) (fst ` set al)"
proof -
  assume "distinct (map fst al)"
  then show "distinct (map fst (snd (handle_chunk ellipsis c al)))"
    by (auto simp: handle_chunk_def Let_def map_tl intro!: distinct_update distinct_delete distinct_tl
        split: option.split)
next
  have tail: "fst ` set (tl al) \<subseteq> fst ` set al" by (auto dest: set_tl)
  have less: "fst ` set (AList.delete k al) \<subseteq> fst ` set al" for k
    using delete_keys [of k al] by (metis Diff_subset set_map set_removeAll)
  show "fst ` set (snd (handle_chunk ellipsis c al)) \<subseteq> insert (kc_id c) (fst ` set al)"
  proof (cases "add_chunk c al")
    case (Some p)
    with less [of "kc_id c"] tail show ?thesis
      by (cases "kc_more c") (simp_all add: handle_chunk_def Let_def dom_update subset_insertI2 insert_mono)
  qed (auto simp: handle_chunk_def)
qed

lemma handle_chunk_pending:
  assumes "\<not> (map_of al (kc_id c) = None \<and> length al \<ge> MAX_PARTIALS)" and "kc_id c = i \<longrightarrow> kc_more c"
  shows "pending i (snd (handle_chunk ellipsis c al)) =
      \<lparr>kp_title = kp_title (pending i al) @ part_of ''title'' i [c], kp_body = kp_body (pending i al) @ part_of ''body'' i [c]\<rparr>"
proof -
  from assms(1)
  have kept: "(if map_of al (kc_id c) = None \<and> length al \<ge> MAX_PARTIALS then tl al else al) = al" by auto
  have "map_of (snd (handle_chunk ellipsis c al)) i =
      (if kc_id c = i \<and> add_chunk c al \<noteq> None then add_chunk c al else map_of al i)"
    using assms(2) unfolding handle_chunk_def kept Let_def
    by (auto simp: update_conv' delete_conv' split: option.split)
  moreover have "kc_id c = i \<Longrightarrow> add_chunk c al = Some k \<Longrightarrow>
      k = \<lparr>kp_title = kp_title (pending i al) @ part_of ''title'' i [c], kp_body = kp_body (pending i al) @ part_of ''body'' i [c]\<rparr>" for k
    by (auto simp: add_chunk_def pending_def part_of_def Let_def split: if_splits)
  moreover have "part_of part i [c] = []" if "kc_id c \<noteq> i \<or> add_chunk c al = None" "part = ''title'' \<or> part = ''body''" for part
    using that by (auto simp: add_chunk_def part_of_def Let_def split: if_splits)
  ultimately show ?thesis by (auto simp: pending_def [of i "snd (handle_chunk ellipsis c al)"] simp flip: pending_def)
qed

lemma part_of_Cons: "part_of part i (c # cs) = part_of part i [c] @ part_of part i cs"
  by (simp add: part_of_def)

lemma run_chunks_pending:
  assumes "distinct (map fst al)" and "fst ` set al \<union> kc_id ` set cs \<subseteq> ids" and "finite ids" and "card ids \<le> MAX_PARTIALS"
    and "list_all (\<lambda>c. kc_id c = i \<longrightarrow> kc_more c) cs"
  shows "pending i (run_chunks ellipsis cs al) =
      \<lparr>kp_title = kp_title (pending i al) @ part_of ''title'' i cs, kp_body = kp_body (pending i al) @ part_of ''body'' i cs\<rparr>"
  using assms
proof (induction cs arbitrary: al)
  case Nil
  then show ?case by (simp add: run_chunks_def part_of_def)
next
  case (Cons c cs)
  let ?al = "snd (handle_chunk ellipsis c al)"
  have "\<not> (map_of al (kc_id c) = None \<and> length al \<ge> MAX_PARTIALS)"
    by (rule not_evicted [OF Cons.prems(1) _ Cons.prems(3,4)]) (use Cons.prems(2) in auto)
  then have "pending i ?al =
      \<lparr>kp_title = kp_title (pending i al) @ part_of ''title'' i [c], kp_body = kp_body (pending i al) @ part_of ''body'' i [c]\<rparr>"
    by (rule handle_chunk_pending) (use Cons.prems(5) in simp)
  moreover have "fst ` set ?al \<subseteq> ids"
    by (rule order_trans [OF handle_chunk_keys(2)]) (use Cons.prems(2) in auto)
  then have "fst ` set ?al \<union> kc_id ` set cs \<subseteq> ids" using Cons.prems(2) by simp
  ultimately show ?case
    using Cons.IH [OF handle_chunk_keys(1) [OF Cons.prems(1)] _ Cons.prems(3,4)] Cons.prems(5)
    by (simp add: run_chunks_def part_of_Cons [of _ _ c cs])
qed

lemma run_kitty:
  "run (kitty_step (ellipsis, decode)) partials datas
    = run_chunks ellipsis (List.map_filter (read_chunk decode) datas) partials"
  by (induction datas arbitrary: partials)
    (auto simp: run_chunks_def kitty_handle_def List.map_filter_def split: option.split)

definition deliver :: "char \<Rightarrow> string \<Rightarrow> string \<Rightarrow> TerminalNotificationRequest option" where
  "deliver ellipsis title body =
     (if body \<noteq> [] then request ellipsis (Some title) body else request ellipsis None title)"

lemma requests_are_clean:
  assumes "\<not> is_control ellipsis" and "\<not> is_space ellipsis"
    and "parseOsc9Notification ellipsis data = Some r \<or> parseOsc777Notification ellipsis data = Some r
      \<or> fst (kitty_handle ellipsis decode data partials) = Some r"
  shows "shown_request r"
  using assms(3) request_shown [OF assms(1,2), where r = r]
  by (auto simp: parseOsc9Notification_def parseOsc777Notification_def kitty_handle_def handle_chunk_def Let_def
      split: if_splits option.splits list.splits)

text \<open>
  A notification sent in chunks is announced once its last chunk comes, with the title and the body
  its chunks give in the order they came, whatever chunks of other notifications came in between, as long as
  no more than sixteen are unfinished; and never more than sixteen are kept.\<close>

lemma chunks_are_assembled:
  fixes ellipsis :: char and decode :: "string \<Rightarrow> string option"
  assumes cs: "cs = List.map_filter (read_chunk decode) datas"
    and c: "read_chunk decode data = Some c" "\<not> kc_more c" "kc_part c = ''title'' \<or> kc_part c = ''body''"
    and fresh: "map_of partials (kc_id c) = None" "partials_ok partials"
    and few: "card (fst ` set partials \<union> kc_id ` set cs) \<le> MAX_PARTIALS"
    and more: "list_all (\<lambda>d. kc_id d = kc_id c \<longrightarrow> kc_more d) cs"
  shows "fst (kitty_handle ellipsis decode data (run (kitty_step (ellipsis, decode)) partials datas))
      = deliver ellipsis (part_of ''title'' (kc_id c) (cs @ [c])) (part_of ''body'' (kc_id c) (cs @ [c]))
    \<and> length (run (kitty_step (ellipsis, decode)) partials datas) \<le> MAX_PARTIALS"
proof
  let ?al = "run_chunks ellipsis cs partials"
  have run: "run (kitty_step (ellipsis, decode)) partials datas = ?al"
    by (simp add: run_kitty cs)
  have "pending (kc_id c) ?al =
      \<lparr>kp_title = part_of ''title'' (kc_id c) cs, kp_body = part_of ''body'' (kc_id c) cs\<rparr>"
    using run_chunks_pending [of partials cs _ "kc_id c" ellipsis, OF _ order_refl _ few more] fresh
    by (simp add: partials_ok_def pending_def)
  moreover have "part_of part i (cs @ [c]) = part_of part i cs @ part_of part i [c]" for part i
    by (simp add: part_of_def)
  ultimately show "fst (kitty_handle ellipsis decode data (run (kitty_step (ellipsis, decode)) partials datas))
      = deliver ellipsis (part_of ''title'' (kc_id c) (cs @ [c])) (part_of ''body'' (kc_id c) (cs @ [c]))"
    using c by (auto simp: run kitty_handle_def handle_chunk_def add_chunk_def deliver_def part_of_def
        Let_def pending_def [symmetric])
  show "length (run (kitty_step (ellipsis, decode)) partials datas) \<le> MAX_PARTIALS"
    using kitty.inv_run_from [OF fresh(2) kitty.run_allowed_all, of "(ellipsis, decode)" datas]
    by (simp add: partials_ok_def)
qed

text \<open>The chunks \<open>i=1:d=0;ab\<close>, \<open>i=2:d=0;x\<close> and \<open>i=1:p=body;c\<close>.\<close>

lemma chunks_are_assembled_witness:
  "fst (kitty_handle CHR ''~'' Some ''i=1:p=body;c''
     (run (kitty_step (CHR ''~'', Some)) [] [''i=1:d=0;ab'', ''i=2:d=0;x''])) = Some \<lparr>rq_title = Some ''ab'', rq_body = ''c''\<rparr>"
proof -
  have 1: "read_chunk Some ''i=1:d=0;ab'' = Some \<lparr>kc_id = ''1'', kc_part = ''title'', kc_payload = ''ab'', kc_more = True\<rparr>"
    and 2: "read_chunk Some ''i=2:d=0;x'' = Some \<lparr>kc_id = ''2'', kc_part = ''title'', kc_payload = ''x'', kc_more = True\<rparr>"
    and 3: "read_chunk Some ''i=1:p=body;c'' = Some \<lparr>kc_id = ''1'', kc_part = ''body'', kc_payload = ''c'', kc_more = False\<rparr>"
    by code_simp+
  have "deliver CHR ''~'' ''ab'' ''c'' = Some \<lparr>rq_title = Some ''ab'', rq_body = ''c''\<rparr>" by code_simp
  then show ?thesis
    using chunks_are_assembled [OF refl 3, of "[]" "[''i=1:d=0;ab'', ''i=2:d=0;x'']" "CHR ''~''"]
    by (simp add: List.map_filter_def 1 2 partials_ok_def MAX_PARTIALS_def part_of_def)
qed

section \<open>What a timer tells\<close>

datatype TimerCall = T_start int | T_command string | T_typed string | T_mark CommandMark int | T_prompt

fun timer_call :: "TimerCall \<Rightarrow> CommandTimer \<Rightarrow> FinishedCommand option \<times> timer_result" where
  "timer_call (T_start now) t = (None, timer_start now t)"
| "timer_call (T_command command) t = (None, setCommand command t)"
| "timer_call (T_typed command) t = (None, setTypedCommand command t)"
| "timer_call (T_mark mark now) t = timer_mark mark now t"
| "timer_call T_prompt t = (None, timer_prompt t)"

text \<open>The timer with all \<open>onRunning\<close> has heard.\<close>

fun timer_step :: "CommandTimer \<times> string option list \<Rightarrow> TimerCall \<Rightarrow> CommandTimer \<times> string option list" where
  "timer_step (t, heard) call = (case snd (timer_call call t) of (t', calls) \<Rightarrow> (t', heard @ calls))"

text \<open>
  The command running is the last one told, no call repeats the one before, and a
  command runs only once started and under the name the timer knows.
\<close>

definition timer_ok :: "CommandTimer \<times> string option list \<Rightarrow> bool" where
  "timer_ok s \<longleftrightarrow> (case s of (t, heard) \<Rightarrow>
     last (None # heard) = ct_running t
     \<and> list_all (\<lambda>(a, b). a \<noteq> b) (zip (None # heard) heard)
     \<and> (ct_running t \<noteq> None \<longrightarrow> ct_startedAt t \<noteq> None \<and> ct_command t = ct_running t))"

lemma zip_snoc_neighbours:
  "list_all (\<lambda>(a, b). a \<noteq> b) (zip (x # xs @ [y]) (xs @ [y]))
    \<longleftrightarrow> list_all (\<lambda>(a, b). a \<noteq> b) (zip (x # xs) xs) \<and> last (x # xs) \<noteq> y"
  by (induction xs arbitrary: x) auto

lemma timer_ok_step: "timer_ok s \<Longrightarrow> timer_ok (timer_step s call)"
  by (cases s; cases call)
    (auto simp: timer_ok_def timer_start_def setCommand_def setTypedCommand_def timer_mark_def timer_finish_def
      timer_prompt_def reportRunning_def zip_snoc_neighbours Let_def split: option.splits CommandMark.splits if_splits)

interpretation timer: total_machine timer_step "(new_timer, [])" timer_ok
  by unfold_locales (simp_all add: timer_ok_step, simp add: timer_ok_def new_timer_def)

end
