(* ===== verification/Tab_Attention.thy ===== *)
theory Tab_Attention
  imports Terminal_Notifications
begin

text \<open>
  The marks of tabs the user is not looking at (\<open>src/src/lib/tabAttention.ts\<close>), the
  reports of one terminal (\<open>src/src/components/TerminalTab/attentionReports.ts\<close>) and
  what announces them (\<open>src/src/hooks/useTerminalNotifications.tsx\<close>). The module's maps
  are the fields of a record; \<open>emit\<close> runs the listeners that hear the number of unseen
  notifications. What the hook shows (a toast, a system notification) is an effect it
  returns; the promise of a system notification is kept as a pending one, and its
  handler is a step of its own.
\<close>

section \<open>Marks\<close>

text \<open>A listener of \<open>watchUnseenNotificationTotal\<close>: its \<open>last\<close>, and the totals it heard.\<close>

record TotalWatcher =
  tw_last :: nat
  tw_heard :: "nat list"

record AttentionMarks =
  marks :: "string \<Rightarrow> TabAttentionLevel option"
  unseenNotifications :: "(string \<times> nat) list"
  agentStatuses :: "string \<Rightarrow> AgentStatus option"
  runningAgents :: "string \<Rightarrow> string option"
  runningCommands :: "string \<Rightarrow> string option"
  passwordPrompts :: "string list"
  runningCommandTimers :: "string \<Rightarrow> (int \<times> string) option"
  total_watchers :: "TotalWatcher list"

definition no_marks :: AttentionMarks where
  "no_marks = \<lparr>marks = Map.empty, unseenNotifications = [], agentStatuses = Map.empty, runningAgents = Map.empty,
     runningCommands = Map.empty, passwordPrompts = [], runningCommandTimers = Map.empty, total_watchers = []\<rparr>"

definition unseenNotificationTotal :: "AttentionMarks \<Rightarrow> nat" where
  "unseenNotificationTotal s = sum_list (map snd (unseenNotifications s))"

definition on_change :: "nat \<Rightarrow> TotalWatcher \<Rightarrow> TotalWatcher" where
  "on_change tot w = (if tot = tw_last w then w else \<lparr>tw_last = tot, tw_heard = tw_heard w @ [tot]\<rparr>)"

definition emit :: "AttentionMarks \<Rightarrow> AttentionMarks" where
  "emit s = s\<lparr>total_watchers := map (on_change (unseenNotificationTotal s)) (total_watchers s)\<rparr>"

definition watchUnseenNotificationTotal :: "AttentionMarks \<Rightarrow> AttentionMarks" where
  "watchUnseenNotificationTotal s =
     (let last' = unseenNotificationTotal s
      in s\<lparr>total_watchers := total_watchers s @ [\<lparr>tw_last = last', tw_heard = [last']\<rparr>]\<rparr>)"

text \<open>The function it returns, for the listener at an index.\<close>

definition unwatch :: "nat \<Rightarrow> AttentionMarks \<Rightarrow> AttentionMarks" where
  "unwatch i s = s\<lparr>total_watchers := take i (total_watchers s) @ drop (Suc i) (total_watchers s)\<rparr>"

definition markTabAttention :: "string \<Rightarrow> TabAttentionLevel \<Rightarrow> AttentionMarks \<Rightarrow> AttentionMarks" where
  "markTabAttention tabId level s =
     (let current = marks s tabId; next' = strongerAttention current level
      in if Some next' = current then s else emit (s\<lparr>marks := (marks s)(tabId \<mapsto> next')\<rparr>))"

definition clearTabAttention :: "string \<Rightarrow> AttentionMarks \<Rightarrow> AttentionMarks" where
  "clearTabAttention tabId s =
     (if marks s tabId = None \<and> map_of (unseenNotifications s) tabId = None then s
      else emit (s\<lparr>marks := (marks s)(tabId := None),
             unseenNotifications := AList.delete tabId (unseenNotifications s)\<rparr>))"

definition countTabNotification :: "string \<Rightarrow> AttentionMarks \<Rightarrow> AttentionMarks" where
  "countTabNotification tabId s =
     emit (s\<lparr>unseenNotifications := AList.update tabId (or_default (map_of (unseenNotifications s) tabId) 0 + 1)
       (unseenNotifications s)\<rparr>)"

definition setTabAgentStatus :: "string \<Rightarrow> AgentStatus option \<Rightarrow> AttentionMarks \<Rightarrow> AttentionMarks" where
  "setTabAgentStatus tabId status s =
     (if status = None \<and> agentStatuses s tabId = None then s
      else emit (s\<lparr>agentStatuses := (agentStatuses s)(tabId := status)\<rparr>))"

definition setTabRunningAgent :: "string \<Rightarrow> string option \<Rightarrow> AttentionMarks \<Rightarrow> AttentionMarks" where
  "setTabRunningAgent tabId agent s =
     (if runningAgents s tabId = agent then s
      else emit (s\<lparr>runningAgents := (runningAgents s)(tabId := (if truthy agent then agent else None))\<rparr>))"

definition RUNNING_COMMAND_DELAY_MS :: int where "RUNNING_COMMAND_DELAY_MS = 1000"

definition setTabRunningCommand :: "string \<Rightarrow> string option \<Rightarrow> int \<Rightarrow> AttentionMarks \<Rightarrow> AttentionMarks" where
  "setTabRunningCommand tabId command now s =
     (let timer = (case command of Some c \<Rightarrow> if c \<noteq> [] then Some (now + RUNNING_COMMAND_DELAY_MS, c) else None | None \<Rightarrow> None);
          r = s\<lparr>runningCommandTimers := (runningCommandTimers s)(tabId := timer)\<rparr>
      in if runningCommands r tabId = None then r
         else emit (r\<lparr>runningCommands := (runningCommands r)(tabId := None)\<rparr>))"

text \<open>The callback of the timer, served once it is due.\<close>

definition command_elapsed :: "string \<Rightarrow> int \<Rightarrow> AttentionMarks \<Rightarrow> AttentionMarks" where
  "command_elapsed tabId now s =
     (case runningCommandTimers s tabId of
        Some (due, command) \<Rightarrow>
          if due \<le> now
          then emit (s\<lparr>runningCommandTimers := (runningCommandTimers s)(tabId := None),
                 runningCommands := (runningCommands s)(tabId \<mapsto> command)\<rparr>)
          else s
      | None \<Rightarrow> s)"

definition setTabPasswordPrompt :: "string \<Rightarrow> bool \<Rightarrow> AttentionMarks \<Rightarrow> AttentionMarks" where
  "setTabPasswordPrompt tabId waiting s =
     (if (tabId \<in> set (passwordPrompts s)) = waiting then s
      else emit (s\<lparr>passwordPrompts := (if waiting then set_add tabId (passwordPrompts s)
             else filter (\<lambda>t. t \<noteq> tabId) (passwordPrompts s))\<rparr>))"

definition useTabAttention :: "string list \<Rightarrow> AttentionMarks \<Rightarrow> TabAttentionLevel option" where
  "useTabAttention tabIds s =
     foldl (\<lambda>level tabId. case marks s tabId of Some mark \<Rightarrow> Some (strongerAttention level mark) | None \<Rightarrow> level)
       None tabIds"

fun first_of :: "(string \<Rightarrow> 'a option) \<Rightarrow> string list \<Rightarrow> 'a option" where
  "first_of f [] = None"
| "first_of f (tabId # tabIds) = or_else (f tabId) (first_of f tabIds)"

definition useTabAgentStatus :: "string list \<Rightarrow> AttentionMarks \<Rightarrow> AgentStatus option" where
  "useTabAgentStatus tabIds s = first_of (agentStatuses s) tabIds"

text \<open>An empty name counts as none.\<close>

definition useTabRunningAgent :: "string list \<Rightarrow> AttentionMarks \<Rightarrow> string option" where
  "useTabRunningAgent tabIds s =
     first_of (\<lambda>tabId. if truthy (runningAgents s tabId) then runningAgents s tabId else None) tabIds"

definition useTabPasswordPrompt :: "string list \<Rightarrow> AttentionMarks \<Rightarrow> bool" where
  "useTabPasswordPrompt tabIds s \<longleftrightarrow> list_ex (\<lambda>tabId. tabId \<in> set (passwordPrompts s)) tabIds"

section \<open>The reports of a terminal\<close>

datatype NotificationOscCode = Osc_9 | Osc_777 | Osc_99

text \<open>What a terminal keeps of them: its number among the trackers, all trackers, its unfinished chunks.\<close>

definition watch_osc ::
  "char \<Rightarrow> (string \<Rightarrow> string option) \<Rightarrow> nat \<Rightarrow> int \<Rightarrow> NotificationOscCode \<Rightarrow> string
     \<Rightarrow> Agents \<times> kitty_partials \<Rightarrow> TerminalAttentionEvent option \<times> Agents \<times> kitty_partials" where
  "watch_osc ellipsis decode i now osc data st =
     (case st of (agents, partials) \<Rightarrow>
        case (if osc = Osc_777 then parseAgentReport data else None) of
          Some r \<Rightarrow> (None, report i now r agents, partials)
        | None \<Rightarrow>
            if speaksForAgent now (trackers agents i) then (None, agents, partials)
            else (case osc of
                    Osc_9 \<Rightarrow> (map_option Ev_request (parseOsc9Notification ellipsis data), agents, partials)
                  | Osc_777 \<Rightarrow> (map_option Ev_request (parseOsc777Notification ellipsis data), agents, partials)
                  | Osc_99 \<Rightarrow> (case kitty_handle ellipsis decode data partials of
                                (r, partials') \<Rightarrow> (map_option Ev_request r, agents, partials'))))"

text \<open>The callbacks \<open>createCommandTracking\<close> gives its tracker: the marks they set, and the event one announces.\<close>

fun on_agent_event :: "string \<Rightarrow> AgentEvent \<Rightarrow> AttentionMarks \<Rightarrow> AttentionMarks" where
  "on_agent_event tabId (OnStatus status) s = setTabAgentStatus tabId status s"
| "on_agent_event tabId (OnAgent agent) s = setTabRunningAgent tabId agent s"
| "on_agent_event tabId (OnAnnounce a) s = s"

section \<open>The announcements\<close>

definition MIN_INTERVAL_MS :: int where "MIN_INTERVAL_MS = 2000"
definition BELL_MIN_INTERVAL_MS :: int where "BELL_MIN_INTERVAL_MS = 30000"
definition MAX_COMMAND_LENGTH :: nat where "MAX_COMMAND_LENGTH = 80"

record NotificationText =
  nt_title :: string
  nt_subtitle :: "string option"
  nt_body :: string

text \<open>Options of the translation function \<open>t\<close>, which is a parameter.\<close>

datatype OptionValue = Opt_text string | Opt_number int

type_synonym translate = "string \<Rightarrow> (string \<times> OptionValue) list \<Rightarrow> string"

definition agent_state_name :: "AnnouncedState \<Rightarrow> string" where
  "agent_state_name st = (case st of Ann_waiting \<Rightarrow> ''waiting'' | Ann_done \<Rightarrow> ''done'' | Ann_error \<Rightarrow> ''error'')"

definition short_command :: "char \<Rightarrow> string option \<Rightarrow> string option" where
  "short_command ellipsis command =
     (case command of
        Some c \<Rightarrow> if length c > MAX_COMMAND_LENGTH then Some (take (MAX_COMMAND_LENGTH - 1) c @ [ellipsis]) else Some c
      | None \<Rightarrow> None)"

definition describeEvent :: "char \<Rightarrow> translate \<Rightarrow> string \<Rightarrow> TerminalAttentionEvent \<Rightarrow> NotificationText" where
  "describeEvent ellipsis t tabTitle event =
     (case event of
        Ev_request r \<Rightarrow>
          if truthy (rq_title r) then \<lparr>nt_title = or_default (rq_title r) [], nt_subtitle = Some tabTitle, nt_body = rq_body r\<rparr>
          else \<lparr>nt_title = tabTitle, nt_subtitle = None, nt_body = rq_body r\<rparr>
      | Ev_bell \<Rightarrow> \<lparr>nt_title = tabTitle, nt_subtitle = None, nt_body = t ''notifications.bell'' []\<rparr>
      | Ev_agent a \<Rightarrow> \<lparr>nt_title = tabTitle, nt_subtitle = None,
          nt_body = t (''notifications.agent.'' @ agent_state_name (an_state a))
            [(''agent'', Opt_text (agentDisplayName (an_agent a)))]\<rparr>
      | Ev_command c \<Rightarrow>
          (let options = [(''command'', Opt_text (or_default (short_command ellipsis (fc_command c)) (t ''notifications.aCommand'' []))),
                          (''duration'', Opt_text (formatCommandDuration (fc_durationMs c)))];
               body = (case fc_exitCode c of
                         None \<Rightarrow> t ''notifications.commandFinished'' options
                       | Some exitCode \<Rightarrow>
                           if exitCode = 0 then t ''notifications.commandSucceeded'' options
                           else t ''notifications.commandFailed'' (options @ [(''code'', Opt_number exitCode)]))
           in \<lparr>nt_title = tabTitle, nt_subtitle = None, nt_body = body\<rparr>))"

definition destructive :: "TerminalAttentionEvent \<Rightarrow> bool" where
  "destructive event =
     (case event of
        Ev_command c \<Rightarrow> fc_exitCode c \<noteq> None \<and> fc_exitCode c \<noteq> Some 0
      | Ev_agent a \<Rightarrow> an_state a = Ann_error
      | _ \<Rightarrow> False)"

datatype NotifyEffect =
    ShowSystem string NotificationText
  | ShowToast nat string NotificationText bool
  | DismissToast nat

text \<open>The refs of the hook and the module's toasts; system notifications on their way.\<close>

record Notifier =
  windowFocusedRef :: bool
  lastAnnounced :: "string \<Rightarrow> int option"
  tabToastDismissers :: "string \<Rightarrow> nat option"
  nextToast :: nat
  on_their_way :: "string list"
  nf_marks :: AttentionMarks
  nf_effects :: "NotifyEffect list"

definition effect :: "NotifyEffect \<Rightarrow> Notifier \<Rightarrow> Notifier" where
  "effect e n = n\<lparr>nf_effects := nf_effects n @ [e]\<rparr>"

definition on_marks :: "(AttentionMarks \<Rightarrow> AttentionMarks) \<Rightarrow> Notifier \<Rightarrow> Notifier" where
  "on_marks f n = n\<lparr>nf_marks := f (nf_marks n)\<rparr>"

definition dismissTabToast :: "string \<Rightarrow> Notifier \<Rightarrow> Notifier" where
  "dismissTabToast tabId n =
     (case tabToastDismissers n tabId of
        None \<Rightarrow> n
      | Some toast \<Rightarrow> effect (DismissToast toast) (n\<lparr>tabToastDismissers := (tabToastDismissers n)(tabId := None)\<rparr>))"

text \<open>What the hook reads when it is called: the page, the tabs, the settings.\<close>

record NotifyEnv =
  ne_documentHidden :: bool
  ne_visibleTabIds :: "string list"
  ne_activeTabId :: "string option"
  ne_tabTitles :: "(string \<times> string) list"
  ne_config :: NotificationSettings
  ne_now :: int

definition announce_key :: "string \<Rightarrow> TerminalAttentionEvent \<Rightarrow> string" where
  "announce_key tabId event = tabId @ '':'' @ (if event = Ev_bell then ''bell'' else ''event'')"

definition min_interval :: "TerminalAttentionEvent \<Rightarrow> int" where
  "min_interval event = (if event = Ev_bell then BELL_MIN_INTERVAL_MS else MIN_INTERVAL_MS)"

definition notify ::
  "char \<Rightarrow> translate \<Rightarrow> NotifyEnv \<Rightarrow> string \<Rightarrow> TerminalAttentionEvent \<Rightarrow> Notifier \<Rightarrow> Notifier" where
  "notify ellipsis t env tabId event n =
     (let windowFocused = (windowFocusedRef n \<and> \<not> ne_documentHidden env);
          tabVisible = (tabId \<in> set (ne_visibleTabIds env));
          tabFocused = (tabVisible \<and> ne_activeTabId env = Some tabId);
          decision = decideAttention event (ne_config env) windowFocused tabVisible tabFocused;
          n = (case ad_mark decision of Some level \<Rightarrow> on_marks (markTabAttention tabId level) n | None \<Rightarrow> n)
      in if \<not> ad_system decision \<and> \<not> ad_toast decision then n
         else
           let key = announce_key tabId event
           in if ne_now env - or_default (lastAnnounced n key) 0 < min_interval event then n
              else
                let n = n\<lparr>lastAnnounced := (lastAnnounced n)(key \<mapsto> ne_now env)\<rparr>;
                    text' = describeEvent ellipsis t (or_default (map_of (ne_tabTitles env) tabId) ''tTerm'') event
                in if ad_system decision
                   then effect (ShowSystem tabId text') (n\<lparr>on_their_way := on_their_way n @ [tabId]\<rparr>)
                   else
                     let n = dismissTabToast tabId n; toast = nextToast n
                     in effect (ShowToast toast tabId text' (destructive event))
                          (n\<lparr>nextToast := toast + 1, tabToastDismissers := (tabToastDismissers n)(tabId \<mapsto> toast)\<rparr>))"

text \<open>The handler of \<open>onFocusChanged\<close>, of a shown or failed system notification, and of a closing toast.\<close>

definition focus_changed :: "bool \<Rightarrow> string list \<Rightarrow> Notifier \<Rightarrow> Notifier" where
  "focus_changed focused visible n =
     (let n = n\<lparr>windowFocusedRef := focused\<rparr>
      in if focused then on_marks (fold clearTabAttention visible) n else n)"

definition system_shown :: "bool \<Rightarrow> string \<Rightarrow> string list \<Rightarrow> Notifier \<Rightarrow> Notifier" where
  "system_shown ok tabId visible n =
     (if tabId \<notin> set (on_their_way n) then n
      else
        let n = n\<lparr>on_their_way := remove1 tabId (on_their_way n)\<rparr>;
            seen = (windowFocusedRef n \<and> tabId \<in> set visible)
        in if ok \<and> \<not> seen then on_marks (countTabNotification tabId) n else n)"

definition toast_closed :: "string \<Rightarrow> nat \<Rightarrow> Notifier \<Rightarrow> Notifier" where
  "toast_closed tabId toast n =
     (if tabToastDismissers n tabId = Some toast
      then n\<lparr>tabToastDismissers := (tabToastDismissers n)(tabId := None)\<rparr> else n)"

section \<open>Runs\<close>

text \<open>What happens to the hook and its marks: a tab looked at, a mark set by a terminal, a timer served.\<close>

datatype AttentionCall =
    Notify NotifyEnv string TerminalAttentionEvent
  | Focus_changed bool "string list"
  | System_shown bool string "string list"
  | Toast_closed string nat
  | Look_at string
  | Watch_total
  | Unwatch nat
  | Agent_event string AgentEvent
  | Running_command string "string option" int
  | Command_elapsed string int
  | Password_prompt string bool

fun attention_step :: "char \<times> translate \<Rightarrow> Notifier \<Rightarrow> AttentionCall \<Rightarrow> Notifier" where
  "attention_step (ellipsis, t) n (Notify env tabId event) = notify ellipsis t env tabId event n"
| "attention_step _ n (Focus_changed focused visible) = focus_changed focused visible n"
| "attention_step _ n (System_shown ok tabId visible) = system_shown ok tabId visible n"
| "attention_step _ n (Toast_closed tabId toast) = toast_closed tabId toast n"
| "attention_step _ n (Look_at tabId) = dismissTabToast tabId (on_marks (clearTabAttention tabId) n)"
| "attention_step _ n Watch_total = on_marks watchUnseenNotificationTotal n"
| "attention_step _ n (Unwatch i) = on_marks (unwatch i) n"
| "attention_step _ n (Agent_event tabId event) = on_marks (on_agent_event tabId event) n"
| "attention_step _ n (Running_command tabId command now) = on_marks (setTabRunningCommand tabId command now) n"
| "attention_step _ n (Command_elapsed tabId now) = on_marks (command_elapsed tabId now) n"
| "attention_step _ n (Password_prompt tabId waiting) = on_marks (setTabPasswordPrompt tabId waiting) n"

definition new_notifier :: "bool \<Rightarrow> Notifier" where
  "new_notifier focused = \<lparr>windowFocusedRef = focused, lastAnnounced = Map.empty, tabToastDismissers = Map.empty,
     nextToast = 0, on_their_way = [], nf_marks = no_marks, nf_effects = []\<rparr>"

section \<open>The badge\<close>

text \<open>Every listener heard the total last, and never the same total twice in a row.\<close>

definition no_repeats :: "'a list \<Rightarrow> bool" where
  "no_repeats xs \<longleftrightarrow> list_all (\<lambda>(a, b). a \<noteq> b) (zip xs (tl xs))"

definition watcher_ok :: "nat \<Rightarrow> TotalWatcher \<Rightarrow> bool" where
  "watcher_ok tot w \<longleftrightarrow> tw_heard w \<noteq> [] \<and> last (tw_heard w) = tot \<and> tw_last w = tot \<and> no_repeats (tw_heard w)"

definition badge_ok :: "AttentionMarks \<Rightarrow> bool" where
  "badge_ok s \<longleftrightarrow> list_all (watcher_ok (unseenNotificationTotal s)) (total_watchers s)"

lemma no_repeats_snoc: "xs \<noteq> [] \<Longrightarrow> no_repeats (xs @ [y]) \<longleftrightarrow> no_repeats xs \<and> last xs \<noteq> y"
  by (cases xs) (simp_all add: no_repeats_def zip_snoc_neighbours)

text \<open>After \<open>emit\<close> the listeners are right whatever the total was before.\<close>

definition watchers_ok :: "AttentionMarks \<Rightarrow> bool" where
  "watchers_ok s \<longleftrightarrow> (\<exists>tot. list_all (watcher_ok tot) (total_watchers s))"

lemma badge_ok_watchers: "badge_ok s \<Longrightarrow> watchers_ok s"
  by (auto simp: badge_ok_def watchers_ok_def)

lemma emit_ok: "watchers_ok s \<Longrightarrow> badge_ok (emit s)"
  by (auto simp: badge_ok_def watchers_ok_def emit_def unseenNotificationTotal_def list_all_iff on_change_def
      watcher_ok_def no_repeats_snoc)

lemma emit_ok_upd [intro]:
  assumes "badge_ok s" and "total_watchers r = total_watchers s"
  shows "badge_ok (emit r)"
  using emit_ok [of r] badge_ok_watchers [OF assms(1)] assms(2) by (simp add: watchers_ok_def)

lemma badge_ok_same:
  "badge_ok s \<Longrightarrow> total_watchers r = total_watchers s \<Longrightarrow> unseenNotifications r = unseenNotifications s \<Longrightarrow> badge_ok r"
  by (simp add: badge_ok_def unseenNotificationTotal_def)

lemma badge_ok_marks:
  assumes "badge_ok s"
  shows "badge_ok (markTabAttention tabId level s)" and "badge_ok (clearTabAttention tabId s)"
    and "badge_ok (countTabNotification tabId s)" and "badge_ok (setTabPasswordPrompt tabId waiting s)"
    and "badge_ok (command_elapsed tabId now s)"
  using assms
  by (auto simp: markTabAttention_def clearTabAttention_def countTabNotification_def setTabPasswordPrompt_def
      command_elapsed_def Let_def split: option.split)

lemma badge_ok_agent: "badge_ok s \<Longrightarrow> badge_ok (on_agent_event tabId event s)"
  by (cases event) (auto simp: setTabAgentStatus_def setTabRunningAgent_def)

lemma badge_ok_command:
  assumes "badge_ok s"
  shows "badge_ok (setTabRunningCommand tabId command now s)"
proof -
  have "badge_ok (s\<lparr>runningCommandTimers := x\<rparr>)" for x
    by (rule badge_ok_same [OF assms]) simp_all
  then show ?thesis using assms by (auto simp: setTabRunningCommand_def Let_def)
qed

lemma badge_ok_watch: "badge_ok s \<Longrightarrow> badge_ok (watchUnseenNotificationTotal s)"
  by (simp add: badge_ok_def watchUnseenNotificationTotal_def watcher_ok_def unseenNotificationTotal_def Let_def
      no_repeats_def)

lemma badge_ok_unwatch: "badge_ok s \<Longrightarrow> badge_ok (unwatch i s)"
  by (auto simp: badge_ok_def unwatch_def unseenNotificationTotal_def list_all_iff dest: in_set_takeD in_set_dropD)

lemma badge_ok_clear_all: "badge_ok s \<Longrightarrow> badge_ok (fold clearTabAttention tabIds s)"
  by (induction tabIds arbitrary: s) (simp_all add: badge_ok_marks)

lemma marks_of_effect [simp]:
  "nf_marks (effect e n) = nf_marks n" "nf_marks (dismissTabToast tabId n) = nf_marks n"
  "nf_marks (on_marks f n) = f (nf_marks n)"
  by (simp_all add: effect_def dismissTabToast_def on_marks_def split: option.split)

lemma marks_of_notify:
  "nf_marks (notify ellipsis t env tabId event n) = nf_marks n
    \<or> (\<exists>level. nf_marks (notify ellipsis t env tabId event n) = markTabAttention tabId level (nf_marks n)
         \<and> tabId \<notin> set (ne_visibleTabIds env))"
proof -
  have "ad_mark (decideAttention event c wf (tabId \<in> set (ne_visibleTabIds env)) tf) = None"
    if "tabId \<in> set (ne_visibleTabIds env)" for c wf tf
    using that by (auto simp: decideAttention_def ad_nothing_def Let_def split: TerminalAttentionEvent.split)
  then show ?thesis
    by (cases "tabId \<in> set (ne_visibleTabIds env)")
      (auto simp: notify_def Let_def split: option.split)
qed

lemma badge_ok_step: "badge_ok (nf_marks n) \<Longrightarrow> badge_ok (nf_marks (attention_step env n call))"
proof (cases "(env, n, call)" rule: attention_step.cases)
  case (1 ellipsis t n' env' tabId event)
  assume "badge_ok (nf_marks n)"
  with 1 marks_of_notify [of ellipsis t env' tabId event n] show ?thesis by (auto simp: badge_ok_marks)
qed (auto simp: badge_ok_marks badge_ok_agent badge_ok_command badge_ok_watch badge_ok_unwatch badge_ok_clear_all
    focus_changed_def system_shown_def toast_closed_def Let_def on_marks_def [of "fold _ _"]
    on_marks_def [of "countTabNotification _"])

interpretation attention: total_machine "attention_step env" "new_notifier focused" "\<lambda>n. badge_ok (nf_marks n)"
  by unfold_locales (simp_all add: badge_ok_step, simp add: new_notifier_def no_marks_def badge_ok_def)

section \<open>What is announced\<close>

definition is_show :: "NotifyEffect \<Rightarrow> bool" where
  "is_show e = (case e of DismissToast _ \<Rightarrow> False | _ \<Rightarrow> True)"

text \<open>The announcements of a run: when, for which tab, and whether for a bell.\<close>

definition announced :: "char \<times> translate \<Rightarrow> Notifier \<Rightarrow> AttentionCall \<Rightarrow> (int \<times> string \<times> bool) list" where
  "announced env n call =
     (case call of
        Notify e tabId event \<Rightarrow>
          if length (filter is_show (nf_effects (attention_step env n call))) > length (filter is_show (nf_effects n))
          then [(ne_now e, tabId, event = Ev_bell)] else []
      | _ \<Rightarrow> [])"

fun announcements :: "char \<times> translate \<Rightarrow> Notifier \<Rightarrow> AttentionCall list \<Rightarrow> (int \<times> string \<times> bool) list" where
  "announcements env n [] = []"
| "announcements env n (call # calls) = announced env n call @ announcements env (attention_step env n call) calls"

definition key_of :: "string \<Rightarrow> bool \<Rightarrow> string" where
  "key_of tabId bell = tabId @ '':'' @ (if bell then ''bell'' else ''event'')"

definition interval_of :: "bool \<Rightarrow> int" where
  "interval_of bell = (if bell then BELL_MIN_INTERVAL_MS else MIN_INTERVAL_MS)"

text \<open>Not too soon after the one before of its tab and kind.\<close>

fun spaced :: "int \<times> string \<times> bool \<Rightarrow> int \<times> string \<times> bool \<Rightarrow> bool" where
  "spaced (t1, tab1, bell1) (t2, tab2, bell2) \<longleftrightarrow> (tab1 = tab2 \<and> bell1 = bell2 \<longrightarrow> t2 - t1 \<ge> interval_of bell1)"

lemma effects_simps [simp]:
  "nf_effects (effect e n) = nf_effects n @ [e]" "nf_effects (on_marks f n) = nf_effects n"
  "lastAnnounced (effect e n) = lastAnnounced n" "lastAnnounced (on_marks f n) = lastAnnounced n"
  "lastAnnounced (dismissTabToast tabId n) = lastAnnounced n"
  "windowFocusedRef (on_marks f n) = windowFocusedRef n"
  by (simp_all add: effect_def on_marks_def dismissTabToast_def split: option.split)

lemma shows_dismiss [simp]: "filter is_show (nf_effects (dismissTabToast tabId n)) = filter is_show (nf_effects n)"
  by (simp add: dismissTabToast_def is_show_def split: option.split)

text \<open>The four ways of \<open>notify\<close>.\<close>

lemma notify_cases:
  fixes ellipsis :: char and t :: translate
  defines "text' \<equiv> (\<lambda>env tabId event. describeEvent ellipsis t (or_default (map_of (ne_tabTitles env) tabId) ''tTerm'') event)"
  obtains
    (silent) "nf_effects (notify ellipsis t env tabId event n) = nf_effects n"
      "lastAnnounced (notify ellipsis t env tabId event n) = lastAnnounced n"
  | (system) "nf_effects (notify ellipsis t env tabId event n) = nf_effects n @ [ShowSystem tabId (text' env tabId event)]"
      "lastAnnounced (notify ellipsis t env tabId event n) = (lastAnnounced n)(key_of tabId (event = Ev_bell) \<mapsto> ne_now env)"
      "ne_now env - or_default (lastAnnounced n (key_of tabId (event = Ev_bell))) 0 \<ge> interval_of (event = Ev_bell)"
      "\<not> (windowFocusedRef n \<and> \<not> ne_documentHidden env)" "notifications_enabled (ne_config env)"
  | (toast) "\<exists>k. nf_effects (notify ellipsis t env tabId event n)
        = nf_effects (dismissTabToast tabId n) @ [ShowToast k tabId (text' env tabId event) (destructive event)]"
      "lastAnnounced (notify ellipsis t env tabId event n) = (lastAnnounced n)(key_of tabId (event = Ev_bell) \<mapsto> ne_now env)"
      "ne_now env - or_default (lastAnnounced n (key_of tabId (event = Ev_bell))) 0 \<ge> interval_of (event = Ev_bell)"
      "windowFocusedRef n \<and> \<not> ne_documentHidden env" "ne_activeTabId env \<noteq> Some tabId \<or> tabId \<notin> set (ne_visibleTabIds env)"
      "notifications_enabled (ne_config env)" "event \<noteq> Ev_bell"
proof -
  let ?wf = "windowFocusedRef n \<and> \<not> ne_documentHidden env"
  let ?tf = "tabId \<in> set (ne_visibleTabIds env) \<and> ne_activeTabId env = Some tabId"
  let ?d = "decideAttention event (ne_config env) ?wf (tabId \<in> set (ne_visibleTabIds env)) ?tf"
  have sys: "ad_system ?d \<Longrightarrow> \<not> ?wf \<and> notifications_enabled (ne_config env)"
    by (auto simp: decideAttention_def ad_nothing_def Let_def split: if_splits TerminalAttentionEvent.splits)
  have toast': "ad_toast ?d \<Longrightarrow> ?wf \<and> \<not> ?tf \<and> notifications_enabled (ne_config env) \<and> event \<noteq> Ev_bell"
    by (auto simp: decideAttention_def ad_nothing_def Let_def split: if_splits TerminalAttentionEvent.splits)
  have dismissed: "nf_effects (dismissTabToast tabId (m\<lparr>lastAnnounced := l\<rparr>)) = nf_effects (dismissTabToast tabId n)"
    if "nf_effects m = nf_effects n" "tabToastDismissers m = tabToastDismissers n" for m l
    using that by (simp add: dismissTabToast_def effect_def split: option.split)
  define m where "m = (case ad_mark ?d of Some level \<Rightarrow> on_marks (markTabAttention tabId level) n | None \<Rightarrow> n)"
  have m: "nf_effects m = nf_effects n" "tabToastDismissers m = tabToastDismissers n" "lastAnnounced m = lastAnnounced n"
    by (auto simp: m_def on_marks_def split: option.split)
  let ?quiet = "\<not> ad_system ?d \<and> \<not> ad_toast ?d
    \<or> ne_now env - or_default (lastAnnounced n (key_of tabId (event = Ev_bell))) 0 < interval_of (event = Ev_bell)"
  have key: "announce_key tabId event = key_of tabId (event = Ev_bell)" "min_interval event = interval_of (event = Ev_bell)"
    by (simp_all add: announce_key_def key_of_def min_interval_def interval_of_def)
  consider (1) ?quiet | (2) "\<not> ?quiet" "ad_system ?d" | (3) "\<not> ?quiet" "\<not> ad_system ?d" "ad_toast ?d" by blast
  then show thesis
  proof cases
    case 1
    then have "notify ellipsis t env tabId event n = m"
      by (auto simp: notify_def Let_def key m_def [symmetric] m)
    with m show thesis by (intro silent) simp_all
  next
    case 2
    then have "notify ellipsis t env tabId event n = effect (ShowSystem tabId (text' env tabId event))
        (m\<lparr>lastAnnounced := (lastAnnounced m)(key_of tabId (event = Ev_bell) \<mapsto> ne_now env), on_their_way := on_their_way m @ [tabId]\<rparr>)"
      by (auto simp: notify_def Let_def key m_def [symmetric] m text'_def)
    with m 2 sys show thesis by (intro system) simp_all
  next
    case 3
    let ?m = "dismissTabToast tabId (m\<lparr>lastAnnounced := (lastAnnounced m)(key_of tabId (event = Ev_bell) \<mapsto> ne_now env)\<rparr>)"
    from 3 have "notify ellipsis t env tabId event n =
        effect (ShowToast (nextToast ?m) tabId (text' env tabId event) (destructive event))
        (?m\<lparr>nextToast := nextToast ?m + 1, tabToastDismissers := (tabToastDismissers ?m)(tabId \<mapsto> nextToast ?m)\<rparr>)"
      by (auto simp: notify_def Let_def key m_def [symmetric] m text'_def)
    with m 3 toast' dismissed [OF m(1,2)] show thesis by (intro toast) auto
  qed
qed

lemma interval_positive: "0 \<le> interval_of bell"
  by (simp add: interval_of_def BELL_MIN_INTERVAL_MS_def MIN_INTERVAL_MS_def)

lemma last_announced_other:
  assumes "\<And>e tabId event. call \<noteq> Notify e tabId event"
  shows "lastAnnounced (attention_step env n call) = lastAnnounced n"
  using assms
  by (cases "(env, n, call)" rule: attention_step.cases)
    (auto simp: focus_changed_def system_shown_def toast_closed_def Let_def)

lemma announced_step:
  "announced env n call = [] \<and> lastAnnounced (attention_step env n call) = lastAnnounced n
    \<or> (\<exists>now tabId bell. announced env n call = [(now, tabId, bell)]
        \<and> lastAnnounced (attention_step env n call) = (lastAnnounced n)(key_of tabId bell \<mapsto> now)
        \<and> now - or_default (lastAnnounced n (key_of tabId bell)) 0 \<ge> interval_of bell)"
proof (cases call)
  case (Notify e tabId event)
  obtain ellipsis t where env: "env = (ellipsis, t)" by fastforce
  show ?thesis
    by (rule notify_cases [of ellipsis t e tabId event n])
      (auto simp: Notify env announced_def is_show_def)
qed (simp_all add: announced_def last_announced_other del: attention_step.simps)

lemma announcements_spaced_from:
  "sorted_wrt spaced (announcements env n calls)
    \<and> (\<forall>(now, tabId, bell)\<in>set (announcements env n calls).
        \<forall>before. lastAnnounced n (key_of tabId bell) = Some before \<longrightarrow> now - before \<ge> interval_of bell)"
proof (induction calls arbitrary: n)
  case (Cons call calls)
  let ?n = "attention_step env n call"
  note IH = Cons.IH [of ?n]
  from announced_step [of env n call] show ?case
  proof
    assume "announced env n call = [] \<and> lastAnnounced ?n = lastAnnounced n"
    with IH show ?thesis by simp
  next
    assume "\<exists>now tabId bell. announced env n call = [(now, tabId, bell)]
        \<and> lastAnnounced ?n = (lastAnnounced n)(key_of tabId bell \<mapsto> now)
        \<and> now - or_default (lastAnnounced n (key_of tabId bell)) 0 \<ge> interval_of bell"
    then obtain now tabId bell where head: "announced env n call = [(now, tabId, bell)]"
      and last': "lastAnnounced ?n = (lastAnnounced n)(key_of tabId bell \<mapsto> now)"
      and wait: "now - or_default (lastAnnounced n (key_of tabId bell)) 0 \<ge> interval_of bell" by blast
    have "spaced (now, tabId, bell) a" if "a \<in> set (announcements env ?n calls)" for a
      using that IH last' by (cases a) auto
    moreover have "now' - before \<ge> interval_of bell'"
      if "(now', tab', bell') \<in> set (announcements env ?n calls)" "lastAnnounced n (key_of tab' bell') = Some before"
      for now' tab' bell' before
    proof (cases "key_of tab' bell' = key_of tabId bell")
      case True
      with that IH last' have "now' - now \<ge> interval_of bell'" by force
      with True that wait interval_positive [of bell] show ?thesis by simp
    next
      case False
      with that IH last' show ?thesis by force
    qed
    ultimately show ?thesis using head wait IH by auto
  qed
qed simp

section \<open>Toasts\<close>

text \<open>A toast shown is the one its tab knows, or it was taken down, or it closed.\<close>

definition toasts_ok :: "(string \<times> nat) set \<Rightarrow> Notifier \<Rightarrow> bool" where
  "toasts_ok gone n \<longleftrightarrow> (\<forall>k tabId text' d. ShowToast k tabId text' d \<in> set (nf_effects n) \<longrightarrow>
     tabToastDismissers n tabId = Some k \<or> DismissToast k \<in> set (nf_effects n) \<or> (tabId, k) \<in> gone)"

lemma toasts_okI:
  "(\<And>k tabId text' d. ShowToast k tabId text' d \<in> set (nf_effects n) \<Longrightarrow>
     tabToastDismissers n tabId = Some k \<or> DismissToast k \<in> set (nf_effects n) \<or> (tabId, k) \<in> gone)
    \<Longrightarrow> toasts_ok gone n"
  unfolding toasts_ok_def by blast

lemma toasts_okD:
  "ShowToast k tabId text' d \<in> set (nf_effects n) \<Longrightarrow> toasts_ok gone n \<Longrightarrow>
     tabToastDismissers n tabId = Some k \<or> DismissToast k \<in> set (nf_effects n) \<or> (tabId, k) \<in> gone"
  unfolding toasts_ok_def by blast

lemma toasts_ok_same:
  "toasts_ok gone n \<Longrightarrow> nf_effects m = nf_effects n \<Longrightarrow> tabToastDismissers m = tabToastDismissers n \<Longrightarrow> toasts_ok gone m"
  by (rule toasts_okI) (auto dest: toasts_okD)

lemma toasts_ok_dismiss: "toasts_ok gone n \<Longrightarrow> toasts_ok gone (dismissTabToast tabId n)"
  by (rule toasts_okI) (auto simp: dismissTabToast_def effect_def dest: toasts_okD split: option.splits if_splits)

lemma dismissed_none: "tabToastDismissers (dismissTabToast tabId n) tabId = None"
  by (simp add: dismissTabToast_def effect_def split: option.split)

definition closed_toasts :: "AttentionCall list \<Rightarrow> (string \<times> nat) set" where
  "closed_toasts calls = {(tabId, k). Toast_closed tabId k \<in> set calls}"

lemma toasts_ok_notify:
  assumes "toasts_ok gone n"
  shows "toasts_ok gone (notify ellipsis t env tabId event n)"
proof -
  have marked: "toasts_ok gone (case level of Some l \<Rightarrow> on_marks (markTabAttention tabId l) n | None \<Rightarrow> n)" for level
    by (rule toasts_ok_same [OF assms]) (simp_all add: on_marks_def split: option.split)
  have upd: "toasts_ok gone (m\<lparr>lastAnnounced := l\<rparr>)" if "toasts_ok gone m" for m l
    by (rule toasts_ok_same [OF that]) simp_all
  have sys: "toasts_ok gone (effect (ShowSystem tabId x) (m\<lparr>on_their_way := w\<rparr>))" if "toasts_ok gone m" for m w x
    by (rule toasts_okI) (use that in \<open>auto simp: effect_def dest: toasts_okD\<close>)
  have show': "toasts_ok gone (effect (ShowToast k tabId x d) (m\<lparr>nextToast := j, tabToastDismissers := (tabToastDismissers m)(tabId \<mapsto> k)\<rparr>))"
    if "toasts_ok gone m" "tabToastDismissers m tabId = None" for m k x d j
    by (rule toasts_okI) (use that in \<open>auto simp: effect_def dest: toasts_okD\<close>)
  show ?thesis
    unfolding notify_def Let_def
    by (auto intro!: marked sys upd show' toasts_ok_dismiss dismissed_none)
qed

lemma toasts_ok_step:
  assumes "toasts_ok gone n"
  shows "toasts_ok (gone \<union> closed_toasts [call]) (attention_step env n call)"
proof -
  have more: "toasts_ok (gone \<union> c) m" if "toasts_ok gone m" for m c
    by (rule toasts_okI) (use that in \<open>auto dest: toasts_okD\<close>)
  have marks': "toasts_ok gone (on_marks f m)" if "toasts_ok gone m" for f m
    by (rule toasts_ok_same [OF that]) (simp_all add: on_marks_def)
  show ?thesis
  proof (cases "(env, n, call)" rule: attention_step.cases)
    case (4 _ n' tabId toast)
    show ?thesis
      by (rule toasts_okI)
        (use 4 assms in \<open>auto simp: toast_closed_def closed_toasts_def dest: toasts_okD split: if_splits\<close>)
  next
    case (2 _ n' focused visible)
    have "toasts_ok gone (n\<lparr>windowFocusedRef := focused\<rparr>)" by (rule toasts_ok_same [OF assms]) simp_all
    with 2 show ?thesis by (auto simp: focus_changed_def Let_def intro!: more marks')
  next
    case (3 _ n' ok tabId visible)
    have "toasts_ok gone (n\<lparr>on_their_way := w\<rparr>)" for w by (rule toasts_ok_same [OF assms]) simp_all
    with 3 assms show ?thesis by (auto simp: system_shown_def Let_def intro!: more marks')
  qed (use assms in \<open>auto intro!: more marks' toasts_ok_notify toasts_ok_dismiss\<close>)
qed

lemma toasts_ok_run:
  "toasts_ok gone n \<Longrightarrow> toasts_ok (gone \<union> closed_toasts calls) (run (attention_step env) n calls)"
proof (induction calls arbitrary: n gone)
  case (Cons call calls)
  have "closed_toasts (call # calls) = closed_toasts [call] \<union> closed_toasts calls"
    by (auto simp: closed_toasts_def)
  then show ?case using Cons.IH [OF toasts_ok_step [OF Cons.prems]] by (simp add: Un_assoc)
qed (simp add: closed_toasts_def toasts_ok_def)

section \<open>Properties\<close>

text \<open>
  At every moment each listener of the app icon's badge heard last the number of notifications no one
  has looked at, and it never hears the same number twice in a row.\<close>

lemma badge_counts_unseen:
  "let s = nf_marks (run (attention_step env) (new_notifier focused) calls)
   in list_all (\<lambda>w. last (tw_heard w) = unseenNotificationTotal s \<and> no_repeats (tw_heard w)) (total_watchers s)"
  using attention.inv_any_run [where as = calls and env = env and focused = focused]
  by (auto simp: badge_ok_def watcher_ok_def list_all_iff Let_def)

text \<open>
  Two announcements of a tab are at least two seconds apart, two of its bell at least thirty,
  whatever the clock and the order of events.\<close>

lemma announcements_are_spaced:
  "sorted_wrt spaced (announcements env (new_notifier focused) calls)"
  using announcements_spaced_from by blast

text \<open>C21: A user who works in a tab is left alone: nothing changes and nothing is shown. A system notification
  is only shown while the window is not in front, a toast only while it is and the tab has no focus, never for
  a bell, and neither when notifications are off; a tab in sight gets no mark. Of all the toasts of a tab every
  one but the last was taken down or closed.\<close>

theorem user_at_work_is_left_alone:
  fixes env :: NotifyEnv and tabId :: string and event :: TerminalAttentionEvent and ellipsis :: char and t :: translate
  defines "front \<equiv> (\<lambda>n. windowFocusedRef n \<and> \<not> ne_documentHidden env)"
  defines "focused \<equiv> tabId \<in> set (ne_visibleTabIds env) \<and> ne_activeTabId env = Some tabId"
  defines "m \<equiv> (\<lambda>n. notify ellipsis t env tabId event n)"
  shows "(front n \<and> focused \<longrightarrow> m n = n)
    \<and> (tabId \<in> set (ne_visibleTabIds env) \<longrightarrow> nf_marks (m n) = nf_marks n)
    \<and> (\<exists>new. nf_effects (m n) = nf_effects n @ new
        \<and> (\<forall>tab text'. ShowSystem tab text' \<in> set new \<longrightarrow> tab = tabId \<and> \<not> front n \<and> notifications_enabled (ne_config env))
        \<and> (\<forall>k tab text' d. ShowToast k tab text' d \<in> set new \<longrightarrow>
              tab = tabId \<and> front n \<and> \<not> focused \<and> event \<noteq> Ev_bell \<and> notifications_enabled (ne_config env)))
    \<and> toasts_ok (closed_toasts calls) (run (attention_step (ellipsis, t)) (new_notifier start) calls)"
proof (intro conjI)
  show "front n \<and> focused \<longrightarrow> m n = n"
    by (auto simp: m_def front_def focused_def notify_def decideAttention_def ad_nothing_def)
  show "tabId \<in> set (ne_visibleTabIds env) \<longrightarrow> nf_marks (m n) = nf_marks n"
    using marks_of_notify [of ellipsis t env tabId event n] by (auto simp: m_def)
  have "nf_effects (dismissTabToast tabId n) = nf_effects n \<or> (\<exists>k. nf_effects (dismissTabToast tabId n) = nf_effects n @ [DismissToast k])"
    by (auto simp: dismissTabToast_def effect_def split: option.split)
  note dismissed = this
  show "\<exists>new. nf_effects (m n) = nf_effects n @ new
      \<and> (\<forall>tab text'. ShowSystem tab text' \<in> set new \<longrightarrow> tab = tabId \<and> \<not> front n \<and> notifications_enabled (ne_config env))
      \<and> (\<forall>k tab text' d. ShowToast k tab text' d \<in> set new \<longrightarrow>
            tab = tabId \<and> front n \<and> \<not> focused \<and> event \<noteq> Ev_bell \<and> notifications_enabled (ne_config env))"
    unfolding m_def front_def focused_def
    by (rule notify_cases [of ellipsis t env tabId event n]) (use dismissed in auto)
  show "toasts_ok (closed_toasts calls) (run (attention_step (ellipsis, t)) (new_notifier start) calls)"
    using toasts_ok_run [of "{}" "new_notifier start" calls] by (simp add: toasts_ok_def new_notifier_def)
qed

theorem user_at_work_is_left_alone_witness:
  "let env = \<lparr>ne_documentHidden = False, ne_visibleTabIds = [''a''], ne_activeTabId = Some ''a'', ne_tabTitles = [],
         ne_config = \<lparr>notifications_enabled = True, notify_command_finished = True, notify_command_min_secs = 10,
           notify_terminal_requests = True, notify_agent_waiting = True, notify_agent_done = True, bell_notify = True\<rparr>,
         ne_now = 5000\<rparr>
   in notify CHR ''~'' (\<lambda>key options. key) env ''a'' Ev_bell (new_notifier True) = new_notifier True"
proof -
  let ?env = "\<lparr>ne_documentHidden = False, ne_visibleTabIds = [''a''], ne_activeTabId = Some ''a'', ne_tabTitles = [],
      ne_config = \<lparr>notifications_enabled = True, notify_command_finished = True, notify_command_min_secs = 10,
        notify_terminal_requests = True, notify_agent_waiting = True, notify_agent_done = True, bell_notify = True\<rparr>,
      ne_now = 5000\<rparr>"
  note conjunct1 [OF user_at_work_is_left_alone [of "new_notifier True" ?env "''a''" "CHR ''~''" "\<lambda>key options. key" Ev_bell "[]" True]]
  then show ?thesis by (simp add: new_notifier_def)
qed

end
