(* ===== verification/Command_Capture.thy ===== *)
theory Command_Capture
  imports Machines Js_String
begin

text \<open>
  The command lines read back from what is typed and from what a shell reports
  (\<open>src/src/lib/terminalCommandCapture.ts\<close>). The loop over the index into \<open>data\<close> is a
  recursion on what is left of it, which every round shortens.
\<close>

section \<open>The line\<close>

record TerminalCommandCaptureState =
  cs_text :: string
  cs_cursor :: nat
  cs_bracketedPaste :: bool
  cs_valid :: bool

definition EMPTY_COMMAND_CAPTURE_STATE :: TerminalCommandCaptureState where
  "EMPTY_COMMAND_CAPTURE_STATE = \<lparr>cs_text = [], cs_cursor = 0, cs_bracketedPaste = False, cs_valid = True\<rparr>"

abbreviation ESC :: char where "ESC \<equiv> CHR 0x1B"

text \<open>\<open>PLAIN_TEXT\<close> and \<open>BRACKETED_PLAIN_TEXT\<close>, as the characters whose runs they match.\<close>

definition PLAIN_TEXT :: "char \<Rightarrow> bool" where
  "PLAIN_TEXT c \<longleftrightarrow> 32 \<le> code c \<and> code c \<noteq> 127"

definition BRACKETED_PLAIN_TEXT :: "char \<Rightarrow> bool" where
  "BRACKETED_PLAIN_TEXT c \<longleftrightarrow> PLAIN_TEXT c \<or> c = CHR 0x0A \<or> c = CHR 0x0D"

definition insertAtCursor :: "TerminalCommandCaptureState \<Rightarrow> string \<Rightarrow> TerminalCommandCaptureState" where
  "insertAtCursor state value =
     state\<lparr>cs_text := take (cs_cursor state) (cs_text state) @ value @ drop (cs_cursor state) (cs_text state),
       cs_cursor := cs_cursor state + length value\<rparr>"

definition SEQUENCES :: "string list" where
  "SEQUENCES = [ESC # ''[1~'', ESC # ''[4~'', ESC # ''[3~'', ESC # ''[H'', ESC # ''[F'', ESC # ''[D'', ESC # ''[C'',
     ESC # ''[A'', ESC # ''[B'']"

definition PASTE_START :: string where "PASTE_START = ESC # ''[200~''"
definition PASTE_END :: string where "PASTE_END = ESC # ''[201~''"

definition edit_sequence :: "string \<Rightarrow> TerminalCommandCaptureState \<Rightarrow> TerminalCommandCaptureState" where
  "edit_sequence sequence' state =
     (if sequence' = ESC # ''[D'' then state\<lparr>cs_cursor := cs_cursor state - 1\<rparr>
      else if sequence' = ESC # ''[C'' then state\<lparr>cs_cursor := min (length (cs_text state)) (cs_cursor state + 1)\<rparr>
      else if sequence' = ESC # ''[H'' \<or> sequence' = ESC # ''[1~'' then state\<lparr>cs_cursor := 0\<rparr>
      else if sequence' = ESC # ''[F'' \<or> sequence' = ESC # ''[4~'' then state\<lparr>cs_cursor := length (cs_text state)\<rparr>
      else if sequence' = ESC # ''[3~'' \<and> cs_cursor state < length (cs_text state)
        then state\<lparr>cs_text := take (cs_cursor state) (cs_text state) @ drop (cs_cursor state + 1) (cs_text state)\<rparr>
      else if sequence' = ESC # ''[A'' \<or> sequence' = ESC # ''[B''
        then state\<lparr>cs_text := [], cs_cursor := 0, cs_valid := False\<rparr>
      else state)"

text \<open>\<open>replace(/\s*\S+\s*$/, "")\<close>: the last word goes with the white space around it.\<close>

definition without_last_word :: "string \<Rightarrow> string" where
  "without_last_word s =
     (let words = strip_trailing is_space s
      in if words = [] then s else strip_trailing is_space (strip_trailing (\<lambda>c. \<not> is_space c) words))"

text \<open>One character that no run and no sequence took: the new state and the command it ends.\<close>

definition capture_char :: "char \<Rightarrow> TerminalCommandCaptureState \<Rightarrow> TerminalCommandCaptureState \<times> string list" where
  "capture_char c state =
     (if c = CHR 0x0D \<or> c = CHR 0x0A then
        if cs_bracketedPaste state then (insertAtCursor state [CHR 0x0A], [])
        else (state\<lparr>cs_text := [], cs_cursor := 0, cs_valid := True\<rparr>,
          let command = trim (cs_text state) in if cs_valid state \<and> command \<noteq> [] then [command] else [])
      else if c = CHR 0x7F \<or> c = CHR 0x08 then
        (if cs_cursor state > 0
         then state\<lparr>cs_text := take (cs_cursor state - 1) (cs_text state) @ drop (cs_cursor state) (cs_text state),
                cs_cursor := cs_cursor state - 1\<rparr>
         else state, [])
      else if c = CHR 0x15 \<or> c = CHR 0x03 then (state\<lparr>cs_text := [], cs_cursor := 0, cs_valid := True\<rparr>, [])
      else if c = CHR 0x17 then
        (let kept = without_last_word (take (cs_cursor state) (cs_text state))
         in (state\<lparr>cs_text := kept @ drop (cs_cursor state) (cs_text state), cs_cursor := length kept\<rparr>, []))
      else if c = CHR 0x09 \<or> c = ESC then (state\<lparr>cs_valid := False\<rparr>, [])
      else if code c \<ge> 32 then (insertAtCursor state [c], [])
      else (state, []))"

text \<open>One round at a position: how many characters it takes, the state, the commands.\<close>

definition plain_in :: "TerminalCommandCaptureState \<Rightarrow> char \<Rightarrow> bool" where
  "plain_in state = (if cs_bracketedPaste state then BRACKETED_PLAIN_TEXT else PLAIN_TEXT)"

definition as_pasted :: "string \<Rightarrow> string" where
  "as_pasted s = map (\<lambda>c. if c = CHR 0x0D then CHR 0x0A else c) s"

definition capture_round ::
  "bool \<Rightarrow> TerminalCommandCaptureState \<Rightarrow> string \<Rightarrow> nat \<times> TerminalCommandCaptureState \<times> string list" where
  "capture_round runs state data =
     (if starts_with data PASTE_START then (6, state\<lparr>cs_bracketedPaste := True\<rparr>, [])
      else if starts_with data PASTE_END then (6, state\<lparr>cs_bracketedPaste := False\<rparr>, [])
      else case find (starts_with data) SEQUENCES of
             Some sequence' \<Rightarrow> (length sequence', edit_sequence sequence' state, [])
           | None \<Rightarrow>
               (let run' = takeWhile (plain_in state) data
                in if runs \<and> run' \<noteq> []
                   then (length run', insertAtCursor state (if cs_bracketedPaste state then as_pasted run' else run'), [])
                   else (1, capture_char (hd data) state)))"

lemma round_moves: "fst (capture_round runs state data) > 0"
proof -
  have "find (starts_with data) SEQUENCES = Some s \<Longrightarrow> s \<in> set SEQUENCES" for s
    by (auto simp: find_Some_iff)
  then have "find (starts_with data) SEQUENCES = Some s \<Longrightarrow> s \<noteq> []" for s
    by (force simp: SEQUENCES_def simp del: find.simps)
  then show ?thesis by (auto simp: capture_round_def Let_def split: option.split)
qed

lemma round_takes: "(n, y) = capture_round runs state data \<Longrightarrow> 0 < n"
  by (metis fst_conv round_moves)

text \<open>
  \<open>captureTerminalInput\<close> is the loop with \<open>runs\<close>; without, it is the loop that takes
  plain text one character at a time.
\<close>

function capture_loop ::
  "bool \<Rightarrow> TerminalCommandCaptureState \<Rightarrow> string \<Rightarrow> TerminalCommandCaptureState \<times> string list" where
  "capture_loop runs state data =
     (if data = [] then (state, [])
      else case capture_round runs state data of (n, state', commands) \<Rightarrow>
        case capture_loop runs state' (drop n data) of (state'', later) \<Rightarrow> (state'', commands @ later))"
  by pat_completeness auto
termination
  by (relation "measure (\<lambda>(runs, state, data). length data)") (auto dest: round_takes)

declare capture_loop.simps [simp del]

definition captureTerminalInput ::
  "TerminalCommandCaptureState \<Rightarrow> string \<Rightarrow> TerminalCommandCaptureState \<times> string list" where
  "captureTerminalInput current data = capture_loop True current data"

section \<open>What the shell reports\<close>

definition hex_value :: "char \<Rightarrow> nat option" where
  "hex_value c =
     (if is_digit c then Some (code c - 48)
      else if 97 \<le> code c \<and> code c \<le> 102 then Some (code c - 87)
      else if 65 \<le> code c \<and> code c \<le> 70 then Some (code c - 55)
      else None)"

text \<open>The replacement at a backslash: what stands for it, and how much it takes.\<close>

definition unescape_here :: "string \<Rightarrow> (string \<times> nat) option" where
  "unescape_here s =
     (if length s > 3 \<and> s ! 1 = CHR ''x'' \<and> hex_value (s ! 2) \<noteq> None \<and> hex_value (s ! 3) \<noteq> None
      then Some ([char_of (16 * the (hex_value (s ! 2)) + the (hex_value (s ! 3)))], 4)
      else if length s > 1 \<and> s ! 1 = CHR 0x5C then Some ([CHR 0x5C], 2)
      else None)"

function unescapeCommandLine :: "string \<Rightarrow> string" where
  "unescapeCommandLine [] = []"
| "unescapeCommandLine (c # s) =
     (if c \<noteq> CHR 0x5C then c # unescapeCommandLine s
      else case unescape_here (c # s) of
             Some (text', n) \<Rightarrow> text' @ unescapeCommandLine (drop (n - 1) s)
           | None \<Rightarrow> c # unescapeCommandLine s)"
  by pat_completeness auto
termination by (relation "measure length") auto

definition parseShellIntegrationCommand :: "string \<Rightarrow> string option" where
  "parseShellIntegrationCommand data =
     (case index_of (CHR '';'') data of
        None \<Rightarrow> None
      | Some separatorIndex \<Rightarrow>
          (let marker = take separatorIndex data;
               rest = drop (separatorIndex + 1) data;
               command = trim (if marker = ''E'' then unescapeCommandLine rest else rest)
           in if (marker = ''E'' \<or> marker = ''C'') \<and> command \<noteq> [] then Some command else None))"

section \<open>Runs of plain text\<close>

text \<open>The cursor is in the line, and a command is a trimmed line that is not blank.\<close>

definition capture_ok :: "TerminalCommandCaptureState \<Rightarrow> bool" where
  "capture_ok state \<longleftrightarrow> cs_cursor state \<le> length (cs_text state)"

lemma insert_twice:
  "insertAtCursor (insertAtCursor state a) b = insertAtCursor state (a @ b)"
  by (cases state) (auto simp: insertAtCursor_def min_def)

lemma insert_nothing: "insertAtCursor state [] = state"
  by (cases state) (simp add: insertAtCursor_def)

lemma insert_bracketed [simp]: "cs_bracketedPaste (insertAtCursor state s) = cs_bracketedPaste state"
  by (simp add: insertAtCursor_def)

lemma plain_in_insert [simp]: "plain_in (insertAtCursor state s) = plain_in state"
  by (simp add: plain_in_def)

lemma sequences_escape: "s \<in> set (PASTE_START # PASTE_END # SEQUENCES) \<Longrightarrow> \<exists>t. s = ESC # t \<and> length t \<le> 5"
  by (auto simp: SEQUENCES_def PASTE_START_def PASTE_END_def)

lemma no_sequence:
  assumes "data = [] \<or> hd data \<noteq> ESC"
  shows "\<not> starts_with data PASTE_START" "\<not> starts_with data PASTE_END" "find (starts_with data) SEQUENCES = None"
proof -
  have "\<not> starts_with data s" if "s \<in> set (PASTE_START # PASTE_END # SEQUENCES)" for s
    using sequences_escape [OF that] assms by (cases data) auto
  then show "\<not> starts_with data PASTE_START" "\<not> starts_with data PASTE_END" "find (starts_with data) SEQUENCES = None"
    by (auto simp: find_None_iff)
qed

lemma plain_not_escape: "plain_in state c \<Longrightarrow> c \<noteq> ESC"
  by (auto simp: plain_in_def PLAIN_TEXT_def BRACKETED_PLAIN_TEXT_def split: if_splits)

lemma capture_char_plain:
  assumes "PLAIN_TEXT c"
  shows "capture_char c state = (insertAtCursor state [c], [])"
proof -
  have "c \<notin> set [CHR 0x0D, CHR 0x0A, CHR 0x7F, CHR 0x08, CHR 0x15, CHR 0x03, CHR 0x17, CHR 0x09, ESC]" "code c \<ge> 32"
    using assms by (auto simp: PLAIN_TEXT_def)
  then show ?thesis unfolding capture_char_def list.set by (simp del: of_char_of)
qed

lemma round_plain_char:
  assumes "plain_in state c"
  shows "capture_round False state (c # s) =
    (1, insertAtCursor state (if cs_bracketedPaste state then as_pasted [c] else [c]), [])"
proof -
  have "capture_char c state = (insertAtCursor state (if cs_bracketedPaste state then as_pasted [c] else [c]), [])"
  proof (cases "PLAIN_TEXT c")
    case True
    then have "c \<noteq> CHR 0x0D" by (auto simp: PLAIN_TEXT_def)
    with True show ?thesis by (simp add: capture_char_plain as_pasted_def)
  next
    case False
    with assms have "cs_bracketedPaste state" "c = CHR 0x0D \<or> c = CHR 0x0A"
      by (auto simp: plain_in_def BRACKETED_PLAIN_TEXT_def split: if_splits)
    then show ?thesis by (auto simp: capture_char_def as_pasted_def)
  qed
  with plain_not_escape [OF assms] no_sequence [of "c # s"] show ?thesis
    by (simp add: capture_round_def)
qed

lemma loop_Nil [simp]: "capture_loop runs state [] = (state, [])"
  by (simp add: capture_loop.simps)

lemma slow_plain_run:
  assumes "list_all (plain_in state) run'"
  shows "capture_loop False state (run' @ data) =
    capture_loop False (insertAtCursor state (if cs_bracketedPaste state then as_pasted run' else run')) data"
  using assms
proof (induction run' arbitrary: state)
  case Nil
  then show ?case by (simp add: insert_nothing as_pasted_def)
next
  case (Cons c cs)
  then show ?case
    by (subst capture_loop.simps) (simp add: round_plain_char insert_twice Cons.IH as_pasted_def)
qed

lemma capture_loop_runs: "capture_loop runs state data = capture_loop False state data"
proof (induction "length data" arbitrary: state data rule: less_induct)
  case less
  show ?case
  proof (cases "data = []")
    case False
    let ?run = "takeWhile (plain_in state) data"
    show ?thesis
    proof (cases "runs \<and> ?run \<noteq> []")
      case True
      then have "hd data \<noteq> ESC" using plain_not_escape False by (cases data) (auto split: if_splits)
      with no_sequence [of data] True
      have round: "capture_round runs state data = (length ?run,
          insertAtCursor state (if cs_bracketedPaste state then as_pasted ?run else ?run), [])"
        by (simp add: capture_round_def Let_def)
      have "capture_loop False state data = capture_loop False state (?run @ drop (length ?run) data)"
        by (simp add: dropWhile_eq_drop [symmetric])
      also have "\<dots> = capture_loop False (insertAtCursor state (if cs_bracketedPaste state then as_pasted ?run else ?run))
          (drop (length ?run) data)"
        by (rule slow_plain_run) (auto simp: list_all_iff dest: set_takeWhileD)
      finally show ?thesis
        using False less.hyps [of "drop (length ?run) data"] conjunct2 [OF True]
        by (subst capture_loop.simps) (simp add: round)
    next
      case False
      then have "capture_round runs state data = capture_round False state data"
        by (auto simp: capture_round_def Let_def split: option.split)
      moreover have "capture_loop runs state' (drop n data) = capture_loop False state' (drop n data)"
        if "capture_round False state data = (n, state', commands)" for n state' commands
        using less.hyps [of "drop n data"] \<open>data \<noteq> []\<close> round_takes [OF that [symmetric]] by simp
      ultimately show ?thesis
        using \<open>data \<noteq> []\<close> by (subst (1 2) capture_loop.simps) (auto split: prod.split)
    qed
  qed simp
qed

section \<open>Input in pieces\<close>

text \<open>A piece that does not end inside an escape sequence: none starts in its last five characters.\<close>

definition whole :: "string \<Rightarrow> bool" where
  "whole data \<longleftrightarrow> ESC \<notin> set (drop (length data - 5) data)"

lemma starts_with_take: "starts_with s t \<longleftrightarrow> take (length t) s = t"
  by (metis append_eq_conv_conj append_take_drop_id starts_with_append starts_with_iff)

lemma whole_drop:
  assumes "whole data"
  shows "whole (drop n data)"
proof -
  have "set (drop (length (drop n data) - 5) (drop n data)) \<subseteq> set (drop (length data - 5) data)"
    by (simp add: set_drop_subset_set_drop)
  with assms show ?thesis unfolding whole_def by blast
qed

lemma whole_start: "whole (ESC # s) \<Longrightarrow> 5 \<le> length s"
  by (cases "length s < 5") (auto simp: whole_def)

lemma find_in: "find p xs = Some x \<Longrightarrow> x \<in> set xs \<and> p x"
  by (auto simp: find_Some_iff)

lemma round_of_piece:
  assumes "a \<noteq> []" and "whole a"
  shows "capture_round False state (a @ b) = capture_round False state a"
    and "fst (capture_round False state a) \<le> length a"
proof -
  have same: "starts_with (a @ b) s = starts_with a s" and fits: "starts_with a s \<Longrightarrow> length s \<le> length a"
    if "s \<in> set (PASTE_START # PASTE_END # SEQUENCES)" for s
  proof -
    from sequences_escape [OF that] obtain t where t: "s = ESC # t" "length t \<le> 5" by blast
    show "starts_with (a @ b) s = starts_with a s"
    proof (cases "hd a = ESC")
      case True
      then obtain a' where a: "a = ESC # a'" using assms(1) by (cases a) auto
      with whole_start [of a'] assms(2) t show ?thesis by (simp add: starts_with_take)
    next
      case False
      with t assms(1) show ?thesis by (cases a) auto
    qed
    show "starts_with a s \<Longrightarrow> length s \<le> length a" by (auto simp: starts_with_iff)
  qed
  have "find (starts_with (a @ b)) SEQUENCES = find (starts_with a) SEQUENCES"
    by (rule find_cong) (auto simp: same)
  then show "capture_round False state (a @ b) = capture_round False state a"
    using same assms(1) by (simp add: capture_round_def split: option.split)
  have "length PASTE_START = 6" "length PASTE_END = 6" by (simp_all add: PASTE_START_def PASTE_END_def)
  then show "fst (capture_round False state a) \<le> length a"
    using fits [of PASTE_START] fits [of PASTE_END] fits assms(1)
    by (auto simp: capture_round_def Suc_le_eq dest: find_in split: option.split)
qed

lemma capture_pieces:
  "whole a \<Longrightarrow> capture_loop False state (a @ b) =
    (case capture_loop False state a of (state', commands) \<Rightarrow>
       case capture_loop False state' b of (state'', later) \<Rightarrow> (state'', commands @ later))"
proof (induction "length a" arbitrary: a state rule: less_induct)
  case less
  show ?case
  proof (cases "a = []")
    case True
    then show ?thesis by simp
  next
    case False
    obtain n state' commands where r: "capture_round False state a = (n, state', commands)" by (metis prod_cases3)
    note piece = round_of_piece [OF False less.prems, of state, unfolded r]
    have "0 < n" using round_takes [OF r [symmetric]] .
    then have "length (drop n a) < length a" using False by simp
    note IH = less.hyps [OF this whole_drop [OF less.prems], of state']
    have "capture_loop False state (a @ b) =
        (case capture_loop False state' (drop n a @ b) of (state'', later) \<Rightarrow> (state'', commands @ later))"
      using piece False by (subst capture_loop.simps) simp
    moreover have "capture_loop False state a =
        (case capture_loop False state' (drop n a) of (state'', later) \<Rightarrow> (state'', commands @ later))"
      using False by (subst capture_loop.simps) (simp add: r)
    ultimately show ?thesis by (simp add: IH split: prod.split)
  qed
qed

section \<open>The invariant\<close>

definition a_command :: "string \<Rightarrow> bool" where
  "a_command c \<longleftrightarrow> c \<noteq> [] \<and> trim c = c"

lemma if_both: "P x \<Longrightarrow> P y \<Longrightarrow> P (if b then x else y)"
  by simp

definition result_ok :: "TerminalCommandCaptureState \<times> string list \<Rightarrow> bool" where
  "result_ok r \<longleftrightarrow> capture_ok (fst r) \<and> list_all a_command (snd r)"

lemma capture_char_ok:
  assumes "capture_ok state"
  shows "result_ok (capture_char c state)"
  using assms unfolding capture_char_def
  by (intro if_both [where P = result_ok])
    (auto simp: result_ok_def capture_ok_def insertAtCursor_def a_command_def Let_def)

lemma edit_sequence_ok: "capture_ok state \<Longrightarrow> capture_ok (edit_sequence s state)"
  unfolding edit_sequence_def
  by (intro if_both [where P = capture_ok]) (auto simp: capture_ok_def)

lemma capture_round_ok:
  assumes "capture_ok state" and "capture_round runs state data = (n, state', commands)"
  shows "capture_ok state' \<and> list_all a_command commands"
proof -
  have "capture_ok (state\<lparr>cs_bracketedPaste := x\<rparr>)" for x using assms(1) by (simp add: capture_ok_def)
  moreover have "capture_ok (insertAtCursor state x)" for x
    using assms(1) by (simp add: capture_ok_def insertAtCursor_def)
  ultimately show ?thesis
    using assms capture_char_ok [OF assms(1), of "hd data"] edit_sequence_ok [OF assms(1)]
    by (auto simp: result_ok_def capture_round_def Let_def split: if_splits option.splits)
qed

lemma capture_loop_ok:
  "capture_ok state \<Longrightarrow> capture_loop runs state data = (state', commands) \<Longrightarrow>
     capture_ok state' \<and> list_all a_command commands"
proof (induction "length data" arbitrary: state data state' commands rule: less_induct)
  case less
  show ?case
  proof (cases "data = []")
    case True
    with less.prems show ?thesis by simp
  next
    case False
    obtain n s cs where r: "capture_round runs state data = (n, s, cs)" by (metis prod_cases3)
    obtain s' cs' where l: "capture_loop runs s (drop n data) = (s', cs')" by fastforce
    from less.prems(2) False r l have "state' = s'" "commands = cs @ cs'"
      by (auto simp: capture_loop.simps [of runs state data])
    moreover have "length (drop n data) < length data" using round_takes [OF r [symmetric]] False by simp
    note less.hyps [OF this _ l]
    ultimately show ?thesis using capture_round_ok [OF less.prems(1) r] by simp
  qed
qed

definition capture_step ::
  "TerminalCommandCaptureState \<times> string list \<Rightarrow> string \<Rightarrow> TerminalCommandCaptureState \<times> string list" where
  "capture_step s data = (case captureTerminalInput (fst s) data of (state, commands) \<Rightarrow> (state, snd s @ commands))"

interpretation capture: total_machine capture_step "(EMPTY_COMMAND_CAPTURE_STATE, [])"
  "\<lambda>s. capture_ok (fst s) \<and> list_all a_command (snd s)"
proof unfold_locales
  show "capture_ok (fst (EMPTY_COMMAND_CAPTURE_STATE, [])) \<and> list_all a_command (snd (EMPTY_COMMAND_CAPTURE_STATE, []))"
    by (simp add: EMPTY_COMMAND_CAPTURE_STATE_def capture_ok_def)
next
  fix s :: "TerminalCommandCaptureState \<times> string list" and data
  assume "capture_ok (fst s) \<and> list_all a_command (snd s)"
  then show "capture_ok (fst (capture_step s data)) \<and> list_all a_command (snd (capture_step s data))"
    using capture_loop_ok [of "fst s" True data]
    by (auto simp: capture_step_def captureTerminalInput_def split: prod.split)
qed

lemma run_capture_pieces:
  "list_all whole datas \<Longrightarrow> run capture_step s datas =
     (case capture_loop False (fst s) (concat datas) of (state, commands) \<Rightarrow> (state, snd s @ commands))"
proof (induction datas arbitrary: s)
  case (Cons data datas)
  then show ?case
    by (auto simp: capture_pieces capture_step_def captureTerminalInput_def capture_loop_runs [of True] split: prod.split)
qed (simp split: prod.split)


section \<open>Escaped command lines\<close>

text \<open>What the shell scripts do to a command line before they report it.\<close>

definition hex_digit :: "nat \<Rightarrow> char" where
  "hex_digit d = (if d < 10 then char_of (48 + d) else char_of (87 + d))"

definition escape_char :: "char \<Rightarrow> string" where
  "escape_char c =
     (if c = CHR 0x5C then [CHR 0x5C, CHR 0x5C]
      else if code c < 32 \<or> c = CHR '';'' then [CHR 0x5C, CHR ''x'', hex_digit (code c div 16), hex_digit (code c mod 16)]
      else [c])"

definition escapeCommandLine :: "string \<Rightarrow> string" where
  "escapeCommandLine s = concat (map escape_char s)"

lemma hex_value_digit: "d < 16 \<Longrightarrow> hex_value (hex_digit d) = Some d"
  by (auto simp: hex_value_def hex_digit_def is_digit_def)

lemma unescape_escape_char: "unescapeCommandLine (escape_char c @ s) = c # unescapeCommandLine s"
proof -
  have "code c mod 256 = code c" by (rule of_char_mod_256)
  then have "code c < 256" by (metis mod_less_divisor zero_less_numeral)
  then have "code c div 16 < 16" by (simp only: div_less_iff_less_mult)
  moreover have "char_of (16 * (code c div 16) + code c mod 16) = c" by simp
  ultimately show ?thesis
    by (auto simp: escape_char_def unescape_here_def hex_value_digit)
qed

lemma unescape_escape: "unescapeCommandLine (escapeCommandLine s) = s"
  by (induction s) (simp_all add: escapeCommandLine_def unescape_escape_char)

section \<open>Properties\<close>



text \<open>
  A command line a shell reports escaped reads back as it was, whatever characters it holds, without the
  white space around it; one that is blank is no command.\<close>

lemma reported_command_reads_back:
  "parseShellIntegrationCommand (''E;'' @ escapeCommandLine command)
     = (if trim command = [] then None else Some (trim command))
   \<and> parseShellIntegrationCommand (''C;'' @ command) = (if trim command = [] then None else Some (trim command))"
  by (simp add: parseShellIntegrationCommand_def unescape_escape Let_def)

end
