(* ===== verification/Composer.thy ===== *)
theory Composer
  imports Machines Js_String
begin

text \<open>
  The compose bar: what it sends (\<open>src/src/lib/commandComposer.ts\<close>), a run of its lines
  one at a time (\<open>src/src/lib/composerRun.ts\<close>) and the runs of all tabs
  (\<open>src/src/lib/composerRuns.ts\<close>). A terminal the bar can send to is known by a number;
  what it is sent is an effect, kept with its tab in the order it was sent. A function
  that returns the run it was given returns an equal record.
\<close>

section \<open>What the bar sends\<close>

abbreviation CR :: char where "CR \<equiv> CHR 0x0D"
abbreviation LF :: char where "LF \<equiv> CHR 0x0A"

definition BAR_PASTE_START :: string where "BAR_PASTE_START = CHR 0x1B # ''[200~''"
definition BAR_PASTE_END :: string where "BAR_PASTE_END = CHR 0x1B # ''[201~''"

text \<open>\<open>replace(/\r\n?/g, "\n")\<close>.\<close>

fun unix_breaks :: "string \<Rightarrow> string" where
  "unix_breaks [] = []"
| "unix_breaks [c] = (if c = CR then [LF] else [c])"
| "unix_breaks (c # d # s) =
     (if c = CR then LF # (if d = LF then unix_breaks s else unix_breaks (d # s)) else c # unix_breaks (d # s))"

text \<open>\<open>s.split(sep).join("")\<close> for a separator that is not empty: without its occurrences, read from the left.\<close>

function without_marker :: "string \<Rightarrow> string \<Rightarrow> string" where
  "without_marker sep [] = []"
| "without_marker sep (c # s) =
     (if sep \<noteq> [] \<and> starts_with (c # s) sep then without_marker sep (drop (length sep - 1) s)
      else c # without_marker sep s)"
  by pat_completeness auto
termination by (relation "measure (\<lambda>(sep, s). length s)") auto

definition composerInput :: "string \<Rightarrow> bool \<Rightarrow> string" where
  "composerInput text' bracketedPaste =
     (let lines = map (\<lambda>c. if c = LF then CR else c) (strip_trailing (\<lambda>c. c = LF) (unix_breaks text'))
      in if CR \<notin> set lines \<or> \<not> bracketedPaste then lines @ [CR]
         else BAR_PASTE_START @ without_marker BAR_PASTE_END lines @ BAR_PASTE_END @ [CR])"

definition historySuggestion :: "string \<Rightarrow> string list \<Rightarrow> string option" where
  "historySuggestion text' history =
     (if text' = [] \<or> LF \<in> set text' then None
      else find (\<lambda>entry. length entry > length text' \<and> starts_with entry text') history)"

definition caretOnFirstLine :: "string \<Rightarrow> nat \<Rightarrow> bool" where
  "caretOnFirstLine text' caret \<longleftrightarrow> LF \<notin> set (take caret text')"

definition caretOnLastLine :: "string \<Rightarrow> nat \<Rightarrow> bool" where
  "caretOnLastLine text' caret \<longleftrightarrow> LF \<notin> set (drop caret text')"

text \<open>The bar's own state; the flags written to the storage are those of the last state.\<close>

record ComposerBar =
  cb_open :: bool
  cb_focusRequest :: nat
  cb_lineByLine :: bool
  cb_text :: string
  cb_guarded :: "string list"

definition openComposer :: "ComposerBar \<Rightarrow> ComposerBar" where
  "openComposer b = b\<lparr>cb_open := True, cb_focusRequest := cb_focusRequest b + 1\<rparr>"

definition closeComposer :: "ComposerBar \<Rightarrow> ComposerBar" where
  "closeComposer b = (if cb_open b then b\<lparr>cb_open := False\<rparr> else b)"

definition setComposerLineByLine :: "bool \<Rightarrow> ComposerBar \<Rightarrow> ComposerBar" where
  "setComposerLineByLine lineByLine b = b\<lparr>cb_lineByLine := lineByLine\<rparr>"

definition setComposerText :: "string \<Rightarrow> ComposerBar \<Rightarrow> ComposerBar" where
  "setComposerText text' b =
     (if text' = cb_text b then b
      else b\<lparr>cb_text := text', cb_guarded := (if text' \<noteq> [] then cb_guarded b else [])\<rparr>)"

definition insertIntoComposer :: "string \<Rightarrow> string option \<Rightarrow> ComposerBar \<Rightarrow> ComposerBar" where
  "insertIntoComposer command confirmAs b =
     b\<lparr>cb_text := (if trim (cb_text b) \<noteq> [] then strip_trailing (\<lambda>c. c = LF) (cb_text b) @ LF # command else command),
       cb_guarded := (case confirmAs of None \<Rightarrow> cb_guarded b | Some name \<Rightarrow> cb_guarded b @ [name]),
       cb_open := True, cb_focusRequest := cb_focusRequest b + 1\<rparr>"

section \<open>A run\<close>

datatype RunLineStatus = Rs_pending | Rs_running | Rs_succeeded | Rs_failed | Rs_unfinished

record RunLine =
  rl_text :: string
  rl_status :: RunLineStatus
  rl_exitCode :: "int option"

datatype RunPhase = Ph_running | Ph_failed | Ph_done | Ph_stopped

text \<open>\<open>current\<close> is \<open>-1\<close> for a run without lines.\<close>

record ComposerRun =
  cr_lines :: "RunLine list"
  cr_phase :: RunPhase
  cr_current :: int

text \<open>\<open>PromptEvent\<close> of \<open>commandMarks.ts\<close>: the exit code, whether a command started, the status.\<close>

datatype PromptEvent = Pe_prompt "int option" "bool option" "int option" | Pe_ended

definition runFrom :: "RunLine list \<Rightarrow> int \<Rightarrow> ComposerRun" where
  "runFrom lines index =
     (if index \<ge> int (length lines) then \<lparr>cr_lines = lines, cr_phase = Ph_done, cr_current = int (length lines) - 1\<rparr>
      else \<lparr>cr_lines = map (\<lambda>(at', line). if int at' = index
              then \<lparr>rl_text = rl_text line, rl_status = Rs_running, rl_exitCode = None\<rparr> else line) (enumerate 0 lines),
            cr_phase = Ph_running, cr_current = index\<rparr>)"

definition startRun :: "string list \<Rightarrow> ComposerRun" where
  "startRun lines = runFrom (map (\<lambda>t. \<lparr>rl_text = t, rl_status = Rs_pending, rl_exitCode = None\<rparr>) lines) 0"

definition withLine :: "ComposerRun \<Rightarrow> int \<Rightarrow> (RunLine \<Rightarrow> RunLine) \<Rightarrow> RunLine list" where
  "withLine run' index change =
     map (\<lambda>(at', current). if int at' = index then change current else current) (enumerate 0 (cr_lines run'))"

definition finishLine :: "ComposerRun \<Rightarrow> int option \<Rightarrow> ComposerRun" where
  "finishLine run' exitCode =
     (if cr_phase run' \<noteq> Ph_running then run'
      else let failed = (exitCode \<noteq> None \<and> exitCode \<noteq> Some 0);
               lines = withLine run' (cr_current run')
                 (\<lambda>line. line\<lparr>rl_status := (if failed then Rs_failed else Rs_succeeded), rl_exitCode := exitCode\<rparr>)
           in if failed then run'\<lparr>cr_lines := lines, cr_phase := Ph_failed\<rparr>
              else runFrom lines (cr_current run' + 1))"

definition stopRun :: "ComposerRun \<Rightarrow> ComposerRun" where
  "stopRun run' =
     (if cr_phase run' \<noteq> Ph_running \<and> cr_phase run' \<noteq> Ph_failed then run'
      else run'\<lparr>cr_lines := (if cr_phase run' = Ph_running
                  then withLine run' (cr_current run') (\<lambda>line. line\<lparr>rl_status := Rs_unfinished\<rparr>) else cr_lines run'),
                cr_phase := Ph_stopped\<rparr>)"

text \<open>\<open>/^\s*#/\<close>.\<close>

definition is_comment :: "string \<Rightarrow> bool" where
  "is_comment s \<longleftrightarrow> starts_with (dropWhile is_space s) ''#''"

definition promptReached :: "ComposerRun \<Rightarrow> PromptEvent \<Rightarrow> ComposerRun" where
  "promptReached run' event =
     (case event of
        Pe_ended \<Rightarrow> stopRun run'
      | Pe_prompt exitCode startedCommand status \<Rightarrow>
          if startedCommand \<noteq> Some False then finishLine run' exitCode
          else if cr_phase run' \<noteq> Ph_running then run'
          else if is_comment (rl_text (cr_lines run' ! nat (cr_current run'))) then finishLine run' None
          else if status \<noteq> None \<and> status \<noteq> Some 0 then finishLine run' status
          else run')"

definition retryLine :: "ComposerRun \<Rightarrow> ComposerRun" where
  "retryLine run' = (if cr_phase run' \<noteq> Ph_failed then run' else runFrom (cr_lines run') (cr_current run'))"

definition continueRun :: "ComposerRun \<Rightarrow> ComposerRun" where
  "continueRun run' = (if cr_phase run' \<noteq> Ph_failed then run' else runFrom (cr_lines run') (cr_current run' + 1))"

definition isRunActive :: "ComposerRun option \<Rightarrow> bool" where
  "isRunActive run' = (case run' of None \<Rightarrow> False | Some r \<Rightarrow> cr_phase r = Ph_running \<or> cr_phase r = Ph_failed)"

section \<open>The runs of the tabs\<close>

record ComposerRuns =
  cs_runs :: "string \<Rightarrow> ComposerRun option"
  cs_following :: "string \<Rightarrow> nat option"
  cs_targets :: "string \<Rightarrow> nat option"
  cs_sent :: "(string \<times> string) list"

definition no_runs :: ComposerRuns where
  "no_runs = \<lparr>cs_runs = Map.empty, cs_following = Map.empty, cs_targets = Map.empty, cs_sent = []\<rparr>"

definition registerComposerTarget :: "string \<Rightarrow> nat \<Rightarrow> ComposerRuns \<Rightarrow> ComposerRuns" where
  "registerComposerTarget tabId target s = s\<lparr>cs_targets := (cs_targets s)(tabId \<mapsto> target)\<rparr>"

definition unregister :: "string \<Rightarrow> nat \<Rightarrow> ComposerRuns \<Rightarrow> ComposerRuns" where
  "unregister tabId target s =
     (if cs_targets s tabId = Some target then s\<lparr>cs_targets := (cs_targets s)(tabId := None)\<rparr> else s)"

definition stopFollowing :: "string \<Rightarrow> ComposerRuns \<Rightarrow> ComposerRuns" where
  "stopFollowing tabId s = s\<lparr>cs_following := (cs_following s)(tabId := None)\<rparr>"

definition sendsLine :: "ComposerRun \<Rightarrow> ComposerRun \<Rightarrow> bool" where
  "sendsLine previous run' \<longleftrightarrow> cr_phase run' = Ph_running
     \<and> (cr_phase previous \<noteq> Ph_running \<or> cr_current previous \<noteq> cr_current run')"

text \<open>\<open>apply\<close>: the end it has in common, and its call of itself with the previous run stopped, which sends nothing.\<close>

definition keep_run :: "string \<Rightarrow> ComposerRun \<Rightarrow> ComposerRuns \<Rightarrow> ComposerRuns" where
  "keep_run tabId run' s =
     (let s = (if isRunActive (Some run') then s else stopFollowing tabId s)
      in s\<lparr>cs_runs := (cs_runs s)(tabId \<mapsto> run')\<rparr>)"

definition apply_run :: "string \<Rightarrow> ComposerRun \<Rightarrow> ComposerRun \<Rightarrow> ComposerRuns \<Rightarrow> ComposerRuns" where
  "apply_run tabId previous run' s =
     (if run' = previous then s
      else if sendsLine previous run'
      then (case cs_targets s tabId of
              None \<Rightarrow> if stopRun previous = previous then s else keep_run tabId (stopRun previous) s
            | Some target \<Rightarrow>
                keep_run tabId run'
                  (s\<lparr>cs_sent := cs_sent s @ [(tabId, composerInput (rl_text (cr_lines run' ! nat (cr_current run'))) False)]\<rparr>))
      else keep_run tabId run' s)"

definition update_run :: "string \<Rightarrow> (ComposerRun \<Rightarrow> ComposerRun) \<Rightarrow> ComposerRuns \<Rightarrow> ComposerRuns" where
  "update_run tabId change s =
     (case cs_runs s tabId of Some run' \<Rightarrow> apply_run tabId run' (change run') s | None \<Rightarrow> s)"

datatype ShellPromptState = Sp_unmarked | Sp_busy | Sp_prompt

datatype StartResult = Sr_started | Sr_unmarked | Sr_busy

definition startComposerRun ::
  "string \<Rightarrow> string list \<Rightarrow> (nat \<Rightarrow> ShellPromptState) \<Rightarrow> ComposerRuns \<Rightarrow> StartResult \<times> ComposerRuns" where
  "startComposerRun tabId lines promptState s =
     (case cs_targets s tabId of
        None \<Rightarrow> (Sr_unmarked, s)
      | Some target \<Rightarrow>
          (case promptState target of
             Sp_unmarked \<Rightarrow> (Sr_unmarked, s)
           | Sp_busy \<Rightarrow> (Sr_busy, s)
           | Sp_prompt \<Rightarrow>
               if isRunActive (cs_runs s tabId) \<or> lines = [] then (Sr_busy, s)
               else let s = stopFollowing tabId s;
                        run' = startRun lines;
                        idle = run'\<lparr>cr_phase := Ph_done\<rparr>
                    in (Sr_started, apply_run tabId idle run' (s\<lparr>cs_following := (cs_following s)(tabId \<mapsto> target)\<rparr>))))"

definition dismissComposerRun :: "string \<Rightarrow> ComposerRuns \<Rightarrow> ComposerRuns" where
  "dismissComposerRun tabId s =
     (if cs_runs s tabId = None \<or> isRunActive (cs_runs s tabId) then s
      else s\<lparr>cs_runs := (cs_runs s)(tabId := None)\<rparr>)"

datatype ComposerCall =
    Cc_register string nat
  | Cc_unregister string nat
  | Cc_start string "string list" "nat \<Rightarrow> ShellPromptState"
  | Cc_prompt string nat PromptEvent
  | Cc_retry string
  | Cc_continue string
  | Cc_stop string
  | Cc_dismiss string

text \<open>A prompt of a terminal reaches the run only while the run follows that terminal.\<close>

fun composer_step :: "ComposerRuns \<Rightarrow> ComposerCall \<Rightarrow> ComposerRuns" where
  "composer_step s (Cc_register tabId target) = registerComposerTarget tabId target s"
| "composer_step s (Cc_unregister tabId target) = unregister tabId target s"
| "composer_step s (Cc_start tabId lines promptState) = snd (startComposerRun tabId lines promptState s)"
| "composer_step s (Cc_prompt tabId target event) =
     (if cs_following s tabId = Some target then update_run tabId (\<lambda>r. promptReached r event) s else s)"
| "composer_step s (Cc_retry tabId) = update_run tabId retryLine s"
| "composer_step s (Cc_continue tabId) = update_run tabId continueRun s"
| "composer_step s (Cc_stop tabId) = update_run tabId stopRun s"
| "composer_step s (Cc_dismiss tabId) = dismissComposerRun tabId s"

section \<open>What a run keeps\<close>

definition ended_line :: "RunLine \<Rightarrow> bool" where
  "ended_line line \<longleftrightarrow> rl_status line = Rs_succeeded \<or> rl_status line = Rs_failed"

definition pending_line :: "RunLine \<Rightarrow> bool" where
  "pending_line line \<longleftrightarrow> rl_status line = Rs_pending"

text \<open>The line a phase is about: the ones before it have ended, the ones after it wait.\<close>

fun phase_line :: "RunPhase \<Rightarrow> RunLine \<Rightarrow> bool" where
  "phase_line Ph_running line = (rl_status line = Rs_running)"
| "phase_line Ph_failed line = (rl_status line = Rs_failed)"
| "phase_line Ph_stopped line = (rl_status line = Rs_failed \<or> rl_status line = Rs_unfinished)"
| "phase_line Ph_done line = ended_line line"

definition run_ok :: "ComposerRun \<Rightarrow> bool" where
  "run_ok r \<longleftrightarrow> (\<exists>before line after. cr_lines r = before @ line # after \<and> cr_current r = int (length before)
     \<and> list_all ended_line before \<and> list_all pending_line after \<and> phase_line (cr_phase r) line
     \<and> (cr_phase r = Ph_done \<longrightarrow> after = []))"

lemma run_okI:
  "cr_lines r = before @ line # after \<Longrightarrow> cr_current r = int (length before) \<Longrightarrow> list_all ended_line before
    \<Longrightarrow> list_all pending_line after \<Longrightarrow> phase_line (cr_phase r) line \<Longrightarrow> cr_phase r \<noteq> Ph_done \<or> after = [] \<Longrightarrow> run_ok r"
  unfolding run_ok_def by blast

lemma run_okE:
  assumes "run_ok r"
  obtains before line after where "r = \<lparr>cr_lines = before @ line # after, cr_phase = cr_phase r, cr_current = int (length before)\<rparr>"
    and "list_all ended_line before" and "list_all pending_line after" and "phase_line (cr_phase r) line"
    and "cr_phase r = Ph_done \<longrightarrow> after = []"
  using assms unfolding run_ok_def by (metis ComposerRun.surjective unit.exhaust ComposerRun.select_convs(2))

lemma change_at:
  "map (\<lambda>(i, x). if int i = int (n + length xs) then f x else x) (enumerate n (xs @ y # ys)) = xs @ f y # ys"
proof (induction xs arbitrary: n)
  case Nil
  have "map (\<lambda>(i, x). if int i = int n then f x else x) (enumerate m ys) = ys" if "m > n" for m
    using that by (induction ys arbitrary: m) auto
  then show ?case by simp
next
  case (Cons x xs)
  from Cons.IH [of "Suc n"] show ?case by simp
qed

lemma withLine_at:
  "withLine \<lparr>cr_lines = xs @ y # ys, cr_phase = p, cr_current = c\<rparr> (int (length xs)) f = xs @ f y # ys"
  using change_at [of 0 xs f y ys] by (simp add: withLine_def)

lemma runFrom_at:
  "runFrom (xs @ y # ys) (int (length xs)) =
    \<lparr>cr_lines = xs @ \<lparr>rl_text = rl_text y, rl_status = Rs_running, rl_exitCode = None\<rparr> # ys,
     cr_phase = Ph_running, cr_current = int (length xs)\<rparr>"
  using change_at [of 0 xs "\<lambda>l. \<lparr>rl_text = rl_text l, rl_status = Rs_running, rl_exitCode = None\<rparr>" y ys]
  by (simp add: runFrom_def)

lemma runFrom_end: "runFrom xs (int (length xs)) = \<lparr>cr_lines = xs, cr_phase = Ph_done, cr_current = int (length xs) - 1\<rparr>"
  by (simp add: runFrom_def)

text \<open>What comes after line \<open>y\<close>, ended as \<open>z\<close>: the next line runs, or the run is done.\<close>

lemma runFrom_next_ok:
  assumes "list_all ended_line xs" and "ended_line z" and "list_all pending_line ys"
  shows "run_ok (runFrom (xs @ z # ys) (int (length xs) + 1))"
proof (cases ys)
  case Nil
  have "runFrom (xs @ z # ys) (int (length xs) + 1) = \<lparr>cr_lines = xs @ [z], cr_phase = Ph_done, cr_current = int (length xs)\<rparr>"
    using runFrom_end [of "xs @ [z]"] Nil by (simp add: add.commute)
  with assms show ?thesis by (intro run_okI [of _ xs z "[]"]) simp_all
next
  case (Cons y ys')
  have "runFrom (xs @ z # ys) (int (length xs) + 1) =
      \<lparr>cr_lines = (xs @ [z]) @ \<lparr>rl_text = rl_text y, rl_status = Rs_running, rl_exitCode = None\<rparr> # ys',
       cr_phase = Ph_running, cr_current = int (length (xs @ [z]))\<rparr>"
    using runFrom_at [of "xs @ [z]" y ys'] Cons by (simp add: add.commute)
  with assms Cons show ?thesis
    by (intro run_okI [of _ "xs @ [z]" "\<lparr>rl_text = rl_text y, rl_status = Rs_running, rl_exitCode = None\<rparr>" ys']) simp_all
qed

lemma startRun_ok: "lines \<noteq> [] \<Longrightarrow> run_ok (startRun lines)"
proof -
  assume "lines \<noteq> []"
  then obtain l ls where "lines = l # ls" by (cases lines) auto
  then show ?thesis
    using runFrom_at [of "[]" "\<lparr>rl_text = l, rl_status = Rs_pending, rl_exitCode = None\<rparr>"]
    by (auto simp: startRun_def run_ok_def list_all_iff pending_line_def intro!: exI [of _ "[]"])
qed

lemma finishLine_ok:
  assumes "run_ok r"
  shows "run_ok (finishLine r e)"
  using assms
proof (rule run_okE)
  fix xs y ys
  assume r: "r = \<lparr>cr_lines = xs @ y # ys, cr_phase = cr_phase r, cr_current = int (length xs)\<rparr>"
    and ok: "list_all ended_line xs" "list_all pending_line ys"
  show ?thesis
  proof (cases "cr_phase r = Ph_running")
    case True
    with r have r: "r = \<lparr>cr_lines = xs @ y # ys, cr_phase = Ph_running, cr_current = int (length xs)\<rparr>" by simp
    show ?thesis
    proof (cases "e \<noteq> None \<and> e \<noteq> Some 0")
      case True
      then have "finishLine r e = \<lparr>cr_lines = xs @ y\<lparr>rl_status := Rs_failed, rl_exitCode := e\<rparr> # ys,
          cr_phase = Ph_failed, cr_current = int (length xs)\<rparr>"
        by (simp add: finishLine_def r withLine_at)
      with ok show ?thesis by (intro run_okI [of _ xs "y\<lparr>rl_status := Rs_failed, rl_exitCode := e\<rparr>" ys]) simp_all
    next
      case False
      then have "finishLine r e = runFrom (xs @ y\<lparr>rl_status := Rs_succeeded, rl_exitCode := e\<rparr> # ys) (int (length xs) + 1)"
        by (auto simp: finishLine_def r withLine_at)
      with ok show ?thesis by (simp add: runFrom_next_ok ended_line_def)
    qed
  next
    case False
    with assms show ?thesis by (simp add: finishLine_def)
  qed
qed

lemma stopRun_ok:
  assumes "run_ok r"
  shows "run_ok (stopRun r)"
  using assms
proof (rule run_okE)
  fix xs y ys
  assume r: "r = \<lparr>cr_lines = xs @ y # ys, cr_phase = cr_phase r, cr_current = int (length xs)\<rparr>"
    and ok: "list_all ended_line xs" "list_all pending_line ys" "phase_line (cr_phase r) y"
  then show ?thesis
  proof (cases "cr_phase r")
    case Ph_running
    with r have r': "r = \<lparr>cr_lines = xs @ y # ys, cr_phase = Ph_running, cr_current = int (length xs)\<rparr>" by simp
    with ok show ?thesis by (intro run_okI [of _ xs "y\<lparr>rl_status := Rs_unfinished\<rparr>" ys]) (simp_all add: stopRun_def withLine_at)
  next
    case Ph_failed
    with r have r': "r = \<lparr>cr_lines = xs @ y # ys, cr_phase = Ph_failed, cr_current = int (length xs)\<rparr>" by simp
    with ok Ph_failed show ?thesis by (intro run_okI [of _ xs y ys]) (simp_all add: stopRun_def)
  qed (use assms in \<open>simp_all add: stopRun_def\<close>)
qed

lemma retry_continue_ok:
  assumes "run_ok r"
  shows "run_ok (retryLine r)" and "run_ok (continueRun r)"
proof -
  from assms obtain xs y ys where r: "r = \<lparr>cr_lines = xs @ y # ys, cr_phase = cr_phase r, cr_current = int (length xs)\<rparr>"
    and ok: "list_all ended_line xs" "list_all pending_line ys" "phase_line (cr_phase r) y" by (rule run_okE)
  have lines: "cr_lines r = xs @ y # ys" "cr_current r = int (length xs)" by (subst r, simp)+
  show "run_ok (retryLine r)"
    using assms ok by (cases "cr_phase r = Ph_failed") (auto simp: retryLine_def lines runFrom_at intro: run_okI [of _ xs "\<lparr>rl_text = rl_text y, rl_status = Rs_running, rl_exitCode = None\<rparr>" ys])
  show "run_ok (continueRun r)"
    using assms ok by (auto simp: continueRun_def lines ended_line_def intro: runFrom_next_ok)
qed

lemma promptReached_ok: "run_ok r \<Longrightarrow> run_ok (promptReached r event)"
  by (cases event) (auto simp: promptReached_def finishLine_ok stopRun_ok)

section \<open>The lines a run sends\<close>

datatype RunCall = Rc_prompt PromptEvent | Rc_retry | Rc_continue | Rc_stop

fun run_call :: "ComposerRun \<Rightarrow> RunCall \<Rightarrow> ComposerRun" where
  "run_call r (Rc_prompt event) = promptReached r event"
| "run_call r Rc_retry = retryLine r"
| "run_call r Rc_continue = continueRun r"
| "run_call r Rc_stop = stopRun r"

fun lines_sent :: "ComposerRun \<Rightarrow> RunCall list \<Rightarrow> nat list" where
  "lines_sent r [] = []"
| "lines_sent r (c # cs) =
     (if sendsLine r (run_call r c) then [nat (cr_current (run_call r c))] else []) @ lines_sent (run_call r c) cs"

lemma run_call_ok: "run_ok r \<Longrightarrow> run_ok (run_call r c)"
  by (cases c) (simp_all add: promptReached_ok retry_continue_ok stopRun_ok)

text \<open>The next line, or the failed one again, or none; the texts stay.\<close>

definition next_or_same :: "bool \<Rightarrow> ComposerRun \<Rightarrow> ComposerRun \<Rightarrow> bool" where
  "next_or_same again r q \<longleftrightarrow> map rl_text (cr_lines q) = map rl_text (cr_lines r)
     \<and> (if sendsLine r q then cr_current q = cr_current r + 1 \<or> again \<and> cr_current q = cr_current r
        else cr_current q = cr_current r)"

lemma next_or_same_refl [simp]: "next_or_same again r r"
  by (simp add: next_or_same_def sendsLine_def)

lemma runFrom_texts: "map rl_text (cr_lines (runFrom lines i)) = map rl_text lines"
proof -
  have "map (rl_text \<circ> (\<lambda>(j, l). if int j = i then \<lparr>rl_text = rl_text l, rl_status = Rs_running, rl_exitCode = None\<rparr> else l))
      (enumerate n lines) = map rl_text lines" for n
    by (induction lines arbitrary: n) auto
  then show ?thesis by (simp add: runFrom_def)
qed

lemma withLine_texts: "(\<And>l. rl_text (f l) = rl_text l) \<Longrightarrow> map rl_text (withLine r i f) = map rl_text (cr_lines r)"
proof -
  assume f: "\<And>l. rl_text (f l) = rl_text l"
  have "map (rl_text \<circ> (\<lambda>(j, l). if int j = i then f l else l)) (enumerate n lines) = map rl_text lines" for n lines
    by (induction lines arbitrary: n) (auto simp: f)
  then show ?thesis by (simp add: withLine_def)
qed

lemma runFrom_current:
  "i \<le> int (length lines) \<Longrightarrow> cr_current (runFrom lines i) = (if i = int (length lines) then i - 1 else i)"
  "cr_phase (runFrom lines i) = (if i \<ge> int (length lines) then Ph_done else Ph_running)"
  by (auto simp: runFrom_def)

lemma run_ok_current: "run_ok r \<Longrightarrow> 0 \<le> cr_current r \<and> cr_current r < int (length (cr_lines r))"
  by (auto simp: run_ok_def)

lemma length_withLine [simp]: "length (withLine r i f) = length (cr_lines r)"
  by (simp add: withLine_def)

lemma next_keep:
  "map rl_text lines = map rl_text (cr_lines r) \<Longrightarrow> p \<noteq> Ph_running \<Longrightarrow>
    next_or_same again r (r\<lparr>cr_lines := lines, cr_phase := p\<rparr>)"
  by (simp add: next_or_same_def sendsLine_def)

lemma next_from:
  assumes "run_ok r" and "map rl_text lines = map rl_text (cr_lines r)"
  shows "next_or_same again r (runFrom lines (cr_current r + 1))"
proof -
  have "length lines = length (cr_lines r)" using assms(2) by (metis length_map)
  then have "cr_current r + 1 \<le> int (length lines)" using run_ok_current [OF assms(1)] by simp
  then show ?thesis
    using assms(2) by (simp add: next_or_same_def sendsLine_def runFrom_texts runFrom_current)
qed

lemma next_again:
  assumes "run_ok r" and "cr_phase r = Ph_failed"
  shows "next_or_same True r (runFrom (cr_lines r) (cr_current r))"
  using run_ok_current [OF assms(1)] assms(2)
  by (simp add: next_or_same_def sendsLine_def runFrom_texts runFrom_current)

lemma finishLine_next: "run_ok r \<Longrightarrow> next_or_same again r (finishLine r e)"
  unfolding finishLine_def Let_def
  by (simp add: next_keep next_from withLine_texts)

lemma stopRun_next: "next_or_same again r (stopRun r)"
  unfolding stopRun_def by (simp add: next_keep withLine_texts)

lemma run_call_next:
  assumes "run_ok r"
  shows "next_or_same (c = Rc_retry) r (run_call r c)"
proof (cases c)
  case (Rc_prompt event)
  with finishLine_next [OF assms] stopRun_next show ?thesis
    by (cases event) (simp_all add: promptReached_def)
next
  case Rc_retry
  with next_again [OF assms] show ?thesis by (simp add: retryLine_def)
next
  case Rc_continue
  with next_from [OF assms refl] show ?thesis by (simp add: continueRun_def)
next
  case Rc_stop
  with stopRun_next show ?thesis by simp
qed

lemma remdups_adj_snoc:
  "xs \<noteq> [] \<Longrightarrow> remdups_adj (xs @ [y]) = (if last xs = y then remdups_adj xs else remdups_adj xs @ [y])"
  by (induction xs rule: remdups_adj.induct) auto

text \<open>From a run whose sent lines are those up to the current one, each maybe again and again.\<close>

definition sent_up_to :: "nat list \<Rightarrow> ComposerRun \<Rightarrow> bool" where
  "sent_up_to sent r \<longleftrightarrow> sent \<noteq> [] \<and> last sent = nat (cr_current r) \<and> remdups_adj sent = [0..<Suc (nat (cr_current r))]"

lemma lines_sent_up_to:
  "run_ok r \<Longrightarrow> sent_up_to sent r \<Longrightarrow>
    run_ok (run run_call r cs) \<and> sent_up_to (sent @ lines_sent r cs) (run run_call r cs)
    \<and> map rl_text (cr_lines (run run_call r cs)) = map rl_text (cr_lines r)"
proof (induction cs arbitrary: r sent)
  case (Cons c cs)
  let ?q = "run_call r c"
  have step: "next_or_same (c = Rc_retry) r ?q" by (rule run_call_next [OF Cons.prems(1)])
  have "sent_up_to (sent @ (if sendsLine r ?q then [nat (cr_current ?q)] else [])) ?q"
    using step Cons.prems run_ok_current [OF Cons.prems(1)]
    by (auto simp: next_or_same_def sent_up_to_def remdups_adj_snoc nat_add_distrib split: if_splits)
  from Cons.IH [OF run_call_ok [OF Cons.prems(1)] this] step show ?case
    by (simp add: next_or_same_def)
qed simp

section \<open>The runs of all tabs\<close>

definition composer_ok :: "ComposerRuns \<Rightarrow> bool" where
  "composer_ok s \<longleftrightarrow> (\<forall>tabId r. cs_runs s tabId = Some r \<longrightarrow> run_ok r)
     \<and> (\<forall>tabId. cs_following s tabId \<noteq> None \<longleftrightarrow> isRunActive (cs_runs s tabId))"

lemma keep_run_ok:
  assumes "\<forall>t q. t \<noteq> tabId \<and> cs_runs s t = Some q \<longrightarrow> run_ok q"
    and "\<forall>t. t \<noteq> tabId \<longrightarrow> (cs_following s t \<noteq> None \<longleftrightarrow> isRunActive (cs_runs s t))"
    and "cs_following s tabId \<noteq> None \<or> \<not> isRunActive (Some r)" and "run_ok r"
  shows "composer_ok (keep_run tabId r s)"
  using assms by (auto simp: composer_ok_def keep_run_def stopFollowing_def Let_def)

lemma inactive_stop: "\<not> isRunActive (Some (stopRun r))"
  by (auto simp: isRunActive_def stopRun_def)

lemma sends_active: "sendsLine p r \<Longrightarrow> isRunActive (Some r)"
  by (simp add: sendsLine_def isRunActive_def)

lemma update_run_ok:
  assumes ok: "composer_ok s" and change: "\<And>r. run_ok r \<Longrightarrow> run_ok (f r)"
    and inactive: "\<And>r. \<not> isRunActive (Some r) \<Longrightarrow> f r = r"
  shows "composer_ok (update_run tabId f s)"
proof (cases "cs_runs s tabId")
  case (Some r)
  have r: "run_ok r" using ok Some by (simp add: composer_ok_def)
  have keep: "composer_ok (keep_run tabId q (s\<lparr>cs_sent := x\<rparr>))" if "run_ok q" "f r \<noteq> r" for q x
    by (rule keep_run_ok) (use ok Some that inactive [of r] in \<open>auto simp: composer_ok_def\<close>)
  then have "composer_ok (keep_run tabId q s)" if "run_ok q" "f r \<noteq> r" for q
    using that keep [of q "cs_sent s"] by simp
  with keep show ?thesis using Some ok change [OF r] stopRun_ok [OF r]
    by (auto simp: update_run_def apply_run_def split: option.split)
qed (simp add: update_run_def ok)

lemma inactive_calls:
  assumes "\<not> isRunActive (Some r)"
  shows "retryLine r = r" and "continueRun r = r" and "stopRun r = r" and "promptReached r event = r"
  using assms
  by (auto simp: isRunActive_def retryLine_def continueRun_def stopRun_def promptReached_def finishLine_def
      split: PromptEvent.split)

lemma apply_first:
  assumes "lines \<noteq> []" and "cs_targets s tabId = Some target"
  shows "apply_run tabId ((startRun lines)\<lparr>cr_phase := Ph_done\<rparr>) (startRun lines) s = keep_run tabId (startRun lines)
    (s\<lparr>cs_sent := cs_sent s @ [(tabId, composerInput (rl_text (cr_lines (startRun lines) ! nat (cr_current (startRun lines)))) False)]\<rparr>)"
proof -
  have running: "cr_phase (startRun lines) = Ph_running"
    using assms(1) by (simp add: startRun_def runFrom_current)
  then have "startRun lines \<noteq> (startRun lines)\<lparr>cr_phase := Ph_done\<rparr>"
    by (metis ComposerRun.select_convs(2) ComposerRun.surjective ComposerRun.update_convs(2) RunPhase.distinct(3))
  with running assms(2) show ?thesis by (simp add: apply_run_def sendsLine_def)
qed

lemma start_ok:
  assumes "composer_ok s"
  shows "composer_ok (snd (startComposerRun tabId lines promptState s))"
proof -
  have "composer_ok (keep_run tabId (startRun lines)
      (s\<lparr>cs_following := f(tabId \<mapsto> target), cs_sent := x\<rparr>))"
    if "lines \<noteq> []" "f = cs_following s \<or> f = (cs_following s)(tabId := None)" for target x f
    by (rule keep_run_ok) (use assms startRun_ok [OF that(1)] that(2) in \<open>auto simp: composer_ok_def\<close>)
  with assms show ?thesis
    by (auto simp: startComposerRun_def apply_first stopFollowing_def Let_def split: option.split ShellPromptState.split)
qed

lemma register_ok: "composer_ok s \<Longrightarrow> composer_ok (s\<lparr>cs_targets := x\<rparr>)"
  by (simp add: composer_ok_def)

lemma dismiss_ok: "composer_ok s \<Longrightarrow> composer_ok (dismissComposerRun tabId s)"
  by (auto simp: composer_ok_def dismissComposerRun_def isRunActive_def)

lemma composer_step_ok:
  assumes "composer_ok s"
  shows "composer_ok (composer_step s call)"
proof (cases call)
  case (Cc_prompt tabId target event)
  have "composer_ok (update_run tabId (\<lambda>r. promptReached r event) s)"
    by (rule update_run_ok [OF assms]) (simp_all add: promptReached_ok inactive_calls)
  with Cc_prompt assms show ?thesis by simp
next
  case (Cc_retry tabId)
  then show ?thesis using update_run_ok [OF assms, of retryLine] by (simp add: retry_continue_ok inactive_calls)
next
  case (Cc_continue tabId)
  then show ?thesis using update_run_ok [OF assms, of continueRun] by (simp add: retry_continue_ok inactive_calls)
next
  case (Cc_stop tabId)
  then show ?thesis using update_run_ok [OF assms, of stopRun] by (simp add: stopRun_ok inactive_calls)
qed (use assms in \<open>simp_all add: start_ok dismiss_ok register_ok registerComposerTarget_def unregister_def\<close>)

interpretation composer: total_machine composer_step no_runs composer_ok
  by unfold_locales (simp_all add: composer_step_ok, simp add: composer_ok_def no_runs_def isRunActive_def)

section \<open>When a line is sent\<close>

text \<open>The shell ended the running line without a failure: it ran something, or the line was a comment.\<close>

definition line_over :: "ComposerRun \<Rightarrow> PromptEvent \<Rightarrow> bool" where
  "line_over r event \<longleftrightarrow> cr_phase r = Ph_running \<and> (case event of
     Pe_ended \<Rightarrow> False
   | Pe_prompt exitCode startedCommand status \<Rightarrow>
       startedCommand \<noteq> Some False \<and> (exitCode = None \<or> exitCode = Some 0)
       \<or> startedCommand = Some False \<and> is_comment (rl_text (cr_lines r ! nat (cr_current r))))"

text \<open>What may make the module send a line of a tab: a start at the prompt, the end of the line before, the user.\<close>

definition may_send :: "ComposerRuns \<Rightarrow> string \<Rightarrow> ComposerCall \<Rightarrow> bool" where
  "may_send s tabId call \<longleftrightarrow> (case call of
     Cc_start t lines promptState \<Rightarrow> t = tabId \<and> \<not> isRunActive (cs_runs s tabId)
       \<and> (\<exists>target. cs_targets s tabId = Some target \<and> promptState target = Sp_prompt)
   | Cc_prompt t target event \<Rightarrow> t = tabId \<and> cs_following s tabId = Some target
       \<and> (\<exists>r. cs_runs s tabId = Some r \<and> line_over r event)
   | Cc_retry t \<Rightarrow> t = tabId \<and> (\<exists>r. cs_runs s tabId = Some r \<and> cr_phase r = Ph_failed)
   | Cc_continue t \<Rightarrow> t = tabId \<and> (\<exists>r. cs_runs s tabId = Some r \<and> cr_phase r = Ph_failed)
   | _ \<Rightarrow> False)"

lemma sent_of_keep [simp]: "cs_sent (keep_run tabId r s) = cs_sent s" "cs_runs (keep_run tabId r s) tabId = Some r"
  by (simp_all add: keep_run_def stopFollowing_def Let_def)

definition sends_current :: "string \<Rightarrow> ComposerRuns \<Rightarrow> ComposerRuns \<Rightarrow> bool" where
  "sends_current tabId s s' \<longleftrightarrow> (\<exists>r. cs_runs s' tabId = Some r \<and> cr_phase r = Ph_running
     \<and> cs_sent s' = cs_sent s @ [(tabId, composerInput (rl_text (cr_lines r ! nat (cr_current r))) False)])"

lemma update_run_sends:
  "cs_sent (update_run tabId f s) = cs_sent s
    \<or> sends_current tabId s (update_run tabId f s) \<and> (\<exists>r. cs_runs s tabId = Some r \<and> sendsLine r (f r))"
  by (auto simp: update_run_def apply_run_def sends_current_def sendsLine_def split: option.split)

lemma prompt_sends: "sendsLine r (promptReached r event) \<Longrightarrow> line_over r event"
proof -
  have "\<not> sendsLine q (stopRun q)" for q by (auto simp: sendsLine_def stopRun_def)
  moreover have "sendsLine r (finishLine r e) \<Longrightarrow> cr_phase r = Ph_running \<and> (e = None \<or> e = Some 0)" for e
    by (auto simp: sendsLine_def finishLine_def Let_def split: if_splits)
  moreover have "\<not> sendsLine r r" by (simp add: sendsLine_def)
  ultimately show "sendsLine r (promptReached r event) \<Longrightarrow> line_over r event"
    by (cases event) (auto simp: promptReached_def line_over_def split: if_splits)
qed

lemma step_sends:
  "cs_sent (composer_step s call) = cs_sent s
    \<or> (\<exists>tabId. sends_current tabId s (composer_step s call) \<and> may_send s tabId call)"
proof (cases call)
  case (Cc_start tabId lines promptState)
  have "cr_phase (startRun lines) = Ph_running" if "lines \<noteq> []"
    using that by (simp add: startRun_def runFrom_current)
  then show ?thesis using Cc_start
    by (auto simp: startComposerRun_def apply_first stopFollowing_def may_send_def sends_current_def Let_def
        split: option.split ShellPromptState.split)
next
  case (Cc_prompt tabId target event)
  then show ?thesis using update_run_sends [of tabId "\<lambda>r. promptReached r event" s] prompt_sends
    by (auto simp: may_send_def)
next
  case (Cc_retry tabId)
  then show ?thesis using update_run_sends [of tabId retryLine s]
    by (auto simp: may_send_def retryLine_def sendsLine_def split: if_splits)
next
  case (Cc_continue tabId)
  then show ?thesis using update_run_sends [of tabId continueRun s]
    by (auto simp: may_send_def continueRun_def sendsLine_def split: if_splits)
next
  case (Cc_stop tabId)
  then show ?thesis using update_run_sends [of tabId stopRun s]
    by (auto simp: stopRun_def sendsLine_def split: if_splits)
qed (simp_all add: registerComposerTarget_def unregister_def dismissComposerRun_def)

text \<open>What the paste holds when the text holds no escape character.\<close>

lemma without_marker_set: "c \<in> set (without_marker sep s) \<Longrightarrow> c \<in> set s"
  by (induction sep s rule: without_marker.induct) (auto split: if_splits dest: in_set_dropD)

lemma unix_breaks_set: "c \<in> set (unix_breaks s) \<Longrightarrow> c \<in> set s \<or> c = LF"
  by (induction s rule: unix_breaks.induct) (auto split: if_splits)

section \<open>Properties\<close>

text \<open>C23: A run sends its lines in their order, one after the other: without the repetitions of a line run again,
  the lines sent are those up to the current one, and a run that is done sent them all. The lines before the
  current one have ended, the ones after it wait, and no line's text changes.\<close>

theorem lines_are_sent_in_order:
  fixes calls :: "RunCall list" and lines :: "string list"
  defines "r \<equiv> run run_call (startRun lines) calls"
  assumes "lines \<noteq> []"
  shows "remdups_adj (0 # lines_sent (startRun lines) calls) = [0..<Suc (nat (cr_current r))]
    \<and> (cr_phase r = Ph_done \<longrightarrow> remdups_adj (0 # lines_sent (startRun lines) calls) = [0..<length lines])
    \<and> run_ok r \<and> map rl_text (cr_lines r) = lines"
proof -
  have start: "sent_up_to [0] (startRun lines)"
    using assms(2) by (simp add: sent_up_to_def startRun_def runFrom_current)
  have texts: "map rl_text (cr_lines (startRun lines)) = lines"
    by (simp add: startRun_def runFrom_texts o_def)
  note all = lines_sent_up_to [OF startRun_ok [OF assms(2)] start, of calls, folded r_def]
  have "length (cr_lines r) = length lines" using all texts by (metis length_map)
  moreover have "Suc (nat (cr_current r)) = length (cr_lines r)" if "cr_phase r = Ph_done"
    using all that by (auto simp: run_ok_def)
  ultimately show ?thesis using all texts by (auto simp: sent_up_to_def simp del: upt_Suc remdups_adj.simps)
qed

theorem lines_are_sent_in_order_witness:
  "remdups_adj (0 # lines_sent (startRun [''a'', ''b'']) [Rc_prompt (Pe_prompt (Some 1) (Some True) None), Rc_retry])
     = [0..<Suc (nat (cr_current (run run_call (startRun [''a'', ''b''])
          [Rc_prompt (Pe_prompt (Some 1) (Some True) None), Rc_retry])))]"
proof -
  have "[''a'', ''b''] \<noteq> []" by simp
  from lines_are_sent_in_order [OF this] show ?thesis by blast
qed

text \<open>C24: A line goes to a terminal only when the shell can take it: when a run starts at a prompt, when the line
  before ended without failing, or when the user says so after a failure. Whatever calls come, a step sends one
  line at most, the one that then runs, and a run is listened for exactly while it is active.\<close>

theorem line_waits_for_the_shell:
  fixes calls :: "ComposerCall list"
  defines "s \<equiv> run composer_step no_runs calls"
  shows "(cs_sent (composer_step s call) = cs_sent s
      \<or> (\<exists>tabId. sends_current tabId s (composer_step s call) \<and> may_send s tabId call))
    \<and> (\<forall>tabId. cs_following s tabId \<noteq> None \<longleftrightarrow> isRunActive (cs_runs s tabId))"
  using step_sends composer.inv_any_run [of calls] by (simp add: s_def composer_ok_def)



end
