(* ===== verification/Shell_Commands.thy ===== *)
theory Shell_Commands
  imports Composer
begin

text \<open>
  The commands in the compose bar's text (\<open>src/src/lib/shellCommands.ts\<close>). The scanner's
  state is a record; a line is read from the left, with the character before the
  current one, which the test for a comment looks at. Each round takes at least one
  character, which is why the scan ends.
\<close>

section \<open>The scanner\<close>

definition LEADS :: "string list" where
  "LEADS = [''if'', ''elif'', ''while'', ''until'', ''for'', ''select'']"

definition PREFIXES :: "string list" where
  "PREFIXES = [''then'', ''do'', ''else'', ''elif'', ''if'', ''while'', ''until'', ''!'', ''time'', ''{'']"

abbreviation backslash :: char where "backslash \<equiv> CHR 0x5C"
abbreviation single_quote :: char where "single_quote \<equiv> CHR 0x27"
abbreviation double_quote :: char where "double_quote \<equiv> CHR 0x22"
abbreviation back_quote :: char where "back_quote \<equiv> CHR 0x60"

definition is_quote :: "char \<Rightarrow> bool" where
  "is_quote c \<longleftrightarrow> c = single_quote \<or> c = double_quote \<or> c = back_quote"

text \<open>\<open>BREAKS\<close>.\<close>

definition BREAKS :: "char \<Rightarrow> bool" where
  "BREAKS c \<longleftrightarrow> is_space c \<or> is_quote c \<or> c = backslash \<or> c \<in> set '';&|()<>''"

record Heredoc =
  hd_word :: string
  hd_stripTabs :: bool

record ScanState =
  ss_quote :: "char option"
  ss_blocks :: nat
  ss_leads :: nat
  ss_parens :: nat
  ss_heredocs :: "Heredoc list"

definition new_scan :: ScanState where
  "new_scan = \<lparr>ss_quote = None, ss_blocks = 0, ss_leads = 0, ss_parens = 0, ss_heredocs = []\<rparr>"

text \<open>\<open>/\sin(\s|$)/\<close>.\<close>

fun has_in :: "string \<Rightarrow> bool" where
  "has_in [] = False"
| "has_in (c # s) = ((is_space c \<and> starts_with s ''in'' \<and> (length s = 2 \<or> (length s > 2 \<and> is_space (s ! 2)))) \<or> has_in s)"

definition noteKeyword :: "string \<Rightarrow> string \<Rightarrow> ScanState \<Rightarrow> ScanState" where
  "noteKeyword word' rest' st =
     (if word' \<in> set LEADS
      then let st = st\<lparr>ss_leads := ss_leads st + 1\<rparr>
           in if word' = ''elif'' then st\<lparr>ss_blocks := ss_blocks st - 1\<rparr> else st
      else if (word' = ''then'' \<or> word' = ''do'') \<and> ss_leads st > 0
      then st\<lparr>ss_leads := ss_leads st - 1, ss_blocks := ss_blocks st + 1\<rparr>
      else if word' = ''case'' \<and> has_in rest' then st\<lparr>ss_blocks := ss_blocks st + 1\<rparr>
      else if word' = ''fi'' \<or> word' = ''done'' \<or> word' = ''esac'' then st\<lparr>ss_blocks := ss_blocks st - 1\<rparr>
      else if word' = ''end'' \<and> ss_leads st > 0 then st\<lparr>ss_leads := ss_leads st - 1\<rparr>
      else st)"

text \<open>
  The here-document at the start of a string: \<open>/^<<(-?)[ \t]*\\?(['"]?)([^\s'"\\;&|<>()]+)\2/\<close>.
  The word takes all it can; with a quote it must be followed by that quote.
\<close>

definition heredoc_char :: "char \<Rightarrow> bool" where
  "heredoc_char c \<longleftrightarrow> \<not> (is_space c \<or> c = single_quote \<or> c = double_quote \<or> c = backslash \<or> c \<in> set '';&|<>()'')"

text \<open>After \<open><<\<close> and maybe a dash: the word, and what is left.\<close>

definition heredoc_word :: "string \<Rightarrow> (string \<times> string) option" where
  "heredoc_word s =
     (let s3 = dropWhile (\<lambda>c. c = CHR '' '' \<or> c = CHR 0x09) s;
          s4 = (if starts_with s3 [backslash] then drop 1 s3 else s3);
          quoted = (s4 \<noteq> [] \<and> (hd s4 = single_quote \<or> hd s4 = double_quote));
          s5 = (if quoted then drop 1 s4 else s4);
          word' = takeWhile heredoc_char s5;
          s6 = drop (length word') s5
      in if word' = [] \<or> (quoted \<and> (s6 = [] \<or> hd s6 \<noteq> hd s4)) then None
         else Some (word', if quoted then drop 1 s6 else s6))"

text \<open>A dash that no word follows is itself the word, as the expression then matches without it.\<close>

definition read_heredoc :: "string \<Rightarrow> (Heredoc \<times> nat) option" where
  "read_heredoc s =
     (let s1 = drop 2 s;
          read = (\<lambda>dash t. case heredoc_word t of
            Some (word', left') \<Rightarrow> Some (\<lparr>hd_word = word', hd_stripTabs = dash\<rparr>, 2 + (length s1 - length left'))
          | None \<Rightarrow> None)
      in if starts_with s1 ''-'' then or_else (read True (drop 1 s1)) (read False s1) else read False s1)"

text \<open>
  One round at \<open>c # s\<close>, after the characters \<open>prev\<close> of the line: \<open>Inl\<close> what the scan
  returns, or \<open>Inr\<close> how many characters it takes, whether a command starts after them,
  and the state.
\<close>

definition scan_word :: "bool \<Rightarrow> string \<Rightarrow> ScanState \<Rightarrow> nat \<times> bool \<times> ScanState" where
  "scan_word commandStart s st =
     (let word' = takeWhile (\<lambda>c. \<not> BREAKS c) s;
          rest' = drop (length word') s;
          whole = (rest' = [] \<or> \<not> (is_quote (hd rest') \<or> hd rest' = backslash));
          st = (if word' = ''{'' then st\<lparr>ss_leads := ss_leads st - 1, ss_blocks := ss_blocks st + 1\<rparr>
                else if word' = ''}'' then st\<lparr>ss_blocks := ss_blocks st - 1\<rparr>
                else if commandStart \<and> whole then noteKeyword word' rest' st
                else st)
      in (length word', commandStart \<and> word' \<in> set PREFIXES, st))"

definition scan_round ::
  "char option \<Rightarrow> bool \<Rightarrow> string \<Rightarrow> ScanState \<Rightarrow> (bool \<times> ScanState) + (nat \<times> bool \<times> ScanState)" where
  "scan_round prev commandStart s st =
     (let c = hd s in
      case ss_quote st of
        Some quote \<Rightarrow>
          if c = backslash \<and> quote \<noteq> single_quote then Inr (2, commandStart, st)
          else Inr (1, commandStart, if c = quote then st\<lparr>ss_quote := None\<rparr> else st)
      | None \<Rightarrow>
          if c = backslash then (if length s = 1 then Inl (True, st) else Inr (2, False, st))
          else if is_quote c then Inr (1, False, st\<lparr>ss_quote := Some c\<rparr>)
          else if c = CHR ''#'' \<and> (case prev of None \<Rightarrow> True | Some p \<Rightarrow> is_space p \<or> p \<in> set '';&|()'') then Inl (False, st)
          else if c \<in> set '';&|()''
          then Inr (1, True,
            if c = CHR ''('' then st\<lparr>ss_parens := ss_parens st + 1\<rparr>
            else if c = CHR '')'' \<and> ss_parens st > 0 then st\<lparr>ss_parens := ss_parens st - 1\<rparr> else st)
          else if starts_with s ''<<<'' then Inr (3, commandStart, st)
          else if starts_with s ''<<''
          then (case read_heredoc s of
                  Some (heredoc, n) \<Rightarrow> Inr (n, False, st\<lparr>ss_heredocs := ss_heredocs st @ [heredoc]\<rparr>)
                | None \<Rightarrow> Inr (2, False, st))
          else if is_space c \<or> c = CHR ''<'' \<or> c = CHR ''>'' then Inr (1, commandStart, st)
          else Inr (scan_word commandStart s st))"

text \<open>The words of \<open>scan_word\<close> are never empty where it is called, so every round moves on.\<close>

lemma read_heredoc_moves: "read_heredoc s = Some (h, n) \<Longrightarrow> 0 < n"
  by (auto simp: read_heredoc_def Let_def split: if_splits option.splits
      elim!: or_else.elims)

lemma scan_word_moves:
  assumes "s \<noteq> []" and "\<not> BREAKS (hd s)"
  shows "0 < fst (scan_word commandStart s st)"
  using assms by (cases s) (simp_all add: scan_word_def Let_def)

lemma scan_round_moves:
  assumes "s \<noteq> []" and "scan_round prev commandStart s st = Inr (n, cs, st')"
  shows "0 < n"
proof (cases "ss_quote st")
  case (Some quote)
  with assms(2) show ?thesis by (auto simp: scan_round_def Let_def split: if_splits)
next
  case None
  show ?thesis
  proof (cases "BREAKS (hd s)")
    case True
    have "0 < m" if "Inr (m, x) = Inr (n, cs, st')" "m = Suc k \<or> m = Suc (Suc k)" for m x k
      using that by auto
    with assms(2) None True show ?thesis
      by (auto simp: scan_round_def Let_def BREAKS_def is_quote_def dest: read_heredoc_moves
          split: if_splits option.splits)
  next
    case False
    with scan_word_moves [OF assms(1) False, of commandStart st] assms(2) None show ?thesis
      by (auto simp: scan_round_def Let_def dest: read_heredoc_moves split: if_splits option.splits)
  qed
qed

function scan_line :: "char option \<Rightarrow> bool \<Rightarrow> string \<Rightarrow> ScanState \<Rightarrow> bool \<times> ScanState" where
  "scan_line prev commandStart s st =
     (if s = [] then (False, st)
      else case scan_round prev commandStart s st of
             Inl r \<Rightarrow> r
           | Inr (n, cs, st') \<Rightarrow> scan_line (Some (s ! (min n (length s) - 1))) cs (drop n s) st')"
  by pat_completeness auto
termination
  by (relation "measure (\<lambda>(prev, cs, s, st). length s)") (auto dest: scan_round_moves [rotated])

declare scan_line.simps [simp del]

definition scanLine :: "string \<Rightarrow> ScanState \<Rightarrow> bool \<times> ScanState" where
  "scanLine line st = scan_line None True line st"

section \<open>The commands\<close>

text \<open>The body of the loop over the lines: a line of a here-document, or one the scanner reads.\<close>

definition read_line :: "string \<Rightarrow> ScanState \<Rightarrow> bool \<times> ScanState" where
  "read_line line st =
     (case ss_heredocs st of
        body # bodies \<Rightarrow>
          (False, if (if hd_stripTabs body then dropWhile (\<lambda>c. c = CHR 0x09) line else line) = hd_word body
                  then st\<lparr>ss_heredocs := bodies\<rparr> else st)
      | [] \<Rightarrow> scanLine line st)"

definition is_open :: "bool \<times> ScanState \<Rightarrow> bool" where
  "is_open r = (case r of (continues, st) \<Rightarrow>
     continues \<or> ss_quote st \<noteq> None \<or> ss_blocks st > 0 \<or> ss_leads st > 0 \<or> ss_parens st > 0 \<or> ss_heredocs st \<noteq> [])"

fun split_lines :: "string list \<Rightarrow> ScanState \<Rightarrow> string list \<Rightarrow> string list list" where
  "split_lines [] st current = (if current = [] then [] else [current])"
| "split_lines (line # lines) st current =
     (if current = [] \<and> trim line = [] then split_lines lines st current
      else let r = read_line line st
           in if is_open r then split_lines lines (snd r) (current @ [line])
              else (current @ [line]) # split_lines lines (snd r) [])"

definition text_lines :: "string \<Rightarrow> string list" where
  "text_lines text' = split_at (\<lambda>c. c = LF) (unix_breaks text')"

definition splitShellCommands :: "string \<Rightarrow> string list" where
  "splitShellCommands text' = map (join [LF]) (split_lines (text_lines text') new_scan [])"

definition runLines :: "string \<Rightarrow> string list" where
  "runLines text' = splitShellCommands text'"

section \<open>What the splitting keeps\<close>

definition blank :: "string \<Rightarrow> bool" where
  "blank line \<longleftrightarrow> trim line = []"

lemma split_lines_keep:
  "filter (\<lambda>l. \<not> blank l) (concat (split_lines ls st current)) = filter (\<lambda>l. \<not> blank l) (current @ ls)"
  by (induction ls st current rule: split_lines.induct) (auto simp: blank_def Let_def, (metis surj_pair)+)

lemma split_lines_from: "g \<in> set (split_lines ls st current) \<Longrightarrow> set g \<subseteq> set (current @ ls)"
  by (induction ls st current rule: split_lines.induct) (fastforce simp: Let_def split: if_splits)+

text \<open>The scanner after the lines of one command.\<close>

definition reads :: "string list \<Rightarrow> bool \<times> ScanState" where
  "reads ls = foldl (\<lambda>r line. read_line line (snd r)) (False, new_scan) ls"

text \<open>Open after every line but the last.\<close>

definition goes_on :: "string list \<Rightarrow> bool" where
  "goes_on ls \<longleftrightarrow> (\<forall>n. 0 < n \<and> n < length ls \<longrightarrow> is_open (reads (take n ls)))"

lemma reads_snoc: "reads (ls @ [l]) = read_line l (snd (reads ls))"
  by (simp add: reads_def)

lemma closed_is_new: "\<not> is_open r \<Longrightarrow> snd r = new_scan"
  by (cases r) (simp add: is_open_def new_scan_def)

lemma goes_on_snoc: "goes_on ls \<Longrightarrow> ls = [] \<or> is_open (reads ls) \<Longrightarrow> goes_on (ls @ [l])"
  unfolding goes_on_def
proof (intro allI impI)
  fix n
  assume all: "\<forall>n. 0 < n \<and> n < length ls \<longrightarrow> is_open (reads (take n ls))" and last': "ls = [] \<or> is_open (reads ls)"
    and n: "0 < n \<and> n < length (ls @ [l])"
  show "is_open (reads (take n (ls @ [l])))"
  proof (cases "n = length ls")
    case True
    with last' n show ?thesis by auto
  next
    case False
    with all n show ?thesis by simp
  qed
qed

definition whole_command :: "string list \<Rightarrow> bool" where
  "whole_command ls \<longleftrightarrow> ls \<noteq> [] \<and> \<not> blank (hd ls) \<and> goes_on ls"

lemma split_lines_whole:
  assumes "goes_on current" and "current = [] \<or> is_open (reads current) \<and> \<not> blank (hd current)" and "st = snd (reads current)"
  shows "list_all whole_command (split_lines ls st current)
    \<and> list_all (\<lambda>g. \<not> is_open (reads g)) (butlast (split_lines ls st current))"
  using assms
proof (induction ls st current rule: split_lines.induct)
  case (1 st current)
  then show ?case by (auto simp: whole_command_def)
next
  case (2 line lines st current)
  show ?case
  proof (cases "current = [] \<and> trim line = []")
    case True
    with 2 show ?thesis by simp
  next
    case False
    let ?r = "read_line line st" and ?next = "current @ [line]"
    have r: "reads ?next = ?r" using "2.prems"(3) by (simp add: reads_snoc)
    have on: "goes_on ?next" by (rule goes_on_snoc [OF "2.prems"(1)]) (use "2.prems"(2) in auto)
    have hd': "\<not> blank (hd ?next)" using "2.prems"(2) False by (cases current) (auto simp: blank_def)
    show ?thesis
    proof (cases "is_open ?r")
      case True
      with "2.IH"(2) [OF False _ True] on hd' r False show ?thesis by (auto simp: Let_def)
    next
      case closed: False
      have "goes_on []" by (simp add: goes_on_def)
      then have "list_all whole_command (split_lines lines (snd ?r) [])
          \<and> list_all (\<lambda>g. \<not> is_open (reads g)) (butlast (split_lines lines (snd ?r) []))"
        using "2.IH"(3) [OF False refl closed] closed_is_new [OF closed] by (simp add: reads_def)
      moreover have "whole_command ?next" using on hd' by (simp add: whole_command_def)
      ultimately show ?thesis using False closed r by (auto simp: Let_def)
    qed
  qed
qed

lemma no_breaks: "l \<in> set (text_lines t) \<Longrightarrow> c \<in> set l \<Longrightarrow> c \<noteq> LF \<and> c \<noteq> CR"
proof -
  have "c \<noteq> CR" if "c \<in> set (unix_breaks t)" for c t
    using that by (induction t rule: unix_breaks.induct) (auto split: if_splits)
  moreover have "c \<in> set l \<Longrightarrow> l \<in> set (split_at p s) \<Longrightarrow> c \<in> set s" for c l p s
    by (induction s arbitrary: l) (fastforce split: if_splits list.splits)+
  moreover assume "l \<in> set (text_lines t)" "c \<in> set l"
  ultimately show "c \<noteq> LF \<and> c \<noteq> CR" unfolding text_lines_def by (metis (full_types) split_at_parts)
qed

lemma unix_breaks_id: "CR \<notin> set s \<Longrightarrow> unix_breaks s = s"
  by (induction s rule: unix_breaks.induct) auto

lemma text_lines_join:
  assumes "g \<noteq> []" and "\<And>l c. l \<in> set g \<Longrightarrow> c \<in> set l \<Longrightarrow> c \<noteq> LF \<and> c \<noteq> CR"
  shows "text_lines (join [LF] g) = g"
proof -
  have "c \<in> set (join [LF] ls) \<Longrightarrow> c = LF \<or> (\<exists>l\<in>set ls. c \<in> set l)" for c ls
    by (induction "[LF]" ls rule: join.induct) auto
  then have "CR \<notin> set (join [LF] g)" using assms(2) by force
  then show ?thesis
    using split_at_join [of g "\<lambda>c. c = LF" LF] assms by (auto simp: text_lines_def unix_breaks_id)
qed

text \<open>
  Every line of the text that is not blank goes to the shell once and in its place, as part of one
  command; a command starts with such a line and is as short as can be: the scanner finds it open after each of
  its lines but the last, and closed after the last, but for the last command of the text, which goes as it is.\<close>

lemma commands_are_whole:
  fixes text' :: string
  defines "commands \<equiv> map text_lines (splitShellCommands text')"
  shows "filter (\<lambda>l. \<not> blank l) (concat commands) = filter (\<lambda>l. \<not> blank l) (text_lines text')
    \<and> list_all whole_command commands
    \<and> list_all (\<lambda>g. \<not> is_open (reads g)) (butlast commands)"
proof -
  let ?groups = "split_lines (text_lines text') new_scan []"
  have whole: "list_all whole_command ?groups \<and> list_all (\<lambda>g. \<not> is_open (reads g)) (butlast ?groups)"
    by (rule split_lines_whole) (simp_all add: goes_on_def reads_def)
  have "text_lines (join [LF] g) = g" if "g \<in> set ?groups" for g
  proof (rule text_lines_join)
    show "g \<noteq> []" using whole that by (auto simp: list_all_iff whole_command_def)
    show "\<And>l c. l \<in> set g \<Longrightarrow> c \<in> set l \<Longrightarrow> c \<noteq> LF \<and> c \<noteq> CR"
      using split_lines_from [OF that] no_breaks by auto
  qed
  then have "commands = ?groups" by (auto simp: commands_def splitShellCommands_def intro: map_idI)
  with whole split_lines_keep [of "text_lines text'" new_scan "[]"] show ?thesis by simp
qed

end
