(* ===== verification/Log_Replay.thy ===== *)
theory Log_Replay
  imports Js_String "HOL-Library.Word" "HOL-Library.Sublist"
begin

text \<open>
  Replaying a raw terminal log (\<open>src/src/lib/terminalLogReplay.ts\<close>): its frames, when
  each plays, how many have played, and the font they are drawn at. A buffer is a list
  of bytes and an offset into it is what is left of it; times are exact rationals in
  milliseconds, font sizes rationals.
\<close>

section \<open>Frames\<close>

type_synonym bytes = "8 word list"

text \<open>\<open>getUint16\<close>, \<open>getUint32\<close> and \<open>getBigUint64\<close>, little-endian.\<close>

fun le_value :: "bytes \<Rightarrow> nat" where
  "le_value [] = 0"
| "le_value (b # bs) = unat b + 256 * le_value bs"

definition FRAME_OUTPUT :: nat where "FRAME_OUTPUT = 0"
definition FRAME_RESIZE :: nat where "FRAME_RESIZE = 1"

datatype ReplayFrame = Fr_output (fr_at: rat) bytes | Fr_resize (fr_at: rat) nat nat

definition DEFAULT_REPLAY_SIZE :: "nat \<times> nat" where "DEFAULT_REPLAY_SIZE = (80, 24)"

text \<open>One round: the frame at the start of what is left, and what follows it; \<open>None\<close> for \<open>break\<close>.\<close>

definition read_frame :: "bytes \<Rightarrow> (ReplayFrame \<times> bytes) option" where
  "read_frame bs =
     (if length bs < 9 then None
      else let kind = unat (hd bs);
               atMs = of_nat (le_value (take 8 (drop 1 bs))) / 1000;
               body = drop 9 bs
           in if kind = FRAME_OUTPUT then
                (if length body < 4 then None
                 else let n = le_value (take 4 body); data = drop 4 body
                      in if length data < n then None else Some (Fr_output atMs (take n data), drop n data))
              else if kind = FRAME_RESIZE then
                (if length body < 4 then None
                 else Some (Fr_resize atMs (le_value (take 2 body)) (le_value (take 2 (drop 2 body))), drop 4 body))
              else None)"

lemma read_frame_shorter: "read_frame bs = Some (f, rest') \<Longrightarrow> length rest' < length bs"
  by (auto simp: read_frame_def Let_def split: if_splits)

function parseReplayFrames :: "bytes \<Rightarrow> ReplayFrame list" where
  "parseReplayFrames bs =
     (case read_frame bs of None \<Rightarrow> [] | Some (f, rest') \<Rightarrow> f # parseReplayFrames rest')"
  by pat_completeness auto
termination by (relation "measure length") (auto dest: read_frame_shorter)

declare parseReplayFrames.simps [simp del]

fun initialReplaySize :: "ReplayFrame list \<Rightarrow> nat \<times> nat" where
  "initialReplaySize [] = DEFAULT_REPLAY_SIZE"
| "initialReplaySize (Fr_resize t cols rows # fs) = (cols, rows)"
| "initialReplaySize (Fr_output t data # fs) = initialReplaySize fs"

section \<open>The timeline\<close>

fun play_from :: "rat option \<Rightarrow> rat \<Rightarrow> rat \<Rightarrow> ReplayFrame list \<Rightarrow> rat list" where
  "play_from idleLimitMs previousAt playAt [] = []"
| "play_from idleLimitMs previousAt playAt (f # fs) =
     (let gap = max 0 (fr_at f - previousAt);
          playAt = playAt + (case idleLimitMs of None \<Rightarrow> gap | Some limit \<Rightarrow> min gap limit)
      in playAt # play_from idleLimitMs (fr_at f) playAt fs)"

definition buildReplayTimeline :: "ReplayFrame list \<Rightarrow> rat option \<Rightarrow> rat list" where
  "buildReplayTimeline fs idleLimitMs = play_from idleLimitMs (case fs of [] \<Rightarrow> 0 | f # _ \<Rightarrow> fr_at f) 0 fs"

definition replayDuration :: "rat list \<Rightarrow> rat" where
  "replayDuration timeline = (if timeline = [] then 0 else last timeline)"

function played_between :: "rat list \<Rightarrow> rat \<Rightarrow> nat \<Rightarrow> nat \<Rightarrow> nat" where
  "played_between timeline timeMs low high =
     (if low < high
      then let middle = (low + high) div 2
           in if timeline ! middle \<le> timeMs then played_between timeline timeMs (middle + 1) high
              else played_between timeline timeMs low middle
      else low)"
  by pat_completeness auto
termination by (relation "measure (\<lambda>(timeline, t, low, high). high - low)") auto

declare played_between.simps [simp del]

definition framesPlayedBy :: "rat list \<Rightarrow> rat \<Rightarrow> nat" where
  "framesPlayedBy timeline timeMs = played_between timeline timeMs 0 (length timeline)"

definition formatReplayTime :: "rat \<Rightarrow> string" where
  "formatReplayTime ms =
     (let totalSeconds = max 0 \<lfloor>ms / 1000\<rfloor>;
          hours = totalSeconds div 3600;
          minutes = (totalSeconds mod 3600) div 60;
          seconds = totalSeconds mod 60;
          mmss = padStart (if hours > 0 then 2 else 1) (show_nat (nat minutes)) @ '':'' @ padStart 2 (show_nat (nat seconds))
      in if hours > 0 then show_nat (nat hours) @ '':'' @ mmss else mmss)"

section \<open>The font\<close>

definition MIN_REPLAY_FONT_SIZE :: rat where "MIN_REPLAY_FONT_SIZE = 6"
definition MAX_REPLAY_FONT_SIZE :: rat where "MAX_REPLAY_FONT_SIZE = 48"

definition clampReplayFontSize :: "rat \<Rightarrow> rat" where
  "clampReplayFontSize fontSize = min (max fontSize MIN_REPLAY_FONT_SIZE) MAX_REPLAY_FONT_SIZE"

definition fitReplayFontSize :: "rat \<Rightarrow> rat \<Rightarrow> rat \<Rightarrow> rat \<Rightarrow> rat" where
  "fitReplayFontSize fontSize text' chrome available =
     (if text' \<le> 0 then fontSize
      else clampReplayFontSize (of_int \<lfloor>fontSize * (available - chrome) / text' * 4\<rfloor> / 4))"

record ReplayBox =
  rb_width :: rat
  rb_height :: rat

definition replayFontSize :: "rat \<Rightarrow> rat \<Rightarrow> bool \<Rightarrow> ReplayBox \<Rightarrow> ReplayBox \<Rightarrow> ReplayBox \<Rightarrow> rat \<times> bool" where
  "replayFontSize fontSize preferred fit text' chrome available =
     (let largest = min (fitReplayFontSize fontSize (rb_width text') (rb_width chrome) (rb_width available))
                        (fitReplayFontSize fontSize (rb_height text') (rb_height chrome) (rb_height available));
          wanted = (if fit then largest else clampReplayFontSize preferred)
      in (min wanted largest, largest < wanted))"

section \<open>What the backend writes\<close>

text \<open>The format of \<open>load_terminal_log_recording\<close>, as the file describes it: a record in microseconds.\<close>

datatype LogRecord = Lr_output nat bytes | Lr_resize nat nat nat

fun le_bytes :: "nat \<Rightarrow> nat \<Rightarrow> bytes" where
  "le_bytes 0 n = []"
| "le_bytes (Suc k) n = word_of_nat n # le_bytes k (n div 256)"

fun write_record :: "LogRecord \<Rightarrow> bytes" where
  "write_record (Lr_output us data) = 0 # le_bytes 8 us @ le_bytes 4 (length data) @ data"
| "write_record (Lr_resize us cols rows) = 1 # le_bytes 8 us @ le_bytes 2 cols @ le_bytes 2 rows"

fun record_fits :: "LogRecord \<Rightarrow> bool" where
  "record_fits (Lr_output us data) \<longleftrightarrow> us < 2 ^ 64 \<and> length data < 2 ^ 32"
| "record_fits (Lr_resize us cols rows) \<longleftrightarrow> us < 2 ^ 64 \<and> cols < 2 ^ 16 \<and> rows < 2 ^ 16"

fun frame_of :: "LogRecord \<Rightarrow> ReplayFrame" where
  "frame_of (Lr_output us data) = Fr_output (of_nat us / 1000) data"
| "frame_of (Lr_resize us cols rows) = Fr_resize (of_nat us / 1000) cols rows"

lemma length_le_bytes [simp]: "length (le_bytes k n) = k"
  by (induction k arbitrary: n) auto

lemma le_value_bytes: "n < 256 ^ k \<Longrightarrow> le_value (le_bytes k n) = n"
proof (induction k arbitrary: n)
  case (Suc k)
  have "unat (word_of_nat n :: 8 word) = n mod 256" by (simp add: unat_of_nat)
  moreover have "n div 256 < 256 ^ k" using Suc.prems by (simp add: less_mult_imp_div_less mult.commute)
  ultimately show ?case using Suc.IH [of "n div 256"] by simp
qed simp

lemma read_output_parts:
  assumes "length a = 8" and "length b = 4"
  shows "read_frame (0 # a @ b @ d) =
    (if length d < le_value b then None
     else Some (Fr_output (of_nat (le_value a) / 1000) (take (le_value b) d), drop (le_value b) d))"
  using assms by (simp add: read_frame_def Let_def FRAME_OUTPUT_def)

lemma read_resize_parts:
  assumes "length a = 8" and "length b = 2" and "length c = 2"
  shows "read_frame (1 # a @ b @ c @ d) = Some (Fr_resize (of_nat (le_value a) / 1000) (le_value b) (le_value c), d)"
  using assms by (simp add: read_frame_def Let_def FRAME_OUTPUT_def FRAME_RESIZE_def)

lemma powers: "(256::nat) ^ 8 = 2 ^ 64" "(256::nat) ^ 4 = 2 ^ 32" "(256::nat) ^ 2 = 2 ^ 16"
  by simp_all

lemma read_written:
  assumes "record_fits r"
  shows "read_frame (write_record r @ bs) = Some (frame_of r, bs)"
proof (cases r)
  case (Lr_output us data)
  have us: "le_value (le_bytes 8 us) = us" and n: "le_value (le_bytes 4 (length data)) = length data"
    by (rule le_value_bytes, use assms Lr_output in \<open>simp only: record_fits.simps powers\<close>)+
  show ?thesis
    using read_output_parts [of "le_bytes 8 us" "le_bytes 4 (length data)" "data @ bs"] by (simp add: Lr_output us n)
next
  case (Lr_resize us cols rows)
  have "le_value (le_bytes 8 us) = us" "le_value (le_bytes 2 cols) = cols" "le_value (le_bytes 2 rows) = rows"
    by (rule le_value_bytes, use assms Lr_resize in \<open>simp only: record_fits.simps powers\<close>)+
  then show ?thesis
    using read_resize_parts [of "le_bytes 8 us" "le_bytes 2 cols" "le_bytes 2 rows" bs] by (simp add: Lr_resize)
qed

lemma read_too_short: "length bs < 9 \<Longrightarrow> read_frame bs = None" "length bs < 13 \<Longrightarrow> read_frame bs = None"
  by (auto simp: read_frame_def Let_def)

lemma read_cut:
  assumes "record_fits r" and "n < length (write_record r)"
  shows "read_frame (take n (write_record r)) = None"
proof (cases "n < 13")
  case True
  then show ?thesis using read_too_short(2) [of "take n (write_record r)"] by simp
next
  case False
  with assms(2) obtain us data where r: "r = Lr_output us data" by (cases r) auto
  have n: "le_value (le_bytes 4 (length data)) = length data"
    by (rule le_value_bytes) (use assms(1) r in \<open>simp only: record_fits.simps powers\<close>)
  have "take n (write_record r) = 0 # le_bytes 8 us @ le_bytes 4 (length data) @ take (n - 13) data"
    using False by (cases n) (simp_all add: r take_Cons')
  then show ?thesis
    using read_output_parts [of "le_bytes 8 us" "le_bytes 4 (length data)" "take (n - 13) data"] assms(2) False
    by (simp add: r n)
qed

section \<open>A recording read back\<close>

definition recording :: "LogRecord list \<Rightarrow> bytes" where
  "recording rs = concat (map write_record rs)"

lemma parse_recording:
  assumes "list_all record_fits rs"
  shows "parseReplayFrames (recording rs @ bs) = map frame_of rs @ parseReplayFrames bs"
  using assms
proof (induction rs)
  case (Cons r rs)
  then have "read_frame (recording (r # rs) @ bs) = Some (frame_of r, recording rs @ bs)"
    using read_written [of r "recording rs @ bs"] by (simp add: recording_def)
  with Cons show ?case by (subst parseReplayFrames.simps) (simp add: recording_def)
qed (simp add: recording_def)

text \<open>The records that lie within the first \<open>n\<close> bytes.\<close>

fun whole_within :: "nat \<Rightarrow> LogRecord list \<Rightarrow> LogRecord list" where
  "whole_within n [] = []"
| "whole_within n (r # rs) =
     (if length (write_record r) \<le> n then r # whole_within (n - length (write_record r)) rs else [])"

lemma parse_cut:
  "list_all record_fits rs \<Longrightarrow> parseReplayFrames (take n (recording rs)) = map frame_of (whole_within n rs)"
proof (induction rs arbitrary: n)
  case Nil
  then show ?case by (simp add: recording_def parseReplayFrames.simps [of "[]"] read_too_short)
next
  case (Cons r rs)
  show ?case
  proof (cases "length (write_record r) \<le> n")
    case True
    then have "take n (recording (r # rs)) = write_record r @ take (n - length (write_record r)) (recording rs)"
      by (simp add: recording_def)
    with Cons True read_written [of r] show ?thesis
      by (subst parseReplayFrames.simps) simp
  next
    case False
    with Cons read_cut [of r n] show ?thesis
      by (subst parseReplayFrames.simps) (simp add: recording_def)
  qed
qed

section \<open>What has played\<close>

lemma play_from_sorted:
  "(\<forall>l. limit = Some l \<longrightarrow> 0 \<le> l) \<Longrightarrow> sorted (play_from limit previous at' fs) \<and> (\<forall>t\<in>set (play_from limit previous at' fs). at' \<le> t)"
proof (induction fs arbitrary: previous at')
  case (Cons f fs)
  let ?at = "at' + (case limit of None \<Rightarrow> max 0 (fr_at f - previous) | Some l \<Rightarrow> min (max 0 (fr_at f - previous)) l)"
  have "at' \<le> ?at" using Cons.prems by (auto split: option.split)
  with Cons.IH [OF Cons.prems, of "fr_at f" ?at] show ?case by (fastforce simp: Let_def)
qed simp

text \<open>An index is right when the frames before it have played and the others have not.\<close>

definition splits_played :: "rat list \<Rightarrow> rat \<Rightarrow> nat \<Rightarrow> bool" where
  "splits_played timeline t k \<longleftrightarrow> k \<le> length timeline \<and> (\<forall>i<k. timeline ! i \<le> t)
     \<and> (\<forall>i. k \<le> i \<and> i < length timeline \<longrightarrow> t < timeline ! i)"

lemma played_between_splits:
  assumes "sorted timeline" and "low \<le> high" and "high \<le> length timeline"
    and "\<forall>i<low. timeline ! i \<le> t" and "\<forall>i. high \<le> i \<and> i < length timeline \<longrightarrow> t < timeline ! i"
  shows "splits_played timeline t (played_between timeline t low high)"
  using assms
proof (induction timeline t low high rule: played_between.induct)
  case (1 timeline t low high)
  show ?case
  proof (cases "low < high")
    case True
    let ?middle = "(low + high) div 2"
    have m: "low \<le> ?middle" "?middle < high" using True by auto
    show ?thesis
    proof (cases "timeline ! ?middle \<le> t")
      case le: True
      have "timeline ! i \<le> t" if "i < ?middle + 1" for i
      proof -
        have "timeline ! i \<le> timeline ! ?middle"
          by (rule sorted_nth_mono) (use 1(3,5) m that in auto)
        with le show ?thesis by simp
      qed
      then have "splits_played timeline t (played_between timeline t (?middle + 1) high)"
        using 1(1) [OF True refl le] 1 m by simp
      with True le show ?thesis by (subst played_between.simps) (simp add: Let_def)
    next
      case gt: False
      have "t < timeline ! i" if "?middle \<le> i" "i < length timeline" for i
      proof -
        have "timeline ! ?middle \<le> timeline ! i"
          by (rule sorted_nth_mono) (use 1(3) that in auto)
        with gt show ?thesis by simp
      qed
      then have "splits_played timeline t (played_between timeline t low ?middle)"
        using 1(2) [OF True refl gt] 1 m by simp
      with True gt show ?thesis by (subst played_between.simps) (simp add: Let_def)
    qed
  next
    case False
    with 1 show ?thesis by (subst played_between.simps) (auto simp: splits_played_def)
  qed
qed

lemma splits_played_count:
  "splits_played timeline t k \<Longrightarrow> length (filter (\<lambda>x. x \<le> t) timeline) = k"
proof -
  assume k: "splits_played timeline t k"
  have "filter (\<lambda>x. x \<le> t) (take k timeline) = take k timeline"
    using k by (auto simp: splits_played_def in_set_conv_nth intro!: filter_True)
  moreover have "filter (\<lambda>x. x \<le> t) (drop k timeline) = []"
  proof (rule filter_False, rule ballI)
    fix x
    assume "x \<in> set (drop k timeline)"
    then obtain i where "i < length timeline - k" "x = timeline ! (k + i)" by (auto simp: in_set_conv_nth)
    with k show "\<not> x \<le> t" by (auto simp: splits_played_def not_le)
  qed
  ultimately have "filter (\<lambda>x. x \<le> t) timeline = take k timeline"
    by (metis append_Nil2 append_take_drop_id filter_append)
  with k show ?thesis by (simp add: splits_played_def)
qed

lemma framesPlayedBy_count: "sorted timeline \<Longrightarrow> framesPlayedBy timeline t = length (filter (\<lambda>x. x \<le> t) timeline)"
  unfolding framesPlayedBy_def
  by (rule splits_played_count [OF played_between_splits, symmetric]) auto

section \<open>Properties\<close>

text \<open>
  A recording reads back frame by frame as the backend wrote it; one that breaks off anywhere, in the middle
  of a frame too, gives exactly the frames that lie whole before the break.\<close>

lemma recording_reads_back:
  assumes "list_all record_fits rs"
  shows "parseReplayFrames (recording rs) = map frame_of rs
    \<and> parseReplayFrames (take n (recording rs)) = map frame_of (whole_within n rs)
    \<and> prefix (whole_within n rs) rs"
proof -
  have "whole_within (length (recording rs)) rs = rs"
    by (induction rs) (simp_all add: recording_def)
  then have "parseReplayFrames (recording rs) = map frame_of rs"
    using parse_cut [OF assms, of "length (recording rs)"] by simp
  moreover have "prefix (whole_within n rs) rs" by (induction rs arbitrary: n) auto
  ultimately show ?thesis using parse_cut [OF assms] by blast
qed

lemma recording_reads_back_witness:
  "parseReplayFrames (take 20 (recording [Lr_resize 0 80 24, Lr_output 1500 [104, 105]])) = [Fr_resize 0 80 24]"
proof -
  have "list_all record_fits [Lr_resize 0 80 24, Lr_output 1500 [104, 105]]" by simp
  from recording_reads_back [OF this, of 20] show ?thesis by simp
qed

text \<open>
  The search counts the frames that play by a time: in the timeline of any frames, with or without a limit
  on pauses, it finds how many have a time that is not later. The search always ends.\<close>

lemma search_counts_played_frames:
  assumes "case idleLimitMs of None \<Rightarrow> True | Some limit \<Rightarrow> 0 \<le> limit"
  shows "framesPlayedBy (buildReplayTimeline fs idleLimitMs) t
      = length (filter (\<lambda>at'. at' \<le> t) (buildReplayTimeline fs idleLimitMs))
    \<and> sorted (buildReplayTimeline fs idleLimitMs) \<and> length (buildReplayTimeline fs idleLimitMs) = length fs"
proof -
  have "\<forall>l. idleLimitMs = Some l \<longrightarrow> 0 \<le> l" using assms by (cases idleLimitMs) simp_all
  from play_from_sorted [OF this] have "sorted (buildReplayTimeline fs idleLimitMs)"
    by (simp add: buildReplayTimeline_def)
  moreover have "length (play_from l p a fs) = length fs" for l p a
    by (induction fs arbitrary: p a) (simp_all add: Let_def)
  ultimately show ?thesis by (simp add: framesPlayedBy_count buildReplayTimeline_def)
qed

lemma search_counts_played_frames_witness:
  "framesPlayedBy (buildReplayTimeline [Fr_resize 0 80 24, Fr_output 9000 []] (Some 2000)) 1999 = 1"
proof -
  have "case Some (2000::rat) of None \<Rightarrow> True | Some limit \<Rightarrow> 0 \<le> limit" by simp
  note conjunct1 [OF search_counts_played_frames [OF this, of "[Fr_resize 0 80 24, Fr_output 9000 []]" 1999]]
  also have "buildReplayTimeline [Fr_resize 0 80 24, Fr_output 9000 []] (Some 2000) = [0, 2000]"
    by (simp add: buildReplayTimeline_def Let_def)
  finally show ?thesis by (simp add: \<open>buildReplayTimeline _ _ = _\<close>)
qed

lemma replay_fits_panel:
  "fst (replayFontSize fontSize preferred fit text' chrome available)
     \<le> min (fitReplayFontSize fontSize (rb_width text') (rb_width chrome) (rb_width available))
           (fitReplayFontSize fontSize (rb_height text') (rb_height chrome) (rb_height available))"
  by (simp only: replayFontSize_def Let_def fst_conv min.cobounded2)

end
