(* ===== verification/Command_Variables.thy ===== *)
theory Command_Variables
  imports Json Js_Sort
begin

text \<open>
  The variables of a saved command (\<open>src/src/lib/commandVariables.ts\<close>): the placeholders
  in its text, the values they start with, and the text with its values filled in. The
  bullet that masks a secret (U+2022) and the full-width comma lie outside the 8-bit
  strings: the first is an argument, the second cannot occur. \<open>JSON.parse\<close> is a
  parameter that may fail, \<open>finite_number\<close> stands for \<open>Number.isFinite(Number(value))\<close>.
\<close>

section \<open>Placeholders\<close>

definition name_start :: "char \<Rightarrow> bool" where
  "name_start c \<longleftrightarrow> is_letter c \<or> c = CHR ''_''"

text \<open>\<open>PLACEHOLDER_PATTERN\<close> at the start of a string: the name, and how much it takes.\<close>

definition placeholder_here :: "string \<Rightarrow> (string \<times> nat) option" where
  "placeholder_here s =
     (if \<not> starts_with s ''{{'' then None
      else let s1 = dropWhile is_space (drop 2 s);
               name = takeWhile is_word s1;
               s2 = dropWhile is_space (dropWhile is_word s1)
           in if name = [] \<or> \<not> name_start (hd name) \<or> \<not> starts_with s2 ''}}'' then None
              else Some (name, length s - length (drop 2 s2)))"

text \<open>The text as the matches cut it: what is between them, and each match with its name.\<close>

datatype piece = Literal char | Hole string string

lemma placeholder_moves: "placeholder_here s = Some (name, n) \<Longrightarrow> 0 < n"
proof -
  assume h: "placeholder_here s = Some (name, n)"
  have "length (dropWhile is_space (dropWhile is_word (dropWhile is_space (drop 2 s)))) \<le> length (drop 2 s)"
    by (meson le_trans length_dropWhile_le)
  with h show ?thesis
    by (auto simp: placeholder_here_def Let_def starts_with_iff split: if_splits)
qed

function pieces :: "string \<Rightarrow> piece list" where
  "pieces [] = []"
| "pieces (c # s) =
     (case placeholder_here (c # s) of
        Some (name, n) \<Rightarrow> Hole name (take n (c # s)) # pieces (drop n (c # s))
      | None \<Rightarrow> Literal c # pieces s)"
  by pat_completeness auto
termination by (relation "measure length") (auto dest: placeholder_moves)

fun hole_names :: "piece list \<Rightarrow> string list" where
  "hole_names [] = []"
| "hole_names (Literal c # ps) = hole_names ps"
| "hole_names (Hole name s # ps) = name # hole_names ps"

definition formatPlaceholder :: "string \<Rightarrow> string" where
  "formatPlaceholder name = ''{{'' @ name @ ''}}''"

definition extractPlaceholderNames :: "string \<Rightarrow> string list" where
  "extractPlaceholderNames commandText = nub (hole_names (pieces commandText))"

section \<open>Variables\<close>

datatype ValueType = Vt_text | Vt_number | Vt_choice | Vt_secret

record SavedCommandVariable =
  cv_name :: string
  cv_label :: string
  cv_valueType :: ValueType
  cv_defaultValue :: "string option"
  cv_optionsJson :: "string option"
  cv_isRequired :: bool
  cv_position :: int

definition json_strings :: "json list \<Rightarrow> string list" where
  "json_strings xs = List.map_filter (\<lambda>x. case x of JStr s \<Rightarrow> Some s | _ \<Rightarrow> None) xs"

definition parseChoiceOptions :: "(string \<Rightarrow> json option) \<Rightarrow> string option \<Rightarrow> string list" where
  "parseChoiceOptions parse optionsJson =
     (if \<not> truthy optionsJson then []
      else case parse (or_default optionsJson []) of
             Some (JArr xs) \<Rightarrow> json_strings xs
           | _ \<Rightarrow> [])"

definition parseChoiceOptionsText :: "string \<Rightarrow> string list" where
  "parseChoiceOptionsText value =
     nub (filter (\<lambda>option. option \<noteq> []) (map trim (split_at (\<lambda>c. c = CHR 0x0A \<or> c = CHR '','') value)))"

definition activeVariables :: "string \<Rightarrow> SavedCommandVariable list \<Rightarrow> SavedCommandVariable list" where
  "activeVariables commandText variables =
     (let names = extractPlaceholderNames commandText
      in js_sort (\<lambda>left right. cv_position left - cv_position right)
           (filter (\<lambda>variable. cv_name variable \<in> set names) variables))"

definition initial_value :: "(string \<Rightarrow> json option) \<Rightarrow> SavedCommandVariable \<Rightarrow> string" where
  "initial_value parse variable =
     (case cv_valueType variable of
        Vt_secret \<Rightarrow> []
      | Vt_choice \<Rightarrow>
          (let options = parseChoiceOptions parse (cv_optionsJson variable);
               fallback = (if cv_isRequired variable then (case options of [] \<Rightarrow> [] | first # _ \<Rightarrow> first) else [])
           in if truthy (cv_defaultValue variable) \<and> or_default (cv_defaultValue variable) [] \<in> set options
              then or_default (cv_defaultValue variable) [] else fallback)
      | _ \<Rightarrow> or_default (cv_defaultValue variable) [])"

text \<open>\<open>Object.fromEntries\<close>: of two entries with a name the later one counts.\<close>

definition initialVariableValues ::
  "(string \<Rightarrow> json option) \<Rightarrow> SavedCommandVariable list \<Rightarrow> string \<Rightarrow> string option" where
  "initialVariableValues parse variables =
     foldl (\<lambda>m variable. m(cv_name variable \<mapsto> initial_value parse variable)) Map.empty variables"

datatype VariableValueError = Ve_required | Ve_number

definition value_error ::
  "(string \<Rightarrow> bool) \<Rightarrow> (string \<Rightarrow> string option) \<Rightarrow> SavedCommandVariable \<Rightarrow> VariableValueError option" where
  "value_error finite_number vals variable =
     (let value = or_default (vals (cv_name variable)) []
      in if trim value = [] then (if cv_isRequired variable then Some Ve_required else None)
         else if cv_valueType variable = Vt_number \<and> \<not> finite_number value then Some Ve_number
         else None)"

definition validateVariableValues ::
  "(string \<Rightarrow> bool) \<Rightarrow> SavedCommandVariable list \<Rightarrow> (string \<Rightarrow> string option) \<Rightarrow> string \<Rightarrow> VariableValueError option" where
  "validateVariableValues finite_number variables vals =
     foldl (\<lambda>errors variable. case value_error finite_number vals variable of
         Some e \<Rightarrow> errors(cv_name variable \<mapsto> e) | None \<Rightarrow> errors) Map.empty variables"

text \<open>\<open>new Map(variables.map(...))\<close>, and what stands for a match.\<close>

definition by_name :: "SavedCommandVariable list \<Rightarrow> string \<Rightarrow> SavedCommandVariable option" where
  "by_name variables = map_of (rev (map (\<lambda>variable. (cv_name variable, variable)) variables))"

definition fill_in ::
  "char \<Rightarrow> SavedCommandVariable list \<Rightarrow> (string \<Rightarrow> string option) \<Rightarrow> bool \<Rightarrow> piece \<Rightarrow> string" where
  "fill_in bullet variables vals maskSecrets p =
     (case p of
        Literal c \<Rightarrow> [c]
      | Hole name placeholder \<Rightarrow>
          (case by_name variables name of
             None \<Rightarrow> placeholder
           | Some variable \<Rightarrow>
               (let value = or_default (vals name) []
                in if maskSecrets \<and> cv_valueType variable = Vt_secret \<and> value \<noteq> []
                   then replicate (min (length value) 8) bullet else value)))"

definition renderCommandText ::
  "char \<Rightarrow> string \<Rightarrow> SavedCommandVariable list \<Rightarrow> (string \<Rightarrow> string option) \<Rightarrow> bool \<Rightarrow> string" where
  "renderCommandText bullet commandText variables vals maskSecrets =
     concat (map (fill_in bullet variables vals maskSecrets) (pieces commandText))"

section \<open>What a rendered text shows\<close>

lemma pieces_whole: "concat (map (\<lambda>p. case p of Literal c \<Rightarrow> [c] | Hole name s \<Rightarrow> s) (pieces s)) = s"
  by (induction s rule: pieces.induct) (auto split: option.splits)

lemma pieces_left_alone:
  "(\<And>name s. Hole name s \<in> set ps \<Longrightarrow> by_name variables name = None)
   \<Longrightarrow> concat (map (fill_in bullet variables vals m) ps)
     = concat (map (\<lambda>p. case p of Literal c \<Rightarrow> [c] | Hole name s \<Rightarrow> s) ps)"
  by (rule arg_cong [where f = concat]) (auto simp: fill_in_def split: piece.splits)

lemma hole_names_set: "set (hole_names ps) = {name. \<exists>s. Hole name s \<in> set ps}"
  by (induction ps rule: hole_names.induct) auto

lemma by_name_none: "by_name variables name = None \<longleftrightarrow> name \<notin> cv_name ` set variables"
  by (auto simp: by_name_def map_of_eq_None_iff image_iff)

lemma by_name_some: "by_name variables name = Some v \<Longrightarrow> v \<in> set variables \<and> cv_name v = name"
  by (auto simp: by_name_def dest: map_of_SomeD)

definition same_but_secrets ::
  "SavedCommandVariable list \<Rightarrow> (string \<Rightarrow> string option) \<Rightarrow> (string \<Rightarrow> string option) \<Rightarrow> bool" where
  "same_but_secrets variables vals vals' = list_all (\<lambda>variable.
     (let value = or_default (vals (cv_name variable)) [];
          value' = or_default (vals' (cv_name variable)) []
      in if cv_valueType variable = Vt_secret then min (length value) 8 = min (length value') 8
         else value = value')) variables"

lemma fill_same:
  assumes "same_but_secrets variables vals vals'"
  shows "fill_in bullet variables vals True p = fill_in bullet variables vals' True p"
proof (cases p)
  case (Hole name s)
  show ?thesis
  proof (cases "by_name variables name")
    case None
    with Hole show ?thesis
      by (simp add: fill_in_def)
  next
    case (Some v)
    define w w' where "w = or_default (vals name) []" and "w' = or_default (vals' name) []"
    have "if cv_valueType v = Vt_secret then min (length w) 8 = min (length w') 8 else w = w'"
      using by_name_some [OF Some] assms
      by (auto simp: same_but_secrets_def list_all_iff Let_def w_def w'_def)
    moreover have "w = [] \<longleftrightarrow> w' = []" if "min (length w) 8 = min (length w') 8"
      using that by (cases w; cases w') auto
    ultimately show ?thesis
      by (simp add: fill_in_def Hole Some Let_def flip: w_def w'_def split: if_splits)
  qed
qed (simp add: fill_in_def)

lemma active_covers:
  "set (activeVariables commandText variables) = {v \<in> set variables. cv_name v \<in> set (extractPlaceholderNames commandText)}"
  unfolding activeVariables_def Let_def by simp

text \<open>
  C26: previews do not give secrets away. Two sets of values that differ only in secrets,
  with as many characters up to eight, show the same masked text. The names found in a
  text are distinct, and a text in which no variable is defined stays as it is.\<close>

theorem previews_hide_secrets:
  assumes "same_but_secrets variables vals vals'"
  shows "renderCommandText bullet commandText variables vals True = renderCommandText bullet commandText variables vals' True
    \<and> distinct (extractPlaceholderNames commandText)
    \<and> (activeVariables commandText variables = [] \<longrightarrow> renderCommandText bullet commandText variables vals masked = commandText)"
proof (intro conjI impI)
  show "renderCommandText bullet commandText variables vals True = renderCommandText bullet commandText variables vals' True"
    by (simp add: renderCommandText_def fill_same [OF assms, THEN ext])
  show "distinct (extractPlaceholderNames commandText)"
    by (simp add: extractPlaceholderNames_def)
  assume none: "activeVariables commandText variables = []"
  have "by_name variables name = None" if "Hole name s \<in> set (pieces commandText)" for name s
  proof -
    have "name \<in> set (extractPlaceholderNames commandText)"
      using that by (auto simp: extractPlaceholderNames_def hole_names_set)
    with none active_covers [of commandText variables] show ?thesis
      by (auto simp: by_name_none)
  qed
  from pieces_left_alone [OF this] show "renderCommandText bullet commandText variables vals masked = commandText"
    by (simp add: renderCommandText_def pieces_whole)
qed

theorem previews_hide_secrets_witness:
  "renderCommandText (CHR ''*'') ''login {{ user }} {{pw}} {{.Go}}''
       [\<lparr>cv_name = ''pw'', cv_label = ''pw'', cv_valueType = Vt_secret, cv_defaultValue = None,
         cv_optionsJson = None, cv_isRequired = True, cv_position = 0\<rparr>]
       [''pw'' \<mapsto> ''hunter2''] True
   = renderCommandText (CHR ''*'') ''login {{ user }} {{pw}} {{.Go}}''
       [\<lparr>cv_name = ''pw'', cv_label = ''pw'', cv_valueType = Vt_secret, cv_defaultValue = None,
         cv_optionsJson = None, cv_isRequired = True, cv_position = 0\<rparr>]
       [''pw'' \<mapsto> ''letmein''] True"
  by (rule previews_hide_secrets [THEN conjunct1]) (simp add: same_but_secrets_def)

end
