(* ===== verification/Command_Marks.thy ===== *)
theory Command_Marks
  imports Composer Terminal_Notifications
begin

text \<open>
  The prompts and commands of a terminal that its shell marks
  (\<open>src/src/components/TerminalTab/commandMarks.ts\<close>). The terminal and its markers are
  xterm's: an operation is given what it reads of them (\<open>MarkTerm\<close>), and what it asks of
  them is noted as an effect. A marker is the number of its registration; the callback
  that xterm runs when a prompt's marker goes is a call of its own.
\<close>

section \<open>Marks\<close>

definition signed_digits :: "string \<Rightarrow> bool" where
  "signed_digits s \<longleftrightarrow>
     (let d = (case s of [] \<Rightarrow> [] | c # r \<Rightarrow> if c = CHR ''-'' then r else s)
      in d \<noteq> [] \<and> list_all is_digit d)"

definition signed_value :: "string \<Rightarrow> int" where
  "signed_value s =
     (case s of [] \<Rightarrow> 0 | c # r \<Rightarrow> if c = CHR ''-'' then - int (read_nat r) else int (read_nat s))"

definition parseCommandMark :: "string \<Rightarrow> CommandMark option" where
  "parseCommandMark data =
     (let parts = split_at (\<lambda>c. c = CHR '';'') data;
          letter = hd parts
      in if letter = ''A'' then Some Mark_prompt
         else if letter = ''C'' then Some Mark_output
         else if letter \<noteq> ''D'' then None
         else Some (Mark_done (case nth_opt parts 1 of
                None \<Rightarrow> None
              | Some param \<Rightarrow> if signed_digits param then Some (signed_value param) else None)))"

text \<open>Lines of the buffer: whether it runs on from the one before, and its text.\<close>

definition joinBufferLines :: "(bool \<times> string) list \<Rightarrow> string" where
  "joinBufferLines ls =
     strip_trailing is_space
       (concat (map (\<lambda>(index, wrapped, s). (if index > 0 \<and> \<not> wrapped then [CHR 0x0A] else []) @ s)
          (enumerate (0::nat) ls)))"

section \<open>State\<close>

record CommandEntry =
  ce_prompt :: nat
  ce_output :: "(nat \<times> bool) option" \<comment> \<open>its marker, and whether the output starts on the next line\<close>
  ce_end :: "(nat \<times> bool) option" \<comment> \<open>its marker, and whether the marked line is part of it\<close>
  ce_exitCode :: "int option"
  ce_decoration :: bool

text \<open>What an operation reads of the terminal; a marker without a line is disposed of.\<close>

record MarkTerm =
  mt_normal :: bool
  mt_cursorX :: int
  mt_viewportY :: int
  mt_baseY :: int
  mt_line :: "nat \<Rightarrow> int option"
  mt_registers :: bool
  mt_decorates :: bool
  mt_scrolled :: "int \<Rightarrow> int" \<comment> \<open>where the view is after it was told to scroll to a line\<close>
  mt_row :: "int \<Rightarrow> (bool \<times> string) option"

datatype MarkEffect =
    Me_tell nat PromptEvent
  | Me_dispose nat
  | Me_decorate nat bool
  | Me_undecorate nat
  | Me_scroll int
  | Me_bottom
  | Me_select int int

record CommandMarks =
  cm_entries :: "CommandEntry list"
  cm_sendsOutputMarks :: bool
  cm_sendsDoneMarks :: bool
  cm_commandRunning :: bool
  cm_reportedSinceEnter :: "bool option"
  cm_enabled :: bool
  cm_jumped :: "(nat \<times> int) option"
  cm_promptListeners :: "nat list"
  cm_marksPrompts :: bool
  cm_outputSincePrompt :: bool
  cm_statusSincePrompt :: "int option"
  cm_made :: nat
  cm_effects :: "MarkEffect list"

definition new_marks :: CommandMarks where
  "new_marks = \<lparr>cm_entries = [], cm_sendsOutputMarks = False, cm_sendsDoneMarks = False,
     cm_commandRunning = False, cm_reportedSinceEnter = None, cm_enabled = True, cm_jumped = None,
     cm_promptListeners = [], cm_marksPrompts = False, cm_outputSincePrompt = False,
     cm_statusSincePrompt = None, cm_made = 0, cm_effects = []\<rparr>"

definition effect :: "MarkEffect list \<Rightarrow> CommandMarks \<Rightarrow> CommandMarks" where
  "effect es s = s\<lparr>cm_effects := cm_effects s @ es\<rparr>"

definition isDisposed :: "MarkTerm \<Rightarrow> nat \<Rightarrow> bool" where
  "isDisposed T m \<longleftrightarrow> mt_line T m = None"

definition line_of :: "MarkTerm \<Rightarrow> nat \<Rightarrow> int" where
  "line_of T m = or_default (mt_line T m) (- 1)"

definition registerMarker :: "MarkTerm \<Rightarrow> CommandMarks \<Rightarrow> nat option \<times> CommandMarks" where
  "registerMarker T s = (if mt_registers T then (Some (cm_made s), s\<lparr>cm_made := cm_made s + 1\<rparr>) else (None, s))"

section \<open>Entries\<close>

definition current :: "MarkTerm \<Rightarrow> CommandMarks \<Rightarrow> CommandEntry option" where
  "current T s =
     (if cm_entries s = [] \<or> isDisposed T (ce_prompt (last (cm_entries s))) then None
      else Some (last (cm_entries s)))"

definition liveEntries :: "MarkTerm \<Rightarrow> CommandMarks \<Rightarrow> CommandEntry list" where
  "liveEntries T s = filter (\<lambda>entry. \<not> isDisposed T (ce_prompt entry)) (cm_entries s)"

definition set_current :: "CommandEntry \<Rightarrow> CommandMarks \<Rightarrow> CommandMarks" where
  "set_current entry s = s\<lparr>cm_entries := butlast (cm_entries s) @ [entry]\<rparr>"

text \<open>\<open>end\<close>, of the entry that \<open>current\<close> gives.\<close>

definition end_entry :: "MarkTerm \<Rightarrow> CommandEntry \<Rightarrow> CommandMarks \<Rightarrow> CommandEntry \<times> CommandMarks" where
  "end_entry T entry s =
     (case registerMarker T s of
        (None, s) \<Rightarrow> (entry, s)
      | (Some marker, s) \<Rightarrow>
          (let ended = entry\<lparr>ce_end := Some (marker, mt_cursorX T > 0)\<rparr> in (ended, set_current ended s)))"

definition disposeEntry :: "CommandEntry \<Rightarrow> MarkEffect list" where
  "disposeEntry entry =
     (if ce_decoration entry then [Me_undecorate (ce_prompt entry)] else [])
     @ (case ce_output entry of None \<Rightarrow> [] | Some (m, _) \<Rightarrow> [Me_dispose m])
     @ (case ce_end entry of None \<Rightarrow> [] | Some (m, _) \<Rightarrow> [Me_dispose m])
     @ [Me_dispose (ce_prompt entry)]"

text \<open>What xterm runs once the marker of a prompt is disposed of: \<open>remove\<close>, by the marker.\<close>

definition remove :: "nat \<Rightarrow> CommandMarks \<Rightarrow> CommandMarks" where
  "remove prompt s =
     (case find (\<lambda>entry. ce_prompt entry = prompt) (cm_entries s) of
        None \<Rightarrow> s
      | Some entry \<Rightarrow>
          effect (disposeEntry entry) (s\<lparr>cm_entries := filter (\<lambda>e. ce_prompt e \<noteq> prompt) (cm_entries s)\<rparr>))"

definition clear_marks :: "CommandMarks \<Rightarrow> CommandMarks" where
  "clear_marks s = effect (concat (map disposeEntry (cm_entries s)))
     (s\<lparr>cm_entries := [], cm_jumped := None, cm_commandRunning := False\<rparr>)"

definition endPromptListeners :: "CommandMarks \<Rightarrow> CommandMarks" where
  "endPromptListeners s =
     effect (map (\<lambda>l. Me_tell l Pe_ended) (cm_promptListeners s)) (s\<lparr>cm_promptListeners := []\<rparr>)"

section \<open>Operations\<close>

definition setEnabled :: "bool \<Rightarrow> CommandMarks \<Rightarrow> CommandMarks" where
  "setEnabled enabled s =
     (if enabled = cm_enabled s then s
      else let s' = s\<lparr>cm_enabled := enabled\<rparr>
           in if enabled then s' else endPromptListeners (clear_marks s'))"

definition onPrompt :: "nat \<Rightarrow> CommandMarks \<Rightarrow> CommandMarks" where
  "onPrompt listener s =
     (if listener \<in> set (cm_promptListeners s) then s
      else s\<lparr>cm_promptListeners := cm_promptListeners s @ [listener]\<rparr>)"

definition off_prompt :: "nat \<Rightarrow> CommandMarks \<Rightarrow> CommandMarks" where
  "off_prompt listener s = s\<lparr>cm_promptListeners := filter (\<lambda>l. l \<noteq> listener) (cm_promptListeners s)\<rparr>"

definition startPrompt :: "MarkTerm \<Rightarrow> CommandMarks \<Rightarrow> CommandMarks" where
  "startPrompt T s0 =
     (let s = s0\<lparr>cm_commandRunning := False\<rparr>;
          s = (case current T s of
                 Some previous \<Rightarrow> if ce_end previous = None then snd (end_entry T previous s) else s
               | None \<Rightarrow> s)
      in case registerMarker T s of
           (None, s) \<Rightarrow> s
         | (Some prompt, s) \<Rightarrow>
             s\<lparr>cm_entries := cm_entries s @
                 [\<lparr>ce_prompt = prompt, ce_output = None, ce_end = None, ce_exitCode = None, ce_decoration = False\<rparr>]\<rparr>)"

definition startOutput :: "MarkTerm \<Rightarrow> CommandMarks \<Rightarrow> CommandMarks" where
  "startOutput T s0 =
     (let s = s0\<lparr>cm_sendsOutputMarks := True, cm_outputSincePrompt := True, cm_commandRunning := True\<rparr>
      in case current T s of
           None \<Rightarrow> s
         | Some entry \<Rightarrow>
             (if ce_end entry \<noteq> None \<or> map_option snd (ce_output entry) = Some False then s
              else let s = (case ce_output entry of None \<Rightarrow> s | Some (m, _) \<Rightarrow> effect [Me_dispose m] s)
                   in case registerMarker T s of
                        (marker, s) \<Rightarrow>
                          set_current (entry\<lparr>ce_output := map_option (\<lambda>m. (m, False)) marker\<rparr>) s))"

definition finishCommand :: "MarkTerm \<Rightarrow> int option \<Rightarrow> CommandMarks \<Rightarrow> CommandMarks" where
  "finishCommand T exitCode s0 =
     (let s = s0\<lparr>cm_commandRunning := False\<rparr>
      in case current T s of
           None \<Rightarrow> s
         | Some entry \<Rightarrow>
             (if ce_end entry \<noteq> None then s
              else case end_entry T entry s of
                     (entry, s) \<Rightarrow>
                       (if ce_output entry = None \<or> exitCode = None then s
                        else effect [Me_decorate (ce_prompt entry) (exitCode = Some 0)]
                               (set_current (entry\<lparr>ce_exitCode := exitCode, ce_decoration := mt_decorates T\<rparr>) s))))"

definition prompt_event :: "MarkTerm \<Rightarrow> CommandMarks \<Rightarrow> PromptEvent" where
  "prompt_event T s =
     Pe_prompt (case current T s of None \<Rightarrow> None | Some finished \<Rightarrow> ce_exitCode finished)
       (if cm_sendsOutputMarks s then Some (cm_outputSincePrompt s) else None)
       (cm_statusSincePrompt s)"

definition handleMark :: "MarkTerm \<Rightarrow> string \<Rightarrow> CommandMarks \<Rightarrow> CommandMarks" where
  "handleMark T data s =
     (if \<not> cm_enabled s \<or> \<not> mt_normal T then s
      else case parseCommandMark data of
             None \<Rightarrow> s
           | Some Mark_prompt \<Rightarrow>
               (let event = prompt_event T s;
                    s' = startPrompt T (s\<lparr>cm_outputSincePrompt := False, cm_statusSincePrompt := None,
                                           cm_marksPrompts := True\<rparr>)
                in effect (map (\<lambda>l. Me_tell l event) (cm_promptListeners s')) s')
           | Some Mark_output \<Rightarrow> startOutput T s
           | Some (Mark_done exitCode) \<Rightarrow>
               finishCommand T exitCode (s\<lparr>cm_sendsDoneMarks := True, cm_statusSincePrompt := exitCode\<rparr>))"

definition isAtPrompt :: "MarkTerm \<Rightarrow> CommandMarks \<Rightarrow> bool" where
  "isAtPrompt T s =
     (if \<not> cm_enabled s \<or> \<not> cm_sendsDoneMarks s \<or> \<not> mt_normal T then False
      else case current T s of
             None \<Rightarrow> False
           | Some entry \<Rightarrow> ce_output entry = None \<and> ce_end entry = None)"

definition promptState :: "MarkTerm \<Rightarrow> CommandMarks \<Rightarrow> ShellPromptState" where
  "promptState T s =
     (if \<not> cm_enabled s \<or> \<not> cm_marksPrompts s then Sp_unmarked
      else if \<not> mt_normal T \<or> cm_commandRunning s then Sp_busy
      else Sp_prompt)"

definition isRunningProgram :: "MarkTerm \<Rightarrow> CommandMarks \<Rightarrow> bool" where
  "isRunningProgram T s = (if \<not> mt_normal T then True else cm_enabled s \<and> cm_commandRunning s)"

definition noteCwdReport :: "CommandMarks \<Rightarrow> CommandMarks" where
  "noteCwdReport s = s\<lparr>cm_reportedSinceEnter := Some True\<rparr>"

definition awaitsPrompt :: "CommandMarks \<Rightarrow> bool" where
  "awaitsPrompt s \<longleftrightarrow> cm_reportedSinceEnter s = Some False"

definition handleEnter :: "MarkTerm \<Rightarrow> CommandMarks \<Rightarrow> bool \<times> CommandMarks" where
  "handleEnter T s0 =
     (let s = (if cm_reportedSinceEnter s0 = Some True then s0\<lparr>cm_reportedSinceEnter := Some False\<rparr> else s0)
      in if \<not> cm_enabled s \<or> cm_sendsOutputMarks s \<or> \<not> mt_normal T then (False, s)
         else case current T s of
                None \<Rightarrow> (False, s)
              | Some entry \<Rightarrow>
                  (if ce_output entry \<noteq> None \<or> ce_end entry \<noteq> None then (False, s)
                   else case registerMarker T s of
                          (marker, s) \<Rightarrow>
                            (True, (case marker of
                                      None \<Rightarrow> s
                                    | Some m \<Rightarrow> set_current (entry\<lparr>ce_output := Some (m, True)\<rparr>) s)
                                   \<lparr>cm_commandRunning := True\<rparr>)))"

section \<open>Jumping between prompts\<close>

definition jumpTo :: "MarkTerm \<Rightarrow> nat \<Rightarrow> CommandMarks \<Rightarrow> CommandMarks" where
  "jumpTo T prompt s =
     effect [Me_scroll (line_of T prompt)] (s\<lparr>cm_jumped := Some (prompt, mt_scrolled T (line_of T prompt))\<rparr>)"

definition jumpedPromptLine :: "MarkTerm \<Rightarrow> CommandMarks \<Rightarrow> int option \<times> CommandMarks" where
  "jumpedPromptLine T s =
     (case cm_jumped s of
        None \<Rightarrow> (None, s)
      | Some (prompt, viewportY) \<Rightarrow>
          if isDisposed T prompt \<or> viewportY \<noteq> mt_viewportY T then (None, s\<lparr>cm_jumped := None\<rparr>)
          else (Some (line_of T prompt), s))"

text \<open>No reference stands for \<open>Number.POSITIVE_INFINITY\<close>.\<close>

definition above :: "int option \<Rightarrow> int \<Rightarrow> bool" where
  "above reference line = (case reference of None \<Rightarrow> True | Some r \<Rightarrow> line < r)"

definition scrollToPreviousPrompt :: "MarkTerm \<Rightarrow> CommandMarks \<Rightarrow> bool \<times> CommandMarks" where
  "scrollToPreviousPrompt T s =
     (let entries = liveEntries T s
      in if entries = [] then (False, s)
         else case jumpedPromptLine T s of
           (jumpedLine, s) \<Rightarrow>
             (let reference = (if jumpedLine = None \<and> mt_viewportY T \<ge> mt_baseY T
                    then (let latest = last entries
                          in if ce_output latest \<noteq> None \<and> ce_end latest = None then None
                             else Some (line_of T (ce_prompt latest)))
                    else Some (or_default jumpedLine (mt_viewportY T)))
              in (True, case find (\<lambda>entry. above reference (line_of T (ce_prompt entry))) (rev entries) of
                          None \<Rightarrow> s
                        | Some target \<Rightarrow> jumpTo T (ce_prompt target) s)))"

definition scrollToNextPrompt :: "MarkTerm \<Rightarrow> CommandMarks \<Rightarrow> bool \<times> CommandMarks" where
  "scrollToNextPrompt T s =
     (let entries = liveEntries T s
      in if entries = [] then (False, s)
         else case jumpedPromptLine T s of
           (jumpedLine, s) \<Rightarrow>
             (let reference = or_default jumpedLine (mt_viewportY T);
                  to_bottom = effect [Me_bottom] (s\<lparr>cm_jumped := None\<rparr>)
              in (True, case find (\<lambda>entry. line_of T (ce_prompt entry) > reference) entries of
                          None \<Rightarrow> to_bottom
                        | Some target \<Rightarrow>
                            if line_of T (ce_prompt target) < mt_baseY T then jumpTo T (ce_prompt target) s
                            else to_bottom)))"

section \<open>The output of the last command\<close>

definition lastOutputRange :: "MarkTerm \<Rightarrow> CommandMarks \<Rightarrow> (int \<times> int) option" where
  "lastOutputRange T s =
     (case find (\<lambda>entry. ce_output entry \<noteq> None \<and> ce_end entry \<noteq> None \<and> ce_exitCode entry \<noteq> None)
             (rev (liveEntries T s)) of
        None \<Rightarrow> None
      | Some entry \<Rightarrow>
          (case (ce_output entry, ce_end entry) of
             (Some (om, nextLine), Some (em, inclusive)) \<Rightarrow>
               if isDisposed T om \<or> isDisposed T em then None
               else Some (line_of T om + (if nextLine then 1 else 0), line_of T em - (if inclusive then 0 else 1))
           | _ \<Rightarrow> None))"

definition lastOutputText :: "MarkTerm \<Rightarrow> CommandMarks \<Rightarrow> string option" where
  "lastOutputText T s =
     map_option (\<lambda>(start, stop). joinBufferLines (List.map_filter (mt_row T) [start..stop])) (lastOutputRange T s)"

definition selectLastOutput :: "MarkTerm \<Rightarrow> CommandMarks \<Rightarrow> bool \<times> CommandMarks" where
  "selectLastOutput T s =
     (case lastOutputRange T s of
        None \<Rightarrow> (False, s)
      | Some (start, stop) \<Rightarrow> if stop < start then (False, s) else (True, effect [Me_select start stop] s))"

definition dispose_marks :: "CommandMarks \<Rightarrow> CommandMarks" where
  "dispose_marks s = endPromptListeners (clear_marks s)"

section \<open>Runs\<close>

datatype MarkCall =
    Mk_setEnabled bool | Mk_listen nat | Mk_unlisten nat | Mk_mark string | Mk_cwd | Mk_enter
  | Mk_previous | Mk_next | Mk_select | Mk_dispose | Mk_gone nat

fun marks_step :: "CommandMarks \<Rightarrow> MarkTerm \<times> MarkCall \<Rightarrow> CommandMarks" where
  "marks_step s (T, Mk_setEnabled b) = setEnabled b s"
| "marks_step s (T, Mk_listen l) = onPrompt l s"
| "marks_step s (T, Mk_unlisten l) = off_prompt l s"
| "marks_step s (T, Mk_mark data) = handleMark T data s"
| "marks_step s (T, Mk_cwd) = noteCwdReport s"
| "marks_step s (T, Mk_enter) = snd (handleEnter T s)"
| "marks_step s (T, Mk_previous) = snd (scrollToPreviousPrompt T s)"
| "marks_step s (T, Mk_next) = snd (scrollToNextPrompt T s)"
| "marks_step s (T, Mk_select) = snd (selectLastOutput T s)"
| "marks_step s (T, Mk_dispose) = dispose_marks s"
| "marks_step s (T, Mk_gone prompt) = remove prompt s"

text \<open>
  What the code relies on in xterm: the normal buffer registers markers, and the callback
  of a marker runs when it is disposed of, so that at any other time the prompts of the
  entries have a line.
\<close>

fun marks_allowed :: "CommandMarks \<Rightarrow> MarkTerm \<times> MarkCall \<Rightarrow> bool" where
  "marks_allowed s (T, Mk_gone prompt) = True"
| "marks_allowed s (T, call) \<longleftrightarrow>
     (mt_normal T \<longrightarrow> mt_registers T) \<and> list_all (\<lambda>entry. \<not> isDisposed T (ce_prompt entry)) (cm_entries s)"

section \<open>The invariant\<close>

text \<open>
  The prompts of the entries are different markers; only the last entry can be without an
  end; an exit code needs an output and an end; and at a prompt at which nothing has
  started no command runs.
\<close>

definition marks_ok :: "CommandMarks \<Rightarrow> bool" where
  "marks_ok s \<longleftrightarrow>
     distinct (map ce_prompt (cm_entries s))
     \<and> (\<forall>entry\<in>set (cm_entries s). ce_prompt entry < cm_made s
          \<and> (ce_exitCode entry \<noteq> None \<longrightarrow> ce_output entry \<noteq> None \<and> ce_end entry \<noteq> None))
     \<and> (\<forall>entry\<in>set (butlast (cm_entries s)). ce_end entry \<noteq> None)
     \<and> (cm_entries s \<noteq> [] \<longrightarrow> cm_marksPrompts s
          \<and> (ce_output (last (cm_entries s)) = None \<and> ce_end (last (cm_entries s)) = None \<longrightarrow> \<not> cm_commandRunning s))"

lemma marks_ok_nil: "cm_entries s = [] \<Longrightarrow> marks_ok s"
  by (simp add: marks_ok_def)

lemma marks_ok_snoc:
  "cm_entries s = es @ [e] \<Longrightarrow> marks_ok s \<longleftrightarrow>
     distinct (map ce_prompt es) \<and> ce_prompt e \<notin> ce_prompt ` set es
     \<and> (\<forall>entry\<in>set (es @ [e]). ce_prompt entry < cm_made s
          \<and> (ce_exitCode entry \<noteq> None \<longrightarrow> ce_output entry \<noteq> None \<and> ce_end entry \<noteq> None))
     \<and> (\<forall>entry\<in>set es. ce_end entry \<noteq> None)
     \<and> cm_marksPrompts s \<and> (ce_output e = None \<and> ce_end e = None \<longrightarrow> \<not> cm_commandRunning s)"
  by (auto simp: marks_ok_def)

lemma effect_simps [simp]:
  "cm_entries (effect es s) = cm_entries s" "cm_marksPrompts (effect es s) = cm_marksPrompts s"
  "cm_commandRunning (effect es s) = cm_commandRunning s" "cm_made (effect es s) = cm_made s"
  "cm_enabled (effect es s) = cm_enabled s" "cm_effects (effect es s) = cm_effects s @ es"
  "cm_sendsDoneMarks (effect es s) = cm_sendsDoneMarks s" "cm_jumped (effect es s) = cm_jumped s"
  by (simp_all add: effect_def)

lemma marks_ok_cong:
  "cm_entries s = cm_entries s' \<Longrightarrow> cm_made s = cm_made s' \<Longrightarrow> cm_marksPrompts s = cm_marksPrompts s'
   \<Longrightarrow> cm_commandRunning s = cm_commandRunning s' \<Longrightarrow> marks_ok s = marks_ok s'"
  by (simp add: marks_ok_def)

lemma marks_ok_quiet: "marks_ok s \<Longrightarrow> marks_ok (s\<lparr>cm_commandRunning := False\<rparr>)"
  by (auto simp: marks_ok_def)

lemma current_cases:
  assumes "list_all (\<lambda>entry. \<not> isDisposed T (ce_prompt entry)) (cm_entries s)"
  obtains (none) "cm_entries s = []" "current T s = None"
    | (some) es e where "cm_entries s = es @ [e]" "current T s = Some e"
proof (cases "cm_entries s" rule: rev_cases)
  case Nil
  with none show ?thesis by (simp add: current_def)
next
  case (snoc es e)
  with assms some [of es e] show ?thesis by (simp add: current_def)
qed

lemma startPrompt_ok:
  assumes ok: "marks_ok s" and reg: "mt_registers T"
    and live: "list_all (\<lambda>entry. \<not> isDisposed T (ce_prompt entry)) (cm_entries s)" and m: "cm_marksPrompts s"
  shows "marks_ok (startPrompt T s)"
proof -
  have live': "list_all (\<lambda>entry. \<not> isDisposed T (ce_prompt entry)) (cm_entries (s\<lparr>cm_commandRunning := False\<rparr>))"
    using live by simp
  from live' show ?thesis
  proof (cases rule: current_cases)
    case none
    with ok reg m show ?thesis
      by (simp add: startPrompt_def registerMarker_def marks_ok_def)
  next
    case (some es e)
    then have "cm_entries s = es @ [e]" by simp
    from some reg m ok marks_ok_snoc [OF this] show ?thesis
      by (auto simp: startPrompt_def registerMarker_def end_entry_def set_current_def Let_def marks_ok_def)
  qed
qed

lemma startOutput_ok:
  assumes ok: "marks_ok s" and reg: "mt_registers T"
    and live: "list_all (\<lambda>entry. \<not> isDisposed T (ce_prompt entry)) (cm_entries s)"
  shows "marks_ok (startOutput T s)"
proof -
  define t where "t = s\<lparr>cm_sendsOutputMarks := True, cm_outputSincePrompt := True, cm_commandRunning := True\<rparr>"
  have live': "list_all (\<lambda>entry. \<not> isDisposed T (ce_prompt entry)) (cm_entries t)"
    using live by (simp add: t_def)
  from live' show ?thesis
  proof (cases rule: current_cases)
    case none
    then show ?thesis
      by (simp add: startOutput_def marks_ok_nil flip: t_def)
  next
    case (some es e)
    then have "cm_entries s = es @ [e]" by (simp add: t_def)
    from some reg ok marks_ok_snoc [OF this] show ?thesis
      by (auto simp: startOutput_def registerMarker_def set_current_def Let_def marks_ok_def t_def split: option.splits)
  qed
qed

lemma finishCommand_ok:
  assumes ok: "marks_ok s" and reg: "mt_registers T"
    and live: "list_all (\<lambda>entry. \<not> isDisposed T (ce_prompt entry)) (cm_entries s)"
  shows "marks_ok (finishCommand T exitCode s)"
proof -
  define t where "t = s\<lparr>cm_commandRunning := False\<rparr>"
  have live': "list_all (\<lambda>entry. \<not> isDisposed T (ce_prompt entry)) (cm_entries t)"
    using live by (simp add: t_def)
  from live' show ?thesis
  proof (cases rule: current_cases)
    case none
    then show ?thesis
      by (simp add: finishCommand_def marks_ok_nil flip: t_def)
  next
    case (some es e)
    then have "cm_entries s = es @ [e]" by (simp add: t_def)
    from some reg ok marks_ok_snoc [OF this] show ?thesis
      by (auto simp: finishCommand_def registerMarker_def end_entry_def set_current_def Let_def marks_ok_def t_def)
  qed
qed

lemma handleEnter_ok:
  assumes ok: "marks_ok s" and reg: "mt_normal T \<longrightarrow> mt_registers T"
    and live: "list_all (\<lambda>entry. \<not> isDisposed T (ce_prompt entry)) (cm_entries s)"
  shows "marks_ok (snd (handleEnter T s))"
proof -
  define t where "t = (if cm_reportedSinceEnter s = Some True then s\<lparr>cm_reportedSinceEnter := Some False\<rparr> else s)"
  have same: "cm_entries t = cm_entries s" "cm_made t = cm_made s" "cm_marksPrompts t = cm_marksPrompts s"
    "cm_commandRunning t = cm_commandRunning s"
    by (simp_all add: t_def)
  with ok marks_ok_cong [of t s] have ok': "marks_ok t" by simp
  from live same have "list_all (\<lambda>entry. \<not> isDisposed T (ce_prompt entry)) (cm_entries t)" by simp
  then show ?thesis
  proof (cases rule: current_cases)
    case none
    then show ?thesis
      using ok' by (simp add: handleEnter_def Let_def flip: t_def)
  next
    case (some es e)
    from some ok' reg marks_ok_snoc [OF some(1)] show ?thesis
      by (auto simp: handleEnter_def registerMarker_def set_current_def Let_def marks_ok_def simp flip: t_def)
  qed
qed

lemma find_filter_prompt: "find (\<lambda>entry. ce_prompt entry = prompt) es = None \<Longrightarrow>
    filter (\<lambda>e. ce_prompt e \<noteq> prompt) es = es"
  by (auto simp: find_None_iff filter_id_conv)

lemma remove_ok:
  assumes "marks_ok s"
  shows "marks_ok (remove prompt s)"
proof (cases "cm_entries s" rule: rev_cases)
  case Nil
  then show ?thesis by (simp add: remove_def marks_ok_nil)
next
  case (snoc es e)
  note ok = assms [unfolded marks_ok_snoc [OF snoc]]
  define t where "t = s\<lparr>cm_entries := filter (\<lambda>e. ce_prompt e \<noteq> prompt) (cm_entries s)\<rparr>"
  have "marks_ok t"
  proof (cases "ce_prompt e = prompt")
    case False
    then have "cm_entries t = filter (\<lambda>e. ce_prompt e \<noteq> prompt) es @ [e]"
      by (simp add: t_def snoc)
    from marks_ok_snoc [OF this] ok show ?thesis
      by (auto simp: t_def distinct_map_filter)
  next
    case True
    with ok have "filter (\<lambda>e. ce_prompt e \<noteq> prompt) es = es"
      by (intro filter_True) (metis image_eqI)
    with True have t: "cm_entries t = es" by (simp add: t_def snoc)
    show ?thesis
    proof (cases es rule: rev_cases)
      case Nil
      with t show ?thesis by (simp add: marks_ok_nil)
    next
      case (snoc es' e')
      with t have "cm_entries t = es' @ [e']" by simp
      from marks_ok_snoc [OF this] ok snoc show ?thesis
        by (auto simp: t_def)
    qed
  qed
  then show ?thesis
    using assms marks_ok_cong [of "effect es t" t for es]
    by (simp add: remove_def split: option.split flip: t_def)
qed

lemma pair_snd: "(case p of (a, b) \<Rightarrow> f b) = f (snd p)"
  by (cases p) simp

lemma scrolls_keep:
  "cm_entries (snd (jumpedPromptLine T s)) = cm_entries s" "cm_made (snd (jumpedPromptLine T s)) = cm_made s"
  "cm_marksPrompts (snd (jumpedPromptLine T s)) = cm_marksPrompts s"
  "cm_commandRunning (snd (jumpedPromptLine T s)) = cm_commandRunning s"
  "cm_entries (jumpTo T p s) = cm_entries s" "cm_made (jumpTo T p s) = cm_made s"
  "cm_marksPrompts (jumpTo T p s) = cm_marksPrompts s" "cm_commandRunning (jumpTo T p s) = cm_commandRunning s"
  by (auto simp: jumpedPromptLine_def jumpTo_def split: option.split)

lemma scroll_ok:
  "marks_ok (snd (scrollToPreviousPrompt T s)) = marks_ok s"
  "marks_ok (snd (scrollToNextPrompt T s)) = marks_ok s"
proof -
  note keep = scrolls_keep [of T]
  show "marks_ok (snd (scrollToPreviousPrompt T s)) = marks_ok s"
    by (rule marks_ok_cong; cases "jumpedPromptLine T s"; use keep(1-4) [of s] in
      \<open>auto simp: scrollToPreviousPrompt_def Let_def scrolls_keep split: option.split\<close>)
  show "marks_ok (snd (scrollToNextPrompt T s)) = marks_ok s"
    by (rule marks_ok_cong; cases "jumpedPromptLine T s"; use keep(1-4) [of s] in
      \<open>auto simp: scrollToNextPrompt_def Let_def scrolls_keep split: option.split\<close>)
qed

lemma plain_calls_ok:
  assumes "marks_ok s"
  shows "marks_ok (setEnabled b s)" "marks_ok (onPrompt l s)" "marks_ok (off_prompt l s)"
    "marks_ok (noteCwdReport s)" "marks_ok (snd (selectLastOutput T s))" "marks_ok (dispose_marks s)"
  using assms marks_ok_cong [of "effect es s" s for es]
  by (auto simp: setEnabled_def onPrompt_def off_prompt_def noteCwdReport_def selectLastOutput_def
      dispose_marks_def endPromptListeners_def clear_marks_def marks_ok_def Let_def split: option.split)

lemma handleMark_ok:
  assumes ok: "marks_ok s" and reg: "mt_normal T \<longrightarrow> mt_registers T"
    and live: "list_all (\<lambda>entry. \<not> isDisposed T (ce_prompt entry)) (cm_entries s)"
  shows "marks_ok (handleMark T data s)"
proof (cases "\<not> cm_enabled s \<or> \<not> mt_normal T")
  case True
  with ok show ?thesis by (auto simp: handleMark_def)
next
  case False
  with reg have reg: "mt_registers T" by simp
  show ?thesis
  proof (cases "parseCommandMark data")
    case None
    with ok show ?thesis by (simp add: handleMark_def)
  next
    case (Some mark)
    show ?thesis
    proof (cases mark)
      case Mark_prompt
      define t where "t = s\<lparr>cm_outputSincePrompt := False, cm_statusSincePrompt := None, cm_marksPrompts := True\<rparr>"
      have "marks_ok t" using ok by (auto simp: marks_ok_def t_def)
      then have "marks_ok (startPrompt T t)"
        by (rule startPrompt_ok) (use reg live in \<open>simp_all add: t_def\<close>)
      then have "marks_ok (effect es (startPrompt T t))" for es
        using marks_ok_cong [of "effect es (startPrompt T t)" "startPrompt T t"] by simp
      then show ?thesis
        using False Some Mark_prompt by (simp add: handleMark_def Let_def t_def)
    next
      case Mark_output
      with False Some startOutput_ok [OF ok reg live] show ?thesis by (simp add: handleMark_def)
    next
      case (Mark_done exitCode)
      define t where "t = s\<lparr>cm_sendsDoneMarks := True, cm_statusSincePrompt := exitCode\<rparr>"
      have "marks_ok t" using ok by (simp add: marks_ok_def t_def)
      then have "marks_ok (finishCommand T exitCode t)"
        by (rule finishCommand_ok) (use reg live in \<open>simp_all add: t_def\<close>)
      with False Some Mark_done show ?thesis by (simp add: handleMark_def t_def)
    qed
  qed
qed

lemma marks_step_ok:
  assumes "marks_ok s" and "marks_allowed s call"
  shows "marks_ok (marks_step s call)"
  using assms
  by (cases "(s, call)" rule: marks_step.cases)
    (auto simp: plain_calls_ok remove_ok scroll_ok intro!: handleMark_ok handleEnter_ok)

interpretation marks: machine marks_allowed marks_step new_marks marks_ok
  by unfold_locales (simp_all add: marks_step_ok marks_ok_nil new_marks_def)

text \<open>
  C27: input sent where the marks show a waiting shell goes to the shell. At any time of any
  use of the terminal, if the marks show it at a prompt, no command that started is
  unfinished: what the compose bar asks says the same, and no program has the input.\<close>

theorem at_prompt_is_free:
  assumes "run_allowed marks_allowed marks_step new_marks calls"
    and "isAtPrompt T (run marks_step new_marks calls)"
  shows "promptState T (run marks_step new_marks calls) = Sp_prompt
    \<and> \<not> isRunningProgram T (run marks_step new_marks calls)"
proof -
  define s where "s = run marks_step new_marks calls"
  from marks.inv_run [OF assms(1)] have "marks_ok s" by (simp add: s_def)
  with assms(2) show ?thesis
    by (auto simp: isAtPrompt_def promptState_def isRunningProgram_def current_def marks_ok_def
        simp flip: s_def split: if_splits)
qed

definition plain_term :: MarkTerm where
  "plain_term = \<lparr>mt_normal = True, mt_cursorX = 0, mt_viewportY = 0, mt_baseY = 0, mt_line = (\<lambda>m. Some (2 * int m)),
     mt_registers = True, mt_decorates = True, mt_scrolled = (\<lambda>l. l), mt_row = (\<lambda>l. None)\<rparr>"

theorem at_prompt_is_free_witness:
  "promptState plain_term (run marks_step new_marks (map (\<lambda>d. (plain_term, Mk_mark d)) [''A'', ''C'', ''D;1'', ''A''])) = Sp_prompt
   \<and> \<not> isRunningProgram plain_term (run marks_step new_marks (map (\<lambda>d. (plain_term, Mk_mark d)) [''A'', ''C'', ''D;1'', ''A'']))"
  by (rule at_prompt_is_free) code_simp+

section \<open>Jumps in order\<close>

lemma find_at:
  "i < length xs \<Longrightarrow> P (xs ! i) \<Longrightarrow> (\<And>j. j < i \<Longrightarrow> \<not> P (xs ! j)) \<Longrightarrow> find P xs = Some (xs ! i)"
  by (auto simp: find_Some_iff)

lemma find_rev_at:
  assumes "i < length xs" "P (xs ! i)" "\<And>j. i < j \<Longrightarrow> j < length xs \<Longrightarrow> \<not> P (xs ! j)"
  shows "find P (rev xs) = Some (xs ! i)"
proof -
  have "rev xs ! (length xs - 1 - i) = xs ! i" using assms(1) by (simp add: rev_nth)
  moreover have "find P (rev xs) = Some (rev xs ! (length xs - 1 - i))"
    using assms by (intro find_at) (auto simp: rev_nth)
  ultimately show ?thesis by simp
qed

text \<open>The prompts of the entries have lines that go down the buffer.\<close>

definition prompts_in_order :: "MarkTerm \<Rightarrow> CommandMarks \<Rightarrow> bool" where
  "prompts_in_order T s \<longleftrightarrow>
     list_all (\<lambda>entry. \<not> isDisposed T (ce_prompt entry)) (cm_entries s)
     \<and> sorted_wrt (<) (map (\<lambda>entry. line_of T (ce_prompt entry)) (cm_entries s))"

definition prompt_line :: "MarkTerm \<Rightarrow> CommandMarks \<Rightarrow> nat \<Rightarrow> int" where
  "prompt_line T s i = line_of T (ce_prompt (cm_entries s ! i))"

lemma prompt_line_less:
  "prompts_in_order T s \<Longrightarrow> j < length (cm_entries s) \<Longrightarrow> i < j \<Longrightarrow> prompt_line T s i < prompt_line T s j"
  by (auto simp: prompts_in_order_def prompt_line_def sorted_wrt_iff_nth_less)

lemma prompt_line_less_iff:
  "prompts_in_order T s \<Longrightarrow> i < length (cm_entries s) \<Longrightarrow> j < length (cm_entries s)
   \<Longrightarrow> prompt_line T s i < prompt_line T s j \<longleftrightarrow> i < j"
  by (metis linorder_neqE_nat order_less_irrefl order_less_trans prompt_line_less)

lemma all_live: "prompts_in_order T s \<Longrightarrow> liveEntries T s = cm_entries s"
  by (simp add: prompts_in_order_def liveEntries_def list_all_iff)

text \<open>The view still shows the prompt of entry \<open>i\<close> as the jump to it left it.\<close>

definition jumped_to :: "MarkTerm \<Rightarrow> nat \<Rightarrow> CommandMarks \<Rightarrow> bool" where
  "jumped_to T i s \<longleftrightarrow>
     i < length (cm_entries s) \<and> cm_jumped s = Some (ce_prompt (cm_entries s ! i), mt_viewportY T)"

lemma jumpedPromptLine_at:
  "prompts_in_order T s \<Longrightarrow> jumped_to T i s \<Longrightarrow> jumpedPromptLine T s = (Some (prompt_line T s i), s)"
  by (auto simp: jumpedPromptLine_def jumped_to_def prompts_in_order_def prompt_line_def list_all_iff)

lemma previous_from:
  assumes "prompts_in_order T s" and "jumped_to T (Suc i) s"
  shows "scrollToPreviousPrompt T s = (True, jumpTo T (ce_prompt (cm_entries s ! i)) s)"
proof -
  have less: "Suc i < length (cm_entries s)" using assms(2) by (simp add: jumped_to_def)
  have "find (\<lambda>entry. above (Some (prompt_line T s (Suc i))) (line_of T (ce_prompt entry))) (rev (cm_entries s))
      = Some (cm_entries s ! i)"
    by (rule find_rev_at) (use less prompt_line_less_iff [OF assms(1)] in
      \<open>auto simp: above_def simp flip: prompt_line_def\<close>)
  moreover have "cm_entries s \<noteq> []" using less by auto
  ultimately show ?thesis
    by (simp add: scrollToPreviousPrompt_def all_live [OF assms(1)] jumpedPromptLine_at [OF assms])
qed

lemma previous_from_first:
  assumes "prompts_in_order T s" and "jumped_to T 0 s"
  shows "scrollToPreviousPrompt T s = (True, s)"
proof -
  have ne: "cm_entries s \<noteq> []" using assms(2) by (auto simp: jumped_to_def)
  have "\<not> line_of T (ce_prompt entry) < prompt_line T s 0" if "entry \<in> set (cm_entries s)" for entry
    using that prompt_line_less_iff [OF assms(1), of _ 0] ne
    by (auto simp: in_set_conv_nth simp flip: prompt_line_def)
  then have "find (\<lambda>entry. above (Some (prompt_line T s 0)) (line_of T (ce_prompt entry))) (rev (cm_entries s)) = None"
    by (auto simp: find_None_iff above_def)
  with ne show ?thesis
    by (simp add: scrollToPreviousPrompt_def all_live [OF assms(1)] jumpedPromptLine_at [OF assms])
qed

lemma next_prompt_from:
  assumes "prompts_in_order T s" and "jumped_to T i s"
  shows "scrollToNextPrompt T s = (True,
    if Suc i < length (cm_entries s) \<and> prompt_line T s (Suc i) < mt_baseY T
    then jumpTo T (ce_prompt (cm_entries s ! Suc i)) s
    else effect [Me_bottom] (s\<lparr>cm_jumped := None\<rparr>))"
proof -
  have i: "i < length (cm_entries s)" using assms(2) by (simp add: jumped_to_def)
  have "find (\<lambda>entry. prompt_line T s i < line_of T (ce_prompt entry)) (cm_entries s)
      = (if Suc i < length (cm_entries s) then Some (cm_entries s ! Suc i) else None)"
  proof (cases "Suc i < length (cm_entries s)")
    case True
    have "find (\<lambda>entry. prompt_line T s i < line_of T (ce_prompt entry)) (cm_entries s) = Some (cm_entries s ! Suc i)"
      by (rule find_at) (use True prompt_line_less_iff [OF assms(1)] in \<open>auto simp flip: prompt_line_def\<close>)
    with True show ?thesis by simp
  next
    case False
    have "\<not> prompt_line T s i < line_of T (ce_prompt entry)" if "entry \<in> set (cm_entries s)" for entry
      using that prompt_line_less_iff [OF assms(1) i] False
      by (auto simp: in_set_conv_nth simp flip: prompt_line_def)
    with False show ?thesis by (simp add: find_None_iff)
  qed
  moreover have "cm_entries s \<noteq> []" using i by auto
  ultimately show ?thesis
    by (simp add: scrollToNextPrompt_def all_live [OF assms(1)] jumpedPromptLine_at [OF assms] prompt_line_def Let_def)
qed

text \<open>The command given \<open>n\<close> times; nothing else moves the view.\<close>

fun go_up :: "nat \<Rightarrow> MarkTerm \<Rightarrow> CommandMarks \<Rightarrow> CommandMarks" where
  "go_up 0 T s = s"
| "go_up (Suc n) T s =
     (let s' = snd (scrollToPreviousPrompt T s)
      in go_up n (T\<lparr>mt_viewportY := (case cm_jumped s' of None \<Rightarrow> mt_viewportY T | Some (p, y) \<Rightarrow> y)\<rparr>) s')"

lemma view_simps [simp]:
  "line_of (T\<lparr>mt_viewportY := y\<rparr>) = line_of T" "prompt_line (T\<lparr>mt_viewportY := y\<rparr>) = prompt_line T"
  "prompts_in_order (T\<lparr>mt_viewportY := y\<rparr>) s = prompts_in_order T s"
  by (auto simp: line_of_def prompt_line_def prompts_in_order_def isDisposed_def fun_eq_iff)

lemma jump_simps [simp]:
  "cm_entries (jumpTo T p s) = cm_entries s" "cm_effects (jumpTo T p s) = cm_effects s @ [Me_scroll (line_of T p)]"
  "cm_jumped (jumpTo T p s) = Some (p, mt_scrolled T (line_of T p))"
  by (simp_all add: jumpTo_def)

lemma prompts_in_order_same: "cm_entries s' = cm_entries s \<Longrightarrow> prompts_in_order T s' = prompts_in_order T s"
  by (simp add: prompts_in_order_def)

text \<open>
  Jumping up visits the prompts one by one. With the prompts down the buffer
  in the order of their entries, \<open>n\<close> jumps up from entry \<open>i\<close> scroll to the entries
  before it, nearest first, and stand at entry \<open>i - n\<close>, wherever the view stopped.\<close>

lemma jumps_visit_every_prompt:
  assumes "prompts_in_order T s" and "jumped_to T i s" and "n \<le> i"
  shows "cm_effects (go_up n T s) = cm_effects s @ map (\<lambda>k. Me_scroll (prompt_line T s (i - Suc k))) [0..<n]
    \<and> map_option fst (cm_jumped (go_up n T s)) = Some (ce_prompt (cm_entries s ! (i - n)))"
  using assms
proof (induction n arbitrary: T s i)
  case 0
  then show ?case by (simp add: jumped_to_def)
next
  case (Suc n)
  then obtain j where i: "i = Suc j" by (cases i) auto
  let ?s = "jumpTo T (ce_prompt (cm_entries s ! j)) s"
  let ?T = "T\<lparr>mt_viewportY := mt_scrolled T (prompt_line T s j)\<rparr>"
  have step: "snd (scrollToPreviousPrompt T s) = ?s"
    using previous_from [of T s j] Suc.prems i by simp
  have up: "go_up (Suc n) T s = go_up n ?T ?s"
    by (simp add: step Let_def prompt_line_def)
  have same: "prompt_line T ?s = prompt_line T s" by (simp add: prompt_line_def fun_eq_iff)
  have "jumped_to ?T j ?s" using Suc.prems(2) i by (simp add: jumped_to_def prompt_line_def)
  from Suc.IH [OF _ this] Suc.prems i
  have "cm_effects (go_up n ?T ?s) = cm_effects ?s @ map (\<lambda>k. Me_scroll (prompt_line T s (j - Suc k))) [0..<n]
    \<and> map_option fst (cm_jumped (go_up n ?T ?s)) = Some (ce_prompt (cm_entries s ! (j - n)))"
    by (simp add: prompts_in_order_same [of ?s s] same)
  then show ?case
    unfolding up i by (simp add: prompt_line_def upt_conv_Cons map_Suc_upt [symmetric] del: upt_Suc)
qed

definition three_prompts :: CommandMarks where
  "three_prompts = new_marks\<lparr>cm_entries := map (\<lambda>p. \<lparr>ce_prompt = p, ce_output = None, ce_end = Some (p, False),
     ce_exitCode = None, ce_decoration = False\<rparr>) [2, 4, 6], cm_jumped := Some (6, 9), cm_made := 7\<rparr>"

lemma jumps_visit_every_prompt_witness:
  "cm_effects (go_up 2 (plain_term\<lparr>mt_viewportY := 9, mt_scrolled := (\<lambda>l. min l 9)\<rparr>) three_prompts) = [Me_scroll 8, Me_scroll 4]"
proof -
  define T where "T = plain_term\<lparr>mt_viewportY := 9, mt_scrolled := (\<lambda>l. min l 9)\<rparr>"
  have "prompts_in_order T three_prompts"
    by (simp add: T_def prompts_in_order_def three_prompts_def plain_term_def isDisposed_def line_of_def)
  moreover have "jumped_to T 2 three_prompts"
    by (simp add: T_def jumped_to_def three_prompts_def plain_term_def)
  ultimately have "cm_effects (go_up 2 T three_prompts)
      = cm_effects three_prompts @ map (\<lambda>k. Me_scroll (prompt_line T three_prompts (2 - Suc k))) [0..<2]"
    by (rule jumps_visit_every_prompt [THEN conjunct1]) simp
  then show ?thesis
    by (simp add: T_def three_prompts_def plain_term_def prompt_line_def line_of_def new_marks_def
        numeral_2_eq_2 upt_conv_Cons)
qed

section \<open>The status told with a prompt\<close>

text \<open>
  Once the prompt of a command is erased from the screen while an older one is still in the
  scrollback, the next prompt is told with the older command's exit code: here a command
  that failed with 1, then one that erased the screen and succeeded.\<close>

lemma older_status_is_told:
  "cm_effects (run marks_step new_marks
     [(plain_term, Mk_listen 7), (plain_term, Mk_mark ''A''), (plain_term, Mk_mark ''C''), (plain_term, Mk_mark ''D;1''),
      (plain_term, Mk_mark ''A''), (plain_term, Mk_mark ''C''), (plain_term, Mk_gone 3),
      (plain_term, Mk_mark ''D;0''), (plain_term, Mk_mark ''A'')])
   = [Me_tell 7 (Pe_prompt None None None), Me_decorate 0 False,
      Me_tell 7 (Pe_prompt (Some 1) (Some True) (Some 1)), Me_dispose 4, Me_dispose 3,
      Me_tell 7 (Pe_prompt (Some 1) (Some True) (Some 0))]"
  by code_simp

end
