(* ===== verification/Cursor_Hold.thy ===== *)
theory Cursor_Hold
  imports Js_String Machines
begin

text \<open>
  Chunks of output that lead the redraw of a line are held back and written with the
  drawing after them (\<open>src/src/components/TerminalTab/cursorMoveHold.ts\<close>). Times are whole
  milliseconds; what is written to the terminal is noted, each write with its callbacks;
  the callback of the timer is a call of its own.
\<close>

section \<open>What leads a redraw\<close>

definition HOLD_MS :: int where "HOLD_MS = 50"

definition INPUT_GRACE_MS :: int where "INPUT_GRACE_MS = 150"

datatype Effect = Ef_lineStart | Ef_vertical | Ef_none | Ef_other

text \<open>\<open>Number(param || 1) <= 1\<close>, of digits.\<close>

definition first_column :: "string \<Rightarrow> bool" where
  "first_column param \<longleftrightarrow> param = [] \<or> read_nat param \<le> 1"

definition effectOf :: "string \<Rightarrow> char \<Rightarrow> Effect" where
  "effectOf params final =
     (let parts = split_at (\<lambda>c. c = CHR '';'') params;
          first = hd parts;
          second = or_default (nth_opt parts 1) []
      in if final \<in> set ''EF'' then Ef_lineStart
         else if final = CHR ''G'' then (if first_column first then Ef_lineStart else Ef_other)
         else if final \<in> set ''Hf'' then (if first_column second then Ef_lineStart else Ef_other)
         else if final \<in> set ''ABd'' then Ef_vertical
         else if final \<in> set ''JK'' then Ef_none
         else Ef_other)"

definition only_returns :: "string \<Rightarrow> bool" where
  "only_returns s = list_all (\<lambda>c. c = CHR 0x0D) s"

text \<open>\<open>SEQUENCE_AFTER_ESC\<close>, of what follows an escape: the effects it stands for.\<close>

definition with_returns :: "Effect \<Rightarrow> string \<Rightarrow> Effect list option" where
  "with_returns e returns =
     (if \<not> only_returns returns then None
      else Some (e # (if returns = [] then [] else [Ef_lineStart])))"

definition sequence_effects :: "string \<Rightarrow> Effect list option" where
  "sequence_effects part =
     (if starts_with part ''[?25h'' \<or> starts_with part ''[?25l'' then with_returns Ef_none (drop 5 part)
      else if starts_with part ''['' then
        (let params = takeWhile (\<lambda>c. is_digit c \<or> c = CHR '';'') (tl part);
             rest = dropWhile (\<lambda>c. is_digit c \<or> c = CHR '';'') (tl part)
         in case rest of
              [] \<Rightarrow> None
            | final # returns \<Rightarrow> if is_letter final then with_returns (effectOf params final) returns else None)
      else None)"

fun sequences_effects :: "string list \<Rightarrow> Effect list option" where
  "sequences_effects [] = Some []"
| "sequences_effects (part # parts) =
     (case sequence_effects part of
        None \<Rightarrow> None
      | Some es \<Rightarrow> map_option (\<lambda>fs. es @ fs) (sequences_effects parts))"

definition isLineRedrawLead :: "string \<Rightarrow> bool" where
  "isLineRedrawLead s =
     (if s = [] then False
      else let parts = split_at (\<lambda>c. c = CHR 0x1B) s; lead = hd parts
           in if \<not> only_returns lead then False
              else case sequences_effects (tl parts) of
                     None \<Rightarrow> False
                   | Some es \<Rightarrow>
                       (let effects = (if lead = [] then [] else [Ef_lineStart]) @ es
                        in if Ef_other \<in> set effects then False
                           else Ef_vertical \<notin> set effects \<or> Ef_lineStart \<in> set effects))"

section \<open>Holding\<close>

record CursorMoveHold =
  ch_held :: "(string \<times> nat list) option"
  ch_timer :: "int option" \<comment> \<open>when it is due\<close>
  ch_lastInputAt :: "int option" \<comment> \<open>none: \<open>-Infinity\<close>\<close>
  ch_listens :: bool
  ch_writes :: "(string \<times> nat list) list"

definition new_hold :: CursorMoveHold where
  "new_hold = \<lparr>ch_held = None, ch_timer = None, ch_lastInputAt = None, ch_listens = True, ch_writes = []\<rparr>"

definition note_input :: "int \<Rightarrow> CursorMoveHold \<Rightarrow> CursorMoveHold" where
  "note_input now h = (if ch_listens h then h\<lparr>ch_lastInputAt := Some now\<rparr> else h)"

definition takeHeld :: "CursorMoveHold \<Rightarrow> (string \<times> nat list) option \<times> CursorMoveHold" where
  "takeHeld h = (ch_held h, h\<lparr>ch_held := None, ch_timer := None\<rparr>)"

definition writeAll :: "string \<Rightarrow> nat list \<Rightarrow> CursorMoveHold \<Rightarrow> CursorMoveHold" where
  "writeAll s callbacks h = h\<lparr>ch_writes := ch_writes h @ [(s, callbacks)]\<rparr>"

definition flush_held :: "CursorMoveHold \<Rightarrow> CursorMoveHold" where
  "flush_held h =
     (case takeHeld h of
        (None, h) \<Rightarrow> h
      | (Some (s, callbacks), h) \<Rightarrow> writeAll s callbacks h)"

definition answers_input :: "int \<Rightarrow> CursorMoveHold \<Rightarrow> bool" where
  "answers_input now h \<longleftrightarrow>
     (case ch_lastInputAt h of None \<Rightarrow> False | Some at' \<Rightarrow> now - at' < INPUT_GRACE_MS)"

definition write_chunk :: "int \<Rightarrow> string \<Rightarrow> nat option \<Rightarrow> CursorMoveHold \<Rightarrow> CursorMoveHold" where
  "write_chunk now s onParsed h =
     (let callbacks = (case onParsed of None \<Rightarrow> [] | Some f \<Rightarrow> [f])
      in if isLineRedrawLead s \<and> \<not> answers_input now h then
           (case ch_held h of
              Some (t, cs) \<Rightarrow> h\<lparr>ch_held := Some (t @ s, cs @ callbacks)\<rparr>
            | None \<Rightarrow> h\<lparr>ch_held := Some (s, callbacks), ch_timer := Some (now + HOLD_MS)\<rparr>)
         else case takeHeld h of
                (None, h) \<Rightarrow> writeAll s callbacks h
              | (Some (t, cs), h) \<Rightarrow> writeAll (t @ s) (cs @ callbacks) h)"

definition timer_elapsed :: "int \<Rightarrow> CursorMoveHold \<Rightarrow> CursorMoveHold" where
  "timer_elapsed now h =
     (case ch_timer h of
        None \<Rightarrow> h
      | Some due \<Rightarrow> if due \<le> now then flush_held h else h)"

definition dispose_hold :: "CursorMoveHold \<Rightarrow> CursorMoveHold" where
  "dispose_hold h = (snd (takeHeld h))\<lparr>ch_listens := False\<rparr>"

section \<open>Runs\<close>

datatype HoldCall = Hc_input | Hc_write string "nat option" | Hc_flush | Hc_timer

fun hold_step :: "CursorMoveHold \<Rightarrow> int \<times> HoldCall \<Rightarrow> CursorMoveHold" where
  "hold_step h (now, Hc_input) = note_input now h"
| "hold_step h (now, Hc_write s f) = write_chunk now s f h"
| "hold_step h (now, Hc_flush) = flush_held h"
| "hold_step h (now, Hc_timer) = timer_elapsed now h"

text \<open>The timer is served on time: no call comes after it is due, and none but its own then.\<close>

definition on_time :: "CursorMoveHold \<Rightarrow> int \<times> HoldCall \<Rightarrow> bool" where
  "on_time h call \<longleftrightarrow>
     (case ch_timer h of None \<Rightarrow> True | Some due \<Rightarrow> fst call < due \<or> call = (due, Hc_timer))"

fun chunks :: "(int \<times> HoldCall) list \<Rightarrow> string" where
  "chunks [] = []"
| "chunks ((now, Hc_write s f) # calls) = s @ chunks calls"
| "chunks (call # calls) = chunks calls"

fun callbacks :: "(int \<times> HoldCall) list \<Rightarrow> nat list" where
  "callbacks [] = []"
| "callbacks ((now, Hc_write s f) # calls) = (case f of None \<Rightarrow> [] | Some g \<Rightarrow> [g]) @ callbacks calls"
| "callbacks (call # calls) = callbacks calls"

definition written :: "CursorMoveHold \<Rightarrow> string \<times> nat list" where
  "written h = (concat (map fst (ch_writes h)), concat (map snd (ch_writes h)))"

definition held :: "CursorMoveHold \<Rightarrow> string \<times> nat list" where
  "held h = or_default (ch_held h) ([], [])"

section \<open>Only the time changes\<close>

lemma chunks_append [simp]: "chunks (as @ bs) = chunks as @ chunks bs"
  by (induction as rule: chunks.induct) auto

lemma callbacks_append [simp]: "callbacks (as @ bs) = callbacks as @ callbacks bs"
  by (induction as rule: callbacks.induct) auto

lemma written_writeAll: "written (writeAll s cs h) = (fst (written h) @ s, snd (written h) @ cs)"
  by (simp add: written_def writeAll_def)

lemma written_takeHeld: "takeHeld h = (x, h') \<Longrightarrow> written h' = written h \<and> ch_held h' = None \<and> ch_timer h' = None \<and> x = ch_held h"
  by (auto simp: takeHeld_def written_def)

text \<open>What was given came as \<open>as\<close>, all written, then \<open>bs\<close>, all held, since at most the delay.\<close>

definition hold_ok :: "(int \<times> HoldCall) list \<Rightarrow> CursorMoveHold \<Rightarrow> bool" where
  "hold_ok calls h \<longleftrightarrow>
     (ch_held h = None \<longleftrightarrow> ch_timer h = None)
     \<and> (\<exists>as bs. calls = as @ bs \<and> written h = (chunks as, callbacks as) \<and> held h = (chunks bs, callbacks bs)
          \<and> (case ch_timer h of None \<Rightarrow> bs = [] | Some due \<Rightarrow>
               list_all (\<lambda>call. due - HOLD_MS \<le> fst call) bs \<and> calls \<noteq> []
               \<and> due - HOLD_MS \<le> fst (last calls) \<and> fst (last calls) \<le> due))"

lemma hold_ok_written:
  "ch_held h = None \<Longrightarrow> ch_timer h = None \<Longrightarrow> written h = (chunks calls, callbacks calls) \<Longrightarrow> hold_ok calls h"
  by (auto simp: hold_ok_def held_def intro!: exI [of _ calls])

lemma hold_okE:
  assumes "hold_ok calls h"
  obtains (free) "ch_held h = None" "ch_timer h = None" "written h = (chunks calls, callbacks calls)"
    | (holding) as bs due where "calls = as @ bs" "ch_held h = Some (chunks bs, callbacks bs)"
        "ch_timer h = Some due" "written h = (chunks as, callbacks as)"
        "list_all (\<lambda>call. due - HOLD_MS \<le> fst call) bs" "calls \<noteq> []"
        "due - HOLD_MS \<le> fst (last calls)" "fst (last calls) \<le> due"
  using assms by (cases "ch_held h"; cases "ch_timer h") (auto simp: hold_ok_def held_def)

lemma hold_ok_held:
  assumes "ch_held h = Some (chunks bs, callbacks bs)" "ch_timer h = Some due"
    "written h = (chunks as, callbacks as)" "list_all (\<lambda>call. due - HOLD_MS \<le> fst call) bs"
    "bs \<noteq> []" "fst (last bs) \<le> due"
  shows "hold_ok (as @ bs) h"
  using assms unfolding hold_ok_def held_def
  by (intro conjI exI [of _ as] exI [of _ bs]) (auto simp: list_all_iff)

lemma hold_step_ok:
  assumes ok: "hold_ok calls h" and time: "on_time h call"
    and later: "calls \<noteq> [] \<longrightarrow> fst (last calls) \<le> fst call"
  shows "hold_ok (calls @ [call]) (hold_step h call)"
  using ok
proof (cases rule: hold_okE)
  case free
  show ?thesis
  proof (cases "(h, call)" rule: hold_step.cases)
    case (2 h' now s f)
    show ?thesis
    proof (cases "isLineRedrawLead s \<and> \<not> answers_input now h")
      case True
      show ?thesis
        by (rule hold_ok_held [where due = "now + HOLD_MS"])
          (use free True 2 in \<open>simp_all add: write_chunk_def written_def HOLD_MS_def split: option.split\<close>)
    next
      case False
      then show ?thesis
        using free 2 by (auto simp: write_chunk_def takeHeld_def written_writeAll Let_def written_def writeAll_def intro!: hold_ok_written)
    qed
  qed (use free in \<open>auto intro!: hold_ok_written simp: note_input_def written_def flush_held_def takeHeld_def timer_elapsed_def\<close>)
next
  case (holding as bs due)
  from time holding have lt: "fst call < due \<or> call = (due, Hc_timer)" by (simp add: on_time_def)
  have bs: "list_all (\<lambda>call. due - HOLD_MS \<le> fst call) (bs @ [call])" and le: "fst call \<le> due"
    using holding later lt by auto
  have flushed: "hold_ok (calls @ [call]) (flush_held h)" if "chunks [call] = []" "callbacks [call] = []"
    using that holding by (intro hold_ok_written) (auto simp: flush_held_def takeHeld_def writeAll_def written_def)
  have kept: "hold_ok (calls @ [call]) h'"
    if "ch_held h' = Some (chunks (bs @ [call]), callbacks (bs @ [call]))" "ch_timer h' = Some due"
      "ch_writes h' = ch_writes h" for h'
    using hold_ok_held [OF that(1) that(2) _ bs, of as] that(3) holding le by (simp add: written_def)
  show ?thesis
  proof (cases "(h, call)" rule: hold_step.cases)
    case (1 h' now)
    show ?thesis by (rule kept) (use 1 holding in \<open>simp_all add: note_input_def\<close>)
  next
    case (2 h' now t f)
    show ?thesis
    proof (cases "isLineRedrawLead t \<and> \<not> answers_input now h")
      case True
      show ?thesis
        by (rule kept) (use 2 True holding in \<open>simp_all add: write_chunk_def split: option.split\<close>)
    next
      case False
      then show ?thesis
        using holding 2 by (auto simp: write_chunk_def takeHeld_def written_def writeAll_def intro!: hold_ok_written)
    qed
  next
    case (3 h' now)
    with flushed show ?thesis by simp
  next
    case (4 h' now)
    show ?thesis
    proof (cases "due \<le> now")
      case True
      with 4 holding flushed show ?thesis by (simp add: timer_elapsed_def)
    next
      case False
      show ?thesis by (rule kept) (use 4 False holding in \<open>simp_all add: timer_elapsed_def\<close>)
    qed
  qed
qed

lemma run_hold_ok:
  "run_allowed on_time hold_step new_hold calls \<Longrightarrow> sorted (map fst calls)
   \<Longrightarrow> hold_ok calls (run hold_step new_hold calls)"
proof (induction calls rule: rev_induct)
  case Nil
  show ?case by (simp add: hold_ok_written new_hold_def written_def)
next
  case (snoc call calls)
  then have "hold_ok calls (run hold_step new_hold calls)" and "on_time (run hold_step new_hold calls) call"
    and "calls \<noteq> [] \<longrightarrow> fst (last calls) \<le> fst call"
    by (auto simp: run_allowed_append sorted_append)
  from hold_step_ok [OF this] show ?case by (simp add: run_append)
qed

lemma answers_go_out: "answers_input now h \<Longrightarrow> ch_held (write_chunk now s f h) = None"
  by (auto simp: write_chunk_def takeHeld_def writeAll_def Let_def split: option.split)

text \<open>
  C28: output is only delayed. Whatever is given in whatever pieces, what has been written
  is the text of the chunks given first, in order, with their callbacks; the rest is held,
  and all of it was given in the last fifty milliseconds.\<close>

theorem output_is_only_delayed:
  assumes "run_allowed on_time hold_step new_hold calls" and "sorted (map fst calls)"
  shows "\<exists>as bs. calls = as @ bs
    \<and> written (run hold_step new_hold calls) = (chunks as, callbacks as)
    \<and> held (run hold_step new_hold calls) = (chunks bs, callbacks bs)
    \<and> list_all (\<lambda>call. fst (last calls) - HOLD_MS \<le> fst call) bs"
  using run_hold_ok [OF assms]
proof (cases rule: hold_okE)
  case free
  then show ?thesis by (intro exI [of _ calls] exI [of _ "[]"]) (simp add: held_def)
next
  case (holding as bs due)
  then show ?thesis
    by (intro exI [of _ as] exI [of _ bs]) (auto simp: held_def list_all_iff)
qed

theorem output_is_only_delayed_witness:
  "\<exists>as bs. [(0, Hc_write ''a'' (Some 1)), (5, Hc_write [CHR 0x0D] (Some 2)), (20, Hc_write [CHR 0x1B, CHR ''['', CHR ''K''] None)] = as @ bs
    \<and> written (run hold_step new_hold [(0, Hc_write ''a'' (Some 1)), (5, Hc_write [CHR 0x0D] (Some 2)),
        (20, Hc_write [CHR 0x1B, CHR ''['', CHR ''K''] None)]) = (chunks as, callbacks as)
    \<and> held (run hold_step new_hold [(0, Hc_write ''a'' (Some 1)), (5, Hc_write [CHR 0x0D] (Some 2)),
        (20, Hc_write [CHR 0x1B, CHR ''['', CHR ''K''] None)]) = (chunks bs, callbacks bs)
    \<and> list_all (\<lambda>call. fst (last [(0, Hc_write ''a'' (Some 1)), (5, Hc_write [CHR 0x0D] (Some 2)),
        (20, Hc_write [CHR 0x1B, CHR ''['', CHR ''K''] None)]) - HOLD_MS \<le> fst call) bs"
  by (rule output_is_only_delayed) code_simp+

lemma redraw_is_held:
  "ch_held (run hold_step new_hold [(0, Hc_write ''a'' (Some 1)), (5, Hc_write [CHR 0x0D] (Some 2)),
     (20, Hc_write [CHR 0x1B, CHR ''['', CHR ''K''] None)]) = Some ([CHR 0x0D, CHR 0x1B, CHR ''['', CHR ''K''], [2])"
  by code_simp

end
