(* ===== verification/Dropped_Paths.thy ===== *)
theory Dropped_Paths
  imports Js_String
begin

text \<open>
  Paths dropped on a terminal, quoted for its shell (\<open>src/src/lib/droppedPaths.ts\<close>), and
  the \<open>cd\<close> typed into a remote shell (\<open>src/src/lib/terminalCd.ts\<close>).
\<close>

section \<open>Quoting\<close>

datatype DropQuoting = Dq_posix | Dq_powershell | Dq_cmd | Dq_wsl | Dq_gitBash

definition dropQuotingFor :: "string \<Rightarrow> string option \<Rightarrow> DropQuoting" where
  "dropQuotingFor platform shellName =
     (if platform \<noteq> ''windows'' then Dq_posix
      else let name = map_option (\<lambda>n. to_lower (trim n)) shellName
           in if name = Some ''powershell'' \<or> name = Some ''pwsh'' then Dq_powershell
              else if name = Some ''wsl'' then Dq_wsl
              else if name = Some ''git bash'' then Dq_gitBash
              else Dq_cmd)"

abbreviation newline :: char where "newline \<equiv> CHR 0x0A"
abbreviation backslash :: char where "backslash \<equiv> CHR 0x5C"
abbreviation squote :: char where "squote \<equiv> CHR 0x27"

definition POSIX_SPECIAL :: "char \<Rightarrow> bool" where
  "POSIX_SPECIAL c \<longleftrightarrow> is_space c \<or> c = CHR 0x22 \<or> c = squote \<or> c = backslash \<or> c \<in> set ''!#$&()*;<>?[]^`{|}~=''"

definition CMD_SPECIAL :: "char \<Rightarrow> bool" where
  "CMD_SPECIAL c \<longleftrightarrow> is_space c \<or> c = squote \<or> c \<in> set ''&()[]{}^=;!+,`~%''"

definition POWERSHELL_SPECIAL :: "char \<Rightarrow> bool" where
  "POWERSHELL_SPECIAL c \<longleftrightarrow> is_space c \<or> c = CHR 0x22 \<or> c = squote \<or> c \<in> set ''`$&()[]{};,@#|<>''"

definition posix_char :: "char \<Rightarrow> string" where
  "posix_char c =
     (if \<not> POSIX_SPECIAL c then [c]
      else if c = newline then [squote, newline, squote] else [backslash, c])"

definition quotePosix :: "string \<Rightarrow> string" where
  "quotePosix path = concat (map posix_char path)"

definition quotePowerShell :: "string \<Rightarrow> string" where
  "quotePowerShell path =
     (if list_ex POWERSHELL_SPECIAL path
      then [squote] @ concat (map (\<lambda>c. if c = squote then [squote, squote] else [c]) path) @ [squote]
      else path)"

definition quoteCmd :: "string \<Rightarrow> string" where
  "quoteCmd path = (if list_ex CMD_SPECIAL path then [CHR 0x22] @ path @ [CHR 0x22] else path)"

section \<open>Windows paths in other shells\<close>

definition forward_slashes :: "string \<Rightarrow> string" where
  "forward_slashes = map (\<lambda>c. if c = backslash then CHR ''/'' else c)"

text \<open>The two patterns of \<open>toUnixPath\<close>: drive and rest, and the path inside a distribution.\<close>

definition windows_drive :: "string \<Rightarrow> (char \<times> string) option" where
  "windows_drive path =
     (case path of
        c # d # r \<Rightarrow>
          if is_letter c \<and> d = CHR '':''
          then Some (c, case r of [] \<Rightarrow> [] | e # r' \<Rightarrow> if e = backslash \<or> e = CHR ''/'' then r' else r)
          else None
      | _ \<Rightarrow> None)"

definition distro_path :: "string \<Rightarrow> string option option" where
  "distro_path path =
     (if \<not> starts_with path [backslash, backslash] then None
      else let share = takeWhile (\<lambda>c. c \<noteq> backslash) (drop 2 path);
               after = dropWhile (\<lambda>c. c \<noteq> backslash) (drop 2 path);
               name = takeWhile (\<lambda>c. c \<noteq> backslash) (tl after);
               rest = dropWhile (\<lambda>c. c \<noteq> backslash) (tl after)
           in if to_lower share \<notin> {''wsl$'', ''wsl.localhost''} \<or> after = [] \<or> name = []
                 \<or> newline \<in> set rest \<or> CHR 0x0D \<in> set rest
              then None
              else Some (if rest = [] then None else Some rest))"

definition toUnixPath :: "string \<Rightarrow> string \<Rightarrow> string" where
  "toUnixPath path driveRoot =
     (case windows_drive path of
        Some (drive, r) \<Rightarrow>
          (let rest = forward_slashes r
           in quotePosix (driveRoot @ to_lower [drive] @ (if rest \<noteq> [] then CHR ''/'' # rest else [])))
      | None \<Rightarrow>
          (case distro_path path of
             Some inside \<Rightarrow> quotePosix (forward_slashes (or_default inside [backslash]))
           | None \<Rightarrow>
               [squote] @ concat (map (\<lambda>c. if c = squote then [squote, backslash, squote, squote] else [c]) path) @ [squote]))"

section \<open>What a drop types\<close>

definition quoteDroppedPath :: "string \<Rightarrow> DropQuoting \<Rightarrow> string" where
  "quoteDroppedPath path quoting =
     (case quoting of
        Dq_posix \<Rightarrow> quotePosix path
      | Dq_powershell \<Rightarrow> quotePowerShell path
      | Dq_cmd \<Rightarrow> quoteCmd path
      | Dq_wsl \<Rightarrow> toUnixPath path ''/mnt/''
      | Dq_gitBash \<Rightarrow> toUnixPath path ''/'')"

definition droppedPathsText :: "string list \<Rightarrow> DropQuoting \<Rightarrow> string" where
  "droppedPathsText paths quoting =
     (let quoted = map (\<lambda>path. quoteDroppedPath path quoting) (filter (\<lambda>path. length path > 0) paths)
      in if length quoted > 0 then join '' '' quoted @ '' '' else [])"

definition terminalCdCommand :: "string \<Rightarrow> string" where
  "terminalCdCommand path = ''cd '' @ quotePosix path @ [CHR 0x0D]"

section \<open>What a shell reads\<close>

text \<open>
  The words a POSIX shell reads on a line of plain words: blanks separate, a backslash
  quotes a character and joins lines, apostrophes quote anything. A character that is
  syntax outside quotes, or an open quote at the end, gives no words.
\<close>

definition sh_syntax :: "char \<Rightarrow> bool" where
  "sh_syntax c \<longleftrightarrow> c \<in> set (CHR 0x22 # newline # ''|&;<>()$`*?[]#~=!{}^'')"

definition add_char :: "string option \<Rightarrow> char \<Rightarrow> string option" where
  "add_char word c = Some (or_default word [] @ [c])"

definition word_list :: "string option \<Rightarrow> string list" where
  "word_list word = (case word of None \<Rightarrow> [] | Some w \<Rightarrow> [w])"

fun sh_read :: "bool \<Rightarrow> string option \<Rightarrow> string \<Rightarrow> string list option" where
  "sh_read quoted word [] = (if quoted then None else Some (word_list word))"
| "sh_read quoted word (c # s) =
     (if quoted then
        if c = squote then sh_read False word s else sh_read True (add_char word c) s
      else if c = squote then sh_read True (Some (or_default word [])) s
      else if c = backslash then
        (case s of
           [] \<Rightarrow> None
         | d # t \<Rightarrow> if d = newline then sh_read False word t else sh_read False (add_char word d) t)
      else if c = CHR '' '' \<or> c = CHR 0x09 then map_option ((@) (word_list word)) (sh_read False None s)
      else if sh_syntax c then None
      else sh_read False (add_char word c) s)"

text \<open>PowerShell: an apostrophe inside a quoted text is written twice.\<close>

definition ps_syntax :: "char \<Rightarrow> bool" where
  "ps_syntax c \<longleftrightarrow> c \<in> set (CHR 0x22 # newline # CHR 0x0D # ''`$&()[]{};,@#|<>'')"

fun ps_read :: "bool \<Rightarrow> string option \<Rightarrow> string \<Rightarrow> string list option" where
  "ps_read quoted word [] = (if quoted then None else Some (word_list word))"
| "ps_read quoted word (c # s) =
     (if quoted then
        if c = squote then
          (case s of
             [] \<Rightarrow> ps_read False word s
           | d # t \<Rightarrow> if d = squote then ps_read True (add_char word squote) t else ps_read False word s)
        else ps_read True (add_char word c) s
      else if c = squote then ps_read True (Some (or_default word [])) s
      else if c = CHR '' '' \<or> c = CHR 0x09 then map_option ((@) (word_list word)) (ps_read False None s)
      else if ps_syntax c then None
      else ps_read False (add_char word c) s)"

text \<open>The path a Windows path has in a shell with drives under \<open>driveRoot\<close>.\<close>

definition unix_path :: "string \<Rightarrow> string \<Rightarrow> string" where
  "unix_path driveRoot path =
     (case windows_drive path of
        Some (drive, r) \<Rightarrow> driveRoot @ to_lower [drive] @ (if r = [] then [] else ''/'' @ forward_slashes r)
      | None \<Rightarrow> (case distro_path path of
             Some inside \<Rightarrow> forward_slashes (or_default inside [backslash])
           | None \<Rightarrow> path))"

section \<open>Paths read back\<close>

lemma specials_quoted:
  "sh_syntax c \<Longrightarrow> POSIX_SPECIAL c" "ps_syntax c \<Longrightarrow> POWERSHELL_SPECIAL c"
proof -
  have "list_all POSIX_SPECIAL (CHR 0x22 # newline # ''|&;<>()$`*?[]#~=!{}^'')" by code_simp
  then show "sh_syntax c \<Longrightarrow> POSIX_SPECIAL c" unfolding list_all_iff sh_syntax_def by blast
  have "list_all POWERSHELL_SPECIAL (CHR 0x22 # newline # CHR 0x0D # ''`$&()[]{};,@#|<>'')" by code_simp
  then show "ps_syntax c \<Longrightarrow> POWERSHELL_SPECIAL c" unfolding list_all_iff ps_syntax_def by blast
qed

lemma not_special:
  assumes "\<not> POSIX_SPECIAL c"
  shows "c \<noteq> squote" "c \<noteq> backslash" "c \<noteq> CHR '' ''" "c \<noteq> CHR 0x09" "\<not> sh_syntax c"
proof -
  have "POSIX_SPECIAL squote" "POSIX_SPECIAL backslash" "POSIX_SPECIAL (CHR '' '')" "POSIX_SPECIAL (CHR 0x09)"
    by code_simp+
  with assms show "c \<noteq> squote" "c \<noteq> backslash" "c \<noteq> CHR '' ''" "c \<noteq> CHR 0x09" by blast+
  from assms show "\<not> sh_syntax c" using specials_quoted(1) by blast
qed

lemma ps_not_special:
  assumes "\<not> POWERSHELL_SPECIAL c"
  shows "c \<noteq> squote" "c \<noteq> CHR '' ''" "c \<noteq> CHR 0x09" "\<not> ps_syntax c"
proof -
  have "POWERSHELL_SPECIAL squote" "POWERSHELL_SPECIAL (CHR '' '')" "POWERSHELL_SPECIAL (CHR 0x09)"
    by code_simp+
  with assms show "c \<noteq> squote" "c \<noteq> CHR '' ''" "c \<noteq> CHR 0x09" by blast+
  from assms show "\<not> ps_syntax c" using specials_quoted(2) by blast
qed

lemma sh_posix_char:
  "sh_read False word (posix_char c @ s) = sh_read False (add_char word c) s"
proof (cases "POSIX_SPECIAL c")
  case True
  then show ?thesis by (simp add: posix_char_def add_char_def)
next
  case False
  from not_special [OF this] False show ?thesis by (simp add: posix_char_def)
qed

lemma sh_quotePosix:
  "p \<noteq> [] \<or> word \<noteq> None \<Longrightarrow> sh_read False word (quotePosix p @ s) = sh_read False (Some (or_default word [] @ p)) s"
proof (induction p arbitrary: word)
  case Nil
  then show ?case by (auto simp: quotePosix_def)
next
  case (Cons c p)
  have "sh_read False word (quotePosix (c # p) @ s) = sh_read False (add_char word c) (quotePosix p @ s)"
    by (simp add: quotePosix_def sh_posix_char)
  with Cons.IH [of "add_char word c"] show ?case by (simp add: add_char_def)
qed

lemma sh_apostrophes:
  "sh_read True word (concat (map (\<lambda>c. if c = squote then [squote, backslash, squote, squote] else [c]) p) @ squote # s)
   = sh_read False (if p = [] then word else Some (or_default word [] @ p)) s" if "word \<noteq> None"
  using that
proof (induction p arbitrary: word)
  case (Cons c p)
  then show ?case by (cases "c = squote") (auto simp: add_char_def)
qed simp

lemma distro_path_full: "distro_path p \<noteq> Some (Some [])"
proof -
  have "(if a then None else if b then None else Some (if r = [] then None else Some r)) \<noteq> Some (Some [])"
    for a b and r :: string
    by simp
  then show ?thesis unfolding distro_path_def Let_def .
qed

lemma sh_toUnixPath:
  assumes "p \<noteq> []" and "driveRoot \<noteq> []"
  shows "sh_read False None (toUnixPath p driveRoot @ s) = sh_read False (Some (unix_path driveRoot p)) s"
proof (cases "windows_drive p")
  case (Some dr)
  obtain drive r where "dr = (drive, r)" by fastforce
  with Some assms show ?thesis
    by (auto simp: toUnixPath_def unix_path_def Let_def sh_quotePosix forward_slashes_def)
next
  case None
  show ?thesis
  proof (cases "distro_path p")
    case (Some inside)
    have "forward_slashes (or_default inside [backslash]) \<noteq> []"
      using Some distro_path_full [of p] by (cases inside) (auto simp: forward_slashes_def)
    with None Some show ?thesis
      by (simp add: toUnixPath_def unix_path_def sh_quotePosix)
  next
    case none: None
    show ?thesis
      using sh_apostrophes [of "Some []" p s] assms(1) by (simp add: toUnixPath_def unix_path_def None none)
  qed
qed

lemma ps_apostrophes:
  assumes "word \<noteq> None" and "s = [] \<or> hd s \<noteq> squote"
  shows "ps_read True word (concat (map (\<lambda>c. if c = squote then [squote, squote] else [c]) p) @ squote # s)
   = ps_read False (if p = [] then word else Some (or_default word [] @ p)) s"
  using assms(1)
proof (induction p arbitrary: word)
  case Nil
  with assms(2) show ?case by (cases s) auto
next
  case (Cons c p)
  then show ?case by (cases "c = squote") (auto simp: add_char_def)
qed

lemma ps_plain:
  "\<not> list_ex POWERSHELL_SPECIAL p \<Longrightarrow> p \<noteq> [] \<or> word \<noteq> None
   \<Longrightarrow> ps_read False word (p @ s) = ps_read False (Some (or_default word [] @ p)) s"
proof (induction p arbitrary: word)
  case (Cons c p)
  then have "\<not> POWERSHELL_SPECIAL c" and "\<not> list_ex POWERSHELL_SPECIAL p" by simp_all
  from Cons.IH [OF this(2), of "add_char word c"] ps_not_special [OF this(1)]
  show ?case by (simp add: add_char_def)
qed auto

lemma ps_quotePowerShell:
  "p \<noteq> [] \<Longrightarrow> s = [] \<or> hd s \<noteq> squote \<Longrightarrow> ps_read False None (quotePowerShell p @ s) = ps_read False (Some p) s"
  using ps_apostrophes [of "Some []" s p] ps_plain [of p None s]
  by (auto simp: quotePowerShell_def)

lemma read_words:
  assumes "\<And>p s. p \<in> set ps \<Longrightarrow> hd s = CHR '' '' \<Longrightarrow> s \<noteq> [] \<Longrightarrow> r (q p @ s) = map_option ((@) [f p]) (r (tl s))"
    and "r [] = Some []"
  shows "r (if ps = [] then [] else join '' '' (map q ps) @ '' '') = Some (map f ps)"
  using assms
proof (induction ps)
  case (Cons p ps)
  then show ?case by (cases ps) auto
qed simp

lemma sh_read_line:
  assumes "\<And>p s. p \<in> set paths \<Longrightarrow> p \<noteq> [] \<Longrightarrow> sh_read False None (quoteDroppedPath p quoting @ s) = sh_read False (Some (f p)) s"
  shows "sh_read False None (droppedPathsText paths quoting) = Some (map f (filter (\<lambda>p. p \<noteq> []) paths))"
proof -
  have "sh_read False None (if filter (\<lambda>p. p \<noteq> []) paths = [] then []
      else join '' '' (map (\<lambda>p. quoteDroppedPath p quoting) (filter (\<lambda>p. p \<noteq> []) paths)) @ '' '')
    = Some (map f (filter (\<lambda>p. p \<noteq> []) paths))"
  proof (rule read_words)
    fix p s
    assume "p \<in> set (filter (\<lambda>p. p \<noteq> []) paths)" "hd s = CHR '' ''" "s \<noteq> ([] :: string)"
    with assms show "sh_read False None (quoteDroppedPath p quoting @ s) = map_option ((@) [f p]) (sh_read False None (tl s))"
      by (cases s) (auto simp: word_list_def)
  qed (simp add: word_list_def)
  then show ?thesis by (simp add: droppedPathsText_def word_list_def split: if_splits)
qed

lemma ps_read_line:
  "ps_read False None (droppedPathsText paths Dq_powershell) = Some (filter (\<lambda>p. p \<noteq> []) paths)"
proof -
  have "ps_read False None (if filter (\<lambda>p. p \<noteq> []) paths = [] then []
      else join '' '' (map quotePowerShell (filter (\<lambda>p. p \<noteq> []) paths)) @ '' '')
    = Some (map (\<lambda>p. p) (filter (\<lambda>p. p \<noteq> []) paths))"
  proof (rule read_words)
    fix p s
    assume "p \<in> set (filter (\<lambda>p. p \<noteq> []) paths)" "hd s = CHR '' ''" "s \<noteq> ([] :: string)"
    with ps_quotePowerShell [of p s]
    show "ps_read False None (quotePowerShell p @ s) = map_option ((@) [p]) (ps_read False None (tl s))"
      by (cases s) (auto simp: word_list_def)
  qed (simp add: word_list_def)
  then show ?thesis by (simp add: droppedPathsText_def quoteDroppedPath_def word_list_def split: if_splits)
qed


lemma cd_reads_path:
  assumes "path \<noteq> []"
  shows "sh_read False None (butlast (terminalCdCommand path)) = Some [''cd'', path]"
    and "last (terminalCdCommand path) = CHR 0x0D"
  using sh_quotePosix [of path None "[]"] assms
  by (simp_all add: terminalCdCommand_def butlast_append add_char_def sh_syntax_def word_list_def)

end
