(* ===== verification/Sftp_Files.thy ===== *)
theory Sftp_Files
  imports Json Js_Sort Machines "HOL-Library.Word"
begin

unbundle bit_operations_syntax

text \<open>
  The file drawer of an SSH connection, as far as it decides anything
  (\<open>src/src/components/SftpDrawer\<close>): the folders it has shown (\<open>sftpHistory.ts\<close>), the order
  of a listing (\<open>sftpView.ts\<close>), remote paths (\<open>sftpDrawerUtils.ts\<close>), archives
  (\<open>sftpArchive.ts\<close>), its dialogs (\<open>sftpDialogReducer.ts\<close>), the selection
  (\<open>useSftpSelection.ts\<close>), files open in other programs (\<open>externalEdit.ts\<close>). How names
  compare in the user's language (\<open>Intl.Collator\<close>, \<open>localeCompare\<close>) is a parameter.
\<close>

section \<open>Entries\<close>

record SftpDirectoryEntry =
  se_name :: string
  se_path :: string
  se_isDir :: bool
  se_isSymlink :: bool
  se_size :: "int option"
  se_modifiedAt :: "int option"
  se_permissions :: "string option"
  se_mode :: "int option"
  se_owner :: "string option"
  se_group :: "string option"
  se_location :: "string option"

section \<open>Folders shown\<close>

definition SFTP_HISTORY_LIMIT :: nat where "SFTP_HISTORY_LIMIT = 50"

record SftpHistory =
  sh_paths :: "string list"
  sh_index :: int

definition EMPTY_SFTP_HISTORY :: SftpHistory where
  "EMPTY_SFTP_HISTORY = \<lparr>sh_paths = [], sh_index = - 1\<rparr>"

text \<open>An index of an array: \<open>undefined\<close> outside it.\<close>

definition at_int :: "'a list \<Rightarrow> int \<Rightarrow> 'a option" where
  "at_int xs i = (if 0 \<le> i \<and> i < int (length xs) then Some (xs ! nat i) else None)"

text \<open>\<open>slice(-n)\<close>, \<open>n\<close> not zero.\<close>

definition last_n :: "nat \<Rightarrow> 'a list \<Rightarrow> 'a list" where
  "last_n n xs = drop (length xs - n) xs"

definition recordSftpVisit :: "SftpHistory \<Rightarrow> string \<Rightarrow> SftpHistory" where
  "recordSftpVisit history path =
     (if at_int (sh_paths history) (sh_index history) = Some path then history
      else let paths = last_n SFTP_HISTORY_LIMIT (take (nat (sh_index history + 1)) (sh_paths history) @ [path])
           in \<lparr>sh_paths = paths, sh_index = int (length paths) - 1\<rparr>)"

definition sftpHistoryTarget :: "SftpHistory \<Rightarrow> int \<Rightarrow> int option" where
  "sftpHistoryTarget history step =
     (let target = sh_index history + step
      in if target \<ge> 0 \<and> target < int (length (sh_paths history)) then Some target else None)"

definition landSftpHistory :: "SftpHistory \<Rightarrow> int \<Rightarrow> string \<Rightarrow> SftpHistory" where
  "landSftpHistory history index path =
     (if index < 0 \<or> index \<ge> int (length (sh_paths history)) then recordSftpVisit history path
      else if sh_index history = index \<and> at_int (sh_paths history) index = Some path then history
      else \<lparr>sh_paths = (sh_paths history)[nat index := path], sh_index = index\<rparr>)"

definition dropSftpHistoryEntry :: "SftpHistory \<Rightarrow> int \<Rightarrow> SftpHistory" where
  "dropSftpHistoryEntry history index =
     (if index < 0 \<or> index \<ge> int (length (sh_paths history)) \<or> index = sh_index history then history
      else \<lparr>sh_paths = take (nat index) (sh_paths history) @ drop (nat index + 1) (sh_paths history),
            sh_index = (if index < sh_index history then sh_index history - 1 else sh_index history)\<rparr>)"

text \<open>What a listing reports (\<open>useSftpHistory.ts\<close>); a load asked for by a step has its index.\<close>

definition recordLoaded :: "string \<Rightarrow> int option \<Rightarrow> SftpHistory \<Rightarrow> SftpHistory" where
  "recordLoaded path historyIndex current =
     (case historyIndex of None \<Rightarrow> recordSftpVisit current path | Some i \<Rightarrow> landSftpHistory current i path)"

definition recordFailed :: "int option \<Rightarrow> SftpHistory \<Rightarrow> SftpHistory" where
  "recordFailed historyIndex current =
     (case historyIndex of None \<Rightarrow> current | Some i \<Rightarrow> dropSftpHistoryEntry current i)"

section \<open>Order of a listing\<close>

datatype SftpSortColumn = Sc_name | Sc_modified | Sc_size | Sc_kind | Sc_permissions | Sc_owner

datatype SftpDirection = Sd_asc | Sd_desc

record SftpSort =
  so_column :: SftpSortColumn
  so_direction :: SftpDirection

record SftpViewPreferences =
  vp_sort :: SftpSort
  vp_showHidden :: bool

definition DEFAULT_SFTP_VIEW_PREFERENCES :: SftpViewPreferences where
  "DEFAULT_SFTP_VIEW_PREFERENCES =
     \<lparr>vp_sort = \<lparr>so_column = Sc_name, so_direction = Sd_asc\<rparr>, vp_showHidden = True\<rparr>"

definition isHiddenEntry :: "SftpDirectoryEntry \<Rightarrow> bool" where
  "isHiddenEntry entry = starts_with (se_name entry) ''.''"

definition nextSftpSort :: "SftpSort \<Rightarrow> SftpSortColumn \<Rightarrow> SftpSort" where
  "nextSftpSort current column =
     (if so_column current = column
      then \<lparr>so_column = column, so_direction = (if so_direction current = Sd_asc then Sd_desc else Sd_asc)\<rparr>
      else \<lparr>so_column = column, so_direction = Sd_asc\<rparr>)"

definition extensionOf :: "(string \<Rightarrow> string) \<Rightarrow> SftpDirectoryEntry \<Rightarrow> string" where
  "extensionOf lower entry =
     (if se_isDir entry then []
      else case last_index (\<lambda>c. c = CHR ''.'') (se_name entry) of
             None \<Rightarrow> []
           | Some dot \<Rightarrow> if dot > 0 then lower (drop (dot + 1) (se_name entry)) else [])"

text \<open>\<open>a || b\<close> of two results of a comparison.\<close>

definition or_compare :: "('a \<Rightarrow> 'a \<Rightarrow> int) \<Rightarrow> ('a \<Rightarrow> 'a \<Rightarrow> int) \<Rightarrow> 'a \<Rightarrow> 'a \<Rightarrow> int" where
  "or_compare f g x y = (if f x y \<noteq> 0 then f x y else g x y)"

definition key_compare :: "('a \<Rightarrow> int) \<Rightarrow> 'a \<Rightarrow> 'a \<Rightarrow> int" where
  "key_compare key x y = key x - key y"

definition text_compare :: "(string \<Rightarrow> string \<Rightarrow> int) \<Rightarrow> ('a \<Rightarrow> string) \<Rightarrow> 'a \<Rightarrow> 'a \<Rightarrow> int" where
  "text_compare localeCompare key x y = localeCompare (key x) (key y)"

definition compareByColumn ::
  "(string \<Rightarrow> string \<Rightarrow> int) \<Rightarrow> (string \<Rightarrow> string) \<Rightarrow> SftpSortColumn
   \<Rightarrow> SftpDirectoryEntry \<Rightarrow> SftpDirectoryEntry \<Rightarrow> int" where
  "compareByColumn localeCompare lower column =
     (case column of
        Sc_name \<Rightarrow> (\<lambda>left right. 0)
      | Sc_modified \<Rightarrow> key_compare (\<lambda>entry. or_default (se_modifiedAt entry) 0)
      | Sc_size \<Rightarrow> key_compare (\<lambda>entry. or_default (se_size entry) 0)
      | Sc_kind \<Rightarrow> or_compare (key_compare (\<lambda>entry. of_bool (se_isSymlink entry)))
                    (text_compare localeCompare (extensionOf lower))
      | Sc_permissions \<Rightarrow> text_compare localeCompare (\<lambda>entry. or_default (se_permissions entry) [])
      | Sc_owner \<Rightarrow> or_compare (text_compare localeCompare (\<lambda>entry. or_default (se_owner entry) []))
                     (text_compare localeCompare (\<lambda>entry. or_default (se_group entry) [])))"

definition direction_sign :: "SftpSort \<Rightarrow> int" where
  "direction_sign sorting = (if so_direction sorting = Sd_asc then 1 else - 1)"

definition compare_entries ::
  "(string \<Rightarrow> string \<Rightarrow> int) \<Rightarrow> (string \<Rightarrow> string \<Rightarrow> int) \<Rightarrow> (string \<Rightarrow> string) \<Rightarrow> SftpSort
   \<Rightarrow> SftpDirectoryEntry \<Rightarrow> SftpDirectoryEntry \<Rightarrow> int" where
  "compare_entries nameCompare localeCompare lower sorting =
     or_compare (\<lambda>left right. of_bool (se_isDir right) - of_bool (se_isDir left))
       (or_compare (\<lambda>left right. direction_sign sorting * compareByColumn localeCompare lower (so_column sorting) left right)
         (\<lambda>left right. direction_sign sorting * nameCompare (se_name left) (se_name right)))"

definition sortSftpEntries ::
  "(string \<Rightarrow> string \<Rightarrow> int) \<Rightarrow> (string \<Rightarrow> string \<Rightarrow> int) \<Rightarrow> (string \<Rightarrow> string)
   \<Rightarrow> SftpDirectoryEntry list \<Rightarrow> SftpSort \<Rightarrow> SftpDirectoryEntry list" where
  "sortSftpEntries nameCompare localeCompare lower entries sorting =
     js_sort (compare_entries nameCompare localeCompare lower sorting) entries"

definition applySftpView ::
  "(string \<Rightarrow> string \<Rightarrow> int) \<Rightarrow> (string \<Rightarrow> string \<Rightarrow> int) \<Rightarrow> (string \<Rightarrow> string)
   \<Rightarrow> SftpDirectoryEntry list \<Rightarrow> SftpViewPreferences \<Rightarrow> SftpDirectoryEntry list" where
  "applySftpView nameCompare localeCompare lower entries preferences =
     sortSftpEntries nameCompare localeCompare lower
       (if vp_showHidden preferences then entries else filter (\<lambda>entry. \<not> isHiddenEntry entry) entries)
       (vp_sort preferences)"

definition SFTP_SORT_COLUMNS :: "(string \<times> SftpSortColumn) list" where
  "SFTP_SORT_COLUMNS = [(''name'', Sc_name), (''modified'', Sc_modified), (''size'', Sc_size),
     (''kind'', Sc_kind), (''permissions'', Sc_permissions), (''owner'', Sc_owner)]"

definition SORT_DIRECTIONS :: "(string \<times> SftpDirection) list" where
  "SORT_DIRECTIONS = [(''asc'', Sd_asc), (''desc'', Sd_desc)]"

definition read_sort :: "json \<Rightarrow> SftpSort option" where
  "read_sort v =
     (case (field v ''column'', field v ''direction'') of
        (Some (JStr c), Some (JStr d)) \<Rightarrow>
          (case (map_of SFTP_SORT_COLUMNS c, map_of SORT_DIRECTIONS d) of
             (Some column, Some direction) \<Rightarrow> Some \<lparr>so_column = column, so_direction = direction\<rparr>
           | _ \<Rightarrow> None)
      | _ \<Rightarrow> None)"

definition loadSftpViewPreferences :: "(string \<Rightarrow> json option) \<Rightarrow> string option \<Rightarrow> SftpViewPreferences" where
  "loadSftpViewPreferences parse stored =
     (case parse (or_default stored ''null'') of
        None \<Rightarrow> DEFAULT_SFTP_VIEW_PREFERENCES
      | Some v \<Rightarrow>
          if \<not> is_object v then DEFAULT_SFTP_VIEW_PREFERENCES
          else \<lparr>vp_sort = or_default (case field v ''sort'' of None \<Rightarrow> None | Some s \<Rightarrow> read_sort s)
                  (vp_sort DEFAULT_SFTP_VIEW_PREFERENCES),
                vp_showHidden = (case field v ''showHidden'' of
                    Some (JBool b) \<Rightarrow> b | _ \<Rightarrow> vp_showHidden DEFAULT_SFTP_VIEW_PREFERENCES)\<rparr>)"

definition column_name :: "SftpSortColumn \<Rightarrow> string" where
  "column_name column = fst (the (find (\<lambda>(n, c). c = column) SFTP_SORT_COLUMNS))"

definition direction_name :: "SftpDirection \<Rightarrow> string" where
  "direction_name direction = fst (the (find (\<lambda>(n, d). d = direction) SORT_DIRECTIONS))"

text \<open>What \<open>saveSftpViewPreferences\<close> gives to \<open>JSON.stringify\<close>.\<close>

definition saved_view :: "SftpViewPreferences \<Rightarrow> json" where
  "saved_view preferences =
     JObj [(''sort'', JObj [(''column'', JStr (column_name (so_column (vp_sort preferences)))),
                            (''direction'', JStr (direction_name (so_direction (vp_sort preferences))))]),
           (''showHidden'', JBool (vp_showHidden preferences))]"

section \<open>Modes\<close>

definition is_octal :: "char \<Rightarrow> bool" where
  "is_octal c \<longleftrightarrow> c \<in> set ''01234567''"

definition parseOctalMode :: "string \<Rightarrow> nat option" where
  "parseOctalMode value =
     (let trimmed = trim value
      in if (length trimmed = 3 \<or> length trimmed = 4) \<and> list_all is_octal trimmed
         then Some (foldl (\<lambda>n c. 8 * n + digit_value c) 0 trimmed) else None)"

fun show_octal :: "nat \<Rightarrow> string" where
  "show_octal n = (if n < 8 then [digit_char n] else show_octal (n div 8) @ [digit_char (n mod 8)])"

definition formatOctalMode :: "nat \<Rightarrow> string" where
  "formatOctalMode mode = padStart 3 (show_octal (mode AND 4095))"

section \<open>Remote paths\<close>

abbreviation slash :: char where "slash \<equiv> CHR 0x2F"

definition joinRemotePath :: "string \<Rightarrow> string \<Rightarrow> string" where
  "joinRemotePath basePath name = (if basePath = ''/'' then ''/'' @ name else basePath @ ''/'' @ name)"

definition parentRemotePath :: "string \<Rightarrow> string" where
  "parentRemotePath path =
     (case last_index (\<lambda>c. c = slash) path of
        None \<Rightarrow> ''/''
      | Some i \<Rightarrow> if i = 0 then ''/'' else take i path)"

definition isPermissionDenied :: "string option \<Rightarrow> bool" where
  "isPermissionDenied error =
     (case error of None \<Rightarrow> False | Some e \<Rightarrow> includes_str (to_lower e) ''permission denied'')"

text \<open>\<open>breadcrumbs\<close> of \<open>useSftpSelection\<close>: label and path.\<close>

fun crumbs_from :: "string \<Rightarrow> string list \<Rightarrow> (string \<times> string) list" where
  "crumbs_from cursor [] = []"
| "crumbs_from cursor (part # parts) =
     (part, cursor @ ''/'' @ part) # crumbs_from (cursor @ ''/'' @ part) parts"

definition breadcrumbs :: "string option \<Rightarrow> (string \<times> string) list" where
  "breadcrumbs listed =
     (let currentPath = or_default listed ''/''
      in if currentPath = ''/'' then [(''/'', ''/'')]
         else (''/'', ''/'') # crumbs_from [] (filter (\<lambda>p. p \<noteq> []) (split_at (\<lambda>c. c = slash) currentPath)))"

section \<open>Selecting\<close>

definition buildSelectionRange :: "SftpDirectoryEntry list \<Rightarrow> string \<Rightarrow> string \<Rightarrow> string list" where
  "buildSelectionRange entries startPath endPath =
     (case (find_index (\<lambda>entry. se_path entry = startPath) entries,
            find_index (\<lambda>entry. se_path entry = endPath) entries) of
        (Some startIndex, Some endIndex) \<Rightarrow>
          (let (from, to) = (if startIndex \<le> endIndex then (startIndex, endIndex) else (endIndex, startIndex))
           in map se_path (take (to + 1 - from) (drop from entries)))
      | _ \<Rightarrow> [endPath])"

text \<open>The active path and the selected ones.\<close>

definition handleToggleEntrySelection :: "string \<Rightarrow> bool \<Rightarrow> string option \<times> string list \<Rightarrow> string option \<times> string list" where
  "handleToggleEntrySelection path checked s =
     (case s of (active, current) \<Rightarrow>
        if checked then (Some path, if path \<in> set current then current else current @ [path])
        else (active, filter (\<lambda>item. item \<noteq> path) current))"

definition selectedEntries :: "SftpDirectoryEntry list \<Rightarrow> string list \<Rightarrow> SftpDirectoryEntry list" where
  "selectedEntries entries selectedPaths =
     List.map_filter (map_of (rev (map (\<lambda>entry. (se_path entry, entry)) entries))) selectedPaths"

definition contextSelectionCount :: "SftpDirectoryEntry list \<Rightarrow> string option \<Rightarrow> string list \<Rightarrow> nat" where
  "contextSelectionCount entries menuPath selectedPaths =
     (case find (\<lambda>entry. Some (se_path entry) = menuPath) entries of
        Some entry \<Rightarrow> if se_path entry \<notin> set selectedPaths then 1 else length selectedPaths
      | None \<Rightarrow> length selectedPaths)"

section \<open>Archives\<close>

datatype ArchiveFormat =
    Af_zip | Af_tar | Af_tarGz | Af_tarBz2 | Af_tarXz | Af_tarZst | Af_sevenZip | Af_gzip | Af_bzip2 | Af_xz

definition COMPRESS_EXTENSIONS :: "(ArchiveFormat \<times> string) list" where
  "COMPRESS_EXTENSIONS = [(Af_tarGz, ''.tar.gz''), (Af_zip, ''.zip''), (Af_tarXz, ''.tar.xz''),
     (Af_tarBz2, ''.tar.bz2''), (Af_tar, ''.tar'')]"

definition EXTRACT_SUFFIXES :: "(string \<times> ArchiveFormat) list" where
  "EXTRACT_SUFFIXES =
     [(''.tar.gz'', Af_tarGz), (''.tgz'', Af_tarGz), (''.tar.bz2'', Af_tarBz2), (''.tbz2'', Af_tarBz2),
      (''.tbz'', Af_tarBz2), (''.tar.xz'', Af_tarXz), (''.txz'', Af_tarXz), (''.tar.zst'', Af_tarZst),
      (''.tzst'', Af_tarZst), (''.tar'', Af_tar), (''.zip'', Af_zip), (''.7z'', Af_sevenZip),
      (''.gz'', Af_gzip), (''.bz2'', Af_bzip2), (''.xz'', Af_xz)]"

definition SINGLE_FILE_FORMATS :: "ArchiveFormat list" where
  "SINGLE_FILE_FORMATS = [Af_gzip, Af_bzip2, Af_xz]"

definition matchSuffix :: "string \<Rightarrow> (string \<times> ArchiveFormat) option" where
  "matchSuffix name = find (\<lambda>(suffix, f). ends_with (to_lower name) suffix) EXTRACT_SUFFIXES"

definition archiveFormatOf :: "string \<Rightarrow> bool \<Rightarrow> ArchiveFormat option" where
  "archiveFormatOf name isDir =
     (if isDir then None
      else case matchSuffix name of
             None \<Rightarrow> None
           | Some (suffix, f) \<Rightarrow> if length suffix < length name then Some f else None)"

definition defaultExtractDestination :: "string \<Rightarrow> ArchiveFormat \<Rightarrow> string" where
  "defaultExtractDestination archivePath f =
     (let parent = parentRemotePath archivePath
      in if f \<in> set SINGLE_FILE_FORMATS then parent
         else let name = after_last (\<lambda>c. c = slash) archivePath;
                  stem = (case matchSuffix name of
                            None \<Rightarrow> name | Some (suffix, _) \<Rightarrow> take (length name - length suffix) name)
              in if parent = ''/'' then ''/'' @ stem else parent @ ''/'' @ stem)"

definition extension_of :: "ArchiveFormat \<Rightarrow> string" where
  "extension_of f = or_default (map_of COMPRESS_EXTENSIONS f) ''undefined''"

definition defaultArchiveName :: "string list \<Rightarrow> string \<Rightarrow> ArchiveFormat \<Rightarrow> string" where
  "defaultArchiveName names folderPath f =
     (let parts = filter (\<lambda>p. p \<noteq> []) (split_at (\<lambda>c. c = slash) folderPath);
          base = (case names of [name] \<Rightarrow> name | _ \<Rightarrow> if parts = [] then ''archive'' else last parts)
      in base @ extension_of f)"

definition withArchiveExtension :: "string \<Rightarrow> ArchiveFormat \<Rightarrow> ArchiveFormat \<Rightarrow> string" where
  "withArchiveExtension name from to =
     (if \<not> ends_with (to_lower name) (extension_of from) then name
      else take (length name - length (extension_of from)) name @ extension_of to)"

definition commonParent :: "string list \<Rightarrow> string option" where
  "commonParent paths =
     (case nub (map parentRemotePath paths) of [parent] \<Rightarrow> Some parent | _ \<Rightarrow> None)"

section \<open>Dialogs\<close>

record DeleteTotals =
  dt_directories :: int
  dt_entries :: int
  dt_files :: int
  dt_truncated :: bool

datatype SftpDialogState =
    Dl_none
  | Dl_delete "SftpDirectoryEntry list"
  | Dl_commandDelete "SftpDirectoryEntry list" string DeleteTotals
  | Dl_rename "SftpDirectoryEntry option" string
  | Dl_createFolder string

datatype SftpDialogAction =
    Da_close
  | Da_openDelete "SftpDirectoryEntry list"
  | Da_openCommandDelete "SftpDirectoryEntry list" string DeleteTotals
  | Da_openRename SftpDirectoryEntry string
  | Da_openCreateFolder
  | Da_renameTo string
  | Da_folderName string
  | Da_deleteCommand string

fun sftpDialogReducer :: "SftpDialogState \<Rightarrow> SftpDialogAction \<Rightarrow> SftpDialogState" where
  "sftpDialogReducer state Da_close = Dl_none"
| "sftpDialogReducer state (Da_openDelete entries) = Dl_delete entries"
| "sftpDialogReducer state (Da_openCommandDelete entries command totals) = Dl_commandDelete entries command totals"
| "sftpDialogReducer state (Da_openRename entry newName) = Dl_rename (Some entry) newName"
| "sftpDialogReducer state Da_openCreateFolder = Dl_createFolder []"
| "sftpDialogReducer state (Da_renameTo newName) =
     (case state of Dl_rename entry _ \<Rightarrow> Dl_rename entry newName | _ \<Rightarrow> state)"
| "sftpDialogReducer state (Da_folderName folderName) =
     (case state of Dl_createFolder _ \<Rightarrow> Dl_createFolder folderName | _ \<Rightarrow> state)"
| "sftpDialogReducer state (Da_deleteCommand command) =
     (case state of Dl_commandDelete entries _ totals \<Rightarrow> Dl_commandDelete entries command totals | _ \<Rightarrow> state)"

section \<open>Files open in other programs\<close>

datatype ExternalEditStatus = Ee_synced | Ee_modified | Ee_uploading | Ee_failed

record ExternalEdit =
  ed_id :: string
  ed_tabId :: string
  ed_remotePath :: string
  ed_fileName :: string
  ed_localPath :: string
  ed_status :: ExternalEditStatus
  ed_error :: "string option"

definition upsertExternalEdit ::
  "(string \<Rightarrow> string \<Rightarrow> int) \<Rightarrow> ExternalEdit list \<Rightarrow> ExternalEdit \<Rightarrow> ExternalEdit list" where
  "upsertExternalEdit localeCompare edits edit =
     js_sort (text_compare localeCompare ed_remotePath)
       (filter (\<lambda>existing. ed_id existing \<noteq> ed_id edit) edits @ [edit])"

definition hasLocalChanges :: "ExternalEdit \<Rightarrow> bool" where
  "hasLocalChanges edit \<longleftrightarrow> ed_status edit \<noteq> Ee_synced"

definition needsAttention :: "ExternalEdit list \<Rightarrow> bool" where
  "needsAttention edits = list_ex (\<lambda>edit. ed_status edit = Ee_modified \<or> ed_status edit = Ee_failed) edits"

section \<open>The history is a browser's\<close>

text \<open>What a browser keeps: the pages behind, nearest first, the one in view, and those ahead.\<close>

type_synonym browser = "string list \<times> string option \<times> string list"

fun browser_visit :: "string \<Rightarrow> browser \<Rightarrow> browser" where
  "browser_visit path (behind, here, ahead) =
     (if here = Some path then (behind, here, ahead)
      else (take (SFTP_HISTORY_LIMIT - 1) ((case here of None \<Rightarrow> [] | Some p \<Rightarrow> [p]) @ behind), Some path, []))"

fun browser_back :: "string \<Rightarrow> browser \<Rightarrow> browser" where
  "browser_back path (behind, here, ahead) = (tl behind, Some path, (case here of None \<Rightarrow> [] | Some p \<Rightarrow> [p]) @ ahead)"

fun browser_forward :: "string \<Rightarrow> browser \<Rightarrow> browser" where
  "browser_forward path (behind, here, ahead) = ((case here of None \<Rightarrow> [] | Some p \<Rightarrow> [p]) @ behind, Some path, tl ahead)"

definition browser_of :: "SftpHistory \<Rightarrow> browser" where
  "browser_of h = (rev (take (nat (sh_index h)) (sh_paths h)), at_int (sh_paths h) (sh_index h),
     drop (nat (sh_index h + 1)) (sh_paths h))"

definition history_ok :: "SftpHistory \<Rightarrow> bool" where
  "history_ok h \<longleftrightarrow> length (sh_paths h) \<le> SFTP_HISTORY_LIMIT \<and> sh_index h < int (length (sh_paths h))
     \<and> (if sh_paths h = [] then sh_index h = - 1 else 0 \<le> sh_index h)"

datatype HistoryCall = Hy_loaded string "int option" | Hy_failed "int option"

fun history_step :: "SftpHistory \<Rightarrow> HistoryCall \<Rightarrow> SftpHistory" where
  "history_step h (Hy_loaded path i) = recordLoaded path i h"
| "history_step h (Hy_failed i) = recordFailed i h"

lemma history_okE:
  assumes "history_ok h"
  obtains (empty) "h = \<lparr>sh_paths = [], sh_index = - 1\<rparr>"
    | (here) xs p ys where "h = \<lparr>sh_paths = xs @ p # ys, sh_index = int (length xs)\<rparr>"
        "length (xs @ p # ys) \<le> SFTP_HISTORY_LIMIT"
proof (cases "sh_paths h = []")
  case True
  with assms have "h = \<lparr>sh_paths = [], sh_index = - 1\<rparr>" by (cases h) (simp add: history_ok_def)
  with empty show ?thesis .
next
  case False
  let ?i = "nat (sh_index h)"
  from assms False have "?i < length (sh_paths h)" "int ?i = sh_index h" "length (sh_paths h) \<le> SFTP_HISTORY_LIMIT"
    by (auto simp: history_ok_def)
  moreover from this(1) have "sh_paths h = take ?i (sh_paths h) @ sh_paths h ! ?i # drop (Suc ?i) (sh_paths h)"
    by (rule id_take_nth_drop)
  ultimately have "h = \<lparr>sh_paths = take ?i (sh_paths h) @ sh_paths h ! ?i # drop (Suc ?i) (sh_paths h),
      sh_index = int (length (take ?i (sh_paths h)))\<rparr>"
    by (cases h) simp
  with \<open>length (sh_paths h) \<le> _\<close> \<open>sh_paths h = _\<close> show ?thesis using here by metis
qed

lemma browser_of_here [simp]:
  "browser_of \<lparr>sh_paths = xs @ p # ys, sh_index = int (length xs)\<rparr> = (rev xs, Some p, ys)"
  by (simp add: browser_of_def at_int_def nat_add_distrib)

lemma history_ok_here [simp]:
  "history_ok \<lparr>sh_paths = xs @ p # ys, sh_index = int (length xs)\<rparr> \<longleftrightarrow> length xs + length ys < SFTP_HISTORY_LIMIT"
  by (auto simp: history_ok_def)

lemma browser_of_empty [simp]: "browser_of \<lparr>sh_paths = [], sh_index = - 1\<rparr> = ([], None, [])"
  by (simp add: browser_of_def at_int_def)

lemma visited:
  "last_n SFTP_HISTORY_LIMIT (xs @ [p]) = drop (length xs - (SFTP_HISTORY_LIMIT - 1)) xs @ [p]"
  by (simp add: last_n_def SFTP_HISTORY_LIMIT_def)

lemma recordSftpVisit_here:
  "recordSftpVisit \<lparr>sh_paths = xs @ p # ys, sh_index = int (length xs)\<rparr> q =
     (if p = q then \<lparr>sh_paths = xs @ p # ys, sh_index = int (length xs)\<rparr>
      else let zs = drop (length (xs @ [p]) - (SFTP_HISTORY_LIMIT - 1)) (xs @ [p])
           in \<lparr>sh_paths = zs @ [q], sh_index = int (length zs)\<rparr>)"
  using visited [of "xs @ [p]" q] by (simp add: recordSftpVisit_def at_int_def Let_def nat_add_distrib)

lemma recordSftpVisit_empty:
  "recordSftpVisit \<lparr>sh_paths = [], sh_index = - 1\<rparr> q = \<lparr>sh_paths = [] @ q # [], sh_index = int (length ([] :: string list))\<rparr>"
  by (simp add: recordSftpVisit_def at_int_def last_n_def SFTP_HISTORY_LIMIT_def)

lemma rev_last_n: "rev (drop (length xs - n) xs) = take n (rev xs)"
  by (cases "n \<le> length xs") (simp_all add: rev_drop)

lemma visit_refines:
  assumes "history_ok h"
  shows "browser_of (recordSftpVisit h q) = browser_visit q (browser_of h)"
  using assms
proof (cases rule: history_okE)
  case (here xs p ys)
  define zs where "zs = drop (length (xs @ [p]) - (SFTP_HISTORY_LIMIT - 1)) (xs @ [p])"
  have "rev zs = take (SFTP_HISTORY_LIMIT - 1) (p # rev xs)"
    unfolding zs_def rev_last_n by simp
  moreover have "recordSftpVisit h q = (if p = q then h else \<lparr>sh_paths = zs @ q # [], sh_index = int (length zs)\<rparr>)"
    by (simp only: here(1) recordSftpVisit_here Let_def zs_def)
  ultimately show ?thesis using here browser_of_here [of zs q "[]"] by simp
next
  case empty
  then show ?thesis using browser_of_here [of "[]" q "[]"] by (simp add: recordSftpVisit_empty)
qed

lemma visit_ok:
  assumes "history_ok h"
  shows "history_ok (recordSftpVisit h q)"
  using assms
proof (cases rule: history_okE)
  case (here xs p ys)
  then show ?thesis
    by (auto simp: recordSftpVisit_here Let_def SFTP_HISTORY_LIMIT_def history_ok_def)
qed (simp_all add: recordSftpVisit_empty history_ok_def SFTP_HISTORY_LIMIT_def)

lemma land_ok: "history_ok h \<Longrightarrow> history_ok (landSftpHistory h i q)"
  by (auto simp: landSftpHistory_def visit_ok) (auto simp: history_ok_def)

lemma drop_ok: "history_ok h \<Longrightarrow> history_ok (dropSftpHistoryEntry h i)"
  by (auto simp: dropSftpHistoryEntry_def history_ok_def SFTP_HISTORY_LIMIT_def split: if_splits)

interpretation history: total_machine history_step EMPTY_SFTP_HISTORY history_ok
proof unfold_locales
  show "history_ok EMPTY_SFTP_HISTORY" by (simp add: EMPTY_SFTP_HISTORY_def history_ok_def)
  show "history_ok h \<Longrightarrow> history_ok (history_step h call)" for h call
    by (cases call) (auto simp: recordLoaded_def recordFailed_def visit_ok land_ok drop_ok split: option.split)
qed

lemma target_back:
  assumes "history_ok h"
  shows "case sftpHistoryTarget h (- 1) of
      None \<Rightarrow> fst (browser_of h) = []
    | Some i \<Rightarrow> fst (browser_of h) \<noteq> [] \<and> browser_of (landSftpHistory h i q) = browser_back q (browser_of h)
        \<and> browser_of (dropSftpHistoryEntry h i) = (tl (fst (browser_of h)), snd (browser_of h))"
  using assms
proof (cases rule: history_okE)
  case empty
  then show ?thesis by (simp add: sftpHistoryTarget_def)
next
  case (here xs p ys)
  show ?thesis
  proof (cases xs rule: rev_cases)
    case Nil
    with here show ?thesis by (simp add: sftpHistoryTarget_def browser_of_def)
  next
    case (snoc zs z)
    have h: "h = \<lparr>sh_paths = zs @ z # p # ys, sh_index = int (length zs) + 1\<rparr>"
      using here snoc by simp
    have "landSftpHistory h (int (length zs)) q = \<lparr>sh_paths = zs @ q # p # ys, sh_index = int (length zs)\<rparr>"
      by (simp add: h landSftpHistory_def)
    moreover have "dropSftpHistoryEntry h (int (length zs)) = \<lparr>sh_paths = zs @ p # ys, sh_index = int (length zs)\<rparr>"
      by (simp add: h dropSftpHistoryEntry_def)
    moreover have "sftpHistoryTarget h (- 1) = Some (int (length zs))"
      by (simp add: h sftpHistoryTarget_def)
    moreover have "browser_of h = (z # rev zs, Some p, ys)"
      using browser_of_here [of xs p ys] by (simp only: here(1) snoc) simp
    ultimately show ?thesis by simp
  qed
qed

lemma target_forward:
  assumes "history_ok h"
  shows "case sftpHistoryTarget h 1 of
      None \<Rightarrow> snd (snd (browser_of h)) = []
    | Some i \<Rightarrow> snd (snd (browser_of h)) \<noteq> [] \<and> browser_of (landSftpHistory h i q) = browser_forward q (browser_of h)
        \<and> browser_of (dropSftpHistoryEntry h i) = (fst (browser_of h), fst (snd (browser_of h)), tl (snd (snd (browser_of h))))"
  using assms
proof (cases rule: history_okE)
  case empty
  then show ?thesis by (simp add: sftpHistoryTarget_def)
next
  case (here xs p ys)
  show ?thesis
  proof (cases ys)
    case Nil
    with here show ?thesis by (simp add: sftpHistoryTarget_def)
  next
    case (Cons z zs)
    have i: "nat (int (length xs) + 1) = length (xs @ [p])" by simp
    have "landSftpHistory h (int (length xs) + 1) q
        = \<lparr>sh_paths = (xs @ [p]) @ q # zs, sh_index = int (length (xs @ [p]))\<rparr>"
      using list_update_length [of "xs @ [p]" z zs q] by (simp add: here Cons landSftpHistory_def i)
    then have "browser_of (landSftpHistory h (int (length xs) + 1) q) = (p # rev xs, Some q, zs)"
      by (simp only: browser_of_here) simp
    moreover have "dropSftpHistoryEntry h (int (length xs) + 1) = \<lparr>sh_paths = xs @ p # zs, sh_index = int (length xs)\<rparr>"
      by (simp add: here Cons dropSftpHistoryEntry_def i)
    moreover have "sftpHistoryTarget h 1 = Some (int (length xs) + 1)"
      by (simp add: here Cons sftpHistoryTarget_def)
    ultimately show ?thesis using here Cons by simp
  qed
qed

text \<open>
  C30: the drawer's history is a browser's. After any loads and failures, at most fifty
  folders are kept; a visit drops those ahead; stepping back or forward, when it is
  offered, moves by one, and a folder that fails to load is forgotten without moving.\<close>

theorem history_works_like_a_browser:
  fixes calls :: "HistoryCall list" and q :: string
  defines "h \<equiv> run history_step EMPTY_SFTP_HISTORY calls"
  shows "browser_of (recordLoaded q None h) = browser_visit q (browser_of h)
    \<and> (case sftpHistoryTarget h (- 1) of
         None \<Rightarrow> fst (browser_of h) = []
       | Some i \<Rightarrow> browser_of (recordLoaded q (Some i) h) = browser_back q (browser_of h)
           \<and> browser_of (recordFailed (Some i) h) = (tl (fst (browser_of h)), snd (browser_of h)))
    \<and> (case sftpHistoryTarget h 1 of
         None \<Rightarrow> snd (snd (browser_of h)) = []
       | Some i \<Rightarrow> browser_of (recordLoaded q (Some i) h) = browser_forward q (browser_of h)
           \<and> browser_of (recordFailed (Some i) h)
             = (fst (browser_of h), fst (snd (browser_of h)), tl (snd (snd (browser_of h)))))
    \<and> length (sh_paths h) \<le> SFTP_HISTORY_LIMIT"
proof -
  have ok: "history_ok h" unfolding h_def by (rule history.inv_any_run)
  from visit_refines [OF ok] target_back [OF ok] target_forward [OF ok] ok show ?thesis
    by (auto simp: recordLoaded_def recordFailed_def history_ok_def split: option.splits)
qed

section \<open>Listings in order\<close>

text \<open>A comparison that sorts: it orders any two, whichever comes first, and chains.\<close>

locale collation =
  fixes cmp :: "'a \<Rightarrow> 'a \<Rightarrow> int"
  assumes turned: "sgn (cmp x y) = - sgn (cmp y x)"
    and chained: "cmp x y \<le> 0 \<Longrightarrow> cmp y z \<le> 0 \<Longrightarrow> cmp x z \<le> 0"
begin

lemma is_consistent: "consistent cmp"
proof -
  have "cmp x y \<le> 0 \<or> cmp y x \<le> 0" for x y using turned [of x y] by (auto simp: sgn_if split: if_splits)
  with chained show ?thesis unfolding consistent_def by blast
qed

lemma le_flip: "0 \<le> cmp x y \<longleftrightarrow> cmp y x \<le> 0"
  using turned [of x y] by (auto simp: sgn_if split: if_splits)

lemma chained_flip: "0 \<le> cmp x y \<Longrightarrow> 0 \<le> cmp y z \<Longrightarrow> 0 \<le> cmp x z"
  using chained by (auto simp: le_flip)

lemma sort_sorts: "sorted_wrt (\<lambda>x y. cmp x y \<le> 0) (js_sort cmp xs)"
  by (rule sorted_js_sort [OF is_consistent])

end

lemma collation_key: "collation (key_compare key)"
  by unfold_locales (auto simp: key_compare_def sgn_if)

lemma collation_text: "collation c \<Longrightarrow> collation (text_compare c key)"
  unfolding collation_def text_compare_def by blast

lemma collation_zero: "collation (\<lambda>x y. 0)"
  by unfold_locales simp_all

lemma collation_sign:
  assumes "collation c" and "d = 1 \<or> d = (- 1 :: int)"
  shows "collation (\<lambda>x y. d * c x y)"
proof (cases "d = 1")
  case True
  with assms(1) show ?thesis by simp
next
  case False
  with assms(2) have d: "d = - 1" by simp
  show ?thesis
  proof unfold_locales
    fix x y z
    show "sgn (d * c x y) = - sgn (d * c y x)"
      using collation.turned [OF assms(1), of x y] by (simp add: d)
    show "d * c x y \<le> 0 \<Longrightarrow> d * c y z \<le> 0 \<Longrightarrow> d * c x z \<le> 0"
      using collation.chained_flip [OF assms(1), of x y z] by (simp add: d)
  qed
qed

lemma collation_or:
  assumes f: "collation f" and g: "collation g"
  shows "collation (or_compare f g)"
proof unfold_locales
  fix x y z
  have turned_f: "f a b = 0 \<longleftrightarrow> f b a = 0" for a b
    using collation.turned [OF f, of a b] by (auto simp: sgn_if split: if_splits)
  show "sgn (or_compare f g x y) = - sgn (or_compare f g y x)"
    using collation.turned [OF f, of x y] collation.turned [OF g, of x y] turned_f [of x y]
    by (simp add: or_compare_def)
  assume h: "or_compare f g x y \<le> 0" "or_compare f g y z \<le> 0"
  then have le: "f x y \<le> 0" "f y z \<le> 0" by (auto simp: or_compare_def split: if_splits)
  note fxz = collation.chained [OF f le]
  show "or_compare f g x z \<le> 0"
  proof (cases "f x z = 0")
    case False
    with fxz show ?thesis by (simp add: or_compare_def)
  next
    case True
    then have zx: "f z x \<le> 0" "0 \<le> f x z" using turned_f [of x z] by simp_all
    have "f y x \<le> 0" using collation.chained [OF f le(2) zx(1)] .
    then have "f x y = 0" using le(1) collation.le_flip [OF f, of x y] by simp
    moreover have "f z y \<le> 0" using collation.chained [OF f zx(1) le(1)] .
    then have "f y z = 0" using le(2) collation.le_flip [OF f, of y z] by simp
    ultimately show ?thesis
      using h True collation.chained [OF g, of x y z] by (simp add: or_compare_def)
  qed
qed

lemma collation_column: "collation localeCompare \<Longrightarrow> collation (compareByColumn localeCompare lower column)"
  by (cases column) (simp_all add: compareByColumn_def collation_zero collation_key collation_text collation_or)

lemma collation_entries:
  assumes "collation nameCompare" and "collation localeCompare"
  shows "collation (compare_entries nameCompare localeCompare lower sorting)"
proof -
  have d: "direction_sign sorting = 1 \<or> direction_sign sorting = - 1" by (simp add: direction_sign_def)
  have "collation (\<lambda>left right. of_bool (se_isDir right) - of_bool (se_isDir left) :: int)"
    by unfold_locales (auto simp: sgn_if)
  moreover have "collation (\<lambda>left right. direction_sign sorting * compareByColumn localeCompare lower (so_column sorting) left right)"
    by (rule collation_sign [OF collation_column [OF assms(2)] d])
  moreover have "collation (\<lambda>left right. direction_sign sorting * nameCompare (se_name left) (se_name right))"
    using collation_sign [OF collation_text [OF assms(1), of se_name] d] by (simp add: text_compare_def)
  ultimately show ?thesis unfolding compare_entries_def by (intro collation_or)
qed

text \<open>The order of the characters' codes, a comparison as good as any.\<close>

fun code_compare :: "string \<Rightarrow> string \<Rightarrow> int" where
  "code_compare [] [] = 0"
| "code_compare [] (d # t) = - 1"
| "code_compare (c # s) [] = 1"
| "code_compare (c # s) (d # t) =
     (if of_char c = (of_char d :: int) then code_compare s t else of_char c - of_char d)"

lemma code_compare_turned: "sgn (code_compare s t) = - sgn (code_compare t s)"
proof -
  have "code_compare s t = - code_compare t s"
    by (induction s t rule: code_compare.induct) auto
  then show ?thesis by (simp add: sgn_minus)
qed

lemma code_compare_chained: "code_compare s t \<le> 0 \<Longrightarrow> code_compare t u \<le> 0 \<Longrightarrow> code_compare s u \<le> 0"
proof (induction s t arbitrary: u rule: code_compare.induct)
  case (4 c s d t)
  then show ?case by (cases u) (auto split: if_splits)
next
  case (1)
  then show ?case by (cases u) auto
next
  case (2 d t)
  then show ?case by (cases u) auto
qed auto

interpretation codes: collation code_compare
  by unfold_locales (rule code_compare_turned, rule code_compare_chained)

interpretation listing: collation "compare_entries code_compare code_compare to_lower sorting"
  by (rule collation_entries [OF codes.collation_axioms codes.collation_axioms])

lemma folders_first:
  "compare_entries nameCompare localeCompare lower sorting x y \<le> 0 \<Longrightarrow> se_isDir y \<Longrightarrow> se_isDir x"
  by (auto simp: compare_entries_def or_compare_def split: if_splits)


definition file_entry :: "string \<Rightarrow> bool \<Rightarrow> SftpDirectoryEntry" where
  "file_entry name isDir = \<lparr>se_name = name, se_path = CHR ''/'' # name, se_isDir = isDir, se_isSymlink = False,
     se_size = None, se_modifiedAt = None, se_permissions = None, se_mode = None,
     se_owner = None, se_group = None, se_location = None\<rparr>"


section \<open>Modes, paths, preferences\<close>

lemma is_octal_digit: "d < 8 \<Longrightarrow> is_octal (digit_char d)"
proof -
  have "list_all (\<lambda>d. is_octal (digit_char d)) [0..<8]" by code_simp
  then show "d < 8 \<Longrightarrow> is_octal (digit_char d)" by (simp add: list_all_iff)
qed

declare show_octal.simps [simp del]

lemma octal_value: "foldl (\<lambda>n c. 8 * n + digit_value c) 0 (show_octal n) = n"
proof (induction n rule: show_octal.induct)
  case (1 n)
  then show ?case by (cases "n < 8") (simp_all add: show_octal.simps [of n])
qed

lemma octal_digits: "list_all is_octal (show_octal n)"
proof (induction n rule: show_octal.induct)
  case (1 n)
  then show ?case by (cases "n < 8") (simp_all add: show_octal.simps [of n] is_octal_digit)
qed

lemma octal_length: "n < 8 ^ k \<Longrightarrow> 0 < k \<Longrightarrow> length (show_octal n) \<le> k"
proof (induction k arbitrary: n)
  case (Suc k)
  show ?case
  proof (cases "n < 8")
    case False
    with Suc.prems have "k \<noteq> 0" by (cases k) auto
    moreover have "n div 8 < 8 ^ k" using Suc.prems by (simp add: less_mult_imp_div_less)
    ultimately show ?thesis using Suc.IH [of "n div 8"] False by (simp add: show_octal.simps [of n])
  qed (simp add: show_octal.simps [of n])
qed simp

lemma trim_octal:
  assumes "list_all is_octal s"
  shows "trim s = s"
proof -
  have "list_all (\<lambda>c. \<not> is_space c) ''01234567''" by code_simp
  then have no: "is_octal c \<Longrightarrow> \<not> is_space c" for c unfolding is_octal_def list_all_iff by blast
  have "dropWhile is_space t = t" if "list_all is_octal t" for t
    using that no by (cases t) auto
  with assms show ?thesis by (simp add: trim_def trim_start_def trim_end_def)
qed

lemma foldl_zeros: "foldl (\<lambda>n c. 8 * n + digit_value c) 0 (replicate k CHR ''0'' @ s) = foldl (\<lambda>n c. 8 * n + digit_value c) 0 s"
  by (induction k) (simp_all add: digit_value_def)

lemma mode_reads_back: "parseOctalMode (formatOctalMode mode) = Some (mode mod 4096)"
proof -
  have "mode AND 4095 = take_bit 12 mode"
    by (simp add: take_bit_eq_mask mask_eq_exp_minus_1)
  then have m: "mode AND 4095 = mode mod 4096" by (simp add: take_bit_eq_mod)
  have "mode mod 4096 < 8 ^ 4" by simp
  then have "length (show_octal (mode mod 4096)) \<le> 4" by (rule octal_length) simp
  then have len: "length (formatOctalMode mode) = 3 \<or> length (formatOctalMode mode) = 4"
    by (auto simp: formatOctalMode_def padStart_def m)
  have "is_octal CHR ''0''" by code_simp
  then have octal: "list_all is_octal (formatOctalMode mode)"
    unfolding formatOctalMode_def padStart_def list_all_append
    using octal_digits by (simp add: list_all_iff)
  have "foldl (\<lambda>n c. 8 * n + digit_value c) 0 (formatOctalMode mode) = mode mod 4096"
    unfolding formatOctalMode_def padStart_def foldl_zeros octal_value by (rule m)
  with len octal show ?thesis
    unfolding parseOctalMode_def Let_def trim_octal [OF octal] by simp
qed

lemma view_reads_back: "loadSftpViewPreferences (\<lambda>s. Some (saved_view preferences)) stored = preferences"
  by (cases "so_column (vp_sort preferences)"; cases "so_direction (vp_sort preferences)")
    (simp_all add: loadSftpViewPreferences_def saved_view_def read_sort_def column_name_def direction_name_def
      SFTP_SORT_COLUMNS_def SORT_DIRECTIONS_def)

end
