(* ===== verification/Login_Script.thy ===== *)
theory Login_Script
  imports Shell_Commands Machines
begin

text \<open>
  Typing a login script into a shell (\<open>src/src/lib/loginScript.ts\<close>). The timer is the time
  it is due, its callback a call of its own; the lines typed are kept in the state. Of the
  characters a prompt ends with, those outside the 8-bit strings cannot occur.
\<close>

section \<open>Scripts and prompts\<close>

definition LOGIN_SCRIPT_PROMPT_IDLE_MS :: int where "LOGIN_SCRIPT_PROMPT_IDLE_MS = 250"

definition LOGIN_SCRIPT_FALLBACK_IDLE_MS :: int where "LOGIN_SCRIPT_FALLBACK_IDLE_MS = 1500"

definition parseLoginScript :: "string option \<Rightarrow> string list" where
  "parseLoginScript script =
     filter (\<lambda>line. length (trim line) > 0) (map trim_end (text_lines (or_default script [])))"

definition looksLikeShellPrompt :: "string \<Rightarrow> bool" where
  "looksLikeShellPrompt line =
     (case trim_end line of [] \<Rightarrow> False | s \<Rightarrow> last s \<in> set (CHR 0xBB # ''$#%>''))"

section \<open>The runner\<close>

record LoginScriptRunner =
  lr_lines :: "string list"
  lr_promptIdleMs :: "int option"
  lr_fallbackIdleMs :: "int option"
  lr_nextIndex :: nat
  lr_timer :: "int option"
  lr_stopped :: bool
  lr_sent :: "string list"

definition idle_delay :: "string \<Rightarrow> LoginScriptRunner \<Rightarrow> int" where
  "idle_delay cursorLine r =
     (if looksLikeShellPrompt cursorLine then or_default (lr_promptIdleMs r) LOGIN_SCRIPT_PROMPT_IDLE_MS
      else or_default (lr_fallbackIdleMs r) LOGIN_SCRIPT_FALLBACK_IDLE_MS)"

definition noteOutput :: "int \<Rightarrow> string \<Rightarrow> LoginScriptRunner \<Rightarrow> LoginScriptRunner" where
  "noteOutput now cursorLine r =
     (if lr_stopped r then r else r\<lparr>lr_timer := Some (now + idle_delay cursorLine r)\<rparr>)"

definition stop_script :: "LoginScriptRunner \<Rightarrow> LoginScriptRunner" where
  "stop_script r = r\<lparr>lr_stopped := True, lr_timer := None\<rparr>"

definition new_runner ::
  "int \<Rightarrow> string \<Rightarrow> int option \<Rightarrow> int option \<Rightarrow> string list \<Rightarrow> LoginScriptRunner" where
  "new_runner now cursorLine promptIdleMs fallbackIdleMs ls =
     (let r = \<lparr>lr_lines = ls, lr_promptIdleMs = promptIdleMs, lr_fallbackIdleMs = fallbackIdleMs,
               lr_nextIndex = 0, lr_timer = None, lr_stopped = False, lr_sent = []\<rparr>
      in if length ls = 0 then r\<lparr>lr_stopped := True\<rparr> else noteOutput now cursorLine r)"

definition typeNextLine :: "bool \<Rightarrow> LoginScriptRunner \<Rightarrow> LoginScriptRunner" where
  "typeNextLine isAtPasswordPrompt r0 =
     (let r = r0\<lparr>lr_timer := None\<rparr>
      in if lr_stopped r \<or> isAtPasswordPrompt then r
         else let line = lr_lines r ! lr_nextIndex r;
                  r1 = r\<lparr>lr_nextIndex := lr_nextIndex r + 1\<rparr>;
                  r2 = (if lr_nextIndex r1 \<ge> length (lr_lines r1) then stop_script r1 else r1)
              in r2\<lparr>lr_sent := lr_sent r2 @ [line]\<rparr>)"

definition idle_elapsed :: "int \<Rightarrow> bool \<Rightarrow> LoginScriptRunner \<Rightarrow> LoginScriptRunner" where
  "idle_elapsed now isAtPasswordPrompt r =
     (case lr_timer r of
        None \<Rightarrow> r
      | Some due \<Rightarrow> if due \<le> now then typeNextLine isAtPasswordPrompt r else r)"

section \<open>Runs\<close>

datatype ScriptCall = Ls_output string | Ls_stop | Ls_timer bool

fun script_step :: "LoginScriptRunner \<Rightarrow> int \<times> ScriptCall \<Rightarrow> LoginScriptRunner" where
  "script_step r (now, Ls_output cursorLine) = noteOutput now cursorLine r"
| "script_step r (now, Ls_stop) = stop_script r"
| "script_step r (now, Ls_timer isAtPasswordPrompt) = idle_elapsed now isAtPasswordPrompt r"

text \<open>The lines typed are the first of the script; the runner stops with the last.\<close>

definition script_ok :: "string list \<Rightarrow> LoginScriptRunner \<Rightarrow> bool" where
  "script_ok ls r \<longleftrightarrow>
     lr_lines r = ls \<and> lr_sent r = take (lr_nextIndex r) ls \<and> lr_nextIndex r \<le> length ls
     \<and> (lr_nextIndex r = length ls \<longrightarrow> lr_stopped r) \<and> (lr_stopped r \<longrightarrow> lr_timer r = None)"

lemma typeNextLine_ok:
  assumes "script_ok ls r"
  shows "script_ok ls (typeNextLine at' r)"
proof (cases "lr_stopped r \<or> at'")
  case True
  with assms show ?thesis by (auto simp: script_ok_def typeNextLine_def)
next
  case False
  with assms have "lr_nextIndex r < length ls" by (auto simp: script_ok_def)
  then have "take (Suc (lr_nextIndex r)) ls = take (lr_nextIndex r) ls @ [ls ! lr_nextIndex r]"
    by (rule take_Suc_conv_app_nth)
  with False assms \<open>lr_nextIndex r < length ls\<close> show ?thesis
    by (auto simp: script_ok_def typeNextLine_def stop_script_def Let_def)
qed

lemma script_ok_step: "script_ok ls r \<Longrightarrow> script_ok ls (script_step r call)"
  by (cases "(r, call)" rule: script_step.cases)
    (auto simp: idle_elapsed_def typeNextLine_ok split: option.split,
     auto simp: script_ok_def noteOutput_def stop_script_def)

lemma script_ok_new: "script_ok ls (new_runner now cursorLine p f ls)"
  by (auto simp: script_ok_def new_runner_def noteOutput_def Let_def)

interpretation script: total_machine script_step "new_runner now cursorLine p f ls" "script_ok ls"
  by unfold_locales (simp_all add: script_ok_new script_ok_step)

text \<open>A timer counts from the last output.\<close>

definition quiet_since :: "int \<Rightarrow> string \<Rightarrow> LoginScriptRunner \<Rightarrow> bool" where
  "quiet_since t cursorLine r \<longleftrightarrow>
     lr_timer r = None \<or> \<not> lr_stopped r \<and> lr_timer r = Some (t + idle_delay cursorLine r)"

lemma quiet_step:
  "quiet_since t l r \<Longrightarrow> quiet_since (case call of (now, Ls_output l') \<Rightarrow> now | _ \<Rightarrow> t)
     (case call of (now, Ls_output l') \<Rightarrow> l' | _ \<Rightarrow> l) (script_step r call)"
  by (cases "(r, call)" rule: script_step.cases)
    (auto simp: quiet_since_def noteOutput_def stop_script_def idle_elapsed_def typeNextLine_def Let_def
      idle_delay_def split: option.split)

fun last_output :: "int \<times> string \<Rightarrow> (int \<times> ScriptCall) list \<Rightarrow> int \<times> string" where
  "last_output q [] = q"
| "last_output q ((now, Ls_output l) # calls) = last_output (now, l) calls"
| "last_output q ((now, Ls_stop) # calls) = last_output q calls"
| "last_output q ((now, Ls_timer b) # calls) = last_output q calls"

lemma quiet_run:
  "quiet_since (fst q) (snd q) r \<Longrightarrow>
   quiet_since (fst (last_output q calls)) (snd (last_output q calls)) (run script_step r calls)"
proof (induction q calls arbitrary: r rule: last_output.induct)
  case (2 q now l calls)
  from quiet_step [OF 2(2), of "(now, Ls_output l)"] 2(1) show ?case by simp
next
  case (3 q now calls)
  from quiet_step [OF 3(2), of "(now, Ls_stop)"] 3(1) show ?case by simp
next
  case (4 q now b calls)
  from quiet_step [OF 4(2), of "(now, Ls_timer b)"] 4(1) show ?case by simp
qed simp

lemma sends_when_idle:
  assumes "lr_sent (script_step r call) \<noteq> lr_sent r"
  shows "\<exists>now due. call = (now, Ls_timer False) \<and> lr_timer r = Some due \<and> due \<le> now"
  using assms
  by (cases "(r, call)" rule: script_step.cases)
    (auto simp: noteOutput_def stop_script_def idle_elapsed_def typeNextLine_def Let_def split: option.splits if_splits)

lemma idle_delay_run:
  "idle_delay l (run script_step r calls) = idle_delay l r"
proof (induction calls arbitrary: r)
  case (Cons call calls)
  have "idle_delay l (script_step r call) = idle_delay l r"
    by (cases "(r, call)" rule: script_step.cases)
      (auto simp: idle_delay_def noteOutput_def stop_script_def idle_elapsed_def typeNextLine_def Let_def split: option.split)
  with Cons show ?case by simp
qed simp

text \<open>
  C32: a login script is typed line by line, to a shell that waits. Whatever happens, the
  lines typed are the first of the script in order. When a call types one, no password
  prompt is up and there has been no output for the delay of the line at the cursor.\<close>

theorem script_waits_for_the_shell:
  fixes calls call and now0 :: int and line0 p f ls
  defines "r \<equiv> run script_step (new_runner now0 line0 p f ls) calls"
  shows "(\<exists>n. lr_sent r = take n ls)
    \<and> (lr_sent (script_step r call) = lr_sent r
       \<or> (\<exists>now. call = (now, Ls_timer False)
            \<and> fst (last_output (now0, line0) calls) + idle_delay (snd (last_output (now0, line0) calls)) r \<le> now
            \<and> (\<exists>line. lr_sent (script_step r call) = lr_sent r @ [line])))"
proof -
  have ok: "script_ok ls r" unfolding r_def by (rule script.inv_any_run)
  have "quiet_since (fst (now0, line0)) (snd (now0, line0)) (new_runner now0 line0 p f ls)"
    by (simp add: quiet_since_def new_runner_def noteOutput_def idle_delay_def Let_def)
  from quiet_run [OF this, of calls]
  have quiet: "quiet_since (fst (last_output (now0, line0) calls)) (snd (last_output (now0, line0) calls)) r"
    by (simp add: r_def)
  have one: "\<exists>line. lr_sent (script_step r call) = lr_sent r @ [line]" if "lr_sent (script_step r call) \<noteq> lr_sent r"
    using that
    by (cases "(r, call)" rule: script_step.cases)
      (auto simp: noteOutput_def stop_script_def idle_elapsed_def typeNextLine_def Let_def split: option.splits if_splits)
  show ?thesis
  proof (cases "lr_sent (script_step r call) = lr_sent r")
    case True
    with ok show ?thesis by (auto simp: script_ok_def)
  next
    case False
    from sends_when_idle [OF this] quiet obtain now where "call = (now, Ls_timer False)"
      "fst (last_output (now0, line0) calls) + idle_delay (snd (last_output (now0, line0) calls)) r \<le> now"
      by (auto simp: quiet_since_def)
    with one [OF False] ok show ?thesis by (auto simp: script_ok_def)
  qed
qed

lemma script_demo:
  "lr_sent (run script_step (new_runner 0 ''$ '' None None (parseLoginScript (Some ''ls'')))
     [(100, Ls_timer False), (250, Ls_timer True), (300, Ls_output ''Password:''), (1799, Ls_timer False),
      (1800, Ls_timer False), (9000, Ls_timer False)]) = [''ls'']"
  by code_simp

end
