(* ===== verification/Password_Prompts.thy ===== *)
theory Password_Prompts
  imports Login_Script Command_Capture
begin

text \<open>
  Password prompts in a terminal: which lines are prompts (\<open>src/src/lib/sudoPrompt.ts\<close>),
  how much is typed (\<open>src/src/lib/passwordFeedback.ts\<close>), and the offer to fill in a saved
  password (\<open>src/src/components/TerminalTab/savedPasswordPrompts.ts\<close>). Prompts with
  characters outside the 8-bit strings cannot occur; a pattern of the user's settings is a
  function. A request to the backend is noted, its answer is a call of its own.
\<close>

section \<open>Typing without an echo\<close>

text \<open>None stands for \<open>null\<close>: the prompt has ended.\<close>

fun nextTypedLength :: "nat \<Rightarrow> string \<Rightarrow> nat option" where
  "nextTypedLength typed [] = Some typed"
| "nextTypedLength typed (c # data) =
     (if c = CHR 0x0D \<or> c = CHR 0x0A \<or> c = CHR 0x03 then None
      else if c = CHR 0x7F \<or> c = CHR 0x08 then nextTypedLength (typed - 1) data
      else if c = CHR 0x15 then nextTypedLength 0 data
      else nextTypedLength (if (of_char c :: nat) \<ge> 32 then typed + 1 else typed) data)"

section \<open>Which lines are prompts\<close>

record PasswordPromptMatch =
  pm_prompt :: string
  pm_user :: "string option"

definition no_space :: "string \<Rightarrow> bool" where
  "no_space s = list_all (\<lambda>c. \<not> is_space c) s"

text \<open>\<open>'?(\S+?)'?\<close> of a whole text: an apostrophe at either end is not of the name.\<close>

definition unquote_name :: "string \<Rightarrow> string option" where
  "unquote_name s =
     (if s = [] \<or> \<not> no_space s then None
      else let s1 = (if hd s = CHR 0x27 \<and> length s > 1 then tl s else s)
           in Some (if last s1 = CHR 0x27 \<and> length s1 > 1 then butlast s1 else s1))"

definition between :: "string \<Rightarrow> string \<Rightarrow> string \<Rightarrow> string option" where
  "between prefix suffix s =
     (if starts_with s prefix \<and> ends_with s suffix \<and> length prefix + length suffix \<le> length s
      then Some (take (length s - length prefix - length suffix) (drop (length prefix) s)) else None)"

text \<open>\<open>(\S+?)@[^)]*\<close> of a whole text: the shortest name.\<close>

definition doas_name :: "string \<Rightarrow> string option" where
  "doas_name s =
     map_option (\<lambda>k. take k s)
       (find (\<lambda>k. s ! k = CHR ''@'' \<and> no_space (take k s) \<and> CHR '')'' \<notin> set (drop (k + 1) s)) [1..<length s])"

definition named_user :: "string \<Rightarrow> string option" where
  "named_user prompt =
     (case Option.bind (between ''[sudo] password for '' '':'' prompt) unquote_name of
        Some user \<Rightarrow> Some user
      | None \<Rightarrow> Option.bind (between ''doas ('' '') password:'' prompt) doas_name)"

definition PAM_PASSWORD_WORDS :: "string list" where
  "PAM_PASSWORD_WORDS = [''password'', ''passwort'', ''passwd'', ''mot de passe'',
     ''contrase'' @ [CHR 0xF1, CHR ''a''], ''contrase'' @ [CHR 0xD1, CHR ''a''], ''senha'']"

definition sudo_rs_password :: "string \<Rightarrow> bool" where
  "sudo_rs_password prompt =
     (case between ''[sudo: authenticate] '' '':'' prompt of
        None \<Rightarrow> False
      | Some asked \<Rightarrow> asked \<noteq> [] \<and> list_ex (includes_str (to_lower asked)) PAM_PASSWORD_WORDS)"

text \<open>\<open>userToken\<close>: the name with a separator or an end of the text on either side.\<close>

definition names_user :: "string \<Rightarrow> string \<Rightarrow> bool" where
  "names_user user s =
     list_ex (\<lambda>k. starts_with (drop k s) user
         \<and> (k = 0 \<or> is_space (s ! (k - 1)) \<or> s ! (k - 1) = CHR ''('')
         \<and> (k + length user = length s
            \<or> (let d = s ! (k + length user) in is_space d \<or> d = CHR '')'' \<or> d = CHR '':'' \<or> d = CHR 0x27)))
       [0..<length s]"

definition localized_sudo :: "string \<Rightarrow> bool" where
  "localized_sudo prompt = (case between ''[sudo] '' '':'' prompt of None \<Rightarrow> False | Some s \<Rightarrow> s \<noteq> [])"

definition MAX_PROMPT_CHARS :: nat where "MAX_PROMPT_CHARS = 256"

text \<open>A custom pattern gives \<open>None\<close>, or the account of its group \<open>user\<close>, if it has one.\<close>

fun custom_match :: "(string \<Rightarrow> string option option) list \<Rightarrow> string \<Rightarrow> string option option" where
  "custom_match [] prompt = None"
| "custom_match (pattern # patterns) prompt =
     (case pattern prompt of Some user \<Rightarrow> Some user | None \<Rightarrow> custom_match patterns prompt)"

definition matchPasswordPrompt ::
  "string \<Rightarrow> string option \<Rightarrow> (string \<Rightarrow> string option option) list \<Rightarrow> PasswordPromptMatch option" where
  "matchPasswordPrompt line knownUser customPatterns =
     (let prompt = trim line
      in if prompt = [] \<or> length prompt > MAX_PROMPT_CHARS then None
         else if \<not> ends_with prompt '':'' then None
         else case named_user prompt of
                Some user \<Rightarrow> Some \<lparr>pm_prompt = prompt, pm_user = Some user\<rparr>
              | None \<Rightarrow>
                  if sudo_rs_password prompt then Some \<lparr>pm_prompt = prompt, pm_user = None\<rparr>
                  else if truthy knownUser \<and> localized_sudo prompt \<and> names_user (the knownUser) (drop 7 prompt)
                  then Some \<lparr>pm_prompt = prompt, pm_user = knownUser\<rparr>
                  else map_option (\<lambda>user. \<lparr>pm_prompt = prompt, pm_user = user\<rparr>) (custom_match customPatterns prompt))"

text \<open>
  \<open>readCursorLine\<close>: rows from the first of the buffer to the cursor's, each with whether it
  runs on from the one before; the cursor's row up to the cursor.\<close>

fun read_wrapped :: "(bool \<times> string) list \<Rightarrow> string \<Rightarrow> string" where
  "read_wrapped [] line = line"
| "read_wrapped ((wrapped, row) # earlier) line =
     (if length line \<le> MAX_PROMPT_CHARS \<and> wrapped \<and> earlier \<noteq> []
      then read_wrapped earlier (snd (hd earlier) @ line) else line)"

definition readCursorLine :: "(bool \<times> string) list \<Rightarrow> string \<Rightarrow> string" where
  "readCursorLine rows_up_from_cursor upToCursor = read_wrapped rows_up_from_cursor upToCursor"

section \<open>State\<close>

datatype SudoPasswordSource = Ps_sudo | Ps_login

datatype ShownPrompt =
    Sn_available string "string option" SudoPasswordSource
  | Sn_rejected string "string option"
  | Sn_manual string "string option" nat

record Offer =
  of_prompt :: string
  of_user :: "string option"
  of_source :: SudoPasswordSource

text \<open>What the callbacks read of the connection: none, a local one, or one by SSH.\<close>

record PromptConnection =
  pc_ssh :: bool
  pc_username :: "string option"
  pc_profileId :: "string option"
  pc_profileName :: "string option"

datatype PromptEffect =
    Pf_lookup nat PasswordPromptMatch \<comment> \<open>ask the backend for a saved password\<close>
  | Pf_fill Offer \<comment> \<open>have the backend write it\<close>
  | Pf_sensitive
  | Pf_offered "string option"
  | Pf_mark bool \<comment> \<open>the key on the tab\<close>

record Prompts =
  pp_answeredKey :: "(nat \<times> string) option"
  pp_offered :: "Offer option"
  pp_rejected :: bool
  pp_current :: "PasswordPromptMatch option"
  pp_shown :: "ShownPrompt option"
  pp_checkId :: nat
  pp_currentKey :: "(nat \<times> string) option"
  pp_lastFill :: "(string \<times> int) option"
  pp_captureSuspended :: bool
  pp_capture :: TerminalCommandCaptureState
  pp_disposed :: bool
  pp_lineFeeds :: nat
  pp_effects :: "PromptEffect list"

definition new_prompts :: Prompts where
  "new_prompts = \<lparr>pp_answeredKey = None, pp_offered = None, pp_rejected = False, pp_current = None,
     pp_shown = None, pp_checkId = 0, pp_currentKey = None, pp_lastFill = None,
     pp_captureSuspended = False, pp_capture = EMPTY_COMMAND_CAPTURE_STATE, pp_disposed = False, pp_lineFeeds = 0,
     pp_effects = []\<rparr>"

definition pf :: "PromptEffect \<Rightarrow> Prompts \<Rightarrow> Prompts" where
  "pf e s = s\<lparr>pp_effects := pp_effects s @ [e]\<rparr>"

section \<open>Operations\<close>

definition PASSWORD_REJECT_WINDOW_MS :: int where "PASSWORD_REJECT_WINDOW_MS = 20000"

definition showPrompt :: "ShownPrompt option \<Rightarrow> Prompts \<Rightarrow> Prompts" where
  "showPrompt state s = s\<lparr>pp_shown := state\<rparr>"

definition showTyped :: "PasswordPromptMatch \<Rightarrow> nat \<Rightarrow> Prompts \<Rightarrow> Prompts" where
  "showTyped m typed s = showPrompt (Some (Sn_manual (pm_prompt m) (pm_user m) typed)) s"

definition clearSavedPasswordOffer :: "Prompts \<Rightarrow> Prompts" where
  "clearSavedPasswordOffer s0 =
     (let s = s0\<lparr>pp_checkId := pp_checkId s0 + 1\<rparr>;
          s = (if pp_offered s \<noteq> None then pf (Pf_offered None) (s\<lparr>pp_offered := None\<rparr>) else s)
      in showPrompt None s)"

definition answerCurrentPrompt :: "Prompts \<Rightarrow> Prompts" where
  "answerCurrentPrompt s =
     clearSavedPasswordOffer (if pp_currentKey s \<noteq> None then s\<lparr>pp_answeredKey := pp_currentKey s\<rparr> else s)"

definition dismissCurrentPrompt :: "Prompts \<Rightarrow> Prompts" where
  "dismissCurrentPrompt s =
     (case pp_current s of
        None \<Rightarrow> answerCurrentPrompt s
      | Some m \<Rightarrow> showTyped m 0 (answerCurrentPrompt s))"

definition typed_so_far :: "Prompts \<Rightarrow> nat" where
  "typed_so_far s = (case pp_shown s of Some (Sn_manual _ _ typed) \<Rightarrow> typed | _ \<Rightarrow> 0)"

definition typeAtPrompt :: "string \<Rightarrow> Prompts \<Rightarrow> Prompts" where
  "typeAtPrompt data s0 =
     (let s = answerCurrentPrompt s0
      in case pp_current s0 of
           None \<Rightarrow> s
         | Some m \<Rightarrow>
             (case nextTypedLength (typed_so_far s0) data of
                Some typed \<Rightarrow> showTyped m typed s
              | None \<Rightarrow> pf (Pf_mark False) (s\<lparr>pp_current := None\<rparr>)))"

definition typeManually :: "PasswordPromptMatch \<Rightarrow> Prompts \<Rightarrow> Prompts" where
  "typeManually m s = showTyped m 0 (pf Pf_sensitive s)"

definition user_matches :: "PasswordPromptMatch \<Rightarrow> PromptConnection \<Rightarrow> bool" where
  "user_matches m connection \<longleftrightarrow> pm_user m = None \<or> pm_user m = pc_username connection"

definition has_profile :: "PromptConnection \<Rightarrow> bool" where
  "has_profile connection \<longleftrightarrow> truthy (pc_profileId connection) \<or> truthy (pc_profileName connection)"

definition handlePasswordPrompt :: "int \<Rightarrow> PromptConnection \<Rightarrow> PasswordPromptMatch \<Rightarrow> Prompts \<Rightarrow> Prompts" where
  "handlePasswordPrompt now connection m s0 =
     (let fill = pp_lastFill s0;
          s = s0\<lparr>pp_captureSuspended := True, pp_capture := EMPTY_COMMAND_CAPTURE_STATE, pp_lastFill := None\<rparr>
      in if (case fill of None \<Rightarrow> False
             | Some (prompt, at') \<Rightarrow> prompt = pm_prompt m \<and> now - at' < PASSWORD_REJECT_WINDOW_MS)
         then pf Pf_sensitive (showPrompt (Some (Sn_rejected (pm_prompt m) (pm_user m))) (s\<lparr>pp_rejected := True\<rparr>))
         else if pp_rejected s \<or> \<not> user_matches m connection \<or> \<not> has_profile connection then typeManually m s
         else let checkId = pp_checkId s + 1
              in pf (Pf_lookup checkId m) (s\<lparr>pp_checkId := checkId\<rparr>))"

text \<open>The backend's answer: a failure, no password saved, or where it is saved.\<close>

definition lookup_answered :: "nat \<Rightarrow> PasswordPromptMatch \<Rightarrow> SudoPasswordSource option option \<Rightarrow> Prompts \<Rightarrow> Prompts" where
  "lookup_answered checkId m answer s =
     (if pp_disposed s \<or> checkId \<noteq> pp_checkId s then s
      else case answer of
             Some (Some source) \<Rightarrow>
               (let offer = \<lparr>of_prompt = pm_prompt m, of_user = pm_user m, of_source = source\<rparr>
                in showPrompt (Some (Sn_available (of_prompt offer) (of_user offer) (of_source offer)))
                     (pf (Pf_offered (Some (pm_prompt m))) (s\<lparr>pp_offered := Some offer\<rparr>)))
           | _ \<Rightarrow> typeManually m s)"

definition checkPasswordPrompt ::
  "int \<Rightarrow> PromptConnection option \<Rightarrow> (string \<Rightarrow> string option option) list \<Rightarrow> string \<Rightarrow> Prompts \<Rightarrow> Prompts" where
  "checkPasswordPrompt now connection patterns line s =
     (case connection of
        None \<Rightarrow> s
      | Some c \<Rightarrow>
          if pp_disposed s \<or> \<not> pc_ssh c then s
          else let m = matchPasswordPrompt line (pc_username c) patterns;
                   key = map_option (\<lambda>m. (pp_lineFeeds s, pm_prompt m)) m
               in if key = pp_currentKey s then s
                  else let s1 = clearSavedPasswordOffer
                             (pf (Pf_mark (m \<noteq> None)) (s\<lparr>pp_currentKey := key, pp_current := m\<rparr>))
                       in case m of
                            None \<Rightarrow> s1
                          | Some match \<Rightarrow>
                              if key \<noteq> pp_answeredKey s1 then handlePasswordPrompt now c match s1 else s1)"

definition fillSavedPassword :: "Prompts \<Rightarrow> bool \<times> Prompts" where
  "fillSavedPassword s =
     (case pp_offered s of
        None \<Rightarrow> (False, s)
      | Some offer \<Rightarrow>
          (True, pf (Pf_fill offer) ((answerCurrentPrompt s)
             \<lparr>pp_capture := EMPTY_COMMAND_CAPTURE_STATE, pp_captureSuspended := False\<rparr>)))"

definition onWritten :: "int \<Rightarrow> string \<Rightarrow> bool \<Rightarrow> Prompts \<Rightarrow> Prompts" where
  "onWritten now prompt written s =
     (if written \<and> \<not> pp_disposed s then s\<lparr>pp_lastFill := Some (prompt, now)\<rparr> else s)"

text \<open>What the rest of the session does to the shared state: a line feed, a command, its end.\<close>

definition line_feed :: "Prompts \<Rightarrow> Prompts" where
  "line_feed s = s\<lparr>pp_lineFeeds := pp_lineFeeds s + 1\<rparr>"

definition command_recorded :: "Prompts \<Rightarrow> Prompts" where
  "command_recorded s = s\<lparr>pp_lastFill := None\<rparr>"

definition session_ended :: "Prompts \<Rightarrow> Prompts" where
  "session_ended s = s\<lparr>pp_disposed := True, pp_checkId := pp_checkId s + 1\<rparr>"

definition atPasswordPrompt :: "Prompts \<Rightarrow> bool" where
  "atPasswordPrompt s \<longleftrightarrow> pp_currentKey s \<noteq> None"

section \<open>Runs\<close>

datatype PromptCall =
    Pc_check int "(string \<Rightarrow> string option option) list" string
  | Pc_type string
  | Pc_dismiss
  | Pc_fill
  | Pc_answer nat PasswordPromptMatch "SudoPasswordSource option option"
  | Pc_written int Offer bool
  | Pc_lineFeed
  | Pc_command
  | Pc_end

fun prompt_step :: "PromptConnection option \<Rightarrow> Prompts \<Rightarrow> PromptCall \<Rightarrow> Prompts" where
  "prompt_step c s (Pc_check now patterns line) = checkPasswordPrompt now c patterns line s"
| "prompt_step c s (Pc_type data) = typeAtPrompt data s"
| "prompt_step c s Pc_dismiss = dismissCurrentPrompt s"
| "prompt_step c s Pc_fill = snd (fillSavedPassword s)"
| "prompt_step c s (Pc_answer checkId m answer) = lookup_answered checkId m answer s"
| "prompt_step c s (Pc_written now offer written) = onWritten now (of_prompt offer) written s"
| "prompt_step c s Pc_lineFeed = line_feed s"
| "prompt_step c s Pc_command = command_recorded s"
| "prompt_step c s Pc_end = session_ended s"

text \<open>The backend answers what it was asked.\<close>

fun prompt_allowed :: "Prompts \<Rightarrow> PromptCall \<Rightarrow> bool" where
  "prompt_allowed s (Pc_answer checkId m answer) \<longleftrightarrow> Pf_lookup checkId m \<in> set (pp_effects s)"
| "prompt_allowed s (Pc_written now offer written) \<longleftrightarrow> Pf_fill offer \<in> set (pp_effects s)"
| "prompt_allowed s call \<longleftrightarrow> True"

section \<open>When a password is written\<close>

named_theorems prompt_defs \<open>operations that set fields of the state\<close>

lemmas [prompt_defs] = pf_def showPrompt_def showTyped_def clearSavedPasswordOffer_def answerCurrentPrompt_def
  dismissCurrentPrompt_def typeManually_def line_feed_def command_recorded_def session_ended_def onWritten_def Let_def

text \<open>A prompt that may get the password: it names no other account, and there is a profile.\<close>

definition may_fill :: "PromptConnection option \<Rightarrow> PasswordPromptMatch \<Rightarrow> bool" where
  "may_fill c m \<longleftrightarrow> (case c of None \<Rightarrow> False | Some con \<Rightarrow> pc_ssh con \<and> user_matches m con \<and> has_profile con)"

text \<open>The prompt under the cursor is \<open>m\<close>, not answered, and no password was refused.\<close>

definition waits_for :: "PasswordPromptMatch \<Rightarrow> Prompts \<Rightarrow> bool" where
  "waits_for m s \<longleftrightarrow> pp_current s = Some m \<and> (\<exists>n. pp_currentKey s = Some (n, pm_prompt m)) \<and> \<not> pp_rejected s"

definition prompts_ok :: "PromptConnection option \<Rightarrow> Prompts \<Rightarrow> bool" where
  "prompts_ok c s \<longleftrightarrow>
     (\<forall>m. pp_current s = Some m \<longrightarrow> (\<exists>n. pp_currentKey s = Some (n, pm_prompt m)))
     \<and> (\<forall>i m. Pf_lookup i m \<in> set (pp_effects s) \<longrightarrow>
          i \<le> pp_checkId s \<and> may_fill c m \<and> (i = pp_checkId s \<longrightarrow> waits_for m s))
     \<and> (\<forall>offer. pp_offered s = Some offer \<longrightarrow>
          (\<exists>m. of_prompt offer = pm_prompt m \<and> of_user offer = pm_user m \<and> may_fill c m \<and> waits_for m s))"

lemma prompts_ok_new: "prompts_ok c new_prompts"
  by (simp add: prompts_ok_def new_prompts_def)

lemma answer_keeps:
  "pp_current (answerCurrentPrompt s) = pp_current s" "pp_currentKey (answerCurrentPrompt s) = pp_currentKey s"
  "pp_rejected (answerCurrentPrompt s) = pp_rejected s" "pp_disposed (answerCurrentPrompt s) = pp_disposed s"
  by (simp_all add: prompt_defs)

text \<open>Once nothing is offered nor asked for, only the prompt and its key matter.\<close>

definition idle :: "PromptConnection option \<Rightarrow> Prompts \<Rightarrow> bool" where
  "idle c s \<longleftrightarrow>
     (\<forall>m. pp_current s = Some m \<longrightarrow> (\<exists>n. pp_currentKey s = Some (n, pm_prompt m)))
     \<and> (\<forall>i m. Pf_lookup i m \<in> set (pp_effects s) \<longrightarrow> i < pp_checkId s \<and> may_fill c m)
     \<and> pp_offered s = None"

lemma idle_ok: "idle c s \<Longrightarrow> prompts_ok c s"
  by (fastforce simp: idle_def prompts_ok_def)

lemma idle_clear:
  assumes "\<forall>m. pp_current s = Some m \<longrightarrow> (\<exists>n. pp_currentKey s = Some (n, pm_prompt m))"
    and "\<forall>i m. Pf_lookup i m \<in> set (pp_effects s) \<longrightarrow> i \<le> pp_checkId s \<and> may_fill c m"
  shows "idle c (clearSavedPasswordOffer s)"
  using assms by (fastforce simp: idle_def prompt_defs)

lemma idle_answer: "prompts_ok c s \<Longrightarrow> idle c (answerCurrentPrompt s)"
  unfolding answerCurrentPrompt_def by (rule idle_clear) (auto simp: prompts_ok_def)

lemma idle_plain:
  assumes "idle c s"
  shows "idle c (showPrompt x s)" "idle c (showTyped m n s)" "idle c (typeManually m s)"
    "\<not> (\<exists>i m. e = Pf_lookup i m) \<Longrightarrow> idle c (pf e s)" "idle c (s\<lparr>pp_current := None\<rparr>)"
    "idle c (s\<lparr>pp_rejected := b\<rparr>)" "idle c (s\<lparr>pp_captureSuspended := b\<rparr>)" "idle c (s\<lparr>pp_capture := x'\<rparr>)"
    "idle c (s\<lparr>pp_lastFill := l\<rparr>)"
  using assms by (auto simp: idle_def prompt_defs)

lemma handle_ok:
  assumes "idle (Some c) s" and "pc_ssh c" and "pp_current s = Some m"
  shows "prompts_ok (Some c) (handlePasswordPrompt now c m s)"
proof -
  define t where "t = s\<lparr>pp_captureSuspended := True, pp_capture := EMPTY_COMMAND_CAPTURE_STATE, pp_lastFill := None\<rparr>"
  have t: "idle (Some c) t" using assms(1) by (simp add: t_def idle_def)
  define refused where "refused = (case pp_lastFill s of None \<Rightarrow> False
    | Some (prompt, at') \<Rightarrow> prompt = pm_prompt m \<and> now - at' < PASSWORD_REJECT_WINDOW_MS)"
  define asked where "asked = pf (Pf_lookup (pp_checkId t + 1) m) (t\<lparr>pp_checkId := pp_checkId t + 1\<rparr>)"
  have h: "handlePasswordPrompt now c m s = (if refused
      then pf Pf_sensitive (showPrompt (Some (Sn_rejected (pm_prompt m) (pm_user m))) (t\<lparr>pp_rejected := True\<rparr>))
      else if pp_rejected t \<or> \<not> user_matches m c \<or> \<not> has_profile c then typeManually m t else asked)"
    unfolding handlePasswordPrompt_def Let_def t_def refused_def asked_def by (rule refl)
  have "prompts_ok (Some c) asked" if "\<not> pp_rejected t" "user_matches m c" "has_profile c"
  proof -
    have "waits_for m asked"
      using that(1) t assms(3) by (auto simp: asked_def waits_for_def pf_def idle_def t_def)
    moreover have "may_fill (Some c) m" using that assms(2) by (simp add: may_fill_def)
    ultimately show ?thesis
      using t unfolding asked_def by (fastforce simp: prompts_ok_def idle_def pf_def)
  qed
  with t show ?thesis unfolding h by (simp add: idle_ok idle_plain)
qed

lemma check_ok:
  assumes ok: "prompts_ok c s"
  shows "prompts_ok c (checkPasswordPrompt now c patterns line s)"
proof (cases c)
  case None
  with ok show ?thesis by (simp add: checkPasswordPrompt_def)
next
  case (Some con)
  show ?thesis
  proof (cases "pp_disposed s \<or> \<not> pc_ssh con")
    case True
    with ok Some show ?thesis by (auto simp: checkPasswordPrompt_def)
  next
    case False
    define m where "m = matchPasswordPrompt line (pc_username con) patterns"
    define key where "key = map_option (\<lambda>m. (pp_lineFeeds s, pm_prompt m)) m"
    define s1 where "s1 = clearSavedPasswordOffer (pf (Pf_mark (m \<noteq> None)) (s\<lparr>pp_currentKey := key, pp_current := m\<rparr>))"
    have idle: "idle c s1"
      unfolding s1_def by (rule idle_clear) (use ok in \<open>auto simp: prompts_ok_def pf_def key_def\<close>)
    have cur: "pp_current s1 = m" by (simp add: s1_def prompt_defs)
    have "checkPasswordPrompt now c patterns line s = (if key = pp_currentKey s then s
        else case m of None \<Rightarrow> s1 | Some match \<Rightarrow> if key \<noteq> pp_answeredKey s1 then handlePasswordPrompt now con match s1 else s1)"
      unfolding checkPasswordPrompt_def Some option.case Let_def m_def key_def s1_def
      using False by (simp only: if_False)
    with ok idle cur handle_ok [of con s1 _ now] False Some show ?thesis
      by (auto simp: idle_ok split: option.split)
  qed
qed

lemma type_ok:
  assumes "prompts_ok c s"
  shows "prompts_ok c (typeAtPrompt data s)"
  using idle_answer [OF assms]
  by (simp add: typeAtPrompt_def Let_def idle_ok idle_plain split: option.split)

lemma other_ok:
  assumes "prompts_ok c s"
  shows "prompts_ok c (dismissCurrentPrompt s)" "prompts_ok c (snd (fillSavedPassword s))"
    "prompts_ok c (line_feed s)" "prompts_ok c (command_recorded s)" "prompts_ok c (onWritten now p w s)"
proof -
  show "prompts_ok c (dismissCurrentPrompt s)"
    using idle_answer [OF assms] by (simp add: dismissCurrentPrompt_def idle_ok idle_plain split: option.split)
  have "idle c ((answerCurrentPrompt s)\<lparr>pp_capture := x, pp_captureSuspended := False\<rparr>)" for x
    using idle_answer [OF assms] by (simp add: idle_def)
  then show "prompts_ok c (snd (fillSavedPassword s))"
    using assms by (simp add: fillSavedPassword_def idle_ok idle_plain split: option.split)
qed (use assms in \<open>auto simp: prompts_ok_def waits_for_def line_feed_def command_recorded_def onWritten_def\<close>)

lemma end_ok: "prompts_ok c s \<Longrightarrow> prompts_ok c (session_ended s)"
  by (fastforce simp: prompts_ok_def waits_for_def session_ended_def)

lemma lookup_ok:
  assumes ok: "prompts_ok c s" and asked: "Pf_lookup checkId m \<in> set (pp_effects s)"
  shows "prompts_ok c (lookup_answered checkId m answer s)"
proof (cases "pp_disposed s \<or> checkId \<noteq> pp_checkId s")
  case True
  with ok show ?thesis by (simp add: lookup_answered_def)
next
  case False
  with ok asked have m: "may_fill c m" "waits_for m s" by (auto simp: prompts_ok_def)
  show ?thesis
  proof (cases "\<exists>source. answer = Some (Some source)")
    case True
    with False m ok show ?thesis
      by (auto simp: lookup_answered_def Let_def prompts_ok_def waits_for_def pf_def showPrompt_def)
  next
    case f: False
    then have "lookup_answered checkId m answer s = typeManually m s"
      using False by (auto simp: lookup_answered_def split: option.split)
    then show ?thesis
      using ok by (auto simp: prompts_ok_def waits_for_def prompt_defs)
  qed
qed

lemma prompt_step_ok: "prompts_ok c s \<Longrightarrow> prompt_allowed s call \<Longrightarrow> prompts_ok c (prompt_step c s call)"
  by (cases call) (simp_all add: check_ok type_ok other_ok end_ok lookup_ok)

interpretation prompts: machine prompt_allowed "prompt_step c" new_prompts "prompts_ok c"
  by unfold_locales (simp_all add: prompts_ok_new prompt_step_ok)

lemma fills_only_by_fill:
  assumes "pp_effects (prompt_step c s call) = pp_effects s @ es" and "Pf_fill offer \<in> set es"
  shows "call = Pc_fill \<and> pp_offered s = Some offer"
  using assms
  by (cases call)
    (auto simp: checkPasswordPrompt_def typeAtPrompt_def fillSavedPassword_def lookup_answered_def handlePasswordPrompt_def
      prompt_defs split: option.splits if_splits)

lemma refusal_lasts: "pp_rejected s \<Longrightarrow> pp_rejected (prompt_step c s call)"
  by (cases call)
    (auto simp: checkPasswordPrompt_def typeAtPrompt_def fillSavedPassword_def lookup_answered_def handlePasswordPrompt_def
      prompt_defs split: option.split)


definition ann :: PromptConnection where
  "ann = \<lparr>pc_ssh = True, pc_username = Some ''ann'', pc_profileId = Some ''1'', pc_profileName = None\<rparr>"

definition ann_prompt :: PasswordPromptMatch where
  "ann_prompt = \<lparr>pm_prompt = ''[sudo] password for ann:'', pm_user = Some ''ann''\<rparr>"

definition ann_calls :: "PromptCall list" where
  "ann_calls = [Pc_check 0 [] ''[sudo] password for ann: '', Pc_answer 2 ann_prompt (Some (Some Ps_sudo))]"


end
