(* ===== verification/Broadcast.thy ===== *)
theory Broadcast
  imports Tab_Groups Machines
begin

text \<open>
  Typing in many terminals at once (\<open>useBroadcastState\<close>, \<open>useBroadcastRuntime\<close>,
  \<open>useBroadcastSending\<close> and \<open>useBroadcastControls\<close> of \<open>src/src/components/TTermApp\<close>). An
  asynchronous function is cut at its \<open>await\<close>s: the question it asks, the wait for its
  turn in the write queue and the answer of the backend are kept in the state, and a call
  goes on from there. What callbacks read through refs or closures is what the last render
  saw. Writes and other requests are effects; messages to the user are left out.
\<close>

section \<open>State\<close>

datatype ConnectionState = Cn_connecting | Cn_connected | Cn_disconnected | Cn_reconnecting | Cn_error

record TerminalRuntimeState =
  rt_connectionState :: ConnectionState
  rt_sessionNonce :: "32 word"

record Target =
  tg_tabId :: string
  tg_sessionNonce :: "32 word"

datatype PtyWriteStatus = Ws_written | Ws_stale | Ws_missing | Ws_reconnecting | Ws_failed

record PtyWriteResult =
  wr_tabId :: string
  wr_status :: PtyWriteStatus

datatype BroadcastMode = Bm_command | Bm_live

datatype LiveBroadcastState = Lb_idle | Lb_active | Lb_paused

datatype TerminalInputKind = Ik_keyboard | Ik_paste | Ik_savedPassword

record TerminalInputRequest =
  ir_tabId :: string
  ir_sessionNonce :: "32 word"
  ir_data :: string
  ir_kind :: TerminalInputKind

text \<open>What waits for targets to be connected: a command, or a live broadcast from a tab.\<close>

datatype Preparing = Then_command string | Then_live string

text \<open>The questions that can be open.\<close>

datatype Question =
    Ask_reconnect "Tab list" "Tab list" Preparing \<comment> \<open>targets, and those to connect again\<close>
  | Ask_multiline string "Target list"
  | Ask_live string "Target list"
  | Ask_paste TerminalInputRequest
  | Ask_reconnectAll "Tab list"

text \<open>A write in the queue; live input keeps the generation it was queued in.\<close>

datatype Job =
    Live_input nat TerminalInputRequest
  | Send_command string "Target list"

datatype BroadcastEffect =
    Be_write string "32 word" string
  | Be_batch nat Job "Target list" "Target option" string
  | Be_password string "32 word" string
  | Be_bump string \<comment> \<open>the tab gets the next session nonce\<close>
  | Be_reconnect string
  | Be_activate string

text \<open>What a render saw.\<close>

record Rendered =
  rn_tabs :: "Tab list"
  rn_targetIds :: "string list"
  rn_unavailable :: "string list"
  rn_runtime :: "string \<Rightarrow> TerminalRuntimeState option"

record Broadcast =
  br_mode :: BroadcastMode
  br_liveBroadcastState :: LiveBroadcastState
  br_source :: "Target option"
  br_targetIds :: "string list"
  br_runtime :: "string \<Rightarrow> TerminalRuntimeState option"
  br_results :: "string \<Rightarrow> PtyWriteResult option"
  br_unavailable :: "string list"
  br_queue :: "(nat \<times> Job) list"
  br_inFlight :: "((nat \<times> Job) \<times> Target list) option"
  br_generation :: nat
  br_prompts :: "string \<Rightarrow> (32 word \<times> string) option"
  br_liveSource :: "Target option"
  br_liveState :: LiveBroadcastState
  br_preparing :: bool
  br_preflight :: "((string \<times> 32 word) list \<times> Preparing) option"
  br_seen :: Rendered
  br_questions :: "Question list"
  br_nextJob :: nat
  br_effects :: "BroadcastEffect list"

definition new_broadcast :: Broadcast where
  "new_broadcast = \<lparr>br_mode = Bm_command, br_liveBroadcastState = Lb_idle, br_source = None,
     br_targetIds = [], br_runtime = Map.empty, br_results = Map.empty, br_unavailable = [],
     br_queue = [], br_inFlight = None, br_generation = 0, br_prompts = Map.empty, br_liveSource = None,
     br_liveState = Lb_idle, br_preparing = False, br_preflight = None,
     br_seen = \<lparr>rn_tabs = [], rn_targetIds = [], rn_unavailable = [], rn_runtime = Map.empty\<rparr>,
     br_questions = [], br_nextJob = 0, br_effects = []\<rparr>"

definition emits :: "BroadcastEffect list \<Rightarrow> Broadcast \<Rightarrow> Broadcast" where
  "emits es b = b\<lparr>br_effects := br_effects b @ es\<rparr>"

definition asks :: "Question \<Rightarrow> Broadcast \<Rightarrow> Broadcast" where
  "asks q b = b\<lparr>br_questions := br_questions b @ [q]\<rparr>"

definition nonce_of :: "Tab \<Rightarrow> 32 word" where
  "nonce_of tab = or_default (t_sessionNonce tab) 0"

definition target_of :: "Tab \<Rightarrow> Target" where
  "target_of tab = \<lparr>tg_tabId = t_id tab, tg_sessionNonce = nonce_of tab\<rparr>"

section \<open>Connections and targets\<close>

definition isTerminalConnectionUnavailable :: "ConnectionState option \<Rightarrow> bool" where
  "isTerminalConnectionUnavailable connectionState \<longleftrightarrow>
     connectionState \<in> {Some Cn_disconnected, Some Cn_reconnecting, Some Cn_error}"

definition stopLiveBroadcast :: "Broadcast \<Rightarrow> Broadcast" where
  "stopLiveBroadcast b = b\<lparr>br_generation := br_generation b + 1, br_liveSource := None, br_liveState := Lb_idle,
     br_source := None, br_liveBroadcastState := Lb_idle, br_mode := Bm_command\<rparr>"

definition stopLiveSource :: "string \<Rightarrow> 32 word \<Rightarrow> Broadcast \<Rightarrow> Broadcast" where
  "stopLiveSource tabId sessionNonce b =
     (if br_liveSource b = Some \<lparr>tg_tabId = tabId, tg_sessionNonce = sessionNonce\<rparr> then stopLiveBroadcast b else b)"

definition handleTerminalConnectionStateChange ::
  "string \<Rightarrow> 32 word \<Rightarrow> ConnectionState option \<Rightarrow> Broadcast \<Rightarrow> Broadcast" where
  "handleTerminalConnectionStateChange tabId sessionNonce connectionState b0 =
     (let b = (if isTerminalConnectionUnavailable connectionState then stopLiveSource tabId sessionNonce b0 else b0);
          runtime = (case connectionState of
              None \<Rightarrow> if map_option rt_sessionNonce (br_runtime b tabId) \<noteq> Some sessionNonce then br_runtime b
                      else (br_runtime b)(tabId := None)
            | Some st \<Rightarrow> (br_runtime b)(tabId \<mapsto> \<lparr>rt_connectionState = st, rt_sessionNonce = sessionNonce\<rparr>));
          b = b\<lparr>br_runtime := runtime\<rparr>
      in if connectionState = Some Cn_connected
         then b\<lparr>br_unavailable := filter (\<lambda>i. i \<noteq> tabId) (br_unavailable b), br_results := (br_results b)(tabId := None)\<rparr>
         else b)"

definition connected_at :: "Rendered \<Rightarrow> Tab \<Rightarrow> bool" where
  "connected_at seen tab \<longleftrightarrow>
     rn_runtime seen (t_id tab) = Some \<lparr>rt_connectionState = Cn_connected, rt_sessionNonce = nonce_of tab\<rparr>"

definition resolveBroadcastTargets :: "Broadcast \<Rightarrow> Target list" where
  "resolveBroadcastTargets b =
     (let seen = br_seen b
      in map target_of (filter (\<lambda>tab. t_id tab \<in> set (rn_targetIds seen) \<and> t_id tab \<notin> set (rn_unavailable seen)
            \<and> isSessionTab tab \<and> connected_at seen tab) (rn_tabs seen)))"

section \<open>The write queue\<close>

definition enqueue :: "Job \<Rightarrow> Broadcast \<Rightarrow> Broadcast" where
  "enqueue job b = b\<lparr>br_queue := br_queue b @ [(br_nextJob b, job)], br_nextJob := br_nextJob b + 1\<rparr>"

text \<open>
  The next write starts once the one before it has settled. Live input of an older
  generation is dropped, and a command whose targets have changed fails.\<close>

definition without_tab :: "string \<Rightarrow> Target list \<Rightarrow> Target list" where
  "without_tab tabId = filter (\<lambda>target. tg_tabId target \<noteq> tabId)"

definition same_targets :: "Target list \<Rightarrow> Target list \<Rightarrow> bool" where
  "same_targets expected targets \<longleftrightarrow>
     length targets = length expected \<and> list_all (\<lambda>target. target \<in> set targets) expected"

definition run_job :: "Broadcast \<Rightarrow> Broadcast" where
  "run_job b0 =
     (case (br_inFlight b0, br_queue b0) of
        (None, (i, job) # queue) \<Rightarrow>
          (let b = b0\<lparr>br_queue := queue\<rparr>
           in case job of
                Live_input generation request \<Rightarrow>
                  (case br_liveSource b of
                     None \<Rightarrow> b
                   | Some source \<Rightarrow>
                       if generation \<noteq> br_generation b then b
                       else let targets = without_tab (tg_tabId source) (resolveBroadcastTargets b)
                            in emits [Be_batch i job targets (Some source) (ir_data request)]
                                 (b\<lparr>br_inFlight := Some ((i, job), targets)\<rparr>))
              | Send_command command targets \<Rightarrow>
                  (if \<not> same_targets targets (resolveBroadcastTargets b) then b
                   else if targets = [] then b\<lparr>br_results := Map.empty\<rparr>
                   else emits [Be_batch i job targets None (command @ [CHR 0x0D])]
                          (b\<lparr>br_inFlight := Some ((i, job), targets)\<rparr>)))
      | _ \<Rightarrow> b0)"

definition results_map :: "PtyWriteResult list \<Rightarrow> string \<Rightarrow> PtyWriteResult option" where
  "results_map results = map_of (rev (map (\<lambda>result. (wr_tabId result, result)) results))"

text \<open>The backend's answer to the write under way: none for a failure.\<close>

definition job_settled :: "PtyWriteResult list option \<Rightarrow> Broadcast \<Rightarrow> Broadcast" where
  "job_settled answer b0 =
     (case br_inFlight b0 of
        None \<Rightarrow> b0
      | Some ((i, job), targets) \<Rightarrow>
          (let b = b0\<lparr>br_inFlight := None\<rparr>
           in case job of
                Send_command _ _ \<Rightarrow>
                  (case answer of None \<Rightarrow> b | Some results \<Rightarrow> b\<lparr>br_results := results_map results\<rparr>)
              | Live_input generation request \<Rightarrow>
                  (case answer of
                     None \<Rightarrow> stopLiveBroadcast b
                   | Some results \<Rightarrow>
                       if generation \<noteq> br_generation b \<or> br_liveSource b = None then b
                       else let b = b\<lparr>br_results := results_map results\<rparr>;
                                sourceResult = find (\<lambda>result. wr_tabId result = ir_tabId request) results
                            in if map_option wr_status sourceResult \<noteq> Some Ws_written
                               then stopLiveSource (ir_tabId request) (ir_sessionNonce request) b
                               else let failedIds = map wr_tabId (filter (\<lambda>result.
                                          wr_tabId result \<noteq> ir_tabId request \<and> wr_status result \<noteq> Ws_written) results)
                                    in if failedIds = [] then b
                                       else b\<lparr>br_unavailable := nub (br_unavailable b @ failedIds),
                                              br_targetIds := filter (\<lambda>i. i \<notin> set failedIds) (br_targetIds b)\<rparr>)))"

section \<open>Connecting the targets first\<close>

definition has_break :: "string \<Rightarrow> bool" where
  "has_break s = list_ex (\<lambda>c. c = CHR 0x0A \<or> c = CHR 0x0D) s"

definition prepared :: "Preparing \<Rightarrow> Target list \<Rightarrow> Broadcast \<Rightarrow> Broadcast" where
  "prepared rest targets b =
     (case rest of
        Then_command command \<Rightarrow>
          if has_break command then asks (Ask_multiline command targets) b
          else enqueue (Send_command command targets) b
      | Then_live sourceTabId \<Rightarrow> asks (Ask_live sourceTabId targets) b)"

definition ensureBroadcastTargetsConnected :: "Preparing \<Rightarrow> Broadcast \<Rightarrow> Broadcast" where
  "ensureBroadcastTargetsConnected rest b =
     (if br_preparing b then b
      else let seen = br_seen b;
               selected = set (rn_targetIds seen);
               targets = filter (\<lambda>tab. t_id tab \<in> selected \<and> isSessionTab tab) (rn_tabs seen)
           in if length targets \<noteq> card selected \<or> targets = [] then b
              else let reconnectTargets = filter (\<lambda>tab. \<not> connected_at seen tab) targets
                   in if reconnectTargets = [] then prepared rest (map target_of targets) b
                      else asks (Ask_reconnect targets reconnectTargets rest) (b\<lparr>br_preparing := True\<rparr>))"

definition is_connecting :: "Rendered \<Rightarrow> Tab \<Rightarrow> bool" where
  "is_connecting seen tab \<longleftrightarrow>
     rn_runtime seen (t_id tab) = Some \<lparr>rt_connectionState = Cn_connecting, rt_sessionNonce = nonce_of tab\<rparr>"

definition expected_nonce :: "Rendered \<Rightarrow> Tab list \<Rightarrow> Tab \<Rightarrow> 32 word" where
  "expected_nonce seen reconnectTargets tab =
     (let reconnect = (t_id tab \<in> set (map t_id reconnectTargets))
      in if reconnect \<and> \<not> is_connecting seen tab then nonce_of tab + 1 else nonce_of tab)"

text \<open>What the wait for one target says: keep waiting, give up, or it is there.\<close>

datatype Progress = Wait | Give_up | Ready

definition target_progress :: "Rendered \<Rightarrow> string \<times> 32 word \<Rightarrow> Progress" where
  "target_progress seen expected =
     (case expected of (tabId, sessionNonce) \<Rightarrow>
        (case find (\<lambda>tab. t_id tab = tabId) (rn_tabs seen) of
           None \<Rightarrow> Give_up
         | Some tab \<Rightarrow>
             if \<not> isSessionTab tab then Give_up
             else if nonce_of tab > sessionNonce then Give_up
             else if nonce_of tab < sessionNonce then Wait
             else (case rn_runtime seen tabId of
                     None \<Rightarrow> Wait
                   | Some runtime \<Rightarrow>
                       if rt_sessionNonce runtime < sessionNonce then Wait
                       else if rt_sessionNonce runtime > sessionNonce then Give_up
                       else if rt_connectionState runtime \<in> {Cn_error, Cn_disconnected} then Give_up
                       else if rt_connectionState runtime \<noteq> Cn_connected then Wait
                       else Ready)))"

fun targets_progress :: "Rendered \<Rightarrow> (string \<times> 32 word) list \<Rightarrow> Progress" where
  "targets_progress seen [] = Ready"
| "targets_progress seen (expected # rest) =
     (case target_progress seen expected of Ready \<Rightarrow> targets_progress seen rest | p \<Rightarrow> p)"

definition evaluateBroadcastPreflight :: "Broadcast \<Rightarrow> Broadcast" where
  "evaluateBroadcastPreflight b =
     (case br_preflight b of
        None \<Rightarrow> b
      | Some (expected, rest) \<Rightarrow>
          (let done = b\<lparr>br_preflight := None, br_preparing := False\<rparr>
           in case targets_progress (br_seen b) expected of
                Wait \<Rightarrow> b
              | Give_up \<Rightarrow> done
              | Ready \<Rightarrow> prepared rest (map (\<lambda>(i, n). \<lparr>tg_tabId = i, tg_sessionNonce = n\<rparr>) expected) done))"

definition reconnect_confirmed :: "Tab list \<Rightarrow> Tab list \<Rightarrow> Preparing \<Rightarrow> Broadcast \<Rightarrow> Broadcast" where
  "reconnect_confirmed targets reconnectTargets rest b =
     (let seen = br_seen b
      in evaluateBroadcastPreflight
           (emits (map (\<lambda>tab. Be_bump (t_id tab)) (filter (\<lambda>tab. \<not> is_connecting seen tab) reconnectTargets))
             (b\<lparr>br_preflight := Some (map (\<lambda>tab. (t_id tab, expected_nonce seen reconnectTargets tab)) targets, rest)\<rparr>)))"

section \<open>Commands and live input\<close>

definition handleSendBroadcastCommand :: "string \<Rightarrow> Broadcast \<Rightarrow> Broadcast" where
  "handleSendBroadcastCommand command b = ensureBroadcastTargetsConnected (Then_command command) b"

definition handleStartLiveBroadcast :: "string \<Rightarrow> Broadcast \<Rightarrow> Broadcast" where
  "handleStartLiveBroadcast sourceTabId b =
     (let seen = br_seen b
      in if sourceTabId \<notin> set (map t_id (rn_tabs seen))
            \<or> map_option rt_connectionState (rn_runtime seen sourceTabId) \<noteq> Some Cn_connected then b
         else ensureBroadcastTargetsConnected (Then_live sourceTabId) b)"

definition live_confirmed :: "string \<Rightarrow> Target list \<Rightarrow> Broadcast \<Rightarrow> Broadcast" where
  "live_confirmed sourceTabId targets b =
     (case find (\<lambda>tab. t_id tab = sourceTabId) (rn_tabs (br_seen b)) of
        None \<Rightarrow> b
      | Some tab \<Rightarrow>
          if \<not> connected_at (br_seen b) tab then b
          else let liveTargets = without_tab sourceTabId (resolveBroadcastTargets b)
               in if liveTargets = [] \<or> length liveTargets \<noteq> length (without_tab sourceTabId targets)
                     \<or> \<not> list_all (\<lambda>target. target \<in> set targets) liveTargets then b
                  else let source = \<lparr>tg_tabId = sourceTabId, tg_sessionNonce = nonce_of tab\<rparr>
                       in emits [Be_activate sourceTabId]
                            (b\<lparr>br_targetIds := filter (\<lambda>i. i \<noteq> sourceTabId) (br_targetIds b),
                               br_generation := br_generation b + 1, br_liveSource := Some source,
                               br_liveState := Lb_active, br_source := Some source,
                               br_liveBroadcastState := Lb_active, br_mode := Bm_live\<rparr>))"

definition isLiveSource :: "TerminalInputRequest \<Rightarrow> Broadcast \<Rightarrow> bool" where
  "isLiveSource request b \<longleftrightarrow>
     br_liveSource b = Some \<lparr>tg_tabId = ir_tabId request, tg_sessionNonce = ir_sessionNonce request\<rparr>"

record PasswordTarget =
  pt_tabId :: string
  pt_sessionNonce :: "32 word"
  pt_prompt :: string

definition resolveSavedPasswordInjectionTargets ::
  "PasswordTarget \<Rightarrow> bool \<Rightarrow> Target list \<Rightarrow> (string \<Rightarrow> (32 word \<times> string) option) \<Rightarrow> PasswordTarget list" where
  "resolveSavedPasswordInjectionTargets source liveInputActive broadcastTargets savedPasswordPrompts =
     (if \<not> liveInputActive then [source]
      else source # List.map_filter (\<lambda>target.
             if tg_tabId target = pt_tabId source then None
             else case savedPasswordPrompts (tg_tabId target) of
                    Some (nonce, prompt) \<Rightarrow>
                      if nonce = tg_sessionNonce target
                      then Some \<lparr>pt_tabId = tg_tabId target, pt_sessionNonce = tg_sessionNonce target, pt_prompt = prompt\<rparr>
                      else None
                  | None \<Rightarrow> None) broadcastTargets)"

definition send_live :: "TerminalInputRequest \<Rightarrow> Broadcast \<Rightarrow> Broadcast" where
  "send_live request b = enqueue (Live_input (br_generation b) request) b"

definition handleTerminalInput :: "TerminalInputRequest \<Rightarrow> Broadcast \<Rightarrow> Broadcast" where
  "handleTerminalInput request b =
     (if ir_kind request = Ik_savedPassword then
        (let source = \<lparr>pt_tabId = ir_tabId request, pt_sessionNonce = ir_sessionNonce request, pt_prompt = ir_data request\<rparr>;
             targets = resolveSavedPasswordInjectionTargets source
               (isLiveSource request b \<and> br_liveState b = Lb_active) (resolveBroadcastTargets b) (br_prompts b)
         in emits (map (\<lambda>target. Be_password (pt_tabId target) (pt_sessionNonce target) (pt_prompt target))
                (filter (\<lambda>target. pt_tabId target \<in> set (map t_id (rn_tabs (br_seen b)))) targets)) b)
      else if \<not> isLiveSource request b \<or> br_liveState b = Lb_paused
      then emits [Be_write (ir_tabId request) (ir_sessionNonce request) (ir_data request)] b
      else if ir_kind request = Ik_paste \<and> has_break (ir_data request) then asks (Ask_paste request) b
      else send_live request b)"

definition handleTerminalSensitivePrompt :: "string \<Rightarrow> Broadcast \<Rightarrow> Broadcast" where
  "handleTerminalSensitivePrompt tabId b =
     (if map_option tg_tabId (br_liveSource b) = Some tabId then stopLiveBroadcast b else b)"

section \<open>Controls\<close>

definition handleTerminalSavedPasswordPromptChange :: "string \<Rightarrow> 32 word \<Rightarrow> string option \<Rightarrow> Broadcast \<Rightarrow> Broadcast" where
  "handleTerminalSavedPasswordPromptChange tabId sessionNonce prompt b =
     (case prompt of
        Some p \<Rightarrow> b\<lparr>br_prompts := (br_prompts b)(tabId \<mapsto> (sessionNonce, p))\<rparr>
      | None \<Rightarrow> if map_option fst (br_prompts b tabId) = Some sessionNonce
                then b\<lparr>br_prompts := (br_prompts b)(tabId := None)\<rparr> else b)"

definition handleTerminalSessionUnavailable :: "string \<Rightarrow> 32 word \<Rightarrow> Broadcast \<Rightarrow> Broadcast" where
  "handleTerminalSessionUnavailable tabId sessionNonce b =
     stopLiveSource tabId sessionNonce
       (b\<lparr>br_unavailable := (if tabId \<in> set (br_unavailable b) then br_unavailable b else br_unavailable b @ [tabId])\<rparr>)"

definition toggleBroadcastTarget :: "string \<Rightarrow> Broadcast \<Rightarrow> Broadcast" where
  "toggleBroadcastTarget tabId b =
     b\<lparr>br_targetIds := (if tabId \<in> set (br_targetIds b) then filter (\<lambda>i. i \<noteq> tabId) (br_targetIds b)
                        else br_targetIds b @ [tabId])\<rparr>"

definition selectBroadcastTargets :: "string list \<Rightarrow> Broadcast \<Rightarrow> Broadcast" where
  "selectBroadcastTargets tabIds b =
     b\<lparr>br_targetIds := map t_id (filter (\<lambda>tab. t_id tab \<in> set tabIds \<and> isSessionTab tab) (rn_tabs (br_seen b)))\<rparr>"

definition selectVisibleBroadcastTargets ::
  "TabGroup list \<Rightarrow> string option \<Rightarrow> string option \<Rightarrow> Broadcast \<Rightarrow> Broadcast" where
  "selectVisibleBroadcastTargets groups activeTabId excludeTabId b =
     selectBroadcastTargets (filter (\<lambda>i. Some i \<noteq> excludeTabId) (getVisiblePaneIds groups activeTabId)) b"

definition selectAllBroadcastTargets :: "string option \<Rightarrow> Broadcast \<Rightarrow> Broadcast" where
  "selectAllBroadcastTargets excludeTabId b =
     selectBroadcastTargets (map t_id (filter (\<lambda>tab. Some (t_id tab) \<noteq> excludeTabId) (rn_tabs (br_seen b)))) b"

definition clearBroadcastTargets :: "Broadcast \<Rightarrow> Broadcast" where
  "clearBroadcastTargets b0 =
     (let b = b0\<lparr>br_targetIds := []\<rparr> in if br_liveSource b \<noteq> None then stopLiveBroadcast b else b)"

definition pauseLiveBroadcast :: "Broadcast \<Rightarrow> Broadcast" where
  "pauseLiveBroadcast b =
     (if br_liveSource b = None then b
      else b\<lparr>br_generation := br_generation b + 1, br_liveState := Lb_paused, br_liveBroadcastState := Lb_paused\<rparr>)"

definition resumeLiveBroadcast :: "Broadcast \<Rightarrow> Broadcast" where
  "resumeLiveBroadcast b =
     (if br_liveSource b = None then b
      else b\<lparr>br_generation := br_generation b + 1, br_liveState := Lb_active, br_liveBroadcastState := Lb_active\<rparr>)"

definition reconnectBroadcastTargets :: "Broadcast \<Rightarrow> Broadcast" where
  "reconnectBroadcastTargets b =
     (let seen = br_seen b;
          openTerminalTabs = filter isSessionTab (rn_tabs seen);
          targets = (if rn_targetIds seen \<noteq> [] then filter (\<lambda>tab. t_id tab \<in> set (rn_targetIds seen)) openTerminalTabs
                     else openTerminalTabs)
      in if targets = [] then b else asks (Ask_reconnectAll targets) b)"

definition reconnectAll_confirmed :: "Tab list \<Rightarrow> Broadcast \<Rightarrow> Broadcast" where
  "reconnectAll_confirmed targets b0 =
     (let b = stopLiveBroadcast b0; ids = set (map t_id targets)
      in emits (map (\<lambda>tab. Be_reconnect (t_id tab)) targets)
           (b\<lparr>br_results := (\<lambda>i. if i \<in> ids then None else br_results b i),
              br_unavailable := filter (\<lambda>i. i \<notin> ids) (br_unavailable b)\<rparr>))"

text \<open>The user's answer to the question \<open>n\<close> of those open.\<close>

definition answer_question :: "nat \<Rightarrow> bool \<Rightarrow> Broadcast \<Rightarrow> Broadcast" where
  "answer_question n confirmed b0 =
     (case nth_opt (br_questions b0) n of
        None \<Rightarrow> b0
      | Some q \<Rightarrow>
          (let b = b0\<lparr>br_questions := take n (br_questions b0) @ drop (n + 1) (br_questions b0)\<rparr>
           in case q of
                Ask_reconnect targets reconnectTargets rest \<Rightarrow>
                  if confirmed then reconnect_confirmed targets reconnectTargets rest b
                  else b\<lparr>br_preflight := None, br_preparing := False\<rparr>
              | Ask_multiline command targets \<Rightarrow> if confirmed then enqueue (Send_command command targets) b else b
              | Ask_live sourceTabId targets \<Rightarrow> if confirmed then live_confirmed sourceTabId targets b else b
              | Ask_paste request \<Rightarrow> if confirmed then send_live request b else b
              | Ask_reconnectAll targets \<Rightarrow> if confirmed then reconnectAll_confirmed targets b else b))"

section \<open>Rendering\<close>

text \<open>
  A render with the tabs of the workspace, none when they are the list of the last render:
  on a new list, targets that are no session of an open tab are dropped first. The refs take
  the state, and the effects go on with a wait for targets and stop a live broadcast whose
  source is gone.\<close>

definition source_gone :: "Broadcast \<Rightarrow> bool" where
  "source_gone b =
     (case br_source b of
        None \<Rightarrow> False
      | Some source \<Rightarrow>
          (case find (\<lambda>tab. t_id tab = tg_tabId source) (rn_tabs (br_seen b)) of
             None \<Rightarrow> True
           | Some tab \<Rightarrow> t_sessionNonce tab \<noteq> Some (tg_sessionNonce source))
          \<or> (case rn_runtime (br_seen b) (tg_tabId source) of
               None \<Rightarrow> False
             | Some runtime \<Rightarrow> rt_sessionNonce runtime \<noteq> tg_sessionNonce source
                 \<or> isTerminalConnectionUnavailable (Some (rt_connectionState runtime))))"

definition render :: "Tab list option \<Rightarrow> Broadcast \<Rightarrow> Broadcast" where
  "render newTabs b0 =
     (let tabs = or_default newTabs (rn_tabs (br_seen b0));
          validIds = set (map t_id (filter isSessionTab tabs));
          targetIds = (if newTabs = None then br_targetIds b0
                       else filter (\<lambda>i. i \<in> validIds) (br_targetIds b0));
          b = b0\<lparr>br_targetIds := targetIds, br_liveState := br_liveBroadcastState b0,
                 br_seen := \<lparr>rn_tabs = tabs, rn_targetIds = targetIds, rn_unavailable = br_unavailable b0,
                             rn_runtime = br_runtime b0\<rparr>\<rparr>;
          b = evaluateBroadcastPreflight b
      in if source_gone b then stopLiveBroadcast b else b)"

section \<open>Runs\<close>

datatype BroadcastCall =
    Bc_input TerminalInputRequest
  | Bc_run
  | Bc_settled "PtyWriteResult list option"
  | Bc_command string
  | Bc_startLive string
  | Bc_answer nat bool
  | Bc_state string "32 word" "ConnectionState option"
  | Bc_gone string "32 word"
  | Bc_prompt string "32 word" "string option"
  | Bc_sensitive string
  | Bc_toggle string
  | Bc_selectVisible "TabGroup list" "string option" "string option"
  | Bc_selectAll "string option"
  | Bc_clear
  | Bc_pause
  | Bc_resume
  | Bc_stop
  | Bc_reconnect
  | Bc_render "Tab list option"

fun broadcast_step :: "Broadcast \<Rightarrow> BroadcastCall \<Rightarrow> Broadcast" where
  "broadcast_step b (Bc_input request) = handleTerminalInput request b"
| "broadcast_step b Bc_run = run_job b"
| "broadcast_step b (Bc_settled answer) = job_settled answer b"
| "broadcast_step b (Bc_command command) = handleSendBroadcastCommand command b"
| "broadcast_step b (Bc_startLive sourceTabId) = handleStartLiveBroadcast sourceTabId b"
| "broadcast_step b (Bc_answer n confirmed) = answer_question n confirmed b"
| "broadcast_step b (Bc_state tabId sessionNonce st) = handleTerminalConnectionStateChange tabId sessionNonce st b"
| "broadcast_step b (Bc_gone tabId sessionNonce) = handleTerminalSessionUnavailable tabId sessionNonce b"
| "broadcast_step b (Bc_prompt tabId sessionNonce prompt) = handleTerminalSavedPasswordPromptChange tabId sessionNonce prompt b"
| "broadcast_step b (Bc_sensitive tabId) = handleTerminalSensitivePrompt tabId b"
| "broadcast_step b (Bc_toggle tabId) = toggleBroadcastTarget tabId b"
| "broadcast_step b (Bc_selectVisible groups activeTabId excludeTabId) =
     selectVisibleBroadcastTargets groups activeTabId excludeTabId b"
| "broadcast_step b (Bc_selectAll excludeTabId) = selectAllBroadcastTargets excludeTabId b"
| "broadcast_step b Bc_clear = clearBroadcastTargets b"
| "broadcast_step b Bc_pause = pauseLiveBroadcast b"
| "broadcast_step b Bc_resume = resumeLiveBroadcast b"
| "broadcast_step b Bc_stop = stopLiveBroadcast b"
| "broadcast_step b Bc_reconnect = reconnectBroadcastTargets b"
| "broadcast_step b (Bc_render tabs) = render tabs b"

section \<open>What is sent\<close>

definition pasted :: "TerminalInputRequest \<Rightarrow> bool" where
  "pasted request \<longleftrightarrow> ir_kind request = Ik_paste \<and> has_break (ir_data request)"

fun batch_id :: "BroadcastEffect \<Rightarrow> nat option" where
  "batch_id (Be_batch i job targets guard data) = Some i"
| "batch_id _ = None"

definition batch_ids :: "BroadcastEffect list \<Rightarrow> nat list" where
  "batch_ids es = List.map_filter batch_id es"

lemma batch_ids_append [simp]: "batch_ids (es @ fs) = batch_ids es @ batch_ids fs"
  by (simp add: batch_ids_def map_filter_def)

lemma batch_ids_simps [simp]:
  "batch_ids [] = []" "batch_ids [Be_batch i job ts g d] = [i]" "batch_ids [Be_write t n d] = []"
  "batch_ids [Be_activate t] = []"
  "batch_ids (map (\<lambda>x. Be_password (f x) (g' x) (h x)) xs) = []"
  "batch_ids (map (\<lambda>x. Be_bump (f x)) ys) = []" "batch_ids (map (\<lambda>x. Be_reconnect (f x)) ys) = []"
  by (simp_all add: batch_ids_def map_filter_def)

text \<open>The state of the live broadcast is kept twice alike, and idle means no source.\<close>

definition live_ok :: "Broadcast \<Rightarrow> bool" where
  "live_ok b \<longleftrightarrow> br_liveBroadcastState b = br_liveState b \<and> br_source b = br_liveSource b
     \<and> (br_liveSource b = None \<longleftrightarrow> br_liveState b = Lb_idle)"

text \<open>
  Live input that is queued is of this generation at most; if of this one, and not a paste
  that was confirmed, its terminal is the source of an active broadcast.\<close>

definition job_ok :: "Broadcast \<Rightarrow> Job \<Rightarrow> bool" where
  "job_ok b job \<longleftrightarrow>
     (case job of
        Live_input g request \<Rightarrow> g \<le> br_generation b
          \<and> (g = br_generation b \<longrightarrow> \<not> pasted request \<longrightarrow> br_liveState b = Lb_active \<and> isLiveSource request b)
      | Send_command c ts \<Rightarrow> True)"

definition queue_ok :: "Broadcast \<Rightarrow> bool" where
  "queue_ok b \<longleftrightarrow>
     sorted_wrt (<) (batch_ids (br_effects b) @ map fst (br_queue b))
     \<and> list_all (\<lambda>i. i < br_nextJob b) (batch_ids (br_effects b) @ map fst (br_queue b))
     \<and> list_all (\<lambda>(i, job). job_ok b job) (br_queue b)
     \<and> (\<forall>request. Ask_paste request \<in> set (br_questions b) \<longrightarrow> pasted request)"

definition broadcast_ok :: "Broadcast \<Rightarrow> bool" where
  "broadcast_ok b \<longleftrightarrow> live_ok b \<and> queue_ok b"

lemma broadcast_ok_new: "broadcast_ok new_broadcast"
  by (simp add: broadcast_ok_def live_ok_def queue_ok_def new_broadcast_def)

text \<open>Fields the invariant does not read.\<close>

lemma broadcast_ok_cong:
  assumes "br_liveBroadcastState b' = br_liveBroadcastState b" "br_liveState b' = br_liveState b"
    "br_source b' = br_source b" "br_liveSource b' = br_liveSource b" "br_generation b' = br_generation b"
    "br_queue b' = br_queue b" "br_nextJob b' = br_nextJob b" "br_questions b' = br_questions b"
    "batch_ids (br_effects b') = batch_ids (br_effects b)"
  shows "broadcast_ok b' = broadcast_ok b"
proof -
  have "job_ok b' = job_ok b"
    using assms by (simp add: fun_eq_iff job_ok_def isLiveSource_def split: Job.split)
  with assms show ?thesis by (simp add: broadcast_ok_def live_ok_def queue_ok_def)
qed

lemma plain_updates [simp]:
  "broadcast_ok (b\<lparr>br_targetIds := x1\<rparr>) = broadcast_ok b" "broadcast_ok (b\<lparr>br_runtime := x2\<rparr>) = broadcast_ok b"
  "broadcast_ok (b\<lparr>br_results := x3\<rparr>) = broadcast_ok b" "broadcast_ok (b\<lparr>br_unavailable := x4\<rparr>) = broadcast_ok b"
  "broadcast_ok (b\<lparr>br_inFlight := x5\<rparr>) = broadcast_ok b" "broadcast_ok (b\<lparr>br_prompts := x6\<rparr>) = broadcast_ok b"
  "broadcast_ok (b\<lparr>br_preparing := x7\<rparr>) = broadcast_ok b" "broadcast_ok (b\<lparr>br_preflight := x8\<rparr>) = broadcast_ok b"
  "broadcast_ok (b\<lparr>br_seen := x9\<rparr>) = broadcast_ok b" "broadcast_ok (b\<lparr>br_mode := x10\<rparr>) = broadcast_ok b"
  by (rule broadcast_ok_cong; simp)+

lemma emits_ok: "batch_ids es = [] \<Longrightarrow> broadcast_ok (emits es b) = broadcast_ok b"
  by (rule broadcast_ok_cong) (simp_all add: emits_def)

lemma asks_ok: "broadcast_ok b \<Longrightarrow> (\<And>request. q = Ask_paste request \<Longrightarrow> pasted request) \<Longrightarrow> broadcast_ok (asks q b)"
  by (auto simp: broadcast_ok_def live_ok_def queue_ok_def asks_def job_ok_def isLiveSource_def)

lemma fewer_questions_ok:
  "broadcast_ok b \<Longrightarrow> set qs \<subseteq> set (br_questions b) \<Longrightarrow> broadcast_ok (b\<lparr>br_questions := qs\<rparr>)"
  by (auto simp: broadcast_ok_def live_ok_def queue_ok_def job_ok_def isLiveSource_def)

lemma enqueue_ok:
  assumes "broadcast_ok b" and "job_ok b job"
  shows "broadcast_ok (enqueue job b)"
proof -
  have same: "job_ok (enqueue job b) = job_ok b"
    by (simp add: fun_eq_iff job_ok_def isLiveSource_def enqueue_def split: Job.split)
  have "sorted_wrt (<) (xs @ [n]) \<and> list_all (\<lambda>i. i < n + 1) (xs @ [n])"
    if "sorted_wrt (<) xs" "list_all (\<lambda>i. i < n) xs" for xs :: "nat list" and n
    using that by (auto simp: sorted_wrt_append list_all_iff)
  from this [of "batch_ids (br_effects b) @ map fst (br_queue b)" "br_nextJob b"] assms
  show ?thesis
    by (simp add: broadcast_ok_def live_ok_def queue_ok_def same) (simp add: enqueue_def)
qed

lemma next_generation:
  assumes "queue_ok b" and "br_generation b' = br_generation b + 1" and "br_queue b' = br_queue b"
    "br_nextJob b' = br_nextJob b" "br_questions b' = br_questions b" "batch_ids (br_effects b') = batch_ids (br_effects b)"
  shows "queue_ok b'"
proof -
  have "job_ok b' job" if "job_ok b job" for job
    using that assms(2) by (cases job) (simp_all add: job_ok_def)
  with assms show ?thesis by (auto simp: queue_ok_def list_all_iff)
qed

lemma stop_ok: "broadcast_ok b \<Longrightarrow> broadcast_ok (stopLiveBroadcast b)"
  using next_generation [of b "stopLiveBroadcast b"]
  by (simp add: broadcast_ok_def live_ok_def stopLiveBroadcast_def)

lemma stop_source_ok: "broadcast_ok b \<Longrightarrow> broadcast_ok (stopLiveSource t n b)"
  by (simp add: stopLiveSource_def stop_ok)

lemma pause_ok: "broadcast_ok b \<Longrightarrow> broadcast_ok (pauseLiveBroadcast b)"
  by (auto simp: broadcast_ok_def live_ok_def pauseLiveBroadcast_def intro: next_generation)

lemma resume_ok: "broadcast_ok b \<Longrightarrow> broadcast_ok (resumeLiveBroadcast b)"
  by (auto simp: broadcast_ok_def live_ok_def resumeLiveBroadcast_def intro: next_generation)

lemma live_confirmed_ok: "broadcast_ok b \<Longrightarrow> broadcast_ok (live_confirmed i ts b)"
proof -
  assume ok: "broadcast_ok b"
  have "broadcast_ok (b\<lparr>br_targetIds := x, br_generation := br_generation b + 1, br_liveSource := Some source,
      br_liveState := Lb_active, br_source := Some source, br_liveBroadcastState := Lb_active, br_mode := Bm_live\<rparr>)" for x source
    using ok next_generation [of b "b\<lparr>br_targetIds := x, br_generation := br_generation b + 1, br_liveSource := Some source,
      br_liveState := Lb_active, br_source := Some source, br_liveBroadcastState := Lb_active, br_mode := Bm_live\<rparr>"]
    by (simp add: broadcast_ok_def live_ok_def)
  with ok show ?thesis
    by (simp add: live_confirmed_def Let_def emits_ok split: option.split)
qed

lemma prepared_ok: "broadcast_ok b \<Longrightarrow> broadcast_ok (prepared rest ts b)"
  by (cases rest) (auto simp: prepared_def job_ok_def intro!: asks_ok enqueue_ok)

lemma ensure_ok: "broadcast_ok b \<Longrightarrow> broadcast_ok (ensureBroadcastTargetsConnected rest b)"
  by (auto simp: ensureBroadcastTargetsConnected_def Let_def prepared_ok intro!: asks_ok)

lemma evaluate_ok: "broadcast_ok b \<Longrightarrow> broadcast_ok (evaluateBroadcastPreflight b)"
  by (auto simp: evaluateBroadcastPreflight_def Let_def prepared_ok split: option.split Progress.split)

lemma input_ok:
  assumes ok: "broadcast_ok b"
  shows "broadcast_ok (handleTerminalInput request b)"
proof -
  have "br_liveState b = Lb_active" if "isLiveSource request b" "br_liveState b \<noteq> Lb_paused"
    using that ok by (cases "br_liveState b") (auto simp: broadcast_ok_def live_ok_def isLiveSource_def)
  with ok show ?thesis
    by (auto simp: handleTerminalInput_def Let_def emits_ok send_live_def job_ok_def pasted_def intro!: asks_ok enqueue_ok)
qed

lemma question_answer_ok:
  assumes ok: "broadcast_ok b"
  shows "broadcast_ok (answer_question n confirmed b)"
proof (cases "nth_opt (br_questions b) n")
  case None
  with ok show ?thesis by (simp add: answer_question_def)
next
  case (Some q)
  define b1 where "b1 = b\<lparr>br_questions := take n (br_questions b) @ drop (Suc n) (br_questions b)\<rparr>"
  have "set (take n (br_questions b) @ drop (Suc n) (br_questions b)) \<subseteq> set (br_questions b)"
    by (auto dest: in_set_takeD in_set_dropD)
  with ok have ok1: "broadcast_ok b1" unfolding b1_def by (rule fewer_questions_ok)
  have "q \<in> set (br_questions b)" using Some by (rule nth_opt_in_set)
  with ok have paste: "q = Ask_paste request \<Longrightarrow> pasted request" for request
    by (auto simp: broadcast_ok_def queue_ok_def)
  have "broadcast_ok (send_live request b1)" if "pasted request" for request
    unfolding send_live_def by (rule enqueue_ok [OF ok1]) (use that in \<open>simp add: job_ok_def\<close>)
  moreover have "broadcast_ok (enqueue (Send_command c ts) b1)" for c ts
    by (rule enqueue_ok [OF ok1]) (simp add: job_ok_def)
  moreover have "broadcast_ok (reconnect_confirmed ts rs rest b1)" for ts rs rest
    unfolding reconnect_confirmed_def Let_def by (rule evaluate_ok) (simp add: emits_ok ok1)
  moreover have "broadcast_ok (reconnectAll_confirmed ts b1)" for ts
    unfolding reconnectAll_confirmed_def Let_def by (simp add: emits_ok stop_ok ok1)
  ultimately show ?thesis
    using paste live_confirmed_ok [OF ok1] ok1
    by (auto simp: answer_question_def Some Let_def simp flip: b1_def split: Question.split)
qed

lemma unavailable_ok: "broadcast_ok b \<Longrightarrow> broadcast_ok (handleTerminalSessionUnavailable t n b)"
  by (simp add: handleTerminalSessionUnavailable_def stop_source_ok)

lemma state_ok: "broadcast_ok b \<Longrightarrow> broadcast_ok (handleTerminalConnectionStateChange t n st b)"
  by (simp add: handleTerminalConnectionStateChange_def Let_def stop_source_ok)

lemma render_ok:
  assumes ok: "broadcast_ok b"
  shows "broadcast_ok (render newTabs b)"
proof -
  have "broadcast_ok (b\<lparr>br_targetIds := x, br_liveState := br_liveBroadcastState b, br_seen := y\<rparr>)" for x y
  proof -
    have "live_ok b" using ok by (simp add: broadcast_ok_def)
    then have "b\<lparr>br_targetIds := x, br_liveState := br_liveBroadcastState b, br_seen := y\<rparr> = b\<lparr>br_targetIds := x, br_seen := y\<rparr>"
      by (cases b) (simp add: live_ok_def)
    with ok show ?thesis by simp
  qed
  then have "broadcast_ok (evaluateBroadcastPreflight
      (b\<lparr>br_targetIds := x, br_liveState := br_liveBroadcastState b, br_seen := y\<rparr>))" for x y
    by (rule evaluate_ok)
  then show ?thesis unfolding render_def Let_def by (simp only: stop_ok if_split simp_thms)
qed

lemma shorter_queue_ok:
  assumes "broadcast_ok b" and "br_queue b = (i, job) # queue"
  shows "broadcast_ok (b\<lparr>br_queue := queue\<rparr>)" and "job_ok b job" and "broadcast_ok (b\<lparr>br_queue := queue, br_inFlight := x,
    br_effects := br_effects b @ [Be_batch i job ts g d]\<rparr>)"
proof -
  have same: "job_ok (b\<lparr>br_queue := queue, br_inFlight := x, br_effects := es\<rparr>) = job_ok b"
    "job_ok (b\<lparr>br_queue := queue\<rparr>) = job_ok b" for es
    by (simp_all add: fun_eq_iff job_ok_def isLiveSource_def split: Job.split)
  show "broadcast_ok (b\<lparr>br_queue := queue\<rparr>)" "job_ok b job" "broadcast_ok (b\<lparr>br_queue := queue, br_inFlight := x,
    br_effects := br_effects b @ [Be_batch i job ts g d]\<rparr>)"
    using assms by (simp_all add: broadcast_ok_def live_ok_def queue_ok_def same sorted_wrt_append)
qed

lemma run_job_ok:
  assumes ok: "broadcast_ok b"
  shows "broadcast_ok (run_job b)"
proof (cases "br_queue b")
  case Nil
  with ok show ?thesis by (simp add: run_job_def split: option.split)
next
  case (Cons p queue)
  then obtain i job where q: "br_queue b = (i, job) # queue" by (cases p) auto
  have sent: "broadcast_ok (emits [Be_batch i job ts g d] (b\<lparr>br_queue := queue, br_inFlight := x\<rparr>))" for ts g d x
    using shorter_queue_ok(3) [OF ok q] by (simp add: emits_def)
  show ?thesis
    using ok shorter_queue_ok(1) [OF ok q] sent
    by (cases job) (auto simp: run_job_def Let_def q split: option.split)
qed

lemma settled_ok: "broadcast_ok b \<Longrightarrow> broadcast_ok (job_settled answer b)"
  by (simp add: job_settled_def Let_def stop_ok stop_source_ok split: option.split Job.split prod.split)

lemma ask_all_ok: "broadcast_ok b \<Longrightarrow> broadcast_ok (asks (Ask_reconnectAll tabs) b)"
  by (rule asks_ok) simp_all

lemma broadcast_step_ok: "broadcast_ok b \<Longrightarrow> broadcast_ok (broadcast_step b call)"
  by (cases call)
    (simp_all add: input_ok run_job_ok settled_ok handleSendBroadcastCommand_def handleStartLiveBroadcast_def Let_def
      ensure_ok question_answer_ok state_ok unavailable_ok handleTerminalSavedPasswordPromptChange_def handleTerminalSensitivePrompt_def
      stop_ok toggleBroadcastTarget_def selectVisibleBroadcastTargets_def selectBroadcastTargets_def selectAllBroadcastTargets_def
      clearBroadcastTargets_def pause_ok resume_ok reconnectBroadcastTargets_def ask_all_ok render_ok split: option.split)

interpretation broadcast: total_machine broadcast_step new_broadcast broadcast_ok
  by unfold_locales (simp_all add: broadcast_ok_new broadcast_step_ok)

text \<open>What a step may send, in the state \<open>b\<close> it is made in.\<close>

definition open_target :: "Rendered \<Rightarrow> Target \<Rightarrow> bool" where
  "open_target seen target \<longleftrightarrow>
     list_ex (\<lambda>tab. target = target_of tab \<and> isSessionTab tab \<and> t_id tab \<in> set (rn_targetIds seen)
       \<and> t_id tab \<notin> set (rn_unavailable seen) \<and> connected_at seen tab) (rn_tabs seen)"

fun effect_allowed :: "BroadcastCall \<Rightarrow> Broadcast \<Rightarrow> BroadcastEffect \<Rightarrow> bool" where
  "effect_allowed call b (Be_batch i (Live_input g request) targets guard data) \<longleftrightarrow>
     call = Bc_run \<and> list_all (open_target (br_seen b)) targets \<and> data = ir_data request
     \<and> g = br_generation b \<and> guard = br_liveSource b \<and> br_liveSource b \<noteq> None
     \<and> list_all (\<lambda>target. Some (tg_tabId target) \<noteq> map_option tg_tabId (br_liveSource b)) targets
     \<and> (pasted request \<or> br_liveState b = Lb_active \<and> isLiveSource request b)"
| "effect_allowed call b (Be_batch i (Send_command command ts) targets guard data) \<longleftrightarrow>
     call = Bc_run \<and> list_all (open_target (br_seen b)) targets \<and> targets = ts \<and> targets \<noteq> []
     \<and> guard = None \<and> data = command @ [CHR 0x0D]"
| "effect_allowed call b (Be_write tabId sessionNonce data) \<longleftrightarrow>
     (case call of
        Bc_input request \<Rightarrow> tabId = ir_tabId request \<and> sessionNonce = ir_sessionNonce request \<and> data = ir_data request
          \<and> (\<not> isLiveSource request b \<or> br_liveState b = Lb_paused)
      | _ \<Rightarrow> False)"
| "effect_allowed call b (Be_password tabId sessionNonce prompt) \<longleftrightarrow>
     (case call of
        Bc_input request \<Rightarrow> ir_kind request = Ik_savedPassword
          \<and> (tabId = ir_tabId request \<and> sessionNonce = ir_sessionNonce request \<and> prompt = ir_data request
             \<or> isLiveSource request b \<and> br_liveState b = Lb_active \<and> br_prompts b tabId = Some (sessionNonce, prompt)
               \<and> open_target (br_seen b) \<lparr>tg_tabId = tabId, tg_sessionNonce = sessionNonce\<rparr>)
      | _ \<Rightarrow> False)"
| "effect_allowed call b _ \<longleftrightarrow> (case call of Bc_answer n confirmed \<Rightarrow> confirmed | _ \<Rightarrow> False)"

lemma resolved_open: "list_all (open_target (br_seen b)) (resolveBroadcastTargets b)"
  by (auto simp: resolveBroadcastTargets_def Let_def list_all_iff open_target_def list_ex_iff)

lemma same_targets_open:
  "same_targets ts us \<Longrightarrow> list_all P us \<Longrightarrow> list_all P ts"
  by (auto simp: same_targets_def list_all_iff)

lemma without_tab_all: "list_all P us \<Longrightarrow> list_all P (without_tab i us)"
  by (auto simp: without_tab_def list_all_iff)

lemma resolve_shorter: "resolveBroadcastTargets (b\<lparr>br_queue := q\<rparr>) = resolveBroadcastTargets b"
  by (simp add: resolveBroadcastTargets_def)

definition sends_well :: "BroadcastCall \<Rightarrow> Broadcast \<Rightarrow> Broadcast \<Rightarrow> bool" where
  "sends_well call b b' \<longleftrightarrow> (\<exists>es. br_effects b' = br_effects b @ es \<and> list_all (effect_allowed call b) es)"

lemma run_job_sends:
  assumes "broadcast_ok b"
  shows "sends_well Bc_run b (run_job b)"
proof (cases "\<exists>i job queue. br_inFlight b = None \<and> br_queue b = (i, job) # queue")
  case False
  then have "run_job b = b"
    by (auto simp: run_job_def split: option.split list.split)
  then show ?thesis by (simp add: sends_well_def)
next
  case True
  then obtain i job queue where q: "br_inFlight b = None" "br_queue b = (i, job) # queue" by blast
  with assms have ok: "job_ok b job" by (simp add: broadcast_ok_def queue_ok_def)
  show ?thesis
  proof (cases job)
    case (Live_input g request)
    with ok show ?thesis
      by (auto simp: sends_well_def run_job_def q Let_def emits_def resolve_shorter job_ok_def
          without_tab_all resolved_open split: option.split) (auto simp: without_tab_def list_all_iff)
  next
    case (Send_command command ts)
    then show ?thesis
      using same_targets_open [OF _ resolved_open, of ts b]
      by (auto simp: sends_well_def run_job_def q Let_def emits_def resolve_shorter)
  qed
qed

lemma quiet_sends: "br_effects b' = br_effects b \<Longrightarrow> sends_well call b b'"
  by (simp add: sends_well_def)

lemma emits_sends:
  "br_effects b' = br_effects b \<Longrightarrow> list_all (effect_allowed call b) es \<Longrightarrow> sends_well call b (emits es b')"
  by (simp add: sends_well_def emits_def)

lemma effects_kept [simp]:
  "br_effects (stopLiveBroadcast b) = br_effects b" "br_effects (stopLiveSource t n b) = br_effects b"
  "br_effects (asks q b) = br_effects b" "br_effects (enqueue job b) = br_effects b"
  by (simp_all add: stopLiveBroadcast_def stopLiveSource_def asks_def enqueue_def)

lemma prepared_kept [simp]: "br_effects (prepared rest ts b) = br_effects b"
  by (simp add: prepared_def split: Preparing.split)

lemma ensure_kept [simp]: "br_effects (ensureBroadcastTargetsConnected rest b) = br_effects b"
  by (simp add: ensureBroadcastTargetsConnected_def Let_def)

lemma evaluate_kept [simp]: "br_effects (evaluateBroadcastPreflight b) = br_effects b"
  by (simp add: evaluateBroadcastPreflight_def Let_def split: option.split prod.split Progress.split)

lemma render_kept [simp]: "br_effects (render newTabs b) = br_effects b"
  by (simp add: render_def Let_def)

lemma settled_kept [simp]: "br_effects (job_settled answer b) = br_effects b"
  by (simp add: job_settled_def Let_def split: option.split prod.split Job.split)

lemma state_kept [simp]: "br_effects (handleTerminalConnectionStateChange t n st b) = br_effects b"
  by (simp add: handleTerminalConnectionStateChange_def Let_def)

lemma same_target: "\<lparr>tg_tabId = tg_tabId x, tg_sessionNonce = tg_sessionNonce x\<rparr> = (x :: Target)"
  by (cases x) simp

lemma password_targets:
  assumes "target \<in> set (resolveSavedPasswordInjectionTargets source live targets prompts)"
  shows "target = source \<or> live \<and> prompts (pt_tabId target) = Some (pt_sessionNonce target, pt_prompt target)
    \<and> \<lparr>tg_tabId = pt_tabId target, tg_sessionNonce = pt_sessionNonce target\<rparr> \<in> set targets"
proof (cases "live \<and> target \<noteq> source")
  case False
  with assms show ?thesis by (auto simp: resolveSavedPasswordInjectionTargets_def split: if_splits)
next
  case True
  with assms obtain x where x: "x \<in> set targets" and
    "(if tg_tabId x = pt_tabId source then None
      else case prompts (tg_tabId x) of
             Some (nonce, prompt) \<Rightarrow>
               if nonce = tg_sessionNonce x
               then Some \<lparr>pt_tabId = tg_tabId x, pt_sessionNonce = tg_sessionNonce x, pt_prompt = prompt\<rparr> else None
           | None \<Rightarrow> None) = Some target"
    by (auto simp: resolveSavedPasswordInjectionTargets_def in_map_filter)
  then have "prompts (tg_tabId x) = Some (tg_sessionNonce x, pt_prompt target)"
    "pt_tabId target = tg_tabId x" "pt_sessionNonce target = tg_sessionNonce x"
    by (auto split: if_split_asm option.split_asm prod.split_asm)
  with True x show ?thesis by (simp add: same_target)
qed

lemma input_sends: "sends_well (Bc_input request) b (handleTerminalInput request b)"
proof (cases "ir_kind request = Ik_savedPassword")
  case True
  show ?thesis
    unfolding handleTerminalInput_def Let_def if_P [OF True]
    by (rule emits_sends [OF refl]) (use True resolved_open [of b] in \<open>auto simp: list_all_iff dest!: password_targets\<close>)
next
  case False
  then show ?thesis
    by (auto simp: handleTerminalInput_def send_live_def intro: emits_sends quiet_sends)
qed

lemma answer_sends: "sends_well (Bc_answer n confirmed) b (answer_question n confirmed b)"
proof (cases "confirmed \<and> nth_opt (br_questions b) n \<noteq> None")
  case False
  then show ?thesis
    by (auto simp: answer_question_def Let_def split: option.split Question.split intro!: quiet_sends)
next
  case True
  then obtain q where c: "confirmed" and q: "nth_opt (br_questions b) n = Some q" by blast
  define b1 where "b1 = b\<lparr>br_questions := take n (br_questions b) @ drop (Suc n) (br_questions b)\<rparr>"
  have same: "br_effects b1 = br_effects b" by (simp add: b1_def)
  have e: "sends_well (Bc_answer n True) b (emits es b')" if "br_effects b' = br_effects b"
    "\<forall>e\<in>set es. e \<in> range Be_bump \<union> range Be_reconnect \<union> range Be_activate" for b' es
    using that by (intro emits_sends) (auto simp: list_all_iff)
  have effects_evaluated: "sends_well call b (evaluateBroadcastPreflight b')" if "sends_well call b b'" for call b'
    using that by (simp add: sends_well_def)
  have "sends_well (Bc_answer n True) b (reconnect_confirmed ts rs rest b1)" for ts rs rest
    unfolding reconnect_confirmed_def Let_def by (rule effects_evaluated, rule e) (auto simp: same)
  moreover have "sends_well (Bc_answer n True) b (live_confirmed t ts b1)" for t ts
    by (auto simp: live_confirmed_def Let_def same split: option.split intro: e quiet_sends)
  moreover have "sends_well (Bc_answer n True) b (reconnectAll_confirmed ts b1)" for ts
    unfolding reconnectAll_confirmed_def Let_def by (rule e) (auto simp: same)
  moreover have "sends_well (Bc_answer n True) b (enqueue job b1)" for job
    by (rule quiet_sends) (simp add: same)
  moreover have "sends_well (Bc_answer n True) b (send_live request b1)" for request
    by (rule quiet_sends) (simp add: same send_live_def)
  ultimately show ?thesis
    using c by (cases q) (simp_all add: answer_question_def q flip: b1_def)
qed

lemma broadcast_sends:
  assumes "broadcast_ok b"
  shows "sends_well call b (broadcast_step b call)"
  using assms
  by (cases call)
    (auto simp: input_sends answer_sends run_job_sends intro!: quiet_sends
      simp: handleSendBroadcastCommand_def handleStartLiveBroadcast_def Let_def
      handleTerminalSessionUnavailable_def handleTerminalSavedPasswordPromptChange_def handleTerminalSensitivePrompt_def
      toggleBroadcastTarget_def selectVisibleBroadcastTargets_def selectBroadcastTargets_def selectAllBroadcastTargets_def
      clearBroadcastTargets_def pauseLiveBroadcast_def resumeLiveBroadcast_def reconnectBroadcastTargets_def split: option.split)

text \<open>Two terminals, the first the source: its key goes to the second once its turn comes.\<close>

definition live_calls :: "BroadcastCall list" where
  "live_calls =
     [Bc_state ''a'' 0 (Some Cn_connected), Bc_state ''b'' 0 (Some Cn_connected), Bc_toggle ''a'', Bc_toggle ''b'',
      Bc_render (Some [(make_tab ''a'' ''one'' TySsh True)\<lparr>t_sessionNonce := Some 0\<rparr>,
                       (make_tab ''b'' ''two'' TySsh False)\<lparr>t_sessionNonce := Some 0\<rparr>]),
      Bc_startLive ''a'', Bc_answer 0 True, Bc_render None,
      Bc_input \<lparr>ir_tabId = ''a'', ir_sessionNonce = 0, ir_data = ''x'', ir_kind = Ik_keyboard\<rparr>, Bc_run]"

lemma live_key_reaches_the_others:
  "br_effects (run broadcast_step new_broadcast live_calls) =
     [Be_activate ''a'',
      Be_batch 0 (Live_input 1 \<lparr>ir_tabId = ''a'', ir_sessionNonce = 0, ir_data = ''x'', ir_kind = Ik_keyboard\<rparr>)
        [\<lparr>tg_tabId = ''b'', tg_sessionNonce = 0\<rparr>] (Some \<lparr>tg_tabId = ''a'', tg_sessionNonce = 0\<rparr>) ''x'']"
  by code_simp

text \<open>A paste whose question is open while the broadcast is paused goes out to the targets once confirmed.\<close>

lemma paste_goes_out_while_paused:
  defines "request \<equiv> \<lparr>ir_tabId = ''a'', ir_sessionNonce = 0, ir_data = [CHR ''x'', CHR 0x0A, CHR ''y''], ir_kind = Ik_paste\<rparr>"
  defines "b \<equiv> run broadcast_step new_broadcast
    (take 8 live_calls @ [Bc_input request, Bc_pause, Bc_answer 0 True, Bc_run])"
  shows "br_liveState b = Lb_paused
    \<and> last (br_effects b) = Be_batch 0 (Live_input 2 request) [\<lparr>tg_tabId = ''b'', tg_sessionNonce = 0\<rparr>]
        (Some \<lparr>tg_tabId = ''a'', tg_sessionNonce = 0\<rparr>) [CHR ''x'', CHR 0x0A, CHR ''y'']"
  unfolding request_def b_def by code_simp

text \<open>
  C34: whatever the terminals, the user and the backend do, and in whatever order: a step
  only appends to what was sent, and each thing it sends is allowed where it is sent. Live
  input goes, as it was typed, to selected and connected sessions of open tabs other than
  the source, guarded by the source, only in the generation it was queued in, and unless it
  is a confirmed paste only while the broadcast is active and its own terminal is the
  source. A command goes to exactly the targets it was prepared for. What is typed in
  another terminal, or while the broadcast is paused, goes to that terminal alone. A saved
  password goes to the terminal that asked and, while live, to targets that ask for one
  themselves. Nothing is connected again without a yes. The batches go out in the order
  they were queued in, none twice.\<close>

theorem live_input_stays_with_its_broadcast:
  "(\<exists>es. br_effects (run broadcast_step new_broadcast (calls @ [call])) =
          br_effects (run broadcast_step new_broadcast calls) @ es
        \<and> list_all (effect_allowed call (run broadcast_step new_broadcast calls)) es)
   \<and> sorted_wrt (<) (batch_ids (br_effects (run broadcast_step new_broadcast calls)))"
proof -
  have ok: "broadcast_ok (run broadcast_step new_broadcast calls)" by (rule broadcast.inv_any_run)
  then have "sorted_wrt (<) (batch_ids (br_effects (run broadcast_step new_broadcast calls)))"
    by (simp add: broadcast_ok_def queue_ok_def sorted_wrt_append)
  with broadcast_sends [OF ok, of call] show ?thesis by (simp add: sends_well_def run_append)
qed

end
