(* ===== verification/Terminal_Input.thy ===== *)
theory Terminal_Input
  imports Password_Prompts Login_Script Command_Marks Serial_Settings Agent_Status Broadcast Composer
begin

text \<open>
  What one terminal session does with what is typed and with what the shell reports
  (\<open>terminalInput.ts\<close>, \<open>commandTracking.ts\<close> and \<open>connectionStateUpdater.ts\<close> of
  \<open>src/src/components/TerminalTab\<close>): the composition of the agent tracker, the command
  timer, the marks, the prompts, the login script and the capture of commands.
\<close>

section \<open>State\<close>

record CommandRun =
  ec_commandText :: string
  ec_profileId :: "string option"
  ec_profileName :: "string option"
  ec_executedAt :: int

datatype SessionEffect =
    Se_state ConnectionState
  | Se_reconnect
  | Se_running "string option"
  | Se_attention TerminalAttentionEvent
  | Se_executed CommandRun
  | Se_echo string
  | Se_predict string
  | Se_input TerminalInputRequest \<comment> \<open>to the workspace\<close>
  | Se_write string "32 word" string \<comment> \<open>straight to the backend\<close>

text \<open>The prompts hold what the parts of a session share: the capture and the key of the prompt.\<close>

record TermSession =
  ts_agents :: Agents
  ts_timer :: CommandTimer
  ts_marks :: CommandMarks
  ts_prompts :: Prompts
  ts_login :: "LoginScriptRunner option"
  ts_shellReports :: bool
  ts_lastEmitted :: "(string \<times> int) option"
  ts_lastState :: ConnectionState
  ts_waiting :: bool
  ts_effects :: "SessionEffect list"

definition new_session :: "(nat \<Rightarrow> int) \<Rightarrow> TermSession" where
  "new_session delays = \<lparr>ts_agents = new_agents delays, ts_timer = new_timer, ts_marks = new_marks,
     ts_prompts = new_prompts, ts_login = None, ts_shellReports = False, ts_lastEmitted = None,
     ts_lastState = Cn_connecting, ts_waiting = False, ts_effects = []\<rparr>"

text \<open>What the handlers read: the terminal's number among the trackers, the time, the
  buffer, the tab and its connection, and what the compose bar is sending.\<close>

record SessionEnv =
  se_tracker :: nat
  se_now :: int
  se_term :: MarkTerm
  se_tabId :: string
  se_sessionNonce :: "32 word"
  se_profileId :: "string option"
  se_profileName :: "string option"
  se_localEcho :: bool \<comment> \<open>a serial connection whose display echoes\<close>
  se_onInput :: bool \<comment> \<open>the workspace takes what is typed\<close>
  se_composed :: "string option"

definition se :: "SessionEffect list \<Rightarrow> TermSession \<Rightarrow> TermSession" where
  "se es s = s\<lparr>ts_effects := ts_effects s @ es\<rparr>"

definition on_agents :: "(Agents \<Rightarrow> Agents) \<Rightarrow> TermSession \<Rightarrow> TermSession" where
  "on_agents f s = s\<lparr>ts_agents := f (ts_agents s)\<rparr>"

definition on_prompts :: "(Prompts \<Rightarrow> Prompts) \<Rightarrow> TermSession \<Rightarrow> TermSession" where
  "on_prompts f s = s\<lparr>ts_prompts := f (ts_prompts s)\<rparr>"

definition on_timer :: "(CommandTimer \<Rightarrow> timer_result) \<Rightarrow> TermSession \<Rightarrow> TermSession" where
  "on_timer f s = (case f (ts_timer s) of (t, running) \<Rightarrow> se (map Se_running running) (s\<lparr>ts_timer := t\<rparr>))"

section \<open>The connection's state\<close>

definition applyConnectionState :: "ConnectionState \<Rightarrow> TermSession \<Rightarrow> TermSession" where
  "applyConnectionState next s = se [Se_state next] (s\<lparr>ts_lastState := next\<rparr>)"

definition setConnectionStateIfChanged :: "ConnectionState \<Rightarrow> TermSession \<Rightarrow> TermSession" where
  "setConnectionStateIfChanged next s = (if next = ts_lastState s then s else applyConnectionState next s)"

section \<open>Commands\<close>

definition timeCommand :: "SessionEnv \<Rightarrow> string \<Rightarrow> TermSession \<Rightarrow> TermSession" where
  "timeCommand env data s0 =
     (case parseCommandMark data of
        None \<Rightarrow> s0
      | Some mark \<Rightarrow>
          (let s = (if mark = Mark_prompt then on_agents (reset_tracker (se_tracker env)) s0 else s0);
               finished = fst (timer_mark mark (se_now env) (ts_timer s));
               s = on_timer (\<lambda>t. snd (timer_mark mark (se_now env) t)) s
           in case finished of None \<Rightarrow> s | Some f \<Rightarrow> se [Se_attention (Ev_command f)] s))"

definition recordCommand :: "SessionEnv \<Rightarrow> string \<Rightarrow> TermSession \<Rightarrow> TermSession" where
  "recordCommand env command s =
     (if (case ts_lastEmitted s of None \<Rightarrow> False | Some (text', at') \<Rightarrow> text' = command \<and> se_now env - at' < 1500) then s
      else se [Se_executed \<lparr>ec_commandText = command, ec_profileId = se_profileId env,
                 ec_profileName = se_profileName env, ec_executedAt = se_now env\<rparr>]
             ((on_prompts command_recorded s)\<lparr>ts_lastEmitted := Some (command, se_now env)\<rparr>))"

definition emitTypedCommand :: "SessionEnv \<Rightarrow> string \<Rightarrow> TermSession \<Rightarrow> TermSession" where
  "emitTypedCommand env commandText s =
     (let normalized = trim commandText
      in if normalized = [] \<or> ts_shellReports s then s
         else recordCommand env normalized (on_timer (setTypedCommand normalized) s))"

text \<open>The handler of the marks' escape sequences.\<close>

definition shell_mark :: "SessionEnv \<Rightarrow> string \<Rightarrow> TermSession \<Rightarrow> TermSession" where
  "shell_mark env data s0 =
     (let s = s0\<lparr>ts_marks := handleMark (se_term env) data (ts_marks s0)\<rparr>;
          s = timeCommand env data s
      in case parseShellIntegrationCommand data of
           None \<Rightarrow> s
         | Some command \<Rightarrow>
             recordCommand env command (on_timer (setCommand command) (s\<lparr>ts_shellReports := True\<rparr>)))"

section \<open>Input\<close>

definition stopLoginScript :: "TermSession \<Rightarrow> TermSession" where
  "stopLoginScript s = s\<lparr>ts_login := None\<rparr>"

definition ends_secret :: "string \<Rightarrow> bool" where
  "ends_secret data = list_ex (\<lambda>c. c = CHR 0x0D \<or> c = CHR 0x0A \<or> c = CHR 0x03) data"

definition note_agents :: "SessionEnv \<Rightarrow> string \<Rightarrow> TermSession \<Rightarrow> TermSession" where
  "note_agents env data s =
     (if data = [ESC] \<or> CHR 0x03 \<in> set data then on_agents (Agent_Status.interrupt (se_tracker env)) s
      else if \<not> starts_with data [ESC] then on_agents (Agent_Status.answer (se_tracker env)) s
      else s)"

definition note_prompt :: "string \<Rightarrow> TermSession \<Rightarrow> TermSession" where
  "note_prompt data s0 =
     (if starts_with data [ESC] then s0
      else let s = (if pp_currentKey (ts_prompts s0) = None then stopLoginScript s0 else s0)
           in on_prompts (typeAtPrompt data) s)"

definition note_enter :: "SessionEnv \<Rightarrow> string \<Rightarrow> TermSession \<Rightarrow> bool \<times> TermSession" where
  "note_enter env data s0 =
     (if CHR 0x0D \<notin> set data then (False, s0)
      else let s = on_agents (Agent_Status.submit (se_tracker env) (se_now env)) s0
           in case handleEnter (se_term env) (ts_marks s) of (starts, m) \<Rightarrow> (starts, s\<lparr>ts_marks := m\<rparr>))"

definition note_commands :: "SessionEnv \<Rightarrow> bool \<Rightarrow> string \<Rightarrow> TermSession \<Rightarrow> TermSession" where
  "note_commands env inProgram data s =
     (if pp_captureSuspended (ts_prompts s) then
        (if ends_secret data
         then on_prompts (\<lambda>p. p\<lparr>pp_captureSuspended := False, pp_capture := EMPTY_COMMAND_CAPTURE_STATE\<rparr>) s
         else s)
      else case captureTerminalInput (pp_capture (ts_prompts s)) data of
             (state, commands) \<Rightarrow>
               (let s = on_prompts (\<lambda>p. p\<lparr>pp_capture := state\<rparr>) s
                in if inProgram then s else fold (emitTypedCommand env) commands s))"

definition isMultilinePaste :: "string option \<Rightarrow> string \<Rightarrow> bool" where
  "isMultilinePaste composed data =
     (let composedLine = (composed = Some data \<and> (data = [] \<or> index_of (CHR 0x0D) data = Some (length data - 1)))
      in \<not> composedLine
         \<and> (CHR 0x0A \<in> set data \<or> length data > 1 \<and> CHR 0x0D \<in> set data \<or> includes_str data PASTE_START))"

definition request_of :: "SessionEnv \<Rightarrow> string \<Rightarrow> TerminalInputRequest" where
  "request_of env data = \<lparr>ir_tabId = se_tabId env, ir_sessionNonce = se_sessionNonce env, ir_data = data,
     ir_kind = (if isMultilinePaste (se_composed env) data then Ik_paste else Ik_keyboard)\<rparr>"

text \<open>The echo, the guess and the sending, once all is noted.\<close>

definition send_input :: "SessionEnv \<Rightarrow> string \<Rightarrow> TermSession \<Rightarrow> TermSession" where
  "send_input env data s =
     se ((if se_localEcho env then [Se_echo (localEchoText data)] else []) @ [Se_predict data]
         @ [if se_onInput env then Se_input (request_of env data)
            else Se_write (se_tabId env) (se_sessionNonce env) data]) s"

definition onData :: "SessionEnv \<Rightarrow> string \<Rightarrow> TermSession \<Rightarrow> TermSession" where
  "onData env data s0 =
     (if ts_waiting s0 then se [Se_reconnect] (applyConnectionState Cn_connecting (s0\<lparr>ts_waiting := False\<rparr>))
      else let s1 = note_prompt data (note_agents env data s0);
               inProgram = isRunningProgram (se_term env) (ts_marks s1);
               entered = note_enter env data s1;
               startsCommand = fst entered;
               s2 = note_commands env inProgram data (snd entered);
               s3 = (if startsCommand then on_timer (timer_start (se_now env)) s2 else s2)
           in send_input env data s3)"

section \<open>Runs\<close>

text \<open>
  The session's calls: typing, a mark, a report of a remote directory, a report of an
  agent, what happens to the prompts, and the close of the connection (\<open>ptySession.ts\<close>
  ends the command and waits for a key).\<close>

datatype SessionCall =
    Sc_data SessionEnv string
  | Sc_mark SessionEnv string
  | Sc_marks MarkTerm MarkCall
  | Sc_agent "nat \<times> int \<times> AgentCall"
  | Sc_prompt "PromptConnection option" PromptCall
  | Sc_closed SessionEnv

definition session_closed :: "SessionEnv \<Rightarrow> TermSession \<Rightarrow> TermSession" where
  "session_closed env s =
     (on_timer timer_prompt (on_agents (reset_tracker (se_tracker env)) (stopLoginScript s)))\<lparr>ts_waiting := True\<rparr>"

fun session_step :: "TermSession \<Rightarrow> SessionCall \<Rightarrow> TermSession" where
  "session_step s (Sc_data env data) = onData env data s"
| "session_step s (Sc_mark env data) = shell_mark env data s"
| "session_step s (Sc_marks T call) = s\<lparr>ts_marks := marks_step (ts_marks s) (T, call)\<rparr>"
| "session_step s (Sc_agent call) = on_agents (\<lambda>w. agent_step w call) s"
| "session_step s (Sc_prompt c call) = on_prompts (\<lambda>p. prompt_step c p call) s"
| "session_step s (Sc_closed env) = session_closed env s"

section \<open>Secrets leave no trace\<close>

text \<open>What is left of the commands: those recorded, the last one, and the line being read back.\<close>

definition executed_in :: "SessionEffect list \<Rightarrow> CommandRun list" where
  "executed_in es = List.map_filter (\<lambda>e. case e of Se_executed c \<Rightarrow> Some c | _ \<Rightarrow> None) es"

definition history :: "TermSession \<Rightarrow> CommandRun list \<times> (string \<times> int) option \<times> TerminalCommandCaptureState" where
  "history s = (executed_in (ts_effects s), ts_lastEmitted s, pp_capture (ts_prompts s))"

text \<open>
  Whether a password is being asked for: from the check that finds a new prompt, not
  answered before, until what is typed ends the line or the saved password is filled in.\<close>

fun asked_after :: "bool \<Rightarrow> TermSession \<Rightarrow> SessionCall \<Rightarrow> bool" where
  "asked_after asked s (Sc_prompt c (Pc_check now patterns line)) \<longleftrightarrow>
     (let p = ts_prompts s; p' = checkPasswordPrompt now c patterns line p
      in asked \<or> (pp_currentKey p' \<noteq> None \<and> pp_currentKey p' \<noteq> pp_currentKey p \<and> pp_currentKey p' \<noteq> pp_answeredKey p))"
| "asked_after asked s (Sc_prompt c Pc_fill) \<longleftrightarrow> asked \<and> pp_offered (ts_prompts s) = None"
| "asked_after asked s (Sc_data env data) \<longleftrightarrow> asked \<and> (ts_waiting s \<or> \<not> ends_secret data)"
| "asked_after asked s call \<longleftrightarrow> asked"

text \<open>
  Two calls that differ at most in what is typed where a password is asked for: both are
  typing and not a reply of the terminal, both press Enter or neither, both end the line or
  neither.\<close>

fun call_alike :: "bool \<Rightarrow> SessionCall \<Rightarrow> SessionCall \<Rightarrow> bool" where
  "call_alike asked (Sc_data env data) (Sc_data env' data') \<longleftrightarrow>
     env = env' \<and> (data = data' \<or> asked \<and> starts_with data [ESC] = starts_with data' [ESC]
       \<and> (CHR 0x0D \<in> set data) = (CHR 0x0D \<in> set data') \<and> ends_secret data = ends_secret data')"
| "call_alike asked c d \<longleftrightarrow> c = d"

fun runs_alike :: "bool \<Rightarrow> TermSession \<Rightarrow> SessionCall list \<Rightarrow> SessionCall list \<Rightarrow> bool" where
  "runs_alike asked s [] ds \<longleftrightarrow> ds = []"
| "runs_alike asked s (c # cs) [] \<longleftrightarrow> False"
| "runs_alike asked s (c # cs) (d # ds) \<longleftrightarrow>
     call_alike asked c d \<and> runs_alike (asked_after asked s c) (session_step s c) cs ds"

lemma executed_in_append [simp]: "executed_in (es @ fs) = executed_in es @ executed_in fs"
  by (simp add: executed_in_def map_filter_def)

lemma executed_in_simps [simp]:
  "executed_in [] = []" "executed_in [Se_state x1] = []" "executed_in [Se_reconnect] = []"
  "executed_in [Se_attention x2] = []" "executed_in [Se_executed c] = [c]" "executed_in [Se_echo x3] = []"
  "executed_in [Se_predict x4] = []" "executed_in [Se_input x5] = []" "executed_in [Se_write x6 x7 x8] = []"
  "executed_in (map Se_running rs) = []"
  by (simp_all add: executed_in_def map_filter_def)

text \<open>The prompts but for how many characters are typed at one, and what they show.\<close>

definition masked :: "Prompts \<Rightarrow> Prompts" where
  "masked p = p\<lparr>pp_shown := None, pp_current := None, pp_effects := []\<rparr>"

definition alike :: "TermSession \<Rightarrow> TermSession \<Rightarrow> bool" where
  "alike s t \<longleftrightarrow> ts_marks s = ts_marks t \<and> ts_shellReports s = ts_shellReports t \<and> ts_lastEmitted s = ts_lastEmitted t
     \<and> ts_waiting s = ts_waiting t \<and> executed_in (ts_effects s) = executed_in (ts_effects t)
     \<and> masked (ts_prompts s) = masked (ts_prompts t)"

lemma masked_eq:
  "masked p = masked q \<longleftrightarrow>
     pp_answeredKey p = pp_answeredKey q \<and> pp_offered p = pp_offered q \<and> pp_rejected p = pp_rejected q
     \<and> pp_checkId p = pp_checkId q \<and> pp_currentKey p = pp_currentKey q \<and> pp_lastFill p = pp_lastFill q
     \<and> pp_captureSuspended p = pp_captureSuspended q \<and> pp_capture p = pp_capture q
     \<and> pp_disposed p = pp_disposed q \<and> pp_lineFeeds p = pp_lineFeeds q"
  by (cases p; cases q) (auto simp: masked_def)

lemma masked_ops:
  assumes "masked p = masked q"
  shows "masked (clearSavedPasswordOffer p) = masked (clearSavedPasswordOffer q)"
    "masked (answerCurrentPrompt p) = masked (answerCurrentPrompt q)"
    "masked (pf e p) = masked (pf e' q)" "masked (showPrompt x p) = masked (showPrompt x' q)"
    "masked (showTyped m n p) = masked (showTyped m' n' q)" "masked (typeManually m p) = masked (typeManually m' q)"
    "masked (p\<lparr>pp_current := y\<rparr>) = masked (q\<lparr>pp_current := y'\<rparr>)"
  using assms by (simp_all add: masked_eq prompt_defs)

lemma masked_shown: "masked (pf e p) = masked p" "masked (showPrompt x p) = masked p" "masked (showTyped m n p) = masked p"
  "masked (typeManually m p) = masked p" "masked (p\<lparr>pp_current := y\<rparr>) = masked p"
  by (simp_all add: masked_eq prompt_defs)

lemma masked_type: "masked (typeAtPrompt data p) = masked (answerCurrentPrompt p)"
  by (simp add: typeAtPrompt_def Let_def masked_shown split: option.split)

lemma masked_dismiss: "masked (dismissCurrentPrompt p) = masked (answerCurrentPrompt p)"
  by (simp add: dismissCurrentPrompt_def masked_shown split: option.split)

lemma masked_handle:
  assumes "masked p = masked q"
  shows "masked (handlePasswordPrompt now c m p) = masked (handlePasswordPrompt now c m q)"
  using assms by (simp add: handlePasswordPrompt_def Let_def masked_eq prompt_defs split: option.split)

lemma masked_check:
  assumes "masked p = masked q"
  shows "masked (checkPasswordPrompt now c patterns line p) = masked (checkPasswordPrompt now c patterns line q)"
proof -
  have clear: "masked (clearSavedPasswordOffer (pf e (p\<lparr>pp_currentKey := k, pp_current := m\<rparr>)))
      = masked (clearSavedPasswordOffer (pf e (q\<lparr>pp_currentKey := k, pp_current := m\<rparr>)))" for e k m
    using assms by (intro masked_ops) (simp add: masked_eq)
  have same: "pp_disposed p = pp_disposed q" "pp_lineFeeds p = pp_lineFeeds q" "pp_currentKey p = pp_currentKey q"
    "pp_answeredKey p = pp_answeredKey q"
    using assms by (simp_all add: masked_eq)
  have answered: "pp_answeredKey (clearSavedPasswordOffer (pf e (r\<lparr>pp_currentKey := k, pp_current := m\<rparr>))) = pp_answeredKey r" for e r k m
    by (simp add: prompt_defs)
  show ?thesis
  proof (cases c)
    case None
    with assms show ?thesis by (simp add: checkPasswordPrompt_def)
  next
    case (Some con)
    define m where "m = matchPasswordPrompt line (pc_username con) patterns"
    show ?thesis
      using assms clear masked_handle [OF clear] unfolding checkPasswordPrompt_def Some option.case Let_def same answered m_def [symmetric]
      by (cases m) (simp_all add: answered same)
  qed
qed

lemma masked_step:
  assumes "masked p = masked q"
  shows "masked (prompt_step c p call) = masked (prompt_step c q call)"
proof (cases call)
  case (Pc_check now patterns line)
  show ?thesis unfolding Pc_check prompt_step.simps by (rule masked_check [OF assms])
next
  case Pc_fill
  with assms masked_ops(2) [OF assms] show ?thesis
    by (auto simp: fillSavedPassword_def masked_eq pf_def split: option.split)
next
  case (Pc_answer checkId m answer)
  with assms show ?thesis
    by (simp add: lookup_answered_def Let_def masked_eq prompt_defs split: option.split)
qed (use assms masked_ops(2) [OF assms] in \<open>simp_all add: masked_type masked_dismiss masked_eq line_feed_def command_recorded_def session_ended_def onWritten_def\<close>)

lemma alike_se: "alike s t \<Longrightarrow> executed_in es = executed_in fs \<Longrightarrow> alike (se es s) (se fs t)"
  by (simp add: alike_def se_def)

lemma alike_agents: "alike s t \<Longrightarrow> alike (on_agents f s) (on_agents g t)"
  by (simp add: alike_def on_agents_def)

lemma alike_prompts:
  "alike s t \<Longrightarrow> masked (f (ts_prompts s)) = masked (g (ts_prompts t)) \<Longrightarrow> alike (on_prompts f s) (on_prompts g t)"
  by (simp add: alike_def on_prompts_def)

lemma alike_timer: "alike s t \<Longrightarrow> alike (on_timer f s) (on_timer g t)"
  by (simp add: alike_def on_timer_def se_def split: prod.split)

lemma alike_state: "alike s t \<Longrightarrow> alike (applyConnectionState x s) (applyConnectionState y t)"
  by (simp add: alike_def applyConnectionState_def se_def)

lemma alike_time: "alike s t \<Longrightarrow> alike (timeCommand env data s) (timeCommand env' data' t)"
proof -
  have left: "alike s t \<Longrightarrow> alike (timeCommand env data s) t" for s t env data
  proof -
    assume a: "alike s t"
    have "alike (on_timer f s) t" "alike (on_agents g s) t" "alike (on_timer f (on_agents g s)) t" for f g
      using a by (simp_all add: alike_def on_timer_def on_agents_def se_def split: prod.split)
    moreover have "alike (se [Se_attention x] u) t" if "alike u t" for x u
      using that by (simp add: alike_def se_def)
    ultimately show ?thesis using a
      by (simp add: timeCommand_def Let_def split: option.split)
  qed
  have sym: "alike s t \<Longrightarrow> alike t s" for s t by (simp add: alike_def)
  assume "alike s t"
  then show ?thesis by (rule sym [OF left [OF sym [OF left]]])
qed

lemma alike_record: "alike s t \<Longrightarrow> alike (recordCommand env command s) (recordCommand env command t)"
proof -
  assume a: "alike s t"
  then have same: "ts_lastEmitted s = ts_lastEmitted t" by (simp add: alike_def)
  have "alike (on_prompts command_recorded s) (on_prompts command_recorded t)"
    by (rule alike_prompts [OF a]) (use a in \<open>simp add: alike_def masked_eq command_recorded_def\<close>)
  then have "alike ((on_prompts command_recorded s)\<lparr>ts_lastEmitted := x\<rparr>) ((on_prompts command_recorded t)\<lparr>ts_lastEmitted := x\<rparr>)" for x
    by (simp add: alike_def)
  with a show ?thesis by (simp add: recordCommand_def same alike_se)
qed

lemma alike_typed: "alike s t \<Longrightarrow> alike (emitTypedCommand env command s) (emitTypedCommand env command t)"
proof -
  assume a: "alike s t"
  then have "ts_shellReports s = ts_shellReports t" by (simp add: alike_def)
  with a show ?thesis
    by (simp add: emitTypedCommand_def Let_def alike_record alike_timer)
qed

lemma alike_typed_all: "alike s t \<Longrightarrow> alike (fold (emitTypedCommand env) commands s) (fold (emitTypedCommand env) commands t)"
  by (induction commands arbitrary: s t) (simp_all add: alike_typed)

lemma alike_agent_notes: "alike s t \<Longrightarrow> alike (note_agents env data s) (note_agents env data' t)"
proof -
  assume a: "alike s t"
  have "alike (on_agents f s) t" "alike s (on_agents g t)" "alike (on_agents f s) (on_agents g t)" for f g
    using a by (simp_all add: alike_def on_agents_def)
  with a show ?thesis by (simp add: note_agents_def)
qed

lemma alike_prompt_notes:
  assumes "alike s t" and "starts_with data [ESC] = starts_with data' [ESC]"
  shows "alike (note_prompt data s) (note_prompt data' t)"
proof -
  define s1 where "s1 = (if pp_currentKey (ts_prompts s) = None then stopLoginScript s else s)"
  define t1 where "t1 = (if pp_currentKey (ts_prompts t) = None then stopLoginScript t else t)"
  have "alike s1 t1"
    using assms(1) by (simp add: s1_def t1_def alike_def stopLoginScript_def)
  then have "alike (on_prompts (typeAtPrompt data) s1) (on_prompts (typeAtPrompt data') t1)"
    by (rule alike_prompts, unfold masked_type, intro masked_ops) (simp add: alike_def)
  with assms show ?thesis by (simp add: note_prompt_def Let_def s1_def t1_def)
qed

lemma alike_enter:
  assumes "alike s t" and "(CHR 0x0D \<in> set data) = (CHR 0x0D \<in> set data')"
  shows "fst (note_enter env data s) = fst (note_enter env data' t)
    \<and> alike (snd (note_enter env data s)) (snd (note_enter env data' t))"
  using assms by (simp add: note_enter_def Let_def alike_def on_agents_def split: prod.split)

lemma notes_keep:
  "pp_captureSuspended (ts_prompts (note_prompt data s)) = pp_captureSuspended (ts_prompts s)"
  "pp_captureSuspended (ts_prompts (note_agents env data s)) = pp_captureSuspended (ts_prompts s)"
  "pp_captureSuspended (ts_prompts (snd (note_enter env data s))) = pp_captureSuspended (ts_prompts s)"
  by (simp_all add: note_prompt_def note_agents_def note_enter_def Let_def on_prompts_def on_agents_def stopLoginScript_def
      typeAtPrompt_def prompt_defs split: option.split prod.split)

lemma alike_commands:
  assumes "alike s t" and "data = data' \<or> pp_captureSuspended (ts_prompts s) \<and> ends_secret data = ends_secret data'"
  shows "alike (note_commands env inProgram data s) (note_commands env inProgram data' t)"
proof (cases "pp_captureSuspended (ts_prompts s)")
  case True
  then have "pp_captureSuspended (ts_prompts t)" using assms(1) by (simp add: alike_def masked_eq)
  moreover have "alike (on_prompts (\<lambda>p. p\<lparr>pp_captureSuspended := False, pp_capture := x\<rparr>) s)
      (on_prompts (\<lambda>p. p\<lparr>pp_captureSuspended := False, pp_capture := x\<rparr>) t)" for x
    by (rule alike_prompts [OF assms(1)]) (use assms(1) in \<open>simp add: alike_def masked_eq\<close>)
  moreover have "ends_secret data = ends_secret data'" using assms(2) by auto
  ultimately show ?thesis using True assms(1) by (simp add: note_commands_def)
next
  case False
  then have t: "\<not> pp_captureSuspended (ts_prompts t)" "pp_capture (ts_prompts t) = pp_capture (ts_prompts s)"
    using assms(1) by (simp_all add: alike_def masked_eq)
  have "alike (on_prompts (\<lambda>p. p\<lparr>pp_capture := x\<rparr>) s) (on_prompts (\<lambda>p. p\<lparr>pp_capture := x\<rparr>) t)" for x
    by (rule alike_prompts [OF assms(1)]) (use assms(1) in \<open>simp add: alike_def masked_eq\<close>)
  with False t assms(2) show ?thesis
    by (simp add: note_commands_def Let_def alike_typed_all split: prod.split)
qed

lemma alike_send: "alike s t \<Longrightarrow> alike (send_input env data s) (send_input env data' t)"
  unfolding send_input_def by (rule alike_se) (simp_all add: executed_in_def map_filter_def)

lemma alike_data:
  assumes a: "alike s t"
    and d: "data = data' \<or> (ts_waiting s \<or> pp_captureSuspended (ts_prompts s)) \<and> starts_with data [ESC] = starts_with data' [ESC]
      \<and> (CHR 0x0D \<in> set data) = (CHR 0x0D \<in> set data') \<and> ends_secret data = ends_secret data'"
  shows "alike (onData env data s) (onData env data' t)"
proof (cases "ts_waiting s")
  case True
  moreover from this a have "ts_waiting t" by (simp add: alike_def)
  moreover have "alike (s\<lparr>ts_waiting := False\<rparr>) (t\<lparr>ts_waiting := False\<rparr>)" using a by (simp add: alike_def)
  ultimately show ?thesis by (simp add: onData_def alike_se alike_state)
next
  case False
  with a have w: "\<not> ts_waiting t" by (simp add: alike_def)
  define s1 where "s1 = note_prompt data (note_agents env data s)"
  define t1 where "t1 = note_prompt data' (note_agents env data' t)"
  have 1: "alike s1 t1" unfolding s1_def t1_def
    by (rule alike_prompt_notes [OF alike_agent_notes [OF a]]) (use d in auto)
  define s2 where "s2 = snd (note_enter env data s1)"
  define t2 where "t2 = snd (note_enter env data' t1)"
  define starts where "starts = fst (note_enter env data s1)"
  have 2: "alike s2 t2" and starts: "fst (note_enter env data' t1) = starts"
    using alike_enter [OF 1, of data data' env] d by (auto simp: s2_def t2_def starts_def)
  have suspended: "pp_captureSuspended (ts_prompts s2) = pp_captureSuspended (ts_prompts s)"
    by (simp add: s2_def s1_def notes_keep)
  define inProgram where "inProgram = isRunningProgram (se_term env) (ts_marks s1)"
  have program: "isRunningProgram (se_term env) (ts_marks t1) = inProgram"
    using 1 by (simp add: inProgram_def alike_def)
  define s3 where "s3 = note_commands env inProgram data s2"
  define t3 where "t3 = note_commands env inProgram data' t2"
  have 3: "alike s3 t3" unfolding s3_def t3_def
    by (rule alike_commands [OF 2]) (use d False suspended in auto)
  have 4: "alike (if starts then on_timer (timer_start (se_now env)) s3 else s3)
      (if starts then on_timer (timer_start (se_now env)) t3 else t3)"
    using 3 by (simp add: alike_timer)
  have "onData env data s = send_input env data (if starts then on_timer (timer_start (se_now env)) s3 else s3)"
    unfolding s3_def s2_def starts_def inProgram_def s1_def onData_def Let_def using False by simp
  moreover have "onData env data' t = send_input env data' (if starts then on_timer (timer_start (se_now env)) t3 else t3)"
    unfolding t3_def t2_def program [symmetric] starts [symmetric] t1_def onData_def Let_def using w by simp
  ultimately show ?thesis using alike_send [OF 4] by simp
qed

lemma alike_mark: "alike s t \<Longrightarrow> alike (shell_mark env data s) (shell_mark env data t)"
proof -
  assume a: "alike s t"
  then have "alike (s\<lparr>ts_marks := handleMark (se_term env) data (ts_marks s)\<rparr>) (t\<lparr>ts_marks := handleMark (se_term env) data (ts_marks t)\<rparr>)"
    by (simp add: alike_def)
  note timed = alike_time [OF this, of env data env data]
  have "alike (u\<lparr>ts_shellReports := True\<rparr>) (v\<lparr>ts_shellReports := True\<rparr>)" if "alike u v" for u v
    using that by (simp add: alike_def)
  from this [OF timed] timed show ?thesis
    by (simp add: shell_mark_def Let_def alike_record alike_timer split: option.split)
qed

lemma alike_closed: "alike s t \<Longrightarrow> alike (session_closed env s) (session_closed env t)"
proof -
  assume "alike s t"
  then have "alike (stopLoginScript s) (stopLoginScript t)" by (simp add: alike_def stopLoginScript_def)
  then have "alike (on_timer timer_prompt (on_agents (reset_tracker (se_tracker env)) (stopLoginScript s)))
      (on_timer timer_prompt (on_agents (reset_tracker (se_tracker env)) (stopLoginScript t)))"
    by (intro alike_timer alike_agents)
  then show ?thesis by (simp add: session_closed_def alike_def)
qed

text \<open>While a password is asked for, the capture is suspended.\<close>

lemma timer_prompts [simp]: "ts_prompts (on_timer f s) = ts_prompts s" "ts_waiting (on_timer f s) = ts_waiting s"
  by (simp_all add: on_timer_def se_def split: prod.split)

lemma record_suspended [simp]:
  "pp_captureSuspended (ts_prompts (recordCommand env c s)) = pp_captureSuspended (ts_prompts s)"
  by (simp add: recordCommand_def se_def on_prompts_def command_recorded_def)

lemma mark_suspended: "pp_captureSuspended (ts_prompts (shell_mark env data s)) = pp_captureSuspended (ts_prompts s)"
proof -
  have "ts_prompts (timeCommand env data u) = ts_prompts u" for u
    by (simp add: timeCommand_def Let_def se_def on_agents_def split: option.split)
  then show ?thesis by (simp add: shell_mark_def Let_def split: option.split)
qed

lemma data_suspended:
  assumes "pp_captureSuspended (ts_prompts s)" and "ts_waiting s \<or> \<not> ends_secret data"
  shows "pp_captureSuspended (ts_prompts (onData env data s))"
proof (cases "ts_waiting s")
  case True
  with assms show ?thesis by (simp add: onData_def se_def applyConnectionState_def)
next
  case False
  have "pp_captureSuspended (ts_prompts (note_commands env inProgram data u))" if "pp_captureSuspended (ts_prompts u)" for inProgram u
    using that assms(2) False by (simp add: note_commands_def)
  with assms(1) False show ?thesis
    by (simp add: onData_def Let_def send_input_def se_def notes_keep)
qed

lemma handle_suspends:
  "pp_captureSuspended (handlePasswordPrompt now c m p)" "pp_currentKey (handlePasswordPrompt now c m p) = pp_currentKey p"
  by (simp_all add: handlePasswordPrompt_def Let_def prompt_defs split: option.split)

lemma clear_keeps:
  "pp_currentKey (clearSavedPasswordOffer p) = pp_currentKey p" "pp_answeredKey (clearSavedPasswordOffer p) = pp_answeredKey p"
  "pp_captureSuspended (clearSavedPasswordOffer p) = pp_captureSuspended p"
  by (simp_all add: prompt_defs)

lemma pf_keeps [simp]:
  "pp_currentKey (pf e p) = pp_currentKey p" "pp_answeredKey (pf e p) = pp_answeredKey p"
  "pp_captureSuspended (pf e p) = pp_captureSuspended p"
  by (simp_all add: pf_def)

lemma check_suspends:
  assumes "pp_currentKey (checkPasswordPrompt now c patterns line p) \<noteq> None"
    "pp_currentKey (checkPasswordPrompt now c patterns line p) \<noteq> pp_currentKey p"
    "pp_currentKey (checkPasswordPrompt now c patterns line p) \<noteq> pp_answeredKey p"
  shows "pp_captureSuspended (checkPasswordPrompt now c patterns line p)"
  using assms
  by (auto simp: checkPasswordPrompt_def Let_def handle_suspends clear_keeps split: option.splits if_splits)

lemma check_keeps_suspended:
  "pp_captureSuspended p \<Longrightarrow> pp_captureSuspended (checkPasswordPrompt now c patterns line p)"
  by (simp add: checkPasswordPrompt_def Let_def handle_suspends clear_keeps split: option.split)

lemma prompt_step_suspended:
  assumes "pp_captureSuspended p" and "call = Pc_fill \<longrightarrow> pp_offered p = None"
  shows "pp_captureSuspended (prompt_step c p call)"
  using assms
  by (cases call)
    (simp_all add: check_keeps_suspended typeAtPrompt_def dismissCurrentPrompt_def fillSavedPassword_def lookup_answered_def
      Let_def prompt_defs split: option.split)

lemma asked_suspends:
  assumes "asked \<longrightarrow> pp_captureSuspended (ts_prompts s)"
  shows "asked_after asked s c \<longrightarrow> pp_captureSuspended (ts_prompts (session_step s c))"
proof (cases c)
  case (Sc_data env data)
  with assms show ?thesis by (simp add: data_suspended)
next
  case (Sc_mark env data)
  with assms show ?thesis by (simp add: mark_suspended)
next
  case (Sc_prompt con call)
  show ?thesis
  proof (cases call)
    case (Pc_check now patterns line)
    with assms Sc_prompt show ?thesis
      by (auto simp: Let_def on_prompts_def check_keeps_suspended intro: check_suspends)
  qed (use assms Sc_prompt prompt_step_suspended [of "ts_prompts s" call con] in \<open>simp_all add: on_prompts_def\<close>)
qed (use assms in \<open>simp_all add: on_agents_def session_closed_def stopLoginScript_def\<close>)

lemma alike_step:
  assumes a: "alike s t" and "call_alike asked c d" and "asked \<longrightarrow> pp_captureSuspended (ts_prompts s)"
  shows "alike (session_step s c) (session_step t d)"
proof (cases "\<exists>env data data'. c = Sc_data env data \<and> d = Sc_data env data'")
  case True
  then obtain env data data' where c: "c = Sc_data env data" "d = Sc_data env data'" by blast
  show ?thesis unfolding c session_step.simps
    by (rule alike_data [OF a]) (use assms c in auto)
next
  case False
  with assms(2) have "d = c" by (cases c; cases d) auto
  then show ?thesis
  proof (cases c)
    case (Sc_mark env data)
    with a \<open>d = c\<close> show ?thesis by (simp add: alike_mark)
  next
    case (Sc_prompt con call)
    have "alike (on_prompts (\<lambda>p. prompt_step con p call) s) (on_prompts (\<lambda>p. prompt_step con p call) t)"
      by (rule alike_prompts [OF a], rule masked_step) (use a in \<open>simp add: alike_def\<close>)
    with Sc_prompt \<open>d = c\<close> show ?thesis by simp
  next
    case (Sc_closed env)
    with a \<open>d = c\<close> show ?thesis by (simp add: alike_closed)
  next
    case (Sc_data env data)
    with False \<open>d = c\<close> show ?thesis by blast
  qed (use a \<open>d = c\<close> in \<open>simp_all add: alike_def on_agents_def\<close>)
qed

lemma alike_runs:
  "runs_alike asked s cs ds \<Longrightarrow> alike s t \<Longrightarrow> asked \<longrightarrow> pp_captureSuspended (ts_prompts s)
    \<Longrightarrow> alike (run session_step s cs) (run session_step t ds)"
proof (induction asked s cs ds arbitrary: t rule: runs_alike.induct)
  case (3 asked s c cs d ds)
  from 3(2) have c: "call_alike asked c d" and rest: "runs_alike (asked_after asked s c) (session_step s c) cs ds" by simp_all
  show ?case unfolding run.simps
    by (rule 3(1) [OF rest alike_step [OF 3(3) c 3(4)] asked_suspends [OF 3(4)]])
qed simp_all

lemma alike_history: "alike s t \<Longrightarrow> history s = history t"
  by (simp add: alike_def history_def masked_eq)

text \<open>
  C35: what is typed while a password is asked for leaves no trace in the commands. Take any
  two runs of a session that differ only in what is typed between the moment a new password
  prompt is found under the cursor and the end of the line: the commands recorded, the last
  one noted and the line being read back are the same in both, during and after.\<close>

theorem typed_passwords_leave_no_trace:
  assumes "runs_alike False (new_session delays) cs ds"
  shows "history (run session_step (new_session delays) cs) = history (run session_step (new_session delays) ds)"
  by (rule alike_history, rule alike_runs [OF assms]) (simp_all add: alike_def)

definition secret_env :: SessionEnv where
  "secret_env = \<lparr>se_tracker = 0, se_now = 0, se_term = plain_term, se_tabId = ''t'', se_sessionNonce = 0,
     se_profileId = None, se_profileName = None, se_localEcho = False, se_onInput = True, se_composed = None\<rparr>"

definition secret_calls :: "string \<Rightarrow> SessionCall list" where
  "secret_calls password =
     [Sc_data secret_env ''sudo ls'', Sc_data secret_env [CHR 0x0D],
      Sc_prompt (Some ann) (Pc_check 0 [] ''[sudo] password for ann: ''),
      Sc_data secret_env password, Sc_data secret_env [CHR 0x0D],
      Sc_data secret_env ''id'', Sc_data secret_env [CHR 0x0D]]"

theorem typed_passwords_leave_no_trace_witness:
  "history (run session_step (new_session (\<lambda>_. 0)) (secret_calls ''hunter2''))
     = history (run session_step (new_session (\<lambda>_. 0)) (secret_calls ''x''))
   \<and> map ec_commandText (fst (history (run session_step (new_session (\<lambda>_. 0)) (secret_calls ''hunter2''))))
     = [''sudo ls'', ''id'']"
proof
  show "history (run session_step (new_session (\<lambda>_. 0)) (secret_calls ''hunter2''))
     = history (run session_step (new_session (\<lambda>_. 0)) (secret_calls ''x''))"
    by (rule typed_passwords_leave_no_trace)
      (simp only: secret_calls_def runs_alike.simps call_alike.simps simp_thms, code_simp)
  show "map ec_commandText (fst (history (run session_step (new_session (\<lambda>_. 0)) (secret_calls ''hunter2''))))
     = [''sudo ls'', ''id'']" by code_simp
qed

section \<open>What goes to other terminals unasked\<close>

definition one_line :: "string \<Rightarrow> bool" where
  "one_line data \<longleftrightarrow> CHR 0x0A \<notin> set data \<and> CHR 0x0D \<notin> set (butlast data)"

lemma composer_no_break: "CHR 0x0A \<notin> set (composerInput text' bracketed)"
proof -
  have marks: "CHR 0x0A \<notin> set BAR_PASTE_START" "CHR 0x0A \<notin> set BAR_PASTE_END"
    by (simp_all add: BAR_PASTE_START_def BAR_PASTE_END_def)
  have without: "set (without_marker sep xs) \<subseteq> set xs" for sep xs
  proof (induction sep xs rule: without_marker.induct)
    case (2 sep c xs)
    then show ?case by (auto dest: in_set_dropD)
  qed simp
  define lines where "lines = map (\<lambda>c. if c = CHR 0x0A then CHR 0x0D else c)
    (strip_trailing (\<lambda>c. c = CHR 0x0A) (unix_breaks text'))"
  have "CHR 0x0A \<notin> set lines" by (auto simp: lines_def)
  with marks without [of BAR_PASTE_END lines] show ?thesis
    unfolding composerInput_def Let_def lines_def [symmetric] by auto
qed

lemma keyboard_one_line:
  assumes "\<not> isMultilinePaste composed data" and "\<forall>d. composed = Some d \<longrightarrow> CHR 0x0A \<notin> set d"
  shows "one_line data"
proof (cases "composed = Some data \<and> (data = [] \<or> index_of (CHR 0x0D) data = Some (length data - 1))")
  case True
  then have "CHR 0x0D \<notin> set (butlast data)"
  proof (cases "data = []")
    case False
    with True have "index_of (CHR 0x0D) data = Some (length data - 1)" by simp
    then obtain ys x zs where "data = ys @ x # zs" "length ys = length data - 1" "\<forall>y\<in>set ys. y \<noteq> CHR 0x0D"
      by (rule find_index_split)
    then have "butlast data = ys" by (simp add: butlast_append)
    with \<open>\<forall>y\<in>set ys. y \<noteq> CHR 0x0D\<close> show ?thesis by auto
  qed simp
  with True assms(2) show ?thesis by (simp add: one_line_def)
next
  case False
  with assms(1) have no: "CHR 0x0A \<notin> set data" "\<not> (length data > 1 \<and> CHR 0x0D \<in> set data)"
    by (auto simp: isMultilinePaste_def)
  have "CHR 0x0D \<notin> set (butlast data)"
  proof (cases "length data > 1")
    case True
    with no(2) show ?thesis by (auto dest: in_set_butlastD)
  next
    case False
    then have "butlast data = []" by (cases data) auto
    then show ?thesis by simp
  qed
  with no show ?thesis by (simp add: one_line_def)
qed

lemma asked_or_one_line:
  assumes "\<forall>d. se_composed env = Some d \<longrightarrow> CHR 0x0A \<notin> set d"
  shows "br_queue (handleTerminalInput (request_of env data) b) = br_queue b \<or> one_line data"
proof (cases "isMultilinePaste (se_composed env) data")
  case False
  with assms keyboard_one_line show ?thesis by blast
next
  case True
  show ?thesis
  proof (cases "has_break data")
    case True
    with \<open>isMultilinePaste (se_composed env) data\<close> show ?thesis
      by (simp add: handleTerminalInput_def request_of_def asks_def emits_def)
  next
    case False
    then have "CHR 0x0A \<notin> set data" "CHR 0x0D \<notin> set data" by (auto simp: has_break_def list_ex_iff)
    then have "one_line data" by (auto simp: one_line_def dest: in_set_butlastD)
    then show ?thesis by simp
  qed
qed

definition adds :: "(SessionEffect \<Rightarrow> bool) \<Rightarrow> TermSession \<Rightarrow> TermSession \<Rightarrow> bool" where
  "adds P s t \<longleftrightarrow> (\<exists>es. ts_effects t = ts_effects s @ es \<and> list_all P es)"

lemma adds_refl: "ts_effects t = ts_effects s \<Longrightarrow> adds P s t"
  by (simp add: adds_def)

lemma adds_trans: "adds P s t \<Longrightarrow> adds P t u \<Longrightarrow> adds P s u"
  unfolding adds_def by fastforce

lemma adds_se: "adds P s t \<Longrightarrow> list_all P es \<Longrightarrow> adds P s (se es t)"
  unfolding adds_def se_def by fastforce

text \<open>Noting what is typed sends no input.\<close>

fun no_input :: "SessionEffect \<Rightarrow> bool" where
  "no_input (Se_input r) = False"
| "no_input _ = True"

lemma adds_timer: "adds no_input s t \<Longrightarrow> adds no_input s (on_timer f t)"
  by (auto simp: on_timer_def adds_def se_def list_all_iff split: prod.split)

lemma adds_typed: "adds no_input s t \<Longrightarrow> adds no_input s (emitTypedCommand env c t)"
proof -
  have rec: "adds no_input s (recordCommand env c t)" if "adds no_input s t" for c t
    using that by (auto simp: recordCommand_def on_prompts_def adds_def se_def)
  assume "adds no_input s t"
  then show ?thesis by (simp add: emitTypedCommand_def Let_def rec adds_timer)
qed

lemma adds_commands: "adds no_input s t \<Longrightarrow> adds no_input s (note_commands env inProgram data t)"
proof -
  assume a: "adds no_input s t"
  have prompts: "adds no_input s (on_prompts f t)" for f using a by (simp add: on_prompts_def adds_def)
  have "adds no_input s u \<Longrightarrow> adds no_input s (fold (emitTypedCommand env) cs u)" for cs u
    by (induction cs arbitrary: u) (simp_all add: adds_typed)
  with a prompts show ?thesis by (simp add: note_commands_def Let_def split: prod.split)
qed

lemma data_noted:
  assumes "\<not> ts_waiting s"
  obtains t where "adds no_input s t" and "onData env data s = send_input env data t"
proof
  define s1 where "s1 = note_prompt data (note_agents env data s)"
  define s2 where "s2 = snd (note_enter env data s1)"
  define s3 where "s3 = note_commands env (isRunningProgram (se_term env) (ts_marks s1)) data s2"
  have "ts_effects s2 = ts_effects s"
    by (simp add: s2_def s1_def note_enter_def note_prompt_def note_agents_def Let_def on_agents_def on_prompts_def
        stopLoginScript_def split: prod.split)
  then have "adds no_input s s3" unfolding s3_def by (intro adds_commands adds_refl)
  then show "adds no_input s (if fst (note_enter env data s1) then on_timer (timer_start (se_now env)) s3 else s3)"
    by (simp add: adds_timer)
  show "onData env data s = send_input env data (if fst (note_enter env data s1) then on_timer (timer_start (se_now env)) s3 else s3)"
    using assms by (simp add: onData_def Let_def s3_def s2_def s1_def)
qed

text \<open>The compose bar is sending what it holds, with or without bracketed paste, or nothing.\<close>

definition sent_from_bar :: "(string \<times> bool) option \<Rightarrow> SessionEnv \<Rightarrow> SessionEnv" where
  "sent_from_bar bar env = env\<lparr>se_composed := map_option (\<lambda>(text', bracketed). composerInput text' bracketed) bar\<rparr>"

text \<open>
  C36: nothing but a single line goes to other terminals unasked. Whatever is typed or sent
  from the compose bar, as \<open>composerInput\<close> writes it, in whatever state the session and the
  broadcast are: each input the session hands to the workspace is what was typed, and the
  broadcast puts it in its queue at once only when it has no line break but a return at its
  end.\<close>

theorem only_a_line_goes_out_unasked:
  "\<exists>es. ts_effects (onData (sent_from_bar bar env) data s) = ts_effects s @ es
    \<and> list_all (\<lambda>effect'. case effect' of
          Se_input req \<Rightarrow> ir_data req = data
            \<and> (br_queue (handleTerminalInput req b) = br_queue b \<or> one_line data)
        | _ \<Rightarrow> True) es"
proof -
  define P where "P = (\<lambda>effect'. case effect' of
          Se_input req \<Rightarrow> ir_data req = data
            \<and> (br_queue (handleTerminalInput req b) = br_queue b \<or> one_line data)
        | _ \<Rightarrow> True)"
  have quiet: "no_input x \<Longrightarrow> P x" for x by (cases x) (simp_all add: P_def)
  have "\<forall>d. se_composed (sent_from_bar bar env) = Some d \<longrightarrow> CHR 0x0A \<notin> set d"
    by (auto simp: sent_from_bar_def composer_no_break)
  from asked_or_one_line [OF this] have P: "P (Se_input (request_of (sent_from_bar bar env) data))"
    by (simp add: P_def) (simp add: request_of_def)
  have "adds P s (onData (sent_from_bar bar env) data s)"
  proof (cases "ts_waiting s")
    case True
    then show ?thesis by (simp add: onData_def adds_def se_def applyConnectionState_def P_def)
  next
    case False
    then obtain t where t: "adds no_input s t" "onData (sent_from_bar bar env) data s = send_input (sent_from_bar bar env) data t"
      by (rule data_noted)
    from t(1) quiet have "adds P s t" by (auto simp: adds_def list_all_iff)
    then show ?thesis unfolding t(2) send_input_def
      by (rule adds_se) (use P in \<open>simp add: P_def\<close>)
  qed
  then show ?thesis by (simp add: adds_def P_def)
qed

end
