(* ===== verification/Scrollback.thy ===== *)
theory Scrollback
  imports Machines Js_String
begin

text \<open>
  The room a terminal has for lines that scrolled away (\<open>src/src/lib/scrollback.ts\<close>, and
  \<open>scrollbackMemory.ts\<close> of \<open>components/TerminalTab\<close>). Without a limit the ring starts small
  and grows ahead of the output. A setting that is no finite number is none. How many lines
  the buffer holds is what xterm says when it is asked; the scroll regions, which are put
  back after a change, are left out.
\<close>

section \<open>Settings\<close>

definition DEFAULT_SCROLLBACK_LINES :: int where "DEFAULT_SCROLLBACK_LINES = 10000"
definition UNLIMITED_SCROLLBACK_SENTINEL :: int where "UNLIMITED_SCROLLBACK_SENTINEL = 0"
definition UNLIMITED_SCROLLBACK_BUFFER :: int where "UNLIMITED_SCROLLBACK_BUFFER = 10000000"
definition MAX_EXPLICIT_SCROLLBACK_LINES :: int where "MAX_EXPLICIT_SCROLLBACK_LINES = 10000000"
definition UNLIMITED_SCROLLBACK_INITIAL :: int where "UNLIMITED_SCROLLBACK_INITIAL = 10000"

definition normalizeScrollbackConfig :: "rat option \<Rightarrow> int" where
  "normalizeScrollbackConfig value' =
     (case value' of
        None \<Rightarrow> DEFAULT_SCROLLBACK_LINES
      | Some v \<Rightarrow>
          (let rounded = \<lfloor>v + 1 / 2\<rfloor>
           in if rounded = UNLIMITED_SCROLLBACK_SENTINEL then UNLIMITED_SCROLLBACK_SENTINEL
              else min (max rounded 1) MAX_EXPLICIT_SCROLLBACK_LINES))"

definition resolveScrollbackLines :: "rat option \<Rightarrow> int" where
  "resolveScrollbackLines value' =
     (let normalized = normalizeScrollbackConfig value'
      in if normalized = UNLIMITED_SCROLLBACK_SENTINEL then UNLIMITED_SCROLLBACK_BUFFER else normalized)"

definition isUnlimitedScrollback :: "rat option \<Rightarrow> bool" where
  "isUnlimitedScrollback value' \<longleftrightarrow> normalizeScrollbackConfig value' = UNLIMITED_SCROLLBACK_SENTINEL"

definition startingScrollbackLines :: "rat option \<Rightarrow> int" where
  "startingScrollbackLines value' =
     (if isUnlimitedScrollback value' then UNLIMITED_SCROLLBACK_INITIAL else resolveScrollbackLines value')"

definition countLineFeeds :: "string \<Rightarrow> nat" where
  "countLineFeeds s = length (filter (\<lambda>c. code c \<in> {0x0A, 0x0B, 0x0C}) s)"

text \<open>The loop doubles a capacity that is positive.\<close>

function doubled :: "int \<Rightarrow> int \<Rightarrow> int" where
  "doubled next lines = (if 0 < next \<and> next < lines * 2 then doubled (next * 2) lines else next)"
  by pat_completeness auto
termination by (relation "measure (\<lambda>(next, lines). nat (lines * 2 - next))") auto

declare doubled.simps [simp del]

definition grownScrollbackCapacity :: "int \<Rightarrow> int \<Rightarrow> int option" where
  "grownScrollbackCapacity capacity lines =
     (if lines * 2 \<le> capacity then None
      else Some (min (doubled (max capacity UNLIMITED_SCROLLBACK_INITIAL) lines) UNLIMITED_SCROLLBACK_BUFFER))"

section \<open>The ring of a terminal\<close>

text \<open>The scrollback option, each value it was set to, the lines reserved, and a release that waits.\<close>

record ScrollbackMemory =
  sm_capacity :: int
  sm_sets :: "int list"
  sm_pendingLines :: int
  sm_releaseWaits :: bool

definition new_memory :: "int \<Rightarrow> ScrollbackMemory" where
  "new_memory capacity = \<lparr>sm_capacity = capacity, sm_sets = [], sm_pendingLines = 0, sm_releaseWaits = False\<rparr>"

definition setScrollback :: "int \<Rightarrow> ScrollbackMemory \<Rightarrow> ScrollbackMemory" where
  "setScrollback lines s = s\<lparr>sm_capacity := lines, sm_sets := sm_sets s @ [lines]\<rparr>"

definition scrollbackForSetting :: "int \<Rightarrow> rat option \<Rightarrow> int" where
  "scrollbackForSetting capacity setting =
     (if \<not> isUnlimitedScrollback setting then startingScrollbackLines setting
      else max capacity UNLIMITED_SCROLLBACK_INITIAL)"

definition releaseClearedScrollback :: "rat option \<Rightarrow> int \<Rightarrow> ScrollbackMemory \<Rightarrow> ScrollbackMemory" where
  "releaseClearedScrollback setting held s =
     (let capacity = sm_capacity s;
          target = (if isUnlimitedScrollback setting
                    then or_default (grownScrollbackCapacity UNLIMITED_SCROLLBACK_INITIAL (held + sm_pendingLines s))
                           UNLIMITED_SCROLLBACK_INITIAL
                    else capacity)
      in if target \<noteq> capacity then setScrollback target s
         else setScrollback capacity (setScrollback (capacity + 1) s))"

definition reserve :: "rat option \<Rightarrow> int \<Rightarrow> string \<Rightarrow> ScrollbackMemory \<Rightarrow> int \<times> ScrollbackMemory" where
  "reserve setting held data s =
     (if \<not> isUnlimitedScrollback setting then (0, s)
      else let lines = int (countLineFeeds data);
               s = s\<lparr>sm_pendingLines := sm_pendingLines s + lines\<rparr>
           in (lines, case grownScrollbackCapacity (sm_capacity s) (held + sm_pendingLines s) of
                        None \<Rightarrow> s
                      | Some next \<Rightarrow> setScrollback next s))"

definition settle :: "int \<Rightarrow> ScrollbackMemory \<Rightarrow> ScrollbackMemory" where
  "settle lines s = s\<lparr>sm_pendingLines := sm_pendingLines s - lines\<rparr>"

text \<open>The handler of the sequence that clears, and the callback of its timer.\<close>

definition cleared :: "nat option \<Rightarrow> ScrollbackMemory \<Rightarrow> ScrollbackMemory" where
  "cleared param s = (if param = Some 3 then s\<lparr>sm_releaseWaits := True\<rparr> else s)"

definition release :: "rat option \<Rightarrow> int \<Rightarrow> ScrollbackMemory \<Rightarrow> ScrollbackMemory" where
  "release setting held s =
     (if sm_releaseWaits s then releaseClearedScrollback setting held (s\<lparr>sm_releaseWaits := False\<rparr>) else s)"

datatype MemoryCall = Mc_reserve int string | Mc_settle int | Mc_cleared "nat option" | Mc_release int

fun memory_step :: "rat option \<Rightarrow> ScrollbackMemory \<Rightarrow> MemoryCall \<Rightarrow> ScrollbackMemory" where
  "memory_step setting s (Mc_reserve held data) = snd (reserve setting held data s)"
| "memory_step setting s (Mc_settle lines) = settle lines s"
| "memory_step setting s (Mc_cleared param) = cleared param s"
| "memory_step setting s (Mc_release held) = release setting held s"

section \<open>Room for every line\<close>

lemma doubled_bounds:
  "0 < next \<Longrightarrow> lines * 2 \<le> doubled next lines \<and> next \<le> doubled next lines
    \<and> (doubled next lines = next \<or> doubled next lines < lines * 4)"
proof (induction "next" lines rule: doubled.induct)
  case (1 n lines)
  show ?case
  proof (cases "n < lines * 2")
    case True
    with 1 have "lines * 2 \<le> doubled (n * 2) lines" "n * 2 \<le> doubled (n * 2) lines"
      "doubled (n * 2) lines = n * 2 \<or> doubled (n * 2) lines < lines * 4" by auto
    moreover have "doubled n lines = doubled (n * 2) lines"
      using True 1(2) by (simp add: doubled.simps [of n lines])
    ultimately show ?thesis using True 1(2) by auto
  next
    case False
    then show ?thesis by (simp add: doubled.simps [of n lines])
  qed
qed

lemma grown_fits:
  assumes "c = or_default (grownScrollbackCapacity capacity lines) capacity"
  shows "min (lines * 2) UNLIMITED_SCROLLBACK_BUFFER \<le> c"
    and "capacity \<le> UNLIMITED_SCROLLBACK_BUFFER \<Longrightarrow> capacity \<le> c \<and> c \<le> UNLIMITED_SCROLLBACK_BUFFER"
proof -
  have d: "lines * 2 \<le> doubled (max capacity UNLIMITED_SCROLLBACK_INITIAL) lines"
    "max capacity UNLIMITED_SCROLLBACK_INITIAL \<le> doubled (max capacity UNLIMITED_SCROLLBACK_INITIAL) lines"
    using doubled_bounds [of "max capacity UNLIMITED_SCROLLBACK_INITIAL" lines] by (auto simp: UNLIMITED_SCROLLBACK_INITIAL_def)
  show "min (lines * 2) UNLIMITED_SCROLLBACK_BUFFER \<le> c"
    using assms d(1) by (auto simp: grownScrollbackCapacity_def)
  show "capacity \<le> UNLIMITED_SCROLLBACK_BUFFER \<Longrightarrow> capacity \<le> c \<and> c \<le> UNLIMITED_SCROLLBACK_BUFFER"
    using assms d(2) by (auto simp: grownScrollbackCapacity_def)
qed

lemma normalize_idempotent: "normalizeScrollbackConfig (Some (of_int (normalizeScrollbackConfig v))) = normalizeScrollbackConfig v"
proof -
  have "\<lfloor>of_int n + 1 / 2 :: rat\<rfloor> = n" for n by linarith
  then show ?thesis
    by (auto simp: normalizeScrollbackConfig_def Let_def UNLIMITED_SCROLLBACK_SENTINEL_def DEFAULT_SCROLLBACK_LINES_def
        MAX_EXPLICIT_SCROLLBACK_LINES_def split: option.split)
qed

text \<open>The setting in force, and the capacities it allows.\<close>

definition memory_ok :: "ScrollbackMemory \<Rightarrow> bool" where
  "memory_ok s \<longleftrightarrow> 1 \<le> sm_capacity s \<and> sm_capacity s \<le> UNLIMITED_SCROLLBACK_BUFFER"

text \<open>
  Without a limit, once room is made for a chunk the ring holds twice the lines in the buffer
  and on their way, up to the ten million of xterm's limit, and it never shrinks for it; a
  release keeps that room, and gives back what is over four times as much.\<close>

lemma chunk_has_room:
  assumes "isUnlimitedScrollback setting" and "memory_ok s"
  shows "fst (reserve setting held data s) = int (countLineFeeds data)
    \<and> sm_pendingLines (snd (reserve setting held data s)) = sm_pendingLines s + int (countLineFeeds data)
    \<and> min ((held + sm_pendingLines (snd (reserve setting held data s))) * 2) UNLIMITED_SCROLLBACK_BUFFER
        \<le> sm_capacity (snd (reserve setting held data s))
    \<and> sm_capacity s \<le> sm_capacity (snd (reserve setting held data s))
    \<and> memory_ok (snd (reserve setting held data s))"
proof -
  define lines where "lines = held + (sm_pendingLines s + int (countLineFeeds data))"
  define c where "c = or_default (grownScrollbackCapacity (sm_capacity s) lines) (sm_capacity s)"
  have c: "sm_capacity (snd (reserve setting held data s)) = c"
    "sm_pendingLines (snd (reserve setting held data s)) = sm_pendingLines s + int (countLineFeeds data)"
    using assms(1) by (simp_all add: reserve_def Let_def c_def lines_def setScrollback_def split: option.split)
  from grown_fits [OF c_def] assms(2) show ?thesis
    unfolding memory_ok_def c lines_def using assms(1) by (auto simp: reserve_def Let_def)
qed

lemma release_keeps_room:
  assumes "isUnlimitedScrollback setting" and "sm_releaseWaits s"
  shows "min ((held + sm_pendingLines s) * 2) UNLIMITED_SCROLLBACK_BUFFER \<le> sm_capacity (release setting held s)
    \<and> sm_capacity (release setting held s) \<le> max UNLIMITED_SCROLLBACK_INITIAL ((held + sm_pendingLines s) * 4)
    \<and> sm_sets (release setting held s) \<noteq> sm_sets s"
proof -
  define target where "target = or_default
    (grownScrollbackCapacity UNLIMITED_SCROLLBACK_INITIAL (held + sm_pendingLines s)) UNLIMITED_SCROLLBACK_INITIAL"
  have "sm_capacity (release setting held s) = target \<and> sm_sets (release setting held s) \<noteq> sm_sets s"
    using assms by (simp add: release_def releaseClearedScrollback_def Let_def setScrollback_def target_def)
  moreover have "target \<le> max UNLIMITED_SCROLLBACK_INITIAL ((held + sm_pendingLines s) * 4)"
    using doubled_bounds [of UNLIMITED_SCROLLBACK_INITIAL "held + sm_pendingLines s"]
    by (auto simp: target_def grownScrollbackCapacity_def UNLIMITED_SCROLLBACK_INITIAL_def)
  ultimately show ?thesis using grown_fits(1) [OF target_def] by simp
qed

lemma starting_ok: "memory_ok (new_memory (startingScrollbackLines setting))"
  by (auto simp: memory_ok_def new_memory_def startingScrollbackLines_def resolveScrollbackLines_def isUnlimitedScrollback_def
      normalizeScrollbackConfig_def Let_def UNLIMITED_SCROLLBACK_INITIAL_def UNLIMITED_SCROLLBACK_BUFFER_def
      UNLIMITED_SCROLLBACK_SENTINEL_def DEFAULT_SCROLLBACK_LINES_def MAX_EXPLICIT_SCROLLBACK_LINES_def split: option.split)

lemma release_ok: "memory_ok s \<Longrightarrow> memory_ok (release setting held s)"
proof -
  assume ok: "memory_ok s"
  define target where "target = or_default
    (grownScrollbackCapacity UNLIMITED_SCROLLBACK_INITIAL (held + sm_pendingLines s)) UNLIMITED_SCROLLBACK_INITIAL"
  have "1 \<le> target \<and> target \<le> UNLIMITED_SCROLLBACK_BUFFER"
    using grown_fits(2) [OF target_def] by (simp add: UNLIMITED_SCROLLBACK_INITIAL_def UNLIMITED_SCROLLBACK_BUFFER_def)
  with ok show ?thesis
    by (simp add: release_def releaseClearedScrollback_def Let_def setScrollback_def memory_ok_def target_def)
qed

lemma memory_step_ok: "memory_ok s \<Longrightarrow> memory_ok (memory_step setting s call)"
proof (cases call)
  case (Mc_reserve held data)
  assume ok: "memory_ok s"
  show ?thesis
  proof (cases "isUnlimitedScrollback setting")
    case True
    from chunk_has_room [OF this ok] Mc_reserve show ?thesis by simp
  next
    case False
    with Mc_reserve ok show ?thesis by (simp add: reserve_def)
  qed
next
  case (Mc_release held)
  assume "memory_ok s"
  with Mc_release show ?thesis by (simp add: release_ok)
qed (simp_all add: settle_def cleared_def memory_ok_def)

interpretation memory: total_machine "memory_step setting" "new_memory (startingScrollbackLines setting)" memory_ok
  by unfold_locales (simp_all add: starting_ok memory_step_ok)



end
