(* ===== verification/Pty_Session.thy ===== *)
theory Pty_Session
  imports Terminal_Input Cursor_Hold Scrollback Tab_Attention
begin

text \<open>
  The output of one terminal session (\<open>ptySession.ts\<close> and \<open>outputAck.ts\<close> of
  \<open>src/src/components/TerminalTab\<close>, \<open>src/src/lib/terminalOutputScanner.ts\<close>): from the chunk
  that arrives, through the hold, to the terminal, whose parsing acknowledges the bytes,
  looks for a password prompt and moves the login script; and the start, the exit and the
  progress of its connection. What \<open>TextDecoder\<close> makes of the bytes comes with the chunk.
  The parts are those of the other theories; the terminal parses what was written in
  order, and each parsed write is a call.
\<close>

section \<open>Acknowledgements\<close>

definition OUTPUT_ACK_BATCH_BYTES :: nat where "OUTPUT_ACK_BATCH_BYTES = 64 * 1024"

definition OUTPUT_ACK_DELAY_MS :: int where "OUTPUT_ACK_DELAY_MS = 20"

record OutputAcker =
  oa_pending :: nat
  oa_timer :: "int option"
  oa_disposed :: bool
  oa_sent :: "nat list"

definition new_acker :: OutputAcker where
  "new_acker = \<lparr>oa_pending = 0, oa_timer = None, oa_disposed = False, oa_sent = []\<rparr>"

definition flush_acks :: "OutputAcker \<Rightarrow> OutputAcker" where
  "flush_acks a =
     (if oa_pending a = 0 then a\<lparr>oa_timer := None\<rparr>
      else a\<lparr>oa_timer := None, oa_pending := 0, oa_sent := oa_sent a @ [oa_pending a]\<rparr>)"

definition parsed :: "int \<Rightarrow> nat \<Rightarrow> OutputAcker \<Rightarrow> OutputAcker" where
  "parsed now bytes a0 =
     (if oa_disposed a0 \<or> bytes = 0 then a0
      else let a = a0\<lparr>oa_pending := oa_pending a0 + bytes\<rparr>
           in if oa_pending a \<ge> OUTPUT_ACK_BATCH_BYTES then flush_acks a
              else if oa_timer a = None then a\<lparr>oa_timer := Some (now + OUTPUT_ACK_DELAY_MS)\<rparr>
              else a)"

definition ack_elapsed :: "int \<Rightarrow> OutputAcker \<Rightarrow> OutputAcker" where
  "ack_elapsed now a = (case oa_timer a of None \<Rightarrow> a | Some due \<Rightarrow> if due \<le> now then flush_acks a else a)"

definition dispose_acker :: "OutputAcker \<Rightarrow> OutputAcker" where
  "dispose_acker a = a\<lparr>oa_disposed := True, oa_timer := None, oa_pending := 0\<rparr>"

section \<open>Scanning\<close>

definition STATUS_CONNECTING :: string where "STATUS_CONNECTING = ''[Connecting''"

definition CONNECTING_CARRY_CHARS :: nat where "CONNECTING_CARRY_CHARS = length STATUS_CONNECTING - 1"

definition last_chars :: "nat \<Rightarrow> string \<Rightarrow> string" where
  "last_chars n s = drop (length s - n) s"

definition scanTerminalOutput :: "string \<Rightarrow> string \<Rightarrow> string \<times> bool" where
  "scanTerminalOutput tail chunk =
     (let window = tail @ chunk
      in (last_chars CONNECTING_CARRY_CHARS window, includes_str window STATUS_CONNECTING))"

section \<open>State\<close>

datatype PtyEffect =
    Pe_backgroundOutput
  | Pe_unavailable bool
  | Pe_progress string
  | Pe_hostname "string option"
  | Pe_vaultLocked
  | Pe_startError string
  | Pe_unlisten
  | Pe_showSaved
  | Pe_create int int
  | Pe_resize int int
  | Pe_kill
  | Pe_pid nat

text \<open>What the callback of a chunk closes over: its bytes, its reserved lines, whether it has text.\<close>

record ChunkCallback =
  cb_bytes :: nat
  cb_lines :: int
  cb_text :: bool

datatype StartPhase = Sp_listening | Sp_settling | Sp_creating "int \<times> int" | Sp_over

record PtySession =
  py_term :: TermSession
  py_hold :: CursorMoveHold
  py_acker :: OutputAcker
  py_tail :: string
  py_lineStart :: bool
  py_memory :: ScrollbackMemory
  py_callbacks :: "ChunkCallback list" \<comment> \<open>the callback of each chunk, by its number\<close>
  py_parsed :: nat \<comment> \<open>how many writes the terminal has parsed\<close>
  py_received :: nat \<comment> \<open>bytes that came over the channel\<close>
  py_retrying :: bool
  py_phase :: StartPhase
  py_creating :: bool \<comment> \<open>\<open>creatingPtyRef\<close>\<close>
  py_lastSize :: "(int \<times> int) option"
  py_effects :: "PtyEffect list"

definition new_pty :: "(nat \<Rightarrow> int) \<Rightarrow> int \<Rightarrow> bool \<Rightarrow> PtySession" where
  "new_pty delays capacity creating = \<lparr>py_term = new_session delays, py_hold = new_hold, py_acker = new_acker,
     py_tail = [], py_lineStart = True, py_memory = new_memory capacity, py_callbacks = [], py_parsed = 0,
     py_received = 0, py_retrying = False, py_phase = Sp_listening, py_creating = creating,
     py_lastSize = None, py_effects = []\<rparr>"

text \<open>What a call reads of the tab, the terminal and the clock.\<close>

record PtyEnv =
  pe_now :: int
  pe_session :: SessionEnv
  pe_connection :: "Connection option"
  pe_patterns :: "(string \<Rightarrow> string option option) list"
  pe_cursorLine :: string
  pe_cursorX :: int
  pe_active :: bool
  pe_normal :: bool
  pe_timestamps :: bool
  pe_clock :: Clock
  pe_setting :: "rat option"
  pe_held :: int
  pe_size :: "int \<times> int" \<comment> \<open>rows and columns\<close>
  pe_t :: translate

definition conn_type :: "PtyEnv \<Rightarrow> ConnectionType option" where
  "conn_type env = Option.bind (pe_connection env) c_type"

definition isConnection :: "PtyEnv \<Rightarrow> bool" where
  "isConnection env \<longleftrightarrow> conn_type env = Some ConnSsh \<or> conn_type env = Some ConnSerial"

definition disposed :: "PtySession \<Rightarrow> bool" where
  "disposed s = pp_disposed (ts_prompts (py_term s))"

definition py :: "PtyEffect list \<Rightarrow> PtySession \<Rightarrow> PtySession" where
  "py es s = s\<lparr>py_effects := py_effects s @ es\<rparr>"

definition on_term :: "(TermSession \<Rightarrow> TermSession) \<Rightarrow> PtySession \<Rightarrow> PtySession" where
  "on_term f s = s\<lparr>py_term := f (py_term s)\<rparr>"

definition on_hold :: "(CursorMoveHold \<Rightarrow> CursorMoveHold) \<Rightarrow> PtySession \<Rightarrow> PtySession" where
  "on_hold f s = s\<lparr>py_hold := f (py_hold s)\<rparr>"

text \<open>\<open>term.write\<close> and \<open>writeln\<close> of a line of the session's own.\<close>

definition term_write :: "string \<Rightarrow> PtySession \<Rightarrow> PtySession" where
  "term_write text' = on_hold (writeAll text' [])"

definition term_writeln :: "string \<Rightarrow> PtySession \<Rightarrow> PtySession" where
  "term_writeln text' = term_write (text' @ [CHR 0x0D, CHR 0x0A])"

section \<open>Output\<close>

datatype Payload = Event_text string | Channel_bytes nat string

definition payload_text :: "Payload \<Rightarrow> string" where
  "payload_text payload = (case payload of Event_text text' \<Rightarrow> text' | Channel_bytes _ text' \<Rightarrow> text')"

definition payload_bytes :: "Payload \<Rightarrow> nat" where
  "payload_bytes payload = (case payload of Event_text _ \<Rightarrow> 0 | Channel_bytes n _ \<Rightarrow> n)"

definition stamped :: "PtyEnv \<Rightarrow> string \<Rightarrow> PtySession \<Rightarrow> string \<times> bool" where
  "stamped env text' s =
     (if conn_type env = Some ConnSerial \<and> pe_timestamps env then stampLines (py_lineStart s) text' (pe_clock env)
      else (text', py_lineStart s))"

definition handleTerminalOutput :: "PtyEnv \<Rightarrow> Payload \<Rightarrow> PtySession \<Rightarrow> PtySession" where
  "handleTerminalOutput env payload s0 =
     (if disposed s0 then s0
      else let text' = fst (stamped env (payload_text payload) s0);
               scanned = scanTerminalOutput (py_tail s0) text';
               s = s0\<lparr>py_lineStart := snd (stamped env (payload_text payload) s0), py_tail := fst scanned,
                      py_received := py_received s0 + payload_bytes payload\<rparr>;
               s = (if snd scanned then on_term (setConnectionStateIfChanged Cn_connecting) s
                    else if conn_type env = Some ConnSsh \<and> text' \<noteq> []
                    then on_term (setConnectionStateIfChanged Cn_connected) s
                    else s);
               reserved = reserve (pe_setting env) (pe_held env) text' (py_memory s);
               callback = \<lparr>cb_bytes = payload_bytes payload, cb_lines = fst reserved, cb_text = (text' \<noteq> [])\<rparr>
           in on_hold (write_chunk (pe_now env) text' (Some (length (py_callbacks s))))
                (s\<lparr>py_memory := snd reserved, py_callbacks := py_callbacks s @ [callback]\<rparr>))"

text \<open>A connection as the prompts read it.\<close>

definition prompt_connection :: "Connection \<Rightarrow> PromptConnection" where
  "prompt_connection c = \<lparr>pc_ssh = (c_type c = Some ConnSsh), pc_username = c_username c,
     pc_profileId = c_profileId c, pc_profileName = c_profileName c\<rparr>"

definition chunk_parsed :: "PtyEnv \<Rightarrow> nat \<Rightarrow> PtySession \<Rightarrow> PtySession" where
  "chunk_parsed env i s0 =
     (let callback = py_callbacks s0 ! i;
          s = (if \<not> pe_active env \<and> cb_text callback \<and> pe_normal env then py [Pe_backgroundOutput] s0 else s0);
          s = s\<lparr>py_memory := settle (cb_lines callback) (py_memory s),
                py_acker := parsed (pe_now env) (cb_bytes callback) (py_acker s)\<rparr>;
          s = on_term (on_prompts (checkPasswordPrompt (pe_now env) (map_option prompt_connection (pe_connection env))
                (pe_patterns env) (pe_cursorLine env))) s
      in on_term (\<lambda>t. t\<lparr>ts_login := map_option (noteOutput (pe_now env) (pe_cursorLine env)) (ts_login t)\<rparr>) s)"

definition write_parsed :: "PtyEnv \<Rightarrow> PtySession \<Rightarrow> PtySession" where
  "write_parsed env s =
     (case nth_opt (ch_writes (py_hold s)) (py_parsed s) of
        None \<Rightarrow> s
      | Some (text', cbs) \<Rightarrow> fold (chunk_parsed env) cbs (s\<lparr>py_parsed := py_parsed s + 1\<rparr>))"

text \<open>What the send bar sent, shown on a line of its own.\<close>

definition serial_echo :: "PtyEnv \<Rightarrow> string \<Rightarrow> PtySession \<Rightarrow> PtySession" where
  "serial_echo env line s =
     (if disposed s then s
      else (term_write ((if pe_cursorX env > 0 then [CHR 0x0D, CHR 0x0A] else []) @ line @ [CHR 0x0D, CHR 0x0A])
              (on_hold flush_held s))\<lparr>py_lineStart := True\<rparr>)"

section \<open>The connection\<close>

definition getConnectionDisplay :: "Connection option \<Rightarrow> translate \<Rightarrow> string" where
  "getConnectionDisplay connection t =
     (case connection of
        None \<Rightarrow> t ''sessionHeader.localShell'' []
      | Some c \<Rightarrow>
          if c_type c = Some ConnTerminal then t ''sessionHeader.localShell'' []
          else if c_type c = Some ConnSerial
          then (case map_option ser_port (c_serial c) of
                  Some (x # port) \<Rightarrow> x # port
                | _ \<Rightarrow> if truthy (c_profileName c) then or_default (c_profileName c) [] else ''serial'')
          else let host = (if truthy (c_host c) then or_default (c_host c) [] else t ''sessionHeader.unknownHost'' []);
                   address = host @ '':'' @ show_nat (or_default (c_port c) 22)
               in if truthy (c_username c) then or_default (c_username c) [] @ ''@'' @ address else address)"

definition ansi :: "string \<Rightarrow> string" where
  "ansi code' = CHR 0x1B # CHR ''['' # code' @ ''m''"

definition press_any_key :: "PtySession \<Rightarrow> PtySession" where
  "press_any_key = term_writeln (ansi ''36'' @ ''Press any key to reconnect'' @ ansi ''0'')"

definition pty_exit :: "PtyEnv \<Rightarrow> string option \<Rightarrow> PtySession \<Rightarrow> PtySession" where
  "pty_exit env reason s0 =
     (let s = on_hold flush_held s0;
          s = py [Pe_unavailable True]
                (on_term (\<lambda>t. on_timer timer_prompt (on_agents (reset_tracker (se_tracker (pe_session env))) (stopLoginScript t))) s)
      in if isConnection env then
           (let s = term_writeln ([CHR 0x0D, CHR 0x0A] @ ansi ''33'' @ getConnectionDisplay (pe_connection env) (pe_t env)
                  @ '': session closed'' @ ansi ''0'') s;
                s = press_any_key s
            in on_term (\<lambda>t. (applyConnectionState (if truthy reason then Cn_error else Cn_disconnected) t)\<lparr>ts_waiting := True\<rparr>) s)
         else on_term (applyConnectionState Cn_disconnected)
                (term_writeln ([CHR 0x0D, CHR 0x0A] @ ansi ''33'' @ ''[Process exited]'' @ ansi ''0'') s))"

datatype ProgressPhase =
    Ph_ready "string option option" \<comment> \<open>the active shell integration's host name\<close>
  | Ph_retrying
  | Ph_serial_waiting "string option" "string option"
  | Ph_retry_exhausted "nat option" "string option"
  | Ph_failed
  | Ph_other string

definition startLoginScript :: "PtyEnv \<Rightarrow> PtySession \<Rightarrow> PtySession" where
  "startLoginScript env s0 =
     (let s = on_term stopLoginScript s0
      in case pe_connection env of
           None \<Rightarrow> s
         | Some c \<Rightarrow>
             (let ls = parseLoginScript (c_loginScript c)
              in if c_type c \<noteq> Some ConnSsh \<or> ls = [] then s
                 else on_term (\<lambda>t. t\<lparr>ts_login := Some (new_runner (pe_now env) (pe_cursorLine env) None None ls)\<rparr>) s))"

definition banner :: "string \<Rightarrow> string \<Rightarrow> string" where
  "banner color text' = [CHR 0x0D, CHR 0x0A] @ ansi color @ ''['' @ text' @ '']'' @ ansi ''0'' @ [CHR 0x0D, CHR 0x0A]"

definition connection_progress :: "PtyEnv \<Rightarrow> ProgressPhase \<Rightarrow> PtySession \<Rightarrow> PtySession" where
  "connection_progress env phase s0 =
     (let s = on_hold flush_held s0
      in case phase of
           Ph_ready integration \<Rightarrow>
             (let s = py [Pe_hostname (Option.bind integration (\<lambda>h. h))] s;
                  s = (if py_retrying s
                       then term_write (banner ''32'' (pe_t env ''sessionHeader.reconnectRestored'' [])) (s\<lparr>py_retrying := False\<rparr>)
                       else s)
              in startLoginScript env (on_term (applyConnectionState Cn_connected) s))
         | Ph_retrying \<Rightarrow>
             on_term (applyConnectionState Cn_reconnecting) ((on_term stopLoginScript s)\<lparr>py_retrying := True\<rparr>)
         | Ph_serial_waiting port reason \<Rightarrow>
             on_term (applyConnectionState Cn_reconnecting)
               (term_write (banner ''33'' (pe_t env ''serialControls.waiting''
                    [(''port'', Opt_text (or_default port [])), (''reason'', Opt_text (or_default reason []))]))
                 (s\<lparr>py_retrying := True\<rparr>))
         | Ph_retry_exhausted attempts reason \<Rightarrow>
             term_write (banner ''31'' (pe_t env ''sessionHeader.reconnectExhausted''
                  [(''count'', Opt_number (int (or_default attempts 0))), (''reason'', Opt_text (or_default reason []))]))
               (s\<lparr>py_retrying := False\<rparr>)
         | Ph_failed \<Rightarrow> s
         | Ph_other _ \<Rightarrow> on_term (applyConnectionState Cn_connecting) s)"

section \<open>Starting\<close>

text \<open>How many frames pass until four in a row fitted, sixty at most.\<close>

fun waitForStableFit :: "nat \<Rightarrow> nat \<Rightarrow> bool list \<Rightarrow> nat" where
  "waitForStableFit frame stableFrames [] = frame"
| "waitForStableFit frame stableFrames (fitted # fits) =
     (if frame < 60 \<and> stableFrames < 4
      then waitForStableFit (frame + 1) (if fitted then stableFrames + 1 else 0) fits
      else frame)"

definition listeners_ready :: "PtySession \<Rightarrow> PtySession" where
  "listeners_ready s =
     (if py_phase s \<noteq> Sp_listening then s
      else if disposed s then py [Pe_unlisten] (s\<lparr>py_phase := Sp_over, py_creating := False\<rparr>)
      else let s = on_term (setConnectionStateIfChanged Cn_connecting) s
           in if py_creating s then s\<lparr>py_phase := Sp_over, py_creating := False\<rparr>
              else s\<lparr>py_phase := Sp_settling, py_creating := True\<rparr>)"

definition size_settled :: "PtyEnv \<Rightarrow> PtySession \<Rightarrow> PtySession" where
  "size_settled env s0 =
     (if py_phase s0 \<noteq> Sp_settling then s0
      else let s = (if disposed s0 then s0 else py [Pe_showSaved] s0)
           in py [Pe_create (fst (pe_size env)) (snd (pe_size env))] (s\<lparr>py_phase := Sp_creating (pe_size env)\<rparr>))"

definition pty_created :: "PtyEnv \<Rightarrow> nat \<Rightarrow> PtySession \<Rightarrow> PtySession" where
  "pty_created env pid s0 =
     (case py_phase s0 of
        Sp_creating createdPtySize \<Rightarrow>
          (let s = s0\<lparr>py_phase := Sp_over, py_creating := False\<rparr>
           in if disposed s then py [Pe_kill] s
              else let size' = pe_size env;
                       s = s\<lparr>py_lastSize := Some size'\<rparr>;
                       s = (if createdPtySize \<noteq> size' then py [Pe_resize (fst size') (snd size')] s else s);
                       s = (if conn_type env \<noteq> Some ConnSsh then on_term (setConnectionStateIfChanged Cn_connected) s else s)
                   in py [Pe_pid pid] s)
      | _ \<Rightarrow> s0)"

definition pty_failed :: "PtyEnv \<Rightarrow> string \<Rightarrow> bool \<Rightarrow> PtySession \<Rightarrow> PtySession" where
  "pty_failed env error isVaultLocked s0 =
     (if py_phase s0 = Sp_settling \<or> py_phase s0 = Sp_over then s0
      else let s = s0\<lparr>py_phase := Sp_over, py_creating := False\<rparr>
           in if disposed s then s
              else let s = on_hold flush_held s;
                       s = (if isConnection env
                            then py (if isVaultLocked then [Pe_vaultLocked] else []) (on_term (applyConnectionState Cn_error) s)
                            else s);
                       s = term_writeln (ansi ''31'' @ ''Failed to start terminal: '' @ error @ ansi ''0'') s;
                       s = (if \<not> isConnection env then py [Pe_startError error] s else s)
                   in if conn_type env = Some ConnSerial
                      then on_term (\<lambda>t. t\<lparr>ts_waiting := True\<rparr>) (press_any_key s) else s)"

text \<open>The vault is unlocked after that.\<close>

definition vault_unlocked :: "PtySession \<Rightarrow> PtySession" where
  "vault_unlocked s =
     (if disposed s then s else on_term (\<lambda>t. se [Se_reconnect] (applyConnectionState Cn_connecting t)) s)"

text \<open>The end of the session: the effect's clean-up.\<close>

definition close_session :: "PtySession \<Rightarrow> PtySession" where
  "close_session s =
     py [Pe_unlisten, Pe_kill]
       (on_hold dispose_hold
         (on_term (\<lambda>t. stopLoginScript (on_prompts session_ended t)) (s\<lparr>py_acker := dispose_acker (py_acker s)\<rparr>)))"

section \<open>Runs\<close>

datatype PtyCall =
    Py_output Payload
  | Py_parsed
  | Py_echo string
  | Py_hold
  | Py_ack
  | Py_typed string
  | Py_session SessionCall
  | Py_exit "string option"
  | Py_progress ProgressPhase
  | Py_ready
  | Py_settled
  | Py_created nat
  | Py_failed string bool
  | Py_unlocked
  | Py_close

fun pty_step :: "PtySession \<Rightarrow> PtyEnv \<times> PtyCall \<Rightarrow> PtySession" where
  "pty_step s (env, Py_output payload) = handleTerminalOutput env payload s"
| "pty_step s (env, Py_parsed) = write_parsed env s"
| "pty_step s (env, Py_echo line) = serial_echo env line s"
| "pty_step s (env, Py_hold) = on_hold (timer_elapsed (pe_now env)) s"
| "pty_step s (env, Py_ack) = s\<lparr>py_acker := ack_elapsed (pe_now env) (py_acker s)\<rparr>"
| "pty_step s (env, Py_typed data) = on_term (onData (pe_session env) data) (on_hold (note_input (pe_now env)) s)"
| "pty_step s (env, Py_session call) = on_term (\<lambda>t. session_step t call) s"
| "pty_step s (env, Py_exit reason) = pty_exit env reason s"
| "pty_step s (env, Py_progress phase) = connection_progress env phase s"
| "pty_step s (env, Py_ready) = listeners_ready s"
| "pty_step s (env, Py_settled) = size_settled env s"
| "pty_step s (env, Py_created pid) = pty_created env pid s"
| "pty_step s (env, Py_failed error isVaultLocked) = pty_failed env error isVaultLocked s"
| "pty_step s (env, Py_unlocked) = vault_unlocked s"
| "pty_step s (env, Py_close) = close_session s"

section \<open>A marker across chunks\<close>

lemma includes_iff: "includes_str s t \<longleftrightarrow> (\<exists>a b. s = a @ t @ b)"
proof (induction s)
  case (Cons c s)
  show ?case
  proof
    assume "includes_str (c # s) t"
    then consider "starts_with (c # s) t" | "includes_str s t" by auto
    then show "\<exists>a b. c # s = a @ t @ b"
    proof cases
      case 1
      then obtain b where "c # s = t @ b" by (auto simp: starts_with_iff)
      then show ?thesis by (intro exI [of _ "[]"] exI [of _ b]) simp
    next
      case 2
      with Cons obtain a b where "s = a @ t @ b" by blast
      then show ?thesis by (intro exI [of _ "c # a"] exI [of _ b]) simp
    qed
  next
    assume "\<exists>a b. c # s = a @ t @ b"
    then obtain a b where ab: "c # s = a @ t @ b" by blast
    show "includes_str (c # s) t"
    proof (cases a)
      case Nil
      with ab have "starts_with (c # s) t" by (auto simp: starts_with_iff)
      then show ?thesis by simp
    next
      case (Cons d a')
      with ab have "s = a' @ t @ b" by simp
      with Cons.IH show ?thesis by auto
    qed
  qed
qed auto

lemma marker_in_window:
  assumes "length t = Suc n"
  shows "includes_str (p @ c) t \<longleftrightarrow> includes_str p t \<or> includes_str (last_chars n p @ c) t"
proof
  assume "includes_str (p @ c) t"
  then obtain a b where ab: "p @ c = a @ t @ b" by (auto simp: includes_iff)
  show "includes_str p t \<or> includes_str (last_chars n p @ c) t"
  proof (cases "length (a @ t) \<le> length p")
    case True
    have "p = take (length p) (p @ c)" by simp
    also have "\<dots> = a @ t @ take (length p - length (a @ t)) b" unfolding ab using True by simp
    finally show ?thesis unfolding includes_iff by blast
  next
    case False
    then have a: "length p - n \<le> length a" using assms by simp
    have "last_chars n p @ c = drop (length p - n) (p @ c)" by (simp add: last_chars_def)
    also have "\<dots> = drop (length p - n) a @ t @ b" unfolding ab using a by simp
    finally show ?thesis by (auto simp: includes_iff)
  qed
next
  assume "includes_str p t \<or> includes_str (last_chars n p @ c) t"
  then show "includes_str (p @ c) t"
  proof
    assume "includes_str p t"
    then obtain a b where "p @ c = a @ t @ (b @ c)" by (auto simp: includes_iff)
    then show ?thesis unfolding includes_iff by blast
  next
    assume "includes_str (last_chars n p @ c) t"
    then obtain a b where "last_chars n p @ c = a @ t @ b" by (auto simp: includes_iff)
    then have "p @ c = (take (length p - n) p @ a) @ t @ b"
      by (metis append.assoc append_take_drop_id last_chars_def)
    then show ?thesis unfolding includes_iff by blast
  qed
qed

lemma last_chars_append: "last_chars n (last_chars n p @ c) = last_chars n (p @ c)"
proof (cases "n \<le> length p")
  case True
  then show ?thesis by (simp add: last_chars_def add.commute)
next
  case False
  then show ?thesis by (simp add: last_chars_def)
qed

fun scan_all :: "string \<Rightarrow> string list \<Rightarrow> bool" where
  "scan_all tail [] = False"
| "scan_all tail (c # cs) = (snd (scanTerminalOutput tail c) \<or> scan_all (fst (scanTerminalOutput tail c)) cs)"

lemma scan_all_from:
  "(includes_str p STATUS_CONNECTING \<or> scan_all (last_chars CONNECTING_CARRY_CHARS p) cs)
     = includes_str (p @ concat cs) STATUS_CONNECTING"
proof (induction cs arbitrary: p)
  case (Cons c cs)
  have n: "length STATUS_CONNECTING = Suc CONNECTING_CARRY_CHARS"
    by (simp add: STATUS_CONNECTING_def CONNECTING_CARRY_CHARS_def)
  from Cons [of "p @ c"] marker_in_window [OF n, of p c] show ?case
    by (auto simp: scanTerminalOutput_def Let_def last_chars_append)
qed simp

text \<open>
  C39: the status line is seen however the output is cut: some chunk reports that the
  connection is being made if and only if the marker is in the whole output.\<close>

theorem connecting_seen_across_chunks:
  "scan_all [] cs = includes_str (concat cs) STATUS_CONNECTING"
proof -
  have "\<not> includes_str [] STATUS_CONNECTING" by (simp add: STATUS_CONNECTING_def)
  moreover have "last_chars CONNECTING_CARRY_CHARS [] = []" by (simp add: last_chars_def)
  ultimately show ?thesis using scan_all_from [of "[]" cs] by simp
qed

section \<open>Every byte is acknowledged once\<close>

text \<open>The chunks whose callbacks have not run: those written and not parsed, then those held.\<close>

definition waiting :: "PtySession \<Rightarrow> nat list" where
  "waiting s = concat (map snd (drop (py_parsed s) (ch_writes (py_hold s)))) @ snd (held (py_hold s))"

definition chunk_bytes :: "PtySession \<Rightarrow> nat list \<Rightarrow> nat" where
  "chunk_bytes s is = sum_list (map (\<lambda>i. cb_bytes (py_callbacks s ! i)) is)"

definition acker_ok :: "OutputAcker \<Rightarrow> bool" where
  "acker_ok a \<longleftrightarrow> (oa_pending a = 0 \<longleftrightarrow> oa_timer a = None) \<and> oa_pending a < OUTPUT_ACK_BATCH_BYTES"

definition acked :: "OutputAcker \<Rightarrow> nat" where
  "acked a = sum_list (oa_sent a) + oa_pending a"

definition pty_ok :: "PtySession \<Rightarrow> bool" where
  "pty_ok s \<longleftrightarrow> oa_disposed (py_acker s) \<or>
     (py_parsed s \<le> length (ch_writes (py_hold s))
      \<and> (\<exists>m\<le>length (py_callbacks s). waiting s = [m..<length (py_callbacks s)])
      \<and> acker_ok (py_acker s) \<and> py_received s = acked (py_acker s) + chunk_bytes s (waiting s))"

lemma acker_ops:
  "acker_ok a \<Longrightarrow> acker_ok (flush_acks a)" "acked (flush_acks a) = acked a"
  "acker_ok a \<Longrightarrow> acker_ok (ack_elapsed now a)" "acked (ack_elapsed now a) = acked a"
  "\<not> oa_disposed a \<Longrightarrow> acker_ok a \<Longrightarrow> acker_ok (parsed now n a)"
  "\<not> oa_disposed a \<Longrightarrow> acked (parsed now n a) = acked a + n"
  by (auto simp: acker_ok_def flush_acks_def acked_def ack_elapsed_def parsed_def Let_def OUTPUT_ACK_BATCH_BYTES_def split: option.split)

lemma acker_disposed [simp]:
  "oa_disposed (flush_acks a) = oa_disposed a" "oa_disposed (ack_elapsed now a) = oa_disposed a"
  "oa_disposed (parsed now n a) = oa_disposed a"
  by (auto simp: flush_acks_def ack_elapsed_def parsed_def Let_def split: option.split)

text \<open>Operations on the other parts.\<close>

lemma pty_ok_cong:
  assumes "py_acker t = py_acker s" "py_hold t = py_hold s" "py_parsed t = py_parsed s"
    "py_callbacks t = py_callbacks s" "py_received t = py_received s"
  shows "pty_ok t = pty_ok s"
  using assms by (simp add: pty_ok_def waiting_def chunk_bytes_def)

lemma pty_plain [simp]:
  "pty_ok (on_term f s) = pty_ok s" "pty_ok (py es s) = pty_ok s" "pty_ok (s\<lparr>py_retrying := x1\<rparr>) = pty_ok s"
  "pty_ok (s\<lparr>py_phase := x2\<rparr>) = pty_ok s" "pty_ok (s\<lparr>py_creating := x3\<rparr>) = pty_ok s"
  "pty_ok (s\<lparr>py_lastSize := x4\<rparr>) = pty_ok s" "pty_ok (s\<lparr>py_lineStart := x5\<rparr>) = pty_ok s"
  by (rule pty_ok_cong; simp add: on_term_def py_def)+

text \<open>Operations of the hold that keep what waits.\<close>

definition keeps_waiting :: "(CursorMoveHold \<Rightarrow> CursorMoveHold) \<Rightarrow> bool" where
  "keeps_waiting f \<longleftrightarrow> (\<forall>h. \<exists>ws. ch_writes (f h) = ch_writes h @ ws
     \<and> concat (map snd ws) @ snd (held (f h)) = snd (held h))"

lemma hold_keeps:
  "keeps_waiting flush_held" "keeps_waiting (timer_elapsed now)" "keeps_waiting (note_input now)"
  by (auto simp: keeps_waiting_def flush_held_def timer_elapsed_def note_input_def takeHeld_def writeAll_def held_def
      split: option.split)

lemma on_hold_ok:
  assumes "keeps_waiting f" and "pty_ok s"
  shows "pty_ok (on_hold f s)"
proof -
  obtain ws where ws: "ch_writes (f (py_hold s)) = ch_writes (py_hold s) @ ws"
    "concat (map snd ws) @ snd (held (f (py_hold s))) = snd (held (py_hold s))"
    using assms(1) unfolding keeps_waiting_def by blast
  have "waiting (on_hold f s) = waiting s" if "py_parsed s \<le> length (ch_writes (py_hold s))"
    using that ws by (simp add: waiting_def on_hold_def)
  with assms(2) ws(1) show ?thesis by (auto simp: pty_ok_def on_hold_def chunk_bytes_def)
qed

lemma own_lines_keep: "keeps_waiting (writeAll text' [])"
  by (auto simp: keeps_waiting_def writeAll_def held_def)

lemma own_lines_ok [simp]: "pty_ok s \<Longrightarrow> pty_ok (term_write text' s)" "pty_ok s \<Longrightarrow> pty_ok (term_writeln text' s)"
  "pty_ok s \<Longrightarrow> pty_ok (press_any_key s)"
  unfolding term_write_def term_writeln_def press_any_key_def by (intro on_hold_ok own_lines_keep; assumption)+

lemma flush_ok [simp]: "pty_ok s \<Longrightarrow> pty_ok (on_hold flush_held s)"
  by (intro on_hold_ok hold_keeps)

lemma chunk_added:
  "\<exists>ws. ch_writes (write_chunk now text' (Some k) h) = ch_writes h @ ws
    \<and> concat (map snd ws) @ snd (held (write_chunk now text' (Some k) h)) = snd (held h) @ [k]"
  by (auto simp: write_chunk_def Let_def takeHeld_def writeAll_def held_def split: option.split)

lemma chunk_bytes_more:
  "\<forall>i\<in>set is. i < length (py_callbacks s) \<Longrightarrow> py_callbacks t = py_callbacks s @ cs
    \<Longrightarrow> chunk_bytes t is = chunk_bytes s is"
  unfolding chunk_bytes_def by (intro arg_cong [of _ _ sum_list] map_cong) (simp_all add: nth_append)

lemma output_ok:
  assumes ok: "pty_ok s"
  shows "pty_ok (handleTerminalOutput env payload s)"
proof (cases "disposed s")
  case True
  with ok show ?thesis by (simp add: handleTerminalOutput_def)
next
  case False
  define k where "k = length (py_callbacks s)"
  obtain u text' callback where u: "handleTerminalOutput env payload s = on_hold (write_chunk (pe_now env) text' (Some k)) u"
    "py_callbacks u = py_callbacks s @ [callback]" "cb_bytes callback = payload_bytes payload"
    "py_acker u = py_acker s" "py_hold u = py_hold s" "py_parsed u = py_parsed s"
    "py_received u = py_received s + payload_bytes payload"
  proof -
    define text' where "text' = fst (stamped env (payload_text payload) s)"
    define scanned where "scanned = scanTerminalOutput (py_tail s) text'"
    define s1 where "s1 = s\<lparr>py_lineStart := snd (stamped env (payload_text payload) s), py_tail := fst scanned,
      py_received := py_received s + payload_bytes payload\<rparr>"
    define s2 where "s2 = (if snd scanned then on_term (setConnectionStateIfChanged Cn_connecting) s1
      else if conn_type env = Some ConnSsh \<and> text' \<noteq> [] then on_term (setConnectionStateIfChanged Cn_connected) s1 else s1)"
    define reserved where "reserved = reserve (pe_setting env) (pe_held env) text' (py_memory s2)"
    define callback where "callback = \<lparr>cb_bytes = payload_bytes payload, cb_lines = fst reserved, cb_text = (text' \<noteq> [])\<rparr>"
    have s2: "py_callbacks s2 = py_callbacks s" "py_acker s2 = py_acker s" "py_hold s2 = py_hold s"
      "py_parsed s2 = py_parsed s" "py_received s2 = py_received s + payload_bytes payload"
      by (simp_all add: s2_def s1_def on_term_def)
    have "handleTerminalOutput env payload s = on_hold (write_chunk (pe_now env) text' (Some (length (py_callbacks s2))))
        (s2\<lparr>py_memory := snd reserved, py_callbacks := py_callbacks s2 @ [callback]\<rparr>)"
      unfolding callback_def reserved_def s2_def s1_def scanned_def text'_def handleTerminalOutput_def Let_def using False by simp
    then have eq: "handleTerminalOutput env payload s = on_hold (write_chunk (pe_now env) text' (Some k))
        (s2\<lparr>py_memory := snd reserved, py_callbacks := py_callbacks s2 @ [callback]\<rparr>)"
      by (simp only: s2 k_def)
    have "cb_bytes callback = payload_bytes payload" unfolding callback_def by (rule ChunkCallback.select_convs)
    then show ?thesis by (intro that [OF eq]) (simp_all add: s2)
  qed
  define t where "t = handleTerminalOutput env payload s"
  have t: "py_callbacks t = py_callbacks s @ [callback]" "py_acker t = py_acker s" "py_parsed t = py_parsed s"
    "py_received t = py_received s + payload_bytes payload"
    using u by (simp_all add: t_def on_hold_def)
  obtain ws where ws: "ch_writes (py_hold t) = ch_writes (py_hold s) @ ws"
    "concat (map snd ws) @ snd (held (py_hold t)) = snd (held (py_hold s)) @ [k]"
    using chunk_added [of "pe_now env" text' k "py_hold s"] u by (auto simp: t_def on_hold_def)
  show ?thesis
  proof (cases "oa_disposed (py_acker s)")
    case True
    with t show ?thesis unfolding t_def [symmetric] by (simp add: pty_ok_def)
  next
    case False
    with ok obtain m where m: "m \<le> k" "waiting s = [m..<k]" and n: "py_parsed s \<le> length (ch_writes (py_hold s))"
      and rest: "acker_ok (py_acker s)" "py_received s = acked (py_acker s) + chunk_bytes s (waiting s)"
      unfolding pty_ok_def k_def by blast
    have w: "waiting t = waiting s @ [k]"
      using n ws by (simp add: waiting_def t)
    have "chunk_bytes t (waiting t) = chunk_bytes s (waiting s) + payload_bytes payload"
      using chunk_bytes_more [of "[m..<k]" s t "[callback]"] t(1) u(3) unfolding w m(2) by (simp add: chunk_bytes_def k_def nth_append)
    moreover have "waiting t = [m..<length (py_callbacks t)]" using w m by (simp add: t k_def)
    ultimately show ?thesis
      unfolding t_def [symmetric] pty_ok_def using n ws(1) m(1) rest t by (auto simp: k_def intro!: exI [of _ m])
  qed
qed

text \<open>Running the callbacks of a write.\<close>

lemma chunk_parsed_fields:
  "py_hold (chunk_parsed env i s) = py_hold s" "py_callbacks (chunk_parsed env i s) = py_callbacks s"
  "py_parsed (chunk_parsed env i s) = py_parsed s" "py_received (chunk_parsed env i s) = py_received s"
  "py_acker (chunk_parsed env i s) = parsed (pe_now env) (cb_bytes (py_callbacks s ! i)) (py_acker s)"
  by (simp_all add: chunk_parsed_def Let_def on_term_def py_def)

lemma chunks_parsed:
  "\<not> oa_disposed (py_acker s) \<Longrightarrow> acker_ok (py_acker s) \<Longrightarrow>
    (let t = fold (chunk_parsed env) is s
     in py_hold t = py_hold s \<and> py_callbacks t = py_callbacks s \<and> py_parsed t = py_parsed s \<and> py_received t = py_received s
      \<and> acker_ok (py_acker t) \<and> acked (py_acker t) = acked (py_acker s) + chunk_bytes s is)"
proof (induction "is" arbitrary: s)
  case (Cons i "is")
  have "chunk_bytes (chunk_parsed env i s) is = chunk_bytes s is" by (simp add: chunk_bytes_def chunk_parsed_fields)
  with Cons.IH [of "chunk_parsed env i s"] Cons.prems show ?case
    by (simp add: chunk_parsed_fields acker_ops Let_def chunk_bytes_def)
qed (simp add: chunk_bytes_def)

lemma disposed_acker_stays:
  "oa_disposed (py_acker s) \<Longrightarrow> oa_disposed (py_acker (fold (chunk_parsed env) is s))"
  by (induction "is" arbitrary: s) (simp_all add: chunk_parsed_fields)

lemma parse_ok:
  assumes ok: "pty_ok s"
  shows "pty_ok (write_parsed env s)"
proof (cases "nth_opt (ch_writes (py_hold s)) (py_parsed s)")
  case None
  with ok show ?thesis by (simp add: write_parsed_def)
next
  case (Some p)
  obtain text' cbs where p: "p = (text', cbs)" by (cases p)
  define t where "t = fold (chunk_parsed env) cbs (s\<lparr>py_parsed := py_parsed s + 1\<rparr>)"
  have t: "write_parsed env s = t" by (simp add: write_parsed_def Some p t_def)
  show ?thesis
  proof (cases "oa_disposed (py_acker s)")
    case True
    then have "oa_disposed (py_acker t)" unfolding t_def by (intro disposed_acker_stays) simp
    then show ?thesis by (simp add: t pty_ok_def)
  next
    case False
    with ok obtain m where m: "m \<le> length (py_callbacks s)" "waiting s = [m..<length (py_callbacks s)]"
      and rest: "acker_ok (py_acker s)" "py_received s = acked (py_acker s) + chunk_bytes s (waiting s)"
      unfolding pty_ok_def by blast
    from Some p have n: "py_parsed s < length (ch_writes (py_hold s))" "ch_writes (py_hold s) ! py_parsed s = (text', cbs)"
      by (auto simp: nth_opt_def split: if_splits)
    have "acker_ok (py_acker (s\<lparr>py_parsed := py_parsed s + 1\<rparr>))" "\<not> oa_disposed (py_acker (s\<lparr>py_parsed := py_parsed s + 1\<rparr>))"
      using False rest by simp_all
    note run = chunks_parsed [OF this(2,1), of env cbs, unfolded Let_def t_def [symmetric]]
    have "drop (py_parsed s) (ch_writes (py_hold s)) = (text', cbs) # drop (py_parsed s + 1) (ch_writes (py_hold s))"
      using n by (simp add: Cons_nth_drop_Suc [symmetric])
    with run have w: "waiting s = cbs @ waiting t" by (simp add: waiting_def)
    have "waiting t = drop (length cbs) (waiting s)" unfolding w by simp
    also have "\<dots> = [m + length cbs..<length (py_callbacks s)]" unfolding m(2) by (rule drop_upt)
    finally have wt: "waiting t = [m + length cbs..<length (py_callbacks s)]" .
    have "length (waiting s) = length cbs + length (waiting t)" unfolding w by simp
    then have "length (py_callbacks s) - m = length cbs + (length (py_callbacks s) - (m + length cbs))"
      unfolding m(2) wt by simp
    with m(1) have le: "m + length cbs \<le> length (py_callbacks s)" by arith
    have cb: "chunk_bytes (s\<lparr>py_parsed := py_parsed s + 1\<rparr>) cbs = chunk_bytes s cbs" "chunk_bytes t x = chunk_bytes s x" for x
      using run by (simp_all add: chunk_bytes_def)
    have "chunk_bytes s (waiting s) = chunk_bytes s cbs + chunk_bytes s (waiting t)" unfolding w by (simp add: chunk_bytes_def)
    with run rest(2) cb have "py_received t = acked (py_acker t) + chunk_bytes t (waiting t)" by simp
    with run wt le n(1) show ?thesis unfolding t pty_ok_def by (auto intro!: exI [of _ "m + length cbs"])
  qed
qed

lemma exit_ok: "pty_ok s \<Longrightarrow> pty_ok (pty_exit env reason s)"
  by (simp add: pty_exit_def Let_def)

lemma progress_ok: "pty_ok s \<Longrightarrow> pty_ok (connection_progress env phase s)"
  by (cases phase) (simp_all add: connection_progress_def Let_def startLoginScript_def split: option.split)

lemma starting_steps_ok:
  "pty_ok s \<Longrightarrow> pty_ok (listeners_ready s)" "pty_ok s \<Longrightarrow> pty_ok (size_settled env s)"
  "pty_ok s \<Longrightarrow> pty_ok (pty_created env pid s)"
  by (simp_all add: listeners_ready_def size_settled_def pty_created_def Let_def split: StartPhase.split)

lemma failed_ok: "pty_ok s \<Longrightarrow> pty_ok (pty_failed env error locked s)"
  by (simp add: pty_failed_def Let_def)

lemma close_ok: "pty_ok (close_session s)"
  by (simp add: pty_ok_def close_session_def py_def on_hold_def on_term_def dispose_acker_def)

lemma ack_ok: "pty_ok s \<Longrightarrow> pty_ok (s\<lparr>py_acker := ack_elapsed now (py_acker s)\<rparr>)"
  by (auto simp: pty_ok_def acker_ops waiting_def chunk_bytes_def)

lemma pty_step_ok: "pty_ok s \<Longrightarrow> pty_ok (pty_step s c)"
proof (cases "(s, c)" rule: pty_step.cases)
  case (3 s' env line)
  moreover assume "pty_ok s"
  ultimately show ?thesis by (simp add: serial_echo_def)
qed (simp_all add: output_ok parse_ok on_hold_ok hold_keeps ack_ok exit_ok progress_ok starting_steps_ok failed_ok vault_unlocked_def close_ok)

lemma new_pty_ok: "pty_ok (new_pty delays capacity creating)"
  by (simp add: pty_ok_def new_pty_def waiting_def new_hold_def held_def new_acker_def acker_ok_def acked_def chunk_bytes_def
      OUTPUT_ACK_BATCH_BYTES_def)

interpretation pty: total_machine pty_step "new_pty delays capacity creating" pty_ok
  by unfold_locales (simp_all add: new_pty_ok pty_step_ok)

text \<open>The timer is due twenty milliseconds after a call.\<close>

lemma acker_kept [simp]:
  "py_acker (on_term f s) = py_acker s" "py_acker (py es s) = py_acker s" "py_acker (on_hold g s) = py_acker s"
  "py_acker (term_write text' s) = py_acker s" "py_acker (term_writeln text' s) = py_acker s"
  "py_acker (press_any_key s) = py_acker s" "py_acker (handleTerminalOutput env payload s) = py_acker s"
  by (simp_all add: on_term_def py_def on_hold_def term_write_def term_writeln_def press_any_key_def
      handleTerminalOutput_def Let_def)

lemma acker_kept_more [simp]:
  "py_acker (serial_echo env line s) = py_acker s" "py_acker (pty_exit env reason s) = py_acker s"
  "py_acker (connection_progress env phase s) = py_acker s" "py_acker (listeners_ready s) = py_acker s"
  "py_acker (size_settled env s) = py_acker s" "py_acker (pty_created env pid s) = py_acker s"
  "py_acker (pty_failed env error locked s) = py_acker s" "py_acker (vault_unlocked s) = py_acker s"
  by (simp_all add: serial_echo_def pty_exit_def Let_def connection_progress_def startLoginScript_def listeners_ready_def
      size_settled_def pty_created_def pty_failed_def vault_unlocked_def split: ProgressPhase.split option.split StartPhase.split)

definition due_after :: "int \<Rightarrow> OutputAcker \<Rightarrow> OutputAcker \<Rightarrow> bool" where
  "due_after now a b \<longleftrightarrow> oa_timer b = oa_timer a \<or> oa_timer b = None \<or> oa_timer b = Some (now + OUTPUT_ACK_DELAY_MS)"

lemma due_parsed: "due_after now a (parsed now n a)"
  by (auto simp: due_after_def parsed_def Let_def flush_acks_def)

lemma due_chunks: "due_after (pe_now env) (py_acker s) (py_acker (fold (chunk_parsed env) is s))"
proof (induction "is" arbitrary: s)
  case (Cons i "is")
  from Cons [of "chunk_parsed env i s"] due_parsed [of "pe_now env" "py_acker s" "cb_bytes (py_callbacks s ! i)"]
  show ?case by (auto simp: due_after_def chunk_parsed_fields)
qed (simp add: due_after_def)

lemma due_step: "due_after (pe_now env) (py_acker s) (py_acker (pty_step s (env, call)))"
proof (cases call)
  case Py_parsed
  show ?thesis
  proof (cases "nth_opt (ch_writes (py_hold s)) (py_parsed s)")
    case None
    with Py_parsed show ?thesis by (simp add: write_parsed_def due_after_def)
  next
    case (Some p)
    then show ?thesis
      using due_chunks [of env "s\<lparr>py_parsed := py_parsed s + 1\<rparr>" "snd p"]
      by (cases p) (simp add: Py_parsed write_parsed_def due_after_def)
  qed
qed (auto simp: due_after_def ack_elapsed_def flush_acks_def close_session_def dispose_acker_def split: option.split)

definition timed :: "(PtyEnv \<times> PtyCall) list \<Rightarrow> OutputAcker \<Rightarrow> bool" where
  "timed calls a \<longleftrightarrow>
     oa_timer a = None \<or> list_ex (\<lambda>call. oa_timer a = Some (pe_now (fst call) + OUTPUT_ACK_DELAY_MS)) calls"

lemma timed_runs: "timed calls (py_acker (run pty_step (new_pty delays capacity creating) calls))"
proof (induction calls rule: rev_induct)
  case Nil
  show ?case by (simp add: timed_def new_pty_def new_acker_def)
next
  case (snoc call calls)
  show ?case
    using snoc due_step [of "fst call" "run pty_step (new_pty delays capacity creating) calls" "snd call"]
    by (auto simp: timed_def run_append due_after_def)
qed

text \<open>
  C38: every byte of output is acknowledged once, in order and in time. In any run of a
  session that is not closed: what came over the channel is what was acknowledged, what is
  parsed and waits to be, and what is in the chunks not parsed yet, which are the last ones
  that came, in order. What waits is less than a batch, and has a timer that is due twenty
  milliseconds after a call; serving the timer acknowledges it all.\<close>

theorem every_byte_acknowledged_once:
  "oa_disposed (py_acker (run pty_step (new_pty delays capacity creating) calls)) \<or>
   (\<exists>s m. s = run pty_step (new_pty delays capacity creating) calls
     \<and> waiting s = [m..<length (py_callbacks s)]
     \<and> py_received s = sum_list (oa_sent (py_acker s)) + oa_pending (py_acker s) + chunk_bytes s (waiting s)
     \<and> oa_pending (py_acker s) < OUTPUT_ACK_BATCH_BYTES
     \<and> (oa_pending (py_acker s) = 0) = (oa_timer (py_acker s) = None)
     \<and> timed calls (py_acker s)
     \<and> sum_list (oa_sent (ack_elapsed (or_default (oa_timer (py_acker s)) 0) (py_acker s))) + chunk_bytes s (waiting s)
         = py_received s)"
proof (cases "oa_disposed (py_acker (run pty_step (new_pty delays capacity creating) calls))")
  case False
  define s where "s = run pty_step (new_pty delays capacity creating) calls"
  have "pty_ok s" unfolding s_def by (rule pty.inv_any_run)
  with False obtain m where m: "waiting s = [m..<length (py_callbacks s)]" and a: "acker_ok (py_acker s)"
    and r: "py_received s = acked (py_acker s) + chunk_bytes s (waiting s)"
    unfolding s_def [symmetric] pty_ok_def by blast
  have "sum_list (oa_sent (ack_elapsed (or_default (oa_timer (py_acker s)) 0) (py_acker s))) = acked (py_acker s)"
    using a by (auto simp: ack_elapsed_def flush_acks_def acked_def acker_ok_def split: option.split)
  with a r timed_runs [of calls delays capacity creating, folded s_def] show ?thesis
    unfolding s_def [symmetric] by (intro disjI2 exI [of _ s] exI [of _ m]) (simp add: m acker_ok_def acked_def)
qed simp

end
