(* ===== verification/Transfers.thy ===== *)
theory Transfers
  imports "HOL-Library.AList" Machines Sftp_Files
begin

text \<open>
  The list of file transfers and what moves it: \<open>src/src/contexts/TransferContext.tsx\<close>,
  \<open>useUploadEvents.ts\<close>, \<open>useSftpUploads.ts\<close> and \<open>useSftpDownloads.ts\<close> of
  \<open>components/SftpDrawer\<close>, and the summary of \<open>components/TransferManager\<close>. What the code
  reads through \<open>transfersRef\<close> is the list of the last render. Ids made from the clock and
  \<open>Math.random\<close>, the answers of dialogs and those of the backend come with the call that goes
  on from them; requests to the backend are effects. Sizes are whole, speeds exact.
\<close>

section \<open>Transfers\<close>

datatype TransferStatus = Ts_pending | Ts_transferring | Ts_completed | Ts_failed | Ts_cancelled

datatype TransferDirection = Dir_upload | Dir_download | Dir_delete | Dir_compress | Dir_extract

datatype ConflictPolicy = Cf_overwrite | Cf_skip | Cf_overwriteIfNewer | Cf_rename

text \<open>The closures a transfer keeps to be run again.\<close>

datatype Retry =
    Re_uploadFile string string string
  | Re_uploadPaths "string list" string ConflictPolicy
  | Re_downloadFile string string string
  | Re_downloadPaths string "string list" string ConflictPolicy

record TransferTask =
  tk_id :: string
  tk_tabId :: "string option"
  tk_batchId :: "string option"
  tk_direction :: TransferDirection
  tk_localPath :: string
  tk_remotePath :: string
  tk_fileName :: string
  tk_fileSize :: nat
  tk_sizeUnknown :: bool
  tk_transferred :: nat
  tk_status :: TransferStatus
  tk_error :: "string option"
  tk_startTime :: int
  tk_endTime :: "int option"
  tk_speed :: rat
  tk_resumedFrom :: "nat option"
  tk_parallelism :: "nat option"
  tk_skipped :: bool
  tk_retry :: "Retry option"
  tk_ownCancel :: bool \<comment> \<open>it has a \<open>cancel\<close> of its own\<close>

datatype TransferEffect =
    Te_uploadFile string string string
  | Te_downloadFile string string string
  | Te_downloadPaths string "string list" string ConflictPolicy bool
  | Te_uploadPaths "string list" string ConflictPolicy bool
  | Te_uploadRun "string list" string ConflictPolicy bool \<comment> \<open>a retry calls the runner of the last render\<close>
  | Te_cancel string
  | Te_ownCancel string
  | Te_error "string option"
  | Te_load string

record BatchChild =
  bp_fileSize :: nat
  bp_speed :: rat
  bp_status :: TransferStatus
  bp_transferred :: nat

record Transfers =
  tf_transfers :: "TransferTask list"
  tf_seen :: "TransferTask list" \<comment> \<open>\<open>transfersRef\<close>\<close>
  tf_lastProgress :: "string \<Rightarrow> int option"
  tf_batchIds :: "string \<Rightarrow> string list option"
  tf_batchProgress :: "string \<Rightarrow> (string \<times> BatchChild) list option"
  tf_downLast :: "string \<Rightarrow> int option"
  tf_downIds :: "string \<Rightarrow> string list option"
  tf_downStart :: "string \<Rightarrow> int option"
  tf_effects :: "TransferEffect list"

definition no_transfers :: Transfers where
  "no_transfers = \<lparr>tf_transfers = [], tf_seen = [], tf_lastProgress = Map.empty, tf_batchIds = Map.empty,
     tf_batchProgress = Map.empty, tf_downLast = Map.empty, tf_downIds = Map.empty, tf_downStart = Map.empty,
     tf_effects = []\<rparr>"

definition tf :: "TransferEffect list \<Rightarrow> Transfers \<Rightarrow> Transfers" where
  "tf es s = s\<lparr>tf_effects := tf_effects s @ es\<rparr>"

section \<open>The list\<close>

definition merge_transfer :: "TransferTask \<Rightarrow> TransferTask \<Rightarrow> TransferTask" where
  "merge_transfer new item = item\<lparr>tk_tabId := tk_tabId new,
     tk_batchId := (if tk_batchId new = None then tk_batchId item else tk_batchId new),
     tk_direction := tk_direction new, tk_localPath := tk_localPath new, tk_remotePath := tk_remotePath new,
     tk_fileName := tk_fileName new, tk_fileSize := tk_fileSize new, tk_speed := tk_speed new\<rparr>"

text \<open>The literals given to \<open>addTransfer\<close>: a batch's has no \<open>batchId\<close> at all, and the
  spread of one keeps the old.\<close>

definition new_task ::
  "string \<Rightarrow> string option \<Rightarrow> TransferDirection \<Rightarrow> string \<Rightarrow> nat \<Rightarrow> string \<Rightarrow> string \<Rightarrow> TransferTask" where
  "new_task tabId batchId direction fileName fileSize localPath remotePath =
     \<lparr>tk_id = [], tk_tabId = Some tabId, tk_batchId = batchId, tk_direction = direction, tk_localPath = localPath,
      tk_remotePath = remotePath, tk_fileName = fileName, tk_fileSize = fileSize, tk_sizeUnknown = False,
      tk_transferred = 0, tk_status = Ts_pending, tk_error = None, tk_startTime = 0, tk_endTime = None,
      tk_speed = 0, tk_resumedFrom = None, tk_parallelism = None, tk_skipped = False, tk_retry = None,
      tk_ownCancel = False\<rparr>"

definition addTransfer :: "int \<Rightarrow> TransferTask \<Rightarrow> string \<Rightarrow> Transfers \<Rightarrow> Transfers" where
  "addTransfer now transfer nextId s =
     s\<lparr>tf_transfers :=
         (if nextId \<in> set (map tk_id (tf_transfers s))
          then map (\<lambda>item. if tk_id item = nextId then merge_transfer transfer item else item) (tf_transfers s)
          else transfer\<lparr>tk_id := nextId, tk_startTime := now, tk_status := Ts_pending, tk_transferred := 0\<rparr> # tf_transfers s)\<rparr>"

definition updateTransfer :: "string \<Rightarrow> (TransferTask \<Rightarrow> TransferTask) \<Rightarrow> Transfers \<Rightarrow> Transfers" where
  "updateTransfer i updates s =
     s\<lparr>tf_transfers := map (\<lambda>transfer. if tk_id transfer = i then updates transfer else transfer) (tf_transfers s)\<rparr>"

definition seen_transfer :: "string \<Rightarrow> Transfers \<Rightarrow> TransferTask option" where
  "seen_transfer i s = find (\<lambda>item. tk_id item = i) (tf_seen s)"

definition cancelTransfer :: "int \<Rightarrow> string \<Rightarrow> Transfers \<Rightarrow> Transfers" where
  "cancelTransfer now i s =
     tf [if map_option tk_ownCancel (seen_transfer i s) = Some True then Te_ownCancel i else Te_cancel i]
       (updateTransfer i (\<lambda>t. t\<lparr>tk_status := Ts_cancelled, tk_endTime := Some now\<rparr>) s)"

definition removeTransfer :: "string \<Rightarrow> Transfers \<Rightarrow> Transfers" where
  "removeTransfer i s = s\<lparr>tf_transfers := filter (\<lambda>transfer. tk_id transfer \<noteq> i) (tf_transfers s)\<rparr>"

definition isActiveTransfer :: "TransferTask \<Rightarrow> bool" where
  "isActiveTransfer transfer \<longleftrightarrow> tk_status transfer = Ts_pending \<or> tk_status transfer = Ts_transferring"

definition clearCompletedTransfers :: "Transfers \<Rightarrow> Transfers" where
  "clearCompletedTransfers s = s\<lparr>tf_transfers := filter isActiveTransfer (tf_transfers s)\<rparr>"

definition transfers_rendered :: "Transfers \<Rightarrow> Transfers" where
  "transfers_rendered s = s\<lparr>tf_seen := tf_transfers s\<rparr>"

section \<open>What an attempt measures\<close>

text \<open>Bytes a second over the milliseconds since a start.\<close>

definition per_second :: "nat \<Rightarrow> int \<Rightarrow> rat" where
  "per_second bytes duration = (if duration > 0 then of_nat bytes / of_int duration * 1000 else 0)"

definition completed_size :: "TransferTask option \<Rightarrow> nat" where
  "completed_size transfer =
     (case transfer of None \<Rightarrow> 0 | Some t \<Rightarrow> if tk_fileSize t \<noteq> 0 then tk_fileSize t else tk_transferred t)"

definition resumed_bytes :: "TransferTask option \<Rightarrow> nat" where
  "resumed_bytes transfer = or_default (Option.bind transfer tk_resumedFrom) 0"

definition some_positive :: "nat option \<Rightarrow> nat option" where
  "some_positive n = (if or_default n 0 > 0 then n else None)"

definition is_cancelled :: "string \<Rightarrow> bool" where
  "is_cancelled error \<longleftrightarrow> includes_str (to_lower error) ''cancelled''"

definition ended :: "int \<Rightarrow> TransferStatus \<Rightarrow> string option \<Rightarrow> TransferTask \<Rightarrow> TransferTask" where
  "ended now status error t = t\<lparr>tk_status := status, tk_error := error, tk_endTime := Some now\<rparr>"

definition failed_or_cancelled :: "int \<Rightarrow> string \<Rightarrow> TransferTask \<Rightarrow> TransferTask" where
  "failed_or_cancelled now error =
     (if is_cancelled error then ended now Ts_cancelled None else ended now Ts_failed (Some error))"

definition started_again :: "TransferTask \<Rightarrow> TransferTask" where
  "started_again t = t\<lparr>tk_status := Ts_transferring, tk_error := None, tk_endTime := None, tk_speed := 0\<rparr>"

section \<open>Uploads\<close>

definition syncBatchTransfer :: "string \<Rightarrow> TransferStatus option \<Rightarrow> Transfers \<Rightarrow> Transfers" where
  "syncBatchTransfer batchId fallbackStatus s =
     (let childEntries = map snd (or_default (tf_batchProgress s batchId) []);
          fileSize = sum_list (map bp_fileSize childEntries);
          transferred = sum_list (map bp_transferred childEntries);
          speed = sum_list (map bp_speed childEntries);
          hasFailed = list_ex (\<lambda>child. bp_status child = Ts_failed) childEntries;
          hasActive = list_ex (\<lambda>child. bp_status child = Ts_pending \<or> bp_status child = Ts_transferring) childEntries
      in updateTransfer batchId (\<lambda>t. t\<lparr>tk_fileSize := fileSize, tk_speed := speed,
           tk_status := or_default fallbackStatus
             (if hasFailed then Ts_failed else if hasActive then Ts_transferring else Ts_pending),
           tk_transferred := transferred\<rparr>) s)"

definition runUploadFile :: "int \<Rightarrow> string \<Rightarrow> string \<Rightarrow> string \<Rightarrow> Transfers \<Rightarrow> Transfers" where
  "runUploadFile now transferId localPath remotePath s =
     tf [Te_uploadFile transferId localPath remotePath]
       (updateTransfer transferId (\<lambda>t. (started_again t)\<lparr>tk_startTime := now\<rparr>) s)"

text \<open>The backend's answer: none for success.\<close>

definition uploadFile_done :: "int \<Rightarrow> string \<Rightarrow> string option \<Rightarrow> Transfers \<Rightarrow> Transfers" where
  "uploadFile_done now transferId error s0 =
     (let s = s0\<lparr>tf_lastProgress := (tf_lastProgress s0)(transferId := None)\<rparr>
      in case error of
           None \<Rightarrow>
             (let completedSize = completed_size (seen_transfer transferId s0)
              in updateTransfer transferId (\<lambda>t. t\<lparr>tk_status := Ts_completed, tk_transferred := completedSize,
                   tk_fileSize := completedSize, tk_endTime := Some now\<rparr>) s)
         | Some e \<Rightarrow> updateTransfer transferId (failed_or_cancelled now e) s)"

record UploadBatchStart =
  ub_batchId :: string
  ub_displayName :: string
  ub_localPath :: string
  ub_localPaths :: "string list"
  ub_remoteBasePath :: string
  ub_conflictPolicy :: ConflictPolicy

definition upload_batch_start :: "int \<Rightarrow> string \<Rightarrow> UploadBatchStart \<Rightarrow> Transfers \<Rightarrow> Transfers" where
  "upload_batch_start now tabId e s0 =
     (let s = addTransfer now (new_task tabId None Dir_upload (ub_displayName e) 0 (ub_localPath e) (ub_remoteBasePath e))
            (ub_batchId e) s0;
          s = s\<lparr>tf_batchIds := (tf_batchIds s)(ub_batchId e \<mapsto> []), tf_batchProgress := (tf_batchProgress s)(ub_batchId e \<mapsto> [])\<rparr>
      in updateTransfer (ub_batchId e) (\<lambda>t. t\<lparr>tk_error := None, tk_fileSize := 0, tk_speed := 0, tk_status := Ts_pending,
           tk_transferred := 0,
           tk_retry := Some (Re_uploadPaths (ub_localPaths e) (ub_remoteBasePath e) (ub_conflictPolicy e))\<rparr>) s)"

record BatchComplete =
  bc_batchId :: string
  bc_cancelled :: bool
  bc_error :: "string option"
  bc_failed :: nat
  bc_succeeded :: nat

definition upload_batch_complete :: "int \<Rightarrow> (nat \<Rightarrow> nat \<Rightarrow> string) \<Rightarrow> BatchComplete \<Rightarrow> Transfers \<Rightarrow> Transfers" where
  "upload_batch_complete now partial_text e s0 =
     (let batchId = bc_batchId e;
          childTransferIds = or_default (tf_batchIds s0 batchId) [];
          transfer = seen_transfer batchId s0;
          s = s0\<lparr>tf_lastProgress := (\<lambda>i. if i \<in> set childTransferIds then None else tf_lastProgress s0 i),
                 tf_batchIds := (tf_batchIds s0)(batchId := None), tf_batchProgress := (tf_batchProgress s0)(batchId := None)\<rparr>
      in if bc_cancelled e
         then updateTransfer batchId (ended now Ts_cancelled None)
                (fold (\<lambda>i. updateTransfer i (ended now Ts_cancelled None)) childTransferIds s)
         else if truthy (bc_error e) then updateTransfer batchId (ended now Ts_failed (bc_error e)) s
         else let hasFailedChildren =
                    list_ex (\<lambda>i. map_option tk_status (seen_transfer i s0) = Some Ts_failed) childTransferIds;
                  size' = (case transfer of None \<Rightarrow> 0 | Some t \<Rightarrow> tk_fileSize t)
              in updateTransfer batchId (\<lambda>t. (ended now (if hasFailedChildren then Ts_failed else Ts_completed)
                     (if hasFailedChildren then Some (partial_text (bc_failed e) (bc_succeeded e)) else None) t)
                   \<lparr>tk_fileSize := size', tk_speed := 0, tk_transferred := size'\<rparr>) s)"

record ItemStart =
  is_batchId :: "string option"
  is_fileName :: string
  is_fileSize :: nat
  is_localPath :: string
  is_remotePath :: string
  is_transferId :: string

definition add_to_batch :: "string \<Rightarrow> string \<Rightarrow> nat \<Rightarrow> Transfers \<Rightarrow> Transfers" where
  "add_to_batch batchId transferId fileSize s =
     (let ids = or_default (tf_batchIds s batchId) [];
          child = \<lparr>bp_fileSize = fileSize, bp_speed = 0, bp_status = Ts_transferring, bp_transferred = 0\<rparr>
      in syncBatchTransfer batchId (Some Ts_transferring)
           (s\<lparr>tf_batchIds := (tf_batchIds s)(batchId \<mapsto> (if transferId \<in> set ids then ids else ids @ [transferId])),
              tf_batchProgress := (tf_batchProgress s)
                (batchId \<mapsto> AList.update transferId child (or_default (tf_batchProgress s batchId) []))\<rparr>))"

definition upload_item_start :: "int \<Rightarrow> string \<Rightarrow> ItemStart \<Rightarrow> Transfers \<Rightarrow> Transfers" where
  "upload_item_start now tabId e s0 =
     (let transferId = is_transferId e;
          s = (if truthy (is_batchId e) then add_to_batch (the (is_batchId e)) transferId (is_fileSize e) s0 else s0);
          s = addTransfer now (new_task tabId (is_batchId e) Dir_upload (is_fileName e) (is_fileSize e)
                (is_localPath e) (is_remotePath e)) transferId s
      in updateTransfer transferId (\<lambda>t. t\<lparr>tk_batchId := is_batchId e, tk_error := None, tk_fileSize := is_fileSize e,
           tk_speed := 0, tk_status := Ts_transferring,
           tk_retry := Some (Re_uploadFile transferId (is_localPath e) (is_remotePath e))\<rparr>) s)"

record ItemProgress =
  ip_progress :: rat
  ip_total :: nat
  ip_transferred :: nat
  ip_transferId :: string
  ip_resumedFrom :: "nat option"
  ip_parallelism :: "nat option"

definition too_soon :: "int \<Rightarrow> ItemProgress \<Rightarrow> (string \<Rightarrow> int option) \<Rightarrow> bool" where
  "too_soon now e last' \<longleftrightarrow> now - or_default (last' (ip_transferId e)) 0 < 50 \<and> ip_progress e < 100"

text \<open>The child of an open batch, changed and summed up.\<close>

definition on_child ::
  "string \<Rightarrow> string \<Rightarrow> (BatchChild \<Rightarrow> BatchChild) \<Rightarrow> TransferStatus option \<Rightarrow> Transfers \<Rightarrow> Transfers" where
  "on_child batchId transferId f fallbackStatus s =
     (case map_of (or_default (tf_batchProgress s batchId) []) transferId of
        None \<Rightarrow> s
      | Some previous \<Rightarrow>
          syncBatchTransfer batchId fallbackStatus
            (s\<lparr>tf_batchProgress := (tf_batchProgress s)
                 (batchId \<mapsto> AList.update transferId (f previous) (or_default (tf_batchProgress s batchId) []))\<rparr>))"

definition upload_progress :: "int \<Rightarrow> ItemProgress \<Rightarrow> Transfers \<Rightarrow> Transfers" where
  "upload_progress now e s0 =
     (if too_soon now e (tf_lastProgress s0) then s0
      else let transferId = ip_transferId e;
               s = s0\<lparr>tf_lastProgress := (tf_lastProgress s0)(transferId \<mapsto> now)\<rparr>;
               transfer = seen_transfer transferId s;
               startTime = (case transfer of None \<Rightarrow> now | Some t \<Rightarrow> if tk_startTime t \<noteq> 0 then tk_startTime t else now);
               speed = per_second (ip_transferred e - or_default (ip_resumedFrom e) 0) (now - startTime);
               s = updateTransfer transferId (\<lambda>t. t\<lparr>tk_speed := speed, tk_transferred := ip_transferred e,
                     tk_resumedFrom := some_positive (ip_resumedFrom e),
                     tk_parallelism := some_positive (ip_parallelism e)\<rparr>) s
           in case Option.bind transfer tk_batchId of
                Some (c # batchId) \<Rightarrow>
                  on_child (c # batchId) transferId
                    (\<lambda>child. child\<lparr>bp_speed := speed, bp_transferred := ip_transferred e\<rparr>) (Some Ts_transferring) s
              | _ \<Rightarrow> s)"

record ItemComplete =
  ic_cancelled :: bool
  ic_error :: "string option"
  ic_success :: bool
  ic_transferId :: string
  ic_skipped :: bool

definition item_end :: "int \<Rightarrow> ItemComplete \<Rightarrow> nat \<Rightarrow> rat \<Rightarrow> TransferTask \<Rightarrow> TransferTask" where
  "item_end now e completedFileSize speed t =
     (if ic_success e
      then t\<lparr>tk_endTime := Some now, tk_fileSize := completedFileSize, tk_speed := speed, tk_status := Ts_completed,
             tk_skipped := ic_skipped e, tk_transferred := completedFileSize\<rparr>
      else if ic_cancelled e then ended now Ts_cancelled None t
      else ended now Ts_failed (if truthy (ic_error e) then ic_error e else None) t)"

definition moved_bytes :: "ItemComplete \<Rightarrow> TransferTask option \<Rightarrow> nat" where
  "moved_bytes e transfer = (if ic_skipped e then 0 else completed_size transfer - resumed_bytes transfer)"

definition upload_item_complete :: "int \<Rightarrow> ItemComplete \<Rightarrow> Transfers \<Rightarrow> Transfers" where
  "upload_item_complete now e s0 =
     (let transferId = ic_transferId e;
          transfer = seen_transfer transferId s0;
          startTime = (case transfer of None \<Rightarrow> now | Some t \<Rightarrow> if tk_startTime t \<noteq> 0 then tk_startTime t else now);
          completedFileSize = completed_size transfer;
          speed = per_second (moved_bytes e transfer) (now - startTime);
          s = s0\<lparr>tf_lastProgress := (tf_lastProgress s0)(transferId := None)\<rparr>;
          s = (case Option.bind transfer tk_batchId of
                 Some (c # batchId) \<Rightarrow>
                   on_child (c # batchId) transferId
                     (\<lambda>previous. previous\<lparr>bp_speed := 0,
                        bp_status := (if ic_success e then Ts_completed else if ic_cancelled e then Ts_cancelled else Ts_failed),
                        bp_transferred := (if ic_success e then completedFileSize else bp_transferred previous)\<rparr>) None s
               | _ \<Rightarrow> s)
      in updateTransfer transferId (item_end now e completedFileSize speed) s)"

text \<open>
  \<open>runUploadPaths\<close> up to the upload: what the check for conflicts and the question about them
  say (a failure, how many there are, the policy chosen) comes with the call.\<close>

definition runUploadPaths ::
  "string list \<Rightarrow> string \<Rightarrow> bool \<Rightarrow> ConflictPolicy option \<Rightarrow> string + nat \<Rightarrow> ConflictPolicy option \<Rightarrow> string \<Rightarrow> Transfers \<Rightarrow> Transfers" where
  "runUploadPaths paths remoteBasePath skipExisting policy report chosen no_files_text s0 =
     (let validPaths = filter (\<lambda>path. path \<noteq> []) paths
      in if validPaths = [] then tf [Te_error (Some no_files_text)] s0
         else let s = tf [Te_error None] s0
              in case policy of
                   Some p \<Rightarrow> tf [Te_uploadPaths validPaths remoteBasePath p skipExisting] s
                 | None \<Rightarrow>
                     (case report of
                        Inl error \<Rightarrow> tf [Te_error (Some error)] s
                      | Inr conflicts \<Rightarrow>
                          if conflicts > 0 \<and> chosen = None then s
                          else tf [Te_uploadPaths validPaths remoteBasePath
                                 (if conflicts > 0 then the chosen else Cf_overwrite) skipExisting] s))"

text \<open>\<open>uploadPaths\<close>, which the two dialogs end in: the folder is that of the listing, if there is one.\<close>

definition uploadPaths ::
  "string option \<Rightarrow> string list \<Rightarrow> string \<Rightarrow> string + nat \<Rightarrow> ConflictPolicy option \<Rightarrow> string \<Rightarrow> Transfers \<Rightarrow> Transfers" where
  "uploadPaths listing paths not_ready_text report chosen no_files_text s =
     (case listing of
        None \<Rightarrow> tf [Te_error (Some not_ready_text)] s
      | Some currentPath \<Rightarrow> runUploadPaths paths currentPath False None report chosen no_files_text s)"

record UploadBatchResult =
  ur_cancelled :: bool
  ur_failed :: nat
  ur_succeeded :: nat

definition uploadPaths_done ::
  "string \<Rightarrow> (nat \<Rightarrow> nat \<Rightarrow> string) \<Rightarrow> (nat \<Rightarrow> string) \<Rightarrow> string + UploadBatchResult \<Rightarrow> Transfers \<Rightarrow> Transfers" where
  "uploadPaths_done remoteBasePath partial_text all_text answer s =
     tf ((case answer of
            Inl error \<Rightarrow> [Te_error (Some error)]
          | Inr result \<Rightarrow>
              if ur_cancelled result then []
              else if ur_failed result > 0 \<and> ur_succeeded result = 0 then [Te_error (Some (all_text (ur_failed result)))]
              else if ur_failed result > 0 then [Te_error (Some (partial_text (ur_failed result) (ur_succeeded result)))]
              else []) @ [Te_load remoteBasePath]) s"

section \<open>Downloads\<close>

definition forget_download :: "string \<Rightarrow> Transfers \<Rightarrow> Transfers" where
  "forget_download i s = s\<lparr>tf_downLast := (tf_downLast s)(i := None), tf_downStart := (tf_downStart s)(i := None)\<rparr>"

definition start_download :: "int \<Rightarrow> string \<Rightarrow> TransferEffect \<Rightarrow> Transfers \<Rightarrow> Transfers" where
  "start_download now i request s =
     tf [request] (updateTransfer i started_again (s\<lparr>tf_downStart := (tf_downStart s)(i \<mapsto> now)\<rparr>))"

definition runDownloadFile :: "int \<Rightarrow> string \<Rightarrow> string \<Rightarrow> string \<Rightarrow> Transfers \<Rightarrow> Transfers" where
  "runDownloadFile now transferId remotePath localPath =
     start_download now transferId (Te_downloadFile transferId remotePath localPath)"

definition downloadFile_done :: "int \<Rightarrow> int \<Rightarrow> string \<Rightarrow> string option \<Rightarrow> Transfers \<Rightarrow> Transfers" where
  "downloadFile_done startTime now transferId error s0 =
     (let s = forget_download transferId s0
      in case error of
           Some e \<Rightarrow> updateTransfer transferId (failed_or_cancelled now e) s
         | None \<Rightarrow>
             (let currentTransfer = seen_transfer transferId s0;
                  completedSize = completed_size currentTransfer;
                  speed = per_second (completedSize - resumed_bytes currentTransfer) (now - startTime)
              in if map_option tk_status currentTransfer = Some Ts_cancelled then s
                 else updateTransfer transferId (\<lambda>t. t\<lparr>tk_status := Ts_completed, tk_transferred := completedSize,
                        tk_fileSize := completedSize, tk_endTime := Some now, tk_speed := speed\<rparr>) s))"

definition runDownloadPaths ::
  "int \<Rightarrow> string \<Rightarrow> string list \<Rightarrow> string \<Rightarrow> ConflictPolicy \<Rightarrow> bool \<Rightarrow> Transfers \<Rightarrow> Transfers" where
  "runDownloadPaths now transferId remotePaths localParentPath conflictPolicy skipExisting =
     start_download now transferId (Te_downloadPaths transferId remotePaths localParentPath conflictPolicy skipExisting)"

definition downloadPaths_done :: "int \<Rightarrow> string \<Rightarrow> string option \<Rightarrow> Transfers \<Rightarrow> Transfers" where
  "downloadPaths_done now transferId error s0 =
     (let s = forget_download transferId s0
      in case error of None \<Rightarrow> s | Some e \<Rightarrow> updateTransfer transferId (failed_or_cancelled now e) s)"

definition download_item_start :: "int \<Rightarrow> string \<Rightarrow> ItemStart \<Rightarrow> Transfers \<Rightarrow> Transfers" where
  "download_item_start now tabId e s0 =
     (let transferId = is_transferId e; batchId = or_default (is_batchId e) [];
          ids = or_default (tf_downIds s0 batchId) [];
          s = s0\<lparr>tf_downIds := (tf_downIds s0)(batchId \<mapsto> (if transferId \<in> set ids then ids else ids @ [transferId]))\<rparr>;
          s = addTransfer now (new_task tabId (is_batchId e) Dir_download (is_fileName e) (is_fileSize e)
                (is_localPath e) (is_remotePath e)) transferId s;
          s = s\<lparr>tf_downStart := (tf_downStart s)(transferId \<mapsto> now)\<rparr>
      in updateTransfer transferId (\<lambda>t. t\<lparr>tk_batchId := is_batchId e, tk_error := None, tk_fileSize := is_fileSize e,
           tk_speed := 0, tk_status := Ts_transferring,
           tk_retry := Some (Re_downloadFile transferId (is_remotePath e) (is_localPath e))\<rparr>) s)"

definition nonzero :: "int option \<Rightarrow> int option" where
  "nonzero n = (if n = Some 0 then None else n)"

definition download_progress :: "int \<Rightarrow> ItemProgress \<Rightarrow> Transfers \<Rightarrow> Transfers" where
  "download_progress now e s0 =
     (if too_soon now e (tf_downLast s0) then s0
      else let transferId = ip_transferId e;
               s = s0\<lparr>tf_downLast := (tf_downLast s0)(transferId \<mapsto> now)\<rparr>;
               currentTransfer = seen_transfer transferId s
           in if map_option tk_status currentTransfer = Some Ts_cancelled then s
              else let startTime = or_default (nonzero (tf_downStart s transferId))
                         (or_default (nonzero (map_option tk_startTime currentTransfer)) now);
                       speed = per_second (ip_transferred e - or_default (ip_resumedFrom e) 0) (now - startTime)
                   in updateTransfer transferId (\<lambda>t. t\<lparr>tk_transferred := ip_transferred e, tk_fileSize := ip_total e,
                        tk_speed := speed, tk_status := Ts_transferring,
                        tk_resumedFrom := some_positive (ip_resumedFrom e),
                        tk_parallelism := some_positive (ip_parallelism e)\<rparr>) s)"

definition download_item_complete :: "int \<Rightarrow> ItemComplete \<Rightarrow> Transfers \<Rightarrow> Transfers" where
  "download_item_complete now e s =
     (let transferId = ic_transferId e;
          transfer = seen_transfer transferId s;
          duration = now - or_default (nonzero (tf_downStart s transferId)) now
      in updateTransfer transferId
           (item_end now e (completed_size transfer) (per_second (moved_bytes e transfer) duration))
           (forget_download transferId s))"

record DownloadBatchComplete =
  db_batchId :: string
  db_cancelled :: bool
  db_error :: "string option"
  db_total :: nat
  db_transferred :: nat
  db_skipped :: "nat option"
  db_resumed :: "nat option"

definition download_child_end :: "int \<Rightarrow> bool \<Rightarrow> Transfers \<Rightarrow> string \<Rightarrow> Transfers \<Rightarrow> Transfers" where
  "download_child_end now cancelled s0 i s =
     (if cancelled \<and> map_option tk_status (seen_transfer i s0) = Some Ts_transferring
      then updateTransfer i (ended now Ts_cancelled None) (forget_download i s)
      else forget_download i s)"

definition download_batch_complete :: "int \<Rightarrow> DownloadBatchComplete \<Rightarrow> Transfers \<Rightarrow> Transfers" where
  "download_batch_complete now e s0 =
     (let batchId = db_batchId e;
          duration = now - or_default (nonzero (tf_downStart s0 batchId)) now;
          measured = db_transferred e - or_default (db_skipped e) 0 - or_default (db_resumed e) 0;
          s = fold (download_child_end now (db_cancelled e) s0) (or_default (tf_downIds s0 batchId) []) s0;
          s = forget_download batchId (s\<lparr>tf_downIds := (tf_downIds s)(batchId := None)\<rparr>)
      in if db_cancelled e then updateTransfer batchId (ended now Ts_cancelled None) s
         else if truthy (db_error e) then updateTransfer batchId (ended now Ts_failed (db_error e)) s
         else updateTransfer batchId (\<lambda>t. (ended now Ts_completed None t)\<lparr>tk_fileSize := db_total e,
                tk_speed := per_second measured duration, tk_transferred := db_transferred e\<rparr>) s)"

definition downloadEntriesToFolder ::
  "int \<Rightarrow> string \<Rightarrow> SftpDirectoryEntry list \<Rightarrow> string \<Rightarrow> (nat \<Rightarrow> string) \<Rightarrow> string + nat \<Rightarrow> ConflictPolicy option \<Rightarrow> string
    \<Rightarrow> Transfers \<Rightarrow> Transfers" where
  "downloadEntriesToFolder now tabId entries targetPath items_text report chosen transferId s =
     (case entries of
        [] \<Rightarrow> s
      | entry # others \<Rightarrow>
          (let isSingle = (others = []);
               remotePaths = map se_path entries;
               batch = new_task tabId None Dir_download (if isSingle then se_name entry else items_text (length entries))
                 (if isSingle then nat (or_default (se_size entry) 0) else 0) targetPath
                 (if isSingle then se_path entry else join '', '' remotePaths)
           in case report of
                Inl error \<Rightarrow> updateTransfer transferId (ended now Ts_failed (Some error)) (addTransfer now batch transferId s)
              | Inr conflicts \<Rightarrow>
                  if conflicts > 0 \<and> chosen = None then s
                  else let conflictPolicy = (if conflicts > 0 then the chosen else Cf_overwrite)
                       in runDownloadPaths now transferId remotePaths targetPath conflictPolicy False
                            (updateTransfer transferId
                              (\<lambda>t. t\<lparr>tk_retry := Some (Re_downloadPaths transferId remotePaths targetPath conflictPolicy)\<rparr>)
                              (addTransfer now batch transferId s))))"

text \<open>The path picked in the dialog is none when it was closed.\<close>

definition downloadEntries ::
  "int \<Rightarrow> string \<Rightarrow> SftpDirectoryEntry list \<Rightarrow> string option \<Rightarrow> (nat \<Rightarrow> string) \<Rightarrow> string + nat \<Rightarrow> ConflictPolicy option \<Rightarrow> string
    \<Rightarrow> Transfers \<Rightarrow> Transfers" where
  "downloadEntries now tabId entries picked items_text report chosen transferId s =
     (case (entries, picked) of
        ([], _) \<Rightarrow> s
      | (_, None) \<Rightarrow> s
      | (entry # others, Some targetPath) \<Rightarrow>
          if targetPath = [] then s
          else if others \<noteq> [] \<or> se_isDir entry
          then downloadEntriesToFolder now tabId entries targetPath items_text report chosen transferId s
          else runDownloadFile now transferId (se_path entry) targetPath
                 (updateTransfer transferId
                   (\<lambda>t. t\<lparr>tk_retry := Some (Re_downloadFile transferId (se_path entry) targetPath)\<rparr>)
                   (addTransfer now (new_task tabId None Dir_download (se_name entry) (nat (or_default (se_size entry) 0))
                      targetPath (se_path entry)) transferId s)))"

section \<open>Retrying and summing up\<close>

definition retryTransfer :: "int \<Rightarrow> string \<Rightarrow> Transfers \<Rightarrow> Transfers" where
  "retryTransfer now i s =
     (case Option.bind (seen_transfer i s) tk_retry of
        None \<Rightarrow> s
      | Some (Re_uploadFile j localPath remotePath) \<Rightarrow> runUploadFile now j localPath remotePath s
      | Some (Re_uploadPaths paths base policy) \<Rightarrow> tf [Te_uploadRun paths base policy True] s
      | Some (Re_downloadFile j remotePath localPath) \<Rightarrow> runDownloadFile now j remotePath localPath s
      | Some (Re_downloadPaths j paths target policy) \<Rightarrow> runDownloadPaths now j paths target policy True s)"

record TransferSummary =
  su_kind :: "TransferDirection option" \<comment> \<open>none for \<open>mixed\<close>\<close>
  su_activeCount :: nat
  su_failedCount :: nat
  su_progress :: "rat option"

definition isRemoteOperation :: "TransferTask \<Rightarrow> bool" where
  "isRemoteOperation transfer \<longleftrightarrow> tk_direction transfer = Dir_compress \<or> tk_direction transfer = Dir_extract"

definition counts_bytes :: "TransferTask \<Rightarrow> bool" where
  "counts_bytes transfer \<longleftrightarrow> tk_direction transfer \<noteq> Dir_delete \<and> \<not> isRemoteOperation transfer
     \<and> \<not> tk_sizeUnknown transfer \<and> tk_fileSize transfer > 0"

definition summarizeTransfers :: "TransferTask list \<Rightarrow> TransferSummary" where
  "summarizeTransfers transfers =
     (let active = filter isActiveTransfer transfers;
          counted = (if active \<noteq> [] then active else transfers);
          directions = nub (map tk_direction counted);
          bytes = filter counts_bytes active;
          all = sum_list (map tk_fileSize bytes);
          moved = sum_list (map (\<lambda>t. min (tk_transferred t) (tk_fileSize t)) bytes)
      in \<lparr>su_kind = (case directions of [d] \<Rightarrow> Some d | _ \<Rightarrow> None), su_activeCount = length active,
          su_failedCount = length (filter (\<lambda>t. tk_status t = Ts_failed) transfers),
          su_progress = (if all > 0 then Some (of_nat moved / of_nat all) else None)\<rparr>)"

section \<open>Runs\<close>

datatype TransferCall =
    Tc_batchStart string UploadBatchStart
  | Tc_batchComplete "nat \<Rightarrow> nat \<Rightarrow> string" BatchComplete
  | Tc_itemStart string ItemStart
  | Tc_progress ItemProgress
  | Tc_itemComplete ItemComplete
  | Tc_uploadDone string "string option"
  | Tc_upload "string option" "string list" string "string + nat" "ConflictPolicy option" string
  | Tc_uploadRun "string list" string bool "ConflictPolicy option" "string + nat" "ConflictPolicy option" string
  | Tc_uploadsDone string "nat \<Rightarrow> nat \<Rightarrow> string" "nat \<Rightarrow> string" "string + UploadBatchResult"
  | Tc_download string "SftpDirectoryEntry list" "string option" "nat \<Rightarrow> string" "string + nat" "ConflictPolicy option" string
  | Tc_downItemStart string ItemStart
  | Tc_downProgress ItemProgress
  | Tc_downItemComplete ItemComplete
  | Tc_downBatchComplete DownloadBatchComplete
  | Tc_downDone int string "string option"
  | Tc_downPathsDone string "string option"
  | Tc_cancel string
  | Tc_remove string
  | Tc_retry string
  | Tc_clear
  | Tc_render

fun transfer_step :: "Transfers \<Rightarrow> int \<times> TransferCall \<Rightarrow> Transfers" where
  "transfer_step s (now, Tc_batchStart tabId e) = upload_batch_start now tabId e s"
| "transfer_step s (now, Tc_batchComplete partial_text e) = upload_batch_complete now partial_text e s"
| "transfer_step s (now, Tc_itemStart tabId e) = upload_item_start now tabId e s"
| "transfer_step s (now, Tc_progress e) = upload_progress now e s"
| "transfer_step s (now, Tc_itemComplete e) = upload_item_complete now e s"
| "transfer_step s (now, Tc_uploadDone i error) = uploadFile_done now i error s"
| "transfer_step s (now, Tc_upload listing paths text report chosen text') = uploadPaths listing paths text report chosen text' s"
| "transfer_step s (now, Tc_uploadRun paths base skipExisting policy report chosen text') =
     runUploadPaths paths base skipExisting policy report chosen text' s"
| "transfer_step s (now, Tc_uploadsDone base partial_text all_text answer) = uploadPaths_done base partial_text all_text answer s"
| "transfer_step s (now, Tc_download tabId entries picked items_text report chosen i) =
     downloadEntries now tabId entries picked items_text report chosen i s"
| "transfer_step s (now, Tc_downItemStart tabId e) = download_item_start now tabId e s"
| "transfer_step s (now, Tc_downProgress e) = download_progress now e s"
| "transfer_step s (now, Tc_downItemComplete e) = download_item_complete now e s"
| "transfer_step s (now, Tc_downBatchComplete e) = download_batch_complete now e s"
| "transfer_step s (now, Tc_downDone startTime i error) = downloadFile_done startTime now i error s"
| "transfer_step s (now, Tc_downPathsDone i error) = downloadPaths_done now i error s"
| "transfer_step s (now, Tc_cancel i) = cancelTransfer now i s"
| "transfer_step s (now, Tc_remove i) = removeTransfer i s"
| "transfer_step s (now, Tc_retry i) = retryTransfer now i s"
| "transfer_step s (now, Tc_clear) = clearCompletedTransfers s"
| "transfer_step s (now, Tc_render) = transfers_rendered s"

section \<open>A batch shows the sum of its files\<close>

text \<open>The transfer a retry runs again, if it is one that is in the list.\<close>

definition retried :: "TransferTask \<Rightarrow> string option" where
  "retried t =
     (case tk_retry t of
        Some (Re_uploadFile i _ _) \<Rightarrow> Some i
      | Some (Re_downloadFile i _ _) \<Rightarrow> Some i
      | Some (Re_downloadPaths i _ _ _) \<Rightarrow> Some i
      | _ \<Rightarrow> None)"

definition shows_sum :: "(string \<Rightarrow> (string \<times> BatchChild) list option) \<Rightarrow> TransferTask \<Rightarrow> bool" where
  "shows_sum progress t \<longleftrightarrow> pred_option (\<lambda>children.
     tk_fileSize t = sum_list (map (bp_fileSize \<circ> snd) children)
     \<and> tk_transferred t = sum_list (map (bp_transferred \<circ> snd) children)
     \<and> tk_speed t = sum_list (map (bp_speed \<circ> snd) children)) (progress (tk_id t))"

definition retry_ok :: "(string \<Rightarrow> bool) \<Rightarrow> TransferTask \<Rightarrow> bool" where
  "retry_ok isBatch t \<longleftrightarrow> pred_option (\<lambda>i. \<not> isBatch i) (retried t)"

text \<open>The open batches and their rows; those with an id of \<open>X\<close> are just being written.\<close>

definition transfers_ok :: "(string \<Rightarrow> bool) \<Rightarrow> string set \<Rightarrow> Transfers \<Rightarrow> bool" where
  "transfers_ok isBatch X s \<longleftrightarrow>
     (\<forall>t\<in>set (tf_transfers s). retry_ok isBatch t \<and> (tk_id t \<in> X \<or> shows_sum (tf_batchProgress s) t))
     \<and> (\<forall>t\<in>set (tf_seen s). retry_ok isBatch t)
     \<and> (\<forall>b. pred_option (\<lambda>children. isBatch b \<and> distinct (map fst children)) (tf_batchProgress s b)
          \<and> tf_batchIds s b = map_option (map fst) (tf_batchProgress s b))"

lemma retry_set [simp]:
  "retry_ok isBatch (t\<lparr>tk_retry := Some (Re_uploadFile i l r)\<rparr>) = (\<not> isBatch i)"
  "retry_ok isBatch (t\<lparr>tk_retry := Some (Re_downloadFile i r l)\<rparr>) = (\<not> isBatch i)"
  "retry_ok isBatch (t\<lparr>tk_retry := Some (Re_downloadPaths i ps g c)\<rparr>) = (\<not> isBatch i)"
  "retry_ok isBatch (t\<lparr>tk_retry := Some (Re_uploadPaths ps g c)\<rparr>)"
  by (simp_all add: retry_ok_def retried_def)

lemma retry_unchanged [simp]:
  "retry_ok isBatch (t\<lparr>tk_tabId := v0\<rparr>) = retry_ok isBatch t"
  "retry_ok isBatch (t\<lparr>tk_batchId := v1\<rparr>) = retry_ok isBatch t"
  "retry_ok isBatch (t\<lparr>tk_direction := v2\<rparr>) = retry_ok isBatch t"
  "retry_ok isBatch (t\<lparr>tk_localPath := v3\<rparr>) = retry_ok isBatch t"
  "retry_ok isBatch (t\<lparr>tk_remotePath := v4\<rparr>) = retry_ok isBatch t"
  "retry_ok isBatch (t\<lparr>tk_fileName := v5\<rparr>) = retry_ok isBatch t"
  "retry_ok isBatch (t\<lparr>tk_fileSize := v6\<rparr>) = retry_ok isBatch t"
  "retry_ok isBatch (t\<lparr>tk_transferred := v7\<rparr>) = retry_ok isBatch t"
  "retry_ok isBatch (t\<lparr>tk_status := v8\<rparr>) = retry_ok isBatch t"
  "retry_ok isBatch (t\<lparr>tk_error := v9\<rparr>) = retry_ok isBatch t"
  "retry_ok isBatch (t\<lparr>tk_startTime := v10\<rparr>) = retry_ok isBatch t"
  "retry_ok isBatch (t\<lparr>tk_endTime := v11\<rparr>) = retry_ok isBatch t"
  "retry_ok isBatch (t\<lparr>tk_speed := v12\<rparr>) = retry_ok isBatch t"
  "retry_ok isBatch (t\<lparr>tk_resumedFrom := v13\<rparr>) = retry_ok isBatch t"
  "retry_ok isBatch (t\<lparr>tk_parallelism := v14\<rparr>) = retry_ok isBatch t"
  "retry_ok isBatch (t\<lparr>tk_skipped := v15\<rparr>) = retry_ok isBatch t"
  by (simp_all add: retry_ok_def retried_def)

lemma item_settled: "transfers_ok isBatch (insert i X) s \<Longrightarrow> \<not> isBatch i \<Longrightarrow> transfers_ok isBatch X s"
  by (fastforce simp: transfers_ok_def shows_sum_def option.pred_set)

lemma open_batch:
  assumes "transfers_ok isBatch X s" "tf_batchProgress s b = Some children"
  shows "isBatch b \<and> distinct (map fst children) \<and> tf_batchIds s b = Some (map fst children)"
proof -
  from assms(1) have "pred_option (\<lambda>children. isBatch b \<and> distinct (map fst children)) (tf_batchProgress s b)
      \<and> tf_batchIds s b = map_option (map fst) (tf_batchProgress s b)"
    unfolding transfers_ok_def by blast
  with assms(2) show ?thesis by simp
qed

lemma less_settled: "transfers_ok isBatch X s \<Longrightarrow> X \<subseteq> Y \<Longrightarrow> transfers_ok isBatch Y s"
  by (auto simp: transfers_ok_def)

lemma rows_kept:
  "tf_transfers s' = tf_transfers s \<Longrightarrow> tf_seen s' = tf_seen s \<Longrightarrow> tf_batchProgress s' = tf_batchProgress s
   \<Longrightarrow> tf_batchIds s' = tf_batchIds s \<Longrightarrow> transfers_ok isBatch X s' = transfers_ok isBatch X s"
  by (simp add: transfers_ok_def)

lemma kept_by [simp]:
  "transfers_ok isBatch X (tf es s) = transfers_ok isBatch X s"
  "transfers_ok isBatch X (s\<lparr>tf_lastProgress := lp\<rparr>) = transfers_ok isBatch X s"
  "transfers_ok isBatch X (s\<lparr>tf_downLast := dl\<rparr>) = transfers_ok isBatch X s"
  "transfers_ok isBatch X (s\<lparr>tf_downIds := di\<rparr>) = transfers_ok isBatch X s"
  "transfers_ok isBatch X (s\<lparr>tf_downStart := ds\<rparr>) = transfers_ok isBatch X s"
  "transfers_ok isBatch X (forget_download i s) = transfers_ok isBatch X s"
  by (rule rows_kept; simp add: tf_def forget_download_def)+

lemma row_changed:
  assumes "transfers_ok isBatch X s"
    and "\<And>t. tk_id (f t) = tk_id t" and "\<And>t. retry_ok isBatch t \<Longrightarrow> retry_ok isBatch (f t)"
  shows "transfers_ok isBatch (insert i X) (updateTransfer i f s)"
  using assms by (auto simp: transfers_ok_def updateTransfer_def)

text \<open>A change that leaves what a row shows of its bytes.\<close>

lemma row_status_changed:
  assumes "transfers_ok isBatch X s"
    and "\<And>t. tk_id (f t) = tk_id t" and "\<And>t. retry_ok isBatch t \<Longrightarrow> retry_ok isBatch (f t)"
    and "\<And>t. tk_fileSize (f t) = tk_fileSize t" "\<And>t. tk_transferred (f t) = tk_transferred t" "\<And>t. tk_speed (f t) = tk_speed t"
  shows "transfers_ok isBatch X (updateTransfer i f s)"
  using assms by (auto simp: transfers_ok_def updateTransfer_def shows_sum_def)

lemma item_changed:
  assumes "transfers_ok isBatch X s" "\<not> isBatch i"
    and "\<And>t. tk_id (f t) = tk_id t" and "\<And>t. retry_ok isBatch t \<Longrightarrow> retry_ok isBatch (f t)"
  shows "transfers_ok isBatch X (updateTransfer i f s)"
  using row_changed [OF assms(1,3,4)] assms(2) by (rule item_settled)

lemma batch_synced:
  assumes "transfers_ok isBatch {b} s" "tf_batchProgress s b \<noteq> None"
  shows "transfers_ok isBatch {} (syncBatchTransfer b status s)"
  using assms by (fastforce simp: transfers_ok_def updateTransfer_def shows_sum_def syncBatchTransfer_def Let_def retry_ok_def retried_def)

lemma row_added:
  assumes "transfers_ok isBatch X s" "tk_retry transfer = None"
  shows "transfers_ok isBatch (insert i X) (addTransfer now transfer i s)"
  using assms by (auto simp: transfers_ok_def addTransfer_def merge_transfer_def retry_ok_def retried_def)

lemma item_added:
  assumes "transfers_ok isBatch X s" "\<not> isBatch i"
  shows "transfers_ok isBatch X (addTransfer now (new_task tabId b d n z l r) i s)"
  using row_added [OF assms(1)] assms(2) by (rule item_settled) (simp add: new_task_def)

lemma retry_ok_simps [simp]:
  "tk_id (started_again t) = tk_id t" "retry_ok isBatch (started_again t) = retry_ok isBatch t"
  "tk_id (ended now status e t) = tk_id t" "retry_ok isBatch (ended now status e t) = retry_ok isBatch t"
  "tk_id (failed_or_cancelled now m t) = tk_id t" "retry_ok isBatch (failed_or_cancelled now m t) = retry_ok isBatch t"
  "tk_id (item_end now ie z v t) = tk_id t" "retry_ok isBatch (item_end now ie z v t) = retry_ok isBatch t"
  by (simp_all add: started_again_def ended_def failed_or_cancelled_def item_end_def retry_ok_def retried_def)

lemma ended_shows [simp]:
  "tk_fileSize (ended now status e t) = tk_fileSize t" "tk_transferred (ended now status e t) = tk_transferred t"
  "tk_speed (ended now status e t) = tk_speed t"
  "tk_fileSize (failed_or_cancelled now m t) = tk_fileSize t"
  "tk_transferred (failed_or_cancelled now m t) = tk_transferred t"
  "tk_speed (failed_or_cancelled now m t) = tk_speed t"
  by (simp_all add: ended_def failed_or_cancelled_def)

lemma child_changed:
  assumes ok: "transfers_ok isBatch {} s"
  shows "transfers_ok isBatch {} (on_child b i f status s)"
proof (cases "map_of (or_default (tf_batchProgress s b) []) i")
  case None
  with ok show ?thesis by (simp add: on_child_def)
next
  case (Some previous)
  then obtain children where children: "tf_batchProgress s b = Some children" "map_of children i = Some previous"
    by (cases "tf_batchProgress s b") auto
  let ?s = "s\<lparr>tf_batchProgress := (tf_batchProgress s)(b \<mapsto> AList.update i (f previous) children)\<rparr>"
  have "i \<in> set (map fst children)" using children(2) by (metis map_of_eq_None_iff image_set option.distinct(1))
  then have "map fst (AList.update i (f previous) children) = map fst children" by (simp add: AList.update_keys)
  with ok children(1) open_batch [OF ok children(1)] have "transfers_ok isBatch {b} ?s"
    by (auto simp: transfers_ok_def shows_sum_def)
  then show ?thesis using children Some by (auto simp: on_child_def intro: batch_synced)
qed

section \<open>Every event keeps it\<close>

text \<open>The backend's ids of batches are no ids of files.\<close>

fun ids_apart :: "(string \<Rightarrow> bool) \<Rightarrow> int \<times> TransferCall \<Rightarrow> bool" where
  "ids_apart isBatch (now, Tc_batchStart tabId e) = isBatch (ub_batchId e)"
| "ids_apart isBatch (now, Tc_itemStart tabId e) =
     (\<not> isBatch (is_transferId e) \<and> (truthy (is_batchId e) \<longrightarrow> isBatch (the (is_batchId e))))"
| "ids_apart isBatch (now, Tc_progress e) = (\<not> isBatch (ip_transferId e))"
| "ids_apart isBatch (now, Tc_itemComplete e) = (\<not> isBatch (ic_transferId e))"
| "ids_apart isBatch (now, Tc_uploadDone i error) = (\<not> isBatch i)"
| "ids_apart isBatch (now, Tc_download tabId entries picked items_text report chosen i) = (\<not> isBatch i)"
| "ids_apart isBatch (now, Tc_downItemStart tabId e) = (\<not> isBatch (is_transferId e))"
| "ids_apart isBatch (now, Tc_downProgress e) = (\<not> isBatch (ip_transferId e))"
| "ids_apart isBatch (now, Tc_downItemComplete e) = (\<not> isBatch (ic_transferId e))"
| "ids_apart isBatch (now, Tc_downBatchComplete e) = (\<not> isBatch (db_batchId e))"
| "ids_apart isBatch (now, Tc_downDone startTime i error) = (\<not> isBatch i)"
| "ids_apart isBatch (now, _) = True"

lemma batch_started:
  assumes ok: "transfers_ok isBatch {} s" and "isBatch (ub_batchId e)"
  shows "transfers_ok isBatch {} (upload_batch_start now tabId e s)"
proof -
  let ?b = "ub_batchId e"
  let ?row = "new_task tabId None Dir_upload (ub_displayName e) 0 (ub_localPath e) (ub_remoteBasePath e)"
  have "transfers_ok isBatch {?b} (addTransfer now ?row ?b s)"
    using row_added [OF ok] by (simp add: new_task_def)
  with assms(2) show ?thesis
    by (auto simp: upload_batch_start_def Let_def transfers_ok_def updateTransfer_def shows_sum_def retry_ok_def retried_def)
qed

lemma batch_completed:
  assumes ok: "transfers_ok isBatch {} s"
  shows "transfers_ok isBatch {} (upload_batch_complete now partial_text e s)"
proof -
  define s' where "s' = s\<lparr>tf_lastProgress := (\<lambda>i. if i \<in> set (or_default (tf_batchIds s (bc_batchId e)) []) then None else tf_lastProgress s i),
                 tf_batchIds := (tf_batchIds s)(bc_batchId e := None), tf_batchProgress := (tf_batchProgress s)(bc_batchId e := None)\<rparr>"
  have closed: "transfers_ok isBatch {} s'" using ok by (auto simp: s'_def transfers_ok_def shows_sum_def)
  have written: "transfers_ok isBatch {} (updateTransfer (bc_batchId e) f s')"
    if "\<And>t. tk_id (f t) = tk_id t" "\<And>t. retry_ok isBatch t \<Longrightarrow> retry_ok isBatch (f t)" for f
    using closed that by (auto simp: s'_def transfers_ok_def shows_sum_def updateTransfer_def)
  have cancelled: "transfers_ok isBatch {} (fold (\<lambda>i. updateTransfer i (ended now Ts_cancelled None)) is s')" for "is"
    by (rule fold_invariant [where P = "\<lambda>s. transfers_ok isBatch {} s" and Q = "\<lambda>i. True"])
       (simp_all add: closed row_status_changed)
  show ?thesis
    unfolding upload_batch_complete_def Let_def s'_def [symmetric]
    by (auto intro!: written cancelled row_status_changed)
qed

lemma file_listed:
  assumes ok: "transfers_ok isBatch {} s" and b: "isBatch b"
  shows "transfers_ok isBatch {} (add_to_batch b i n s)"
proof -
  have ids: "tf_batchIds s b = map_option (map fst) (tf_batchProgress s b)"
    using ok unfolding transfers_ok_def by blast
  have "map fst (or_default (tf_batchProgress s b) []) = or_default (tf_batchIds s b) []"
    unfolding ids by (cases "tf_batchProgress s b") simp_all
  moreover have "distinct (map fst (or_default (tf_batchProgress s b) []))"
    using open_batch [OF ok] by (cases "tf_batchProgress s b") auto
  ultimately show ?thesis
    unfolding add_to_batch_def Let_def using ok b
    by (intro batch_synced) (auto simp: transfers_ok_def shows_sum_def AList.update_keys AList.distinct_update)
qed

lemma item_started:
  assumes ok: "transfers_ok isBatch {} s" and apart: "ids_apart isBatch (now, Tc_itemStart tabId e)"
  shows "transfers_ok isBatch {} (upload_item_start now tabId e s)"
  using apart file_listed [OF ok] ok by (auto simp: upload_item_start_def Let_def intro!: item_changed item_added)

lemma progress_shown:
  assumes ok: "transfers_ok isBatch {} s" and "\<not> isBatch (ip_transferId e)"
  shows "transfers_ok isBatch {} (upload_progress now e s)"
  using assms by (auto simp: upload_progress_def Let_def split: option.splits list.splits intro!: child_changed item_changed)

lemma item_completed:
  assumes ok: "transfers_ok isBatch {} s" and "\<not> isBatch (ic_transferId e)"
  shows "transfers_ok isBatch {} (upload_item_complete now e s)"
  using assms by (auto simp: upload_item_complete_def Let_def split: option.splits list.splits intro!: item_changed child_changed)

lemma upload_done:
  "transfers_ok isBatch {} s \<Longrightarrow> \<not> isBatch i \<Longrightarrow> transfers_ok isBatch {} (runUploadFile now i l r s)"
  "transfers_ok isBatch {} s \<Longrightarrow> \<not> isBatch i \<Longrightarrow> transfers_ok isBatch {} (uploadFile_done now i error s)"
  by (auto simp: runUploadFile_def uploadFile_done_def Let_def split: option.splits intro!: item_changed)

lemma uploads_asked:
  "transfers_ok isBatch {} s \<Longrightarrow> transfers_ok isBatch {} (runUploadPaths paths base skip policy report chosen text s)"
  "transfers_ok isBatch {} s \<Longrightarrow> transfers_ok isBatch {} (uploadPaths listing paths text' report chosen text s)"
  by (auto simp: runUploadPaths_def uploadPaths_def Let_def split: option.splits sum.splits)

lemma download_run:
  assumes "transfers_ok isBatch {} s" "\<not> isBatch i"
  shows "transfers_ok isBatch {} (runDownloadFile now i r l s)" "transfers_ok isBatch {} (runDownloadPaths now i rs g c k s)"
  using assms by (auto simp: runDownloadFile_def runDownloadPaths_def start_download_def intro!: item_changed)

lemma downloads_asked:
  assumes ok: "transfers_ok isBatch {} s" and "\<not> isBatch i"
  shows "transfers_ok isBatch {} (downloadEntries now tabId entries picked items_text report chosen i s)"
proof -
  have written: "transfers_ok isBatch {} (updateTransfer i f (addTransfer now (new_task tabId b d n z l r) i s))"
    if "\<And>t. tk_id (f t) = tk_id t" "\<And>t. retry_ok isBatch t \<Longrightarrow> retry_ok isBatch (f t)" for f b d n z l r
    using item_changed [OF item_added [OF ok assms(2)] assms(2) that] .
  show ?thesis
    using assms(2)
    by (auto simp: downloadEntries_def downloadEntriesToFolder_def Let_def ok
        split: list.splits option.splits sum.splits intro!: download_run written)
qed

lemma download_events:
  assumes ok: "transfers_ok isBatch {} s"
  shows "\<not> isBatch (is_transferId ie) \<Longrightarrow> transfers_ok isBatch {} (download_item_start now tabId ie s)"
    and "\<not> isBatch (ip_transferId pe) \<Longrightarrow> transfers_ok isBatch {} (download_progress now pe s)"
    and "\<not> isBatch (ic_transferId ce) \<Longrightarrow> transfers_ok isBatch {} (download_item_complete now ce s)"
    and "\<not> isBatch i \<Longrightarrow> transfers_ok isBatch {} (downloadFile_done startTime now i error s)"
  using ok by (auto simp: download_item_start_def download_progress_def download_item_complete_def downloadFile_done_def
      Let_def split: option.splits intro!: item_changed item_added)

lemma download_paths_answered:
  "transfers_ok isBatch {} s \<Longrightarrow> transfers_ok isBatch {} (downloadPaths_done now i error s)"
  by (auto simp: downloadPaths_done_def Let_def split: option.splits intro!: row_status_changed)

lemma download_batch_completed:
  assumes ok: "transfers_ok isBatch {} s" and "\<not> isBatch (db_batchId e)"
  shows "transfers_ok isBatch {} (download_batch_complete now e s)"
proof -
  have "transfers_ok isBatch {} (fold (download_child_end now c s) is s)" for c "is"
    by (rule fold_invariant [where P = "\<lambda>s. transfers_ok isBatch {} s" and Q = "\<lambda>i. True"])
       (auto simp: ok download_child_end_def intro!: row_status_changed)
  with assms(2) show ?thesis
    by (auto simp: download_batch_complete_def Let_def intro!: item_changed row_status_changed)
qed

lemma retry_runs_file:
  assumes "retry_ok isBatch t"
  shows "tk_retry t = Some (Re_uploadFile i l r) \<Longrightarrow> \<not> isBatch i"
    and "tk_retry t = Some (Re_downloadFile i r l) \<Longrightarrow> \<not> isBatch i"
    and "tk_retry t = Some (Re_downloadPaths i ps g c) \<Longrightarrow> \<not> isBatch i"
  using assms by (auto simp: retry_ok_def retried_def)

lemma retried_ok:
  assumes ok: "transfers_ok isBatch {} s"
  shows "transfers_ok isBatch {} (retryTransfer now i s)"
proof -
  have "retry_ok isBatch t" if "seen_transfer i s = Some t" for t
    using ok that by (auto simp: seen_transfer_def transfers_ok_def find_Some_iff)
  then show ?thesis
    by (auto simp: retryTransfer_def ok bind_eq_Some_conv split: option.splits Retry.splits
        intro!: upload_done(1) [OF ok] download_run [OF ok] dest: retry_runs_file)
qed

lemma list_shortened:
  assumes ok: "transfers_ok isBatch {} s"
  shows "transfers_ok isBatch {} (removeTransfer i s)" "transfers_ok isBatch {} (clearCompletedTransfers s)"
    "transfers_ok isBatch {} (transfers_rendered s)" "transfers_ok isBatch {} (cancelTransfer now i s)"
proof -
  show "transfers_ok isBatch {} (removeTransfer i s)" "transfers_ok isBatch {} (clearCompletedTransfers s)"
    "transfers_ok isBatch {} (transfers_rendered s)"
    using ok by (auto simp: transfers_ok_def removeTransfer_def clearCompletedTransfers_def transfers_rendered_def)
  show "transfers_ok isBatch {} (cancelTransfer now i s)"
    using ok by (auto simp: cancelTransfer_def intro!: row_status_changed)
qed

lemma transfer_step_ok:
  assumes ok: "transfers_ok isBatch {} s" and apart: "ids_apart isBatch c"
  shows "transfers_ok isBatch {} (transfer_step s c)"
proof -
  obtain now call where c: "c = (now, call)" by (cases c)
  note kept = batch_started batch_completed item_started progress_shown item_completed upload_done uploads_asked
    downloads_asked download_events download_batch_completed download_paths_answered retried_ok list_shortened
  show ?thesis unfolding c using apart unfolding c by (cases call) (simp_all add: kept ok uploadPaths_done_def)
qed

interpretation transfers: machine "\<lambda>s. ids_apart isBatch" transfer_step no_transfers "transfers_ok isBatch {}" for isBatch
  by unfold_locales (auto simp: transfer_step_ok, simp add: transfers_ok_def no_transfers_def)

text \<open>The share of the title bar's button is one.\<close>

lemma share_within:
  assumes "su_progress (summarizeTransfers ts) = Some p"
  shows "0 \<le> p \<and> p \<le> 1"
proof -
  let ?bytes = "filter counts_bytes (filter isActiveTransfer ts)"
  have "sum_list (map (\<lambda>t. min (tk_transferred t) (tk_fileSize t)) ?bytes) \<le> sum_list (map tk_fileSize ?bytes)"
    by (rule sum_list_mono) simp
  then show ?thesis using assms
    by (auto simp: summarizeTransfers_def Let_def divide_le_eq simp del: filter_filter split: if_splits)
qed

lemma cancelled_batch:
  assumes "tf_batchIds s b = Some ids" "t \<in> set (tf_transfers (upload_batch_complete now partial_text
     \<lparr>bc_batchId = b, bc_cancelled = True, bc_error = error, bc_failed = m, bc_succeeded = n\<rparr> s))"
    and "tk_id t = b \<or> tk_id t \<in> set ids"
  shows "tk_status t = Ts_cancelled"
proof -
  have rows: "tf_transfers (fold (\<lambda>i. updateTransfer i (ended now Ts_cancelled None)) is s')
      = map (\<lambda>t. if tk_id t \<in> set is then ended now Ts_cancelled None t else t) (tf_transfers s')" for "is" s'
  proof (induction "is" arbitrary: s')
    case (Cons i "is")
    have "tk_status (ended now Ts_cancelled None t) = Ts_cancelled"
      "ended now Ts_cancelled None (ended now Ts_cancelled None t) = ended now Ts_cancelled None t" for t
      by (simp_all add: ended_def)
    with Cons show ?case by (auto simp: updateTransfer_def)
  qed simp
  from assms show ?thesis
    by (auto simp: upload_batch_complete_def updateTransfer_def rows Let_def ended_def split: if_splits)
qed


text \<open>A batch of one file, four of its ten bytes moved in two seconds.\<close>

definition one_upload :: Transfers where
  "one_upload = run transfer_step no_transfers
     [(1000, Tc_batchStart ''t'' \<lparr>ub_batchId = ''b'', ub_displayName = ''f'', ub_localPath = ''l'', ub_localPaths = [''l''],
         ub_remoteBasePath = ''r'', ub_conflictPolicy = Cf_skip\<rparr>),
      (1000, Tc_itemStart ''t'' \<lparr>is_batchId = Some ''b'', is_fileName = ''f'', is_fileSize = 10, is_localPath = ''l'',
         is_remotePath = ''r'', is_transferId = ''i''\<rparr>),
      (1000, Tc_render),
      (3000, Tc_progress \<lparr>ip_progress = 40, ip_total = 10, ip_transferred = 4, ip_transferId = ''i'',
         ip_resumedFrom = None, ip_parallelism = None\<rparr>)]"


end
