(* ===== verification/Spec2Isabelle.thy ===== *)
theory Spec2Isabelle
  imports Tabs_Properties Layout_Properties Local_Title Session_Persistence Pane_Layout Tab_Navigation
    Keymap_Properties Predictive_Echo Serial_Settings Group_Tree
    Quick_Connect Profiles Tab_Attention Command_Capture Shell_Commands Log_Replay
    Command_Variables Command_Marks Cursor_Hold Dropped_Paths Sftp_Files Password_Prompts
    Broadcast Terminal_Input Pty_Session Transfers
begin

text \<open>
  tTerm is a terminal emulator: a window of tabs, each a split of panes, each pane a
  local shell, an SSH session or a serial port. A Rust backend (\<open>src/src-tauri\<close>) owns the
  sessions; the TypeScript front end (\<open>src/src\<close>) decides everything the user sees. This
  library models the front end's own logic: the functions, reducers, classes and hooks
  that keep state and take decisions, not the React components that draw them.

  \<^bold>\<open>How the parts interact.\<close> The workspace hook (\<open>useTabs\<close>) keeps the tabs and hands every
  change to \<open>tabsReducer\<close>; the reducer keeps the groups, which are tabs of the bar with a
  tree of panes each; the session hook saves tabs and trees and restores them at start.
  Connections become tabs through the profiles and quick connect; keys reach the
  commands through the keymap and its dispatcher; what a shell or an agent in a
  terminal reports goes through the trackers to the marks of its tab and, when the
  user looks elsewhere, to an announcement.

  \<^bold>\<open>Theories and what they model.\<close>
  \<^item> \<open>Prelude\<close>, \<open>Js_String\<close>, \<open>Js_Sort\<close>, \<open>Json\<close>: JavaScript's strings, arrays, stable sort and
    parsed JSON as far as the source uses them. \<open>Machines\<close>: runs of a step function, the
    step relation's closure, and the locales \<open>machine\<close> and \<open>total_machine\<close> that turn an
    invariant of one step into one of every run; each stateful component interprets one.
  \<^item> Workspace: \<open>Tab_Types\<close> (\<open>types/tab.ts\<close>), \<open>Pane_Tree\<close>, \<open>Tab_Groups\<close>, \<open>Group_Moves\<close>
    (\<open>lib/tabGroups.ts\<close>), \<open>Pane_Templates\<close> (\<open>lib/paneTemplates.ts\<close>), \<open>Local_Title\<close>
    (\<open>lib/localTabTitle.ts\<close>), \<open>Tabs_State\<close> (\<open>lib/tabsState.ts\<close>), \<open>Tabs_Invariant\<close> (its
    invariant), \<open>Tabs_Hook\<close> (\<open>hooks/useTabs.ts\<close>), \<open>Group_Contract\<close> (the contract of the
    operations that rearrange groups, a locale and its interpretations),
    \<open>Tabs_Properties\<close>, \<open>Layout_Properties\<close>.
  \<^item> Persistence: \<open>Groups_Persistence\<close> (\<open>lib/tabGroupsPersistence.ts\<close>),
    \<open>Session_Persistence\<close> (\<open>hooks/useSessionPersistence.ts\<close>).
  \<^item> Geometry and navigation: \<open>Pane_Layout\<close> (\<open>lib/paneLayout.ts\<close>), \<open>Tab_Navigation\<close>
    (\<open>lib/tabNavigation.ts\<close>, \<open>lib/tabClosing.ts\<close>, \<open>lib/paneNavigation.ts\<close>).
  \<^item> Keys: \<open>Keymap\<close>, \<open>Keymap_Properties\<close> (\<open>lib/keymap/*.ts\<close>).
  \<^item> Connections: \<open>Serial_Settings\<close> (\<open>lib/serial.ts\<close>), \<open>Profile_Types\<close>, \<open>Profiles\<close>
    (\<open>lib/profileConnections.ts\<close>, \<open>lib/proxy.ts\<close>, \<open>lib/sftpStartDirectory.ts\<close>), \<open>Group_Tree\<close>
    (\<open>lib/profileGroups.ts\<close>), \<open>Recents\<close> (\<open>lib/profileRecents.ts\<close>, \<open>lib/recentCommands.ts\<close>, one
    locale for all recent lists), \<open>Quick_Connect\<close> (\<open>lib/quickConnect.ts\<close>), \<open>Distro\<close>,
    \<open>Tab_Icons\<close> (\<open>lib/distro.ts\<close>, \<open>lib/tabIcons.ts\<close>, \<open>lib/brandLogos.ts\<close>).
  \<^item> Terminals: \<open>Predictive_Echo\<close> (\<open>lib/predictiveEcho.ts\<close>), \<open>Agent_Status\<close>
    (\<open>lib/agentStatus.ts\<close>), \<open>Terminal_Notifications\<close> (\<open>lib/terminalNotifications.ts\<close>),
    \<open>Tab_Attention\<close> (\<open>lib/tabAttention.ts\<close>, \<open>hooks/useTerminalNotifications.tsx\<close>,
    \<open>components/TerminalTab/attentionReports.ts\<close>), \<open>Command_Capture\<close>
    (\<open>lib/terminalCommandCapture.ts\<close>), \<open>Composer\<close> (\<open>lib/commandComposer.ts\<close>,
    \<open>lib/composerRun.ts\<close>, \<open>lib/composerRuns.ts\<close>), \<open>Shell_Commands\<close>
    (\<open>lib/shellCommands.ts\<close>), \<open>Log_Replay\<close> (\<open>lib/terminalLogReplay.ts\<close>),
    \<open>Command_Variables\<close> (\<open>lib/commandVariables.ts\<close>), \<open>Command_Marks\<close>
    (\<open>components/TerminalTab/commandMarks.ts\<close>), \<open>Cursor_Hold\<close>
    (\<open>components/TerminalTab/cursorMoveHold.ts\<close>), \<open>Dropped_Paths\<close>
    (\<open>lib/droppedPaths.ts\<close>, \<open>lib/terminalCd.ts\<close>), \<open>Login_Script\<close> (\<open>lib/loginScript.ts\<close>),
    \<open>Password_Prompts\<close> (\<open>lib/sudoPrompt.ts\<close>, \<open>lib/passwordFeedback.ts\<close>,
    \<open>components/TerminalTab/savedPasswordPrompts.ts\<close>), \<open>Broadcast\<close> (\<open>components/TTermApp/useBroadcast*.ts\<close>:
    typing in many terminals at once), \<open>Terminal_Input\<close> (\<open>terminalInput.ts\<close> and
    \<open>commandTracking.ts\<close> of \<open>components/TerminalTab\<close>) and \<open>Pty_Session\<close> (\<open>ptySession.ts\<close>,
    \<open>outputAck.ts\<close>), which put the parts of a session together, \<open>Scrollback\<close>
    (\<open>lib/scrollback.ts\<close>, \<open>components/TerminalTab/scrollbackMemory.ts\<close>).
  \<^item> Files: \<open>Sftp_Files\<close> (the history, the listing, the paths, the archives, the dialogs and
    the selection of \<open>components/SftpDrawer\<close>), \<open>Transfers\<close> (\<open>contexts/TransferContext.tsx\<close>,
    \<open>useUploadEvents.ts\<close>, \<open>useSftpUploads.ts\<close>, \<open>useSftpDownloads.ts\<close>, \<open>transferSummary.ts\<close>:
    the list of transfers and every event that moves it).

  \<^bold>\<open>How code becomes definitions.\<close> An interface is a record, a union a datatype, a class a
  record of its private fields with one function per method, a module-level \<open>let\<close> or
  \<open>Map\<close> a field of the module's state. A function keeps the source's name, with a suffix
  or a prefix where HOL has the name. \<open>undefined\<close> and \<open>null\<close> are \<open>None\<close>; a \<open>Map\<close> whose
  order counts is an association list, any other a partial function; a reducer that
  returns its argument returns the same record. A function that reads the clock takes
  the time; a timer is the time it is due, and serving it is a step. Callbacks and
  effects are lists of what was called. Numbers are integers or exact rationals; session
  nonces are 32-bit words, which wrap. A string is a list of 8-bit characters, so code
  units above U+00FF are outside the models; a character or a translation the code
  takes from there is an argument.

  \<^bold>\<open>What the lemmas show.\<close> Each component has the preservation of its invariant by every
  operation, then its functional facts, and last its properties, each marked with its
  number. Together: the workspace stays well formed through any run and after a
  restart; what is saved reads back and holds no credentials (but one, which the
  development proves is saved); layouts fill their box and stay within bounds; trees
  and groups hold each pane and each profile once; keys, endpoints and settings read
  back as written and refuse what is malformed; guesses are shown only where the
  remote echoes; a report reaches the one terminal it is for; a user at work is not
  interrupted; a saved password and what is typed to many terminals go only where they
  may.

  \<^bold>\<open>Bounds and termination.\<close> No definition uses fuel. Limits of the code are its
  constants (8 recent connections, 50 profiles, 100 commands, 16 unfinished
  notifications, the delays in milliseconds) and are proved as bounds. Loops that are
  not structural have a measure: the titles still taken, the groups not yet placed, the
  characters left.

  \<^bold>\<open>Not modelled.\<close> The Rust backend: another language, and effects. React components: they
  draw and forward events, and the state they keep is local. Themes and fonts: tables of
  colors, color arithmetic in floating point, and the DOM. Updates, synchronisation,
  translations and the router: network calls, tables and glue.
\<close>

end
